(* ===== verification/Prelude.thy ===== *)
theory Prelude
  imports Main "HOL-Library.Monad_Syntax" "HOL-Library.Word" "HOL-Library.Sublist"
begin

text \<open>
  What the model uses of the Go language: strings and slices with their run-time bounds
  checks, the wrap-around of the 64-bit \<open>int\<close>, and \<open>strings.IndexByte\<close>.

  A Go \<open>string\<close> is a sequence of bytes, which is HOL's \<open>string\<close> (a \<open>char\<close> is a byte).
  A Go \<open>int\<close> is an HOL \<open>int\<close>; positions inside a string cannot overflow, and where a
  configured limit is added to a position the sum is wrapped with \<open>wrap64\<close>.
  An expression that may panic has a type \<open>'a option\<close>, and \<open>None\<close> is the panic.
\<close>

section \<open>Panics\<close>

text \<open>\<open>returns m P\<close>: the computation \<open>m\<close> does not panic, and its value satisfies \<open>P\<close>.\<close>

definition returns :: "'a option \<Rightarrow> ('a \<Rightarrow> bool) \<Rightarrow> bool" where
  "returns m P = (case m of None \<Rightarrow> False | Some x \<Rightarrow> P x)"

lemma returns_Some [simp]: "returns (Some x) P = P x"
  by (simp add: returns_def)

lemma returns_None [simp]: "\<not> returns None P"
  by (simp add: returns_def)

lemma returns_bind [simp]: "returns (Option.bind m f) P = returns m (\<lambda>x. returns (f x) P)"
  by (cases m) simp_all

lemma returns_if [simp]:
  "returns (if b then m else m') P = (if b then returns m P else returns m' P)"
  by simp

lemma returns_mono: "returns m P \<Longrightarrow> (\<And>x. P x \<Longrightarrow> Q x) \<Longrightarrow> returns m Q"
  by (cases m) simp_all

lemma returns_conj: "returns m P \<Longrightarrow> returns m Q \<Longrightarrow> returns m (\<lambda>x. P x \<and> Q x)"
  by (cases m) simp_all

lemma returns_ex: "returns m P \<longleftrightarrow> (\<exists>x. m = Some x \<and> P x)"
  by (cases m) simp_all

lemma returns_obtain:
  assumes "returns m P"
  obtains x where "m = Some x" and "P x"
  using assms by (cases m) simp_all

text \<open>\<open>whenever m P\<close>: if the computation returns, its value satisfies \<open>P\<close>.\<close>

definition whenever :: "'a option \<Rightarrow> ('a \<Rightarrow> bool) \<Rightarrow> bool" where
  "whenever m P \<longleftrightarrow> (\<forall>x. m = Some x \<longrightarrow> P x)"

lemma whenever_Some [simp]: "whenever (Some x) P = P x"
  by (simp add: whenever_def)

lemma whenever_bind: "(\<And>x. m = Some x \<Longrightarrow> whenever (f x) P) \<Longrightarrow> whenever (Option.bind m f) P"
  by (auto simp: whenever_def bind_eq_Some_conv)

lemma whenever_if: "(b \<Longrightarrow> whenever m P) \<Longrightarrow> (\<not> b \<Longrightarrow> whenever n P) \<Longrightarrow>
    whenever (if b then m else n) P"
  by simp

lemma whenever_let: "(\<And>x. x = t \<Longrightarrow> whenever (f x) P) \<Longrightarrow> whenever (let x = t in f x) P"
  by (simp add: Let_def)

lemmas whenever_intros = whenever_bind whenever_if whenever_let

section \<open>Indexing, slicing and updating\<close>

definition len :: "'a list \<Rightarrow> int" where
  "len xs = int (length xs)"

definition go_index :: "'a list \<Rightarrow> int \<Rightarrow> 'a option" where
  "go_index xs i = (if 0 \<le> i \<and> i < len xs then Some (xs ! nat i) else None)"

definition go_slice :: "'a list \<Rightarrow> int \<Rightarrow> int \<Rightarrow> 'a list option" where
  "go_slice xs lo hi =
     (if 0 \<le> lo \<and> lo \<le> hi \<and> hi \<le> len xs
      then Some (take (nat hi - nat lo) (drop (nat lo) xs)) else None)"

definition go_update :: "'a list \<Rightarrow> int \<Rightarrow> 'a \<Rightarrow> 'a list option" where
  "go_update xs i x = (if 0 \<le> i \<and> i < len xs then Some (xs[nat i := x]) else None)"

lemma len_simps [simp]:
  "len [] = 0" "len (x # xs) = len xs + 1" "len (xs @ ys) = len xs + len ys"
  "len (xs[i := y]) = len xs" "len (map f xs) = len xs" "0 \<le> len xs"
  by (simp_all add: len_def)

lemma len_eq_0 [simp]: "len xs = 0 \<longleftrightarrow> xs = []"
  by (simp add: len_def)

lemma nat_len [simp]: "nat (len xs) = length xs"
  by (simp add: len_def)

lemma returns_index [simp]:
  "returns (go_index xs i) P \<longleftrightarrow> 0 \<le> i \<and> i < len xs \<and> P (xs ! nat i)"
  by (auto simp: go_index_def)

lemma returns_slice [simp]:
  "returns (go_slice xs lo hi) P \<longleftrightarrow>
     0 \<le> lo \<and> lo \<le> hi \<and> hi \<le> len xs \<and> P (take (nat hi - nat lo) (drop (nat lo) xs))"
  by (auto simp: go_slice_def)

lemma returns_update [simp]:
  "returns (go_update xs i x) P \<longleftrightarrow> 0 \<le> i \<and> i < len xs \<and> P (xs[nat i := x])"
  by (auto simp: go_update_def)

lemma len_slice: "0 \<le> lo \<Longrightarrow> lo \<le> hi \<Longrightarrow> hi \<le> len xs \<Longrightarrow>
    len (take (nat hi - nat lo) (drop (nat lo) xs)) = hi - lo"
  by (simp add: len_def)

lemma nth_slice: "0 \<le> lo \<Longrightarrow> lo \<le> hi \<Longrightarrow> hi \<le> len xs \<Longrightarrow> j < nat (hi - lo) \<Longrightarrow>
    take (nat hi - nat lo) (drop (nat lo) xs) ! j = xs ! (nat lo + j)"
  by (simp add: len_def)

section \<open>The 64-bit int\<close>

definition wrap64 :: "int \<Rightarrow> int" where
  "wrap64 x = (x + 2 ^ 63) mod 2 ^ 64 - 2 ^ 63"

lemma wrap64_id: "- (2 ^ 63) \<le> x \<Longrightarrow> x < 2 ^ 63 \<Longrightarrow> wrap64 x = x"
  by (simp add: wrap64_def)

text \<open>Limits and lengths below \<open>2 ^ 61\<close> can be added without wrapping.\<close>

definition small :: "int \<Rightarrow> bool" where
  "small x \<longleftrightarrow> 0 \<le> x \<and> x < 2 ^ 61"

lemma wrap64_add: "small x \<Longrightarrow> small y \<Longrightarrow> 0 \<le> k \<Longrightarrow> k \<le> 8 \<Longrightarrow> wrap64 (x + y + k) = x + y + k"
  by (rule wrap64_id) (simp_all add: small_def)

section \<open>strings.IndexByte\<close>

fun index_byte :: "'a list \<Rightarrow> 'a \<Rightarrow> int" where
  "index_byte [] c = -1"
| "index_byte (x # xs) c =
     (if x = c then 0 else let r = index_byte xs c in if r = -1 then -1 else r + 1)"

lemma index_byte_ge: "-1 \<le> index_byte xs c"
  by (induction xs c rule: index_byte.induct) (auto simp: Let_def)

lemma index_byte_none [simp]: "index_byte xs c = -1 \<longleftrightarrow> c \<notin> set xs"
proof (induction xs c rule: index_byte.induct)
  case (2 x xs c)
  with index_byte_ge [of xs c] show ?case by (auto simp: Let_def)
qed simp

lemma index_byte_some:
  assumes "index_byte xs c \<noteq> -1"
  shows "0 \<le> index_byte xs c \<and> index_byte xs c < len xs \<and> xs ! nat (index_byte xs c) = c"
  using assms
proof (induction xs c rule: index_byte.induct)
  case (2 x xs c)
  then show ?case
    by (auto simp: Let_def nth_Cons' nat_add_distrib split: if_splits)
qed simp

lemma index_byte_first: "0 \<le> j \<Longrightarrow> j < index_byte xs c \<Longrightarrow> xs ! nat j \<noteq> c"
proof (induction xs c arbitrary: j rule: index_byte.induct)
  case (2 x xs c)
  show ?case
  proof (cases "j = 0 \<or> x = c")
    case True
    with 2 show ?thesis by auto
  next
    case False
    with 2 have "xs ! nat (j - 1) \<noteq> c"
      by (auto simp: Let_def split: if_splits)
    moreover from False "2.prems"(1) have "nat j = Suc (nat (j - 1))" by arith
    ultimately show ?thesis by simp
  qed
qed simp

lemma index_byte_first_nat: "int j < index_byte xs c \<Longrightarrow> xs ! j \<noteq> c"
  using index_byte_first [of "int j" xs c] by simp

end
