(* ===== verification/Utf8.thy ===== *)
theory Utf8
  imports Prelude
begin

text \<open>
  The functions of Go's \<open>unicode/utf8\<close> the program calls: \<open>DecodeRuneInString\<close>,
  \<open>DecodeLastRuneInString\<close> and \<open>RuneCountInString\<close>. A rune is a \<open>nat\<close>; an invalid
  sequence decodes to \<open>RuneError\<close> with width 1, the empty string to \<open>RuneError\<close> with
  width 0. The Unicode category tables are not part of the program: they are the fields of
  a record that the definitions take as a parameter.
\<close>

record unicode =
  IsLetter :: "nat \<Rightarrow> bool"
  IsNumber :: "nat \<Rightarrow> bool"
  IsPunct :: "nat \<Rightarrow> bool"

definition byte :: "char \<Rightarrow> nat" where
  "byte c = of_char c"

definition RuneError :: nat where
  "RuneError = 65533"

lemma byte_less [simp]: "byte c < 256"
  unfolding byte_def by (metis of_char_of of_char_mod_256 mod_less_divisor zero_less_numeral)

text \<open>The number of bytes and the range of the second byte that a first byte announces.\<close>

definition utf8_first :: "nat \<Rightarrow> (nat \<times> nat \<times> nat) option" where
  "utf8_first b =
     (if 194 \<le> b \<and> b \<le> 223 then Some (2, 128, 191)
      else if b = 224 then Some (3, 160, 191)
      else if b = 237 then Some (3, 128, 159)
      else if 225 \<le> b \<and> b \<le> 239 then Some (3, 128, 191)
      else if b = 240 then Some (4, 144, 191)
      else if 241 \<le> b \<and> b \<le> 243 then Some (4, 128, 191)
      else if b = 244 then Some (4, 128, 143)
      else None)"

definition continuation :: "nat \<Rightarrow> bool" where
  "continuation b \<longleftrightarrow> 128 \<le> b \<and> b \<le> 191"

definition DecodeRune :: "string \<Rightarrow> nat \<times> nat" where
  "DecodeRune s =
     (case map byte s of
        [] \<Rightarrow> (RuneError, 0)
      | b0 # rest \<Rightarrow>
          if b0 < 128 then (b0, 1)
          else (case utf8_first b0 of
            None \<Rightarrow> (RuneError, 1)
          | Some (sz, lo, hi) \<Rightarrow>
              if length rest + 1 < sz then (RuneError, 1)
              else if \<not> (lo \<le> rest ! 0 \<and> rest ! 0 \<le> hi) then (RuneError, 1)
              else if sz = 2 then ((b0 mod 32) * 64 + rest ! 0 mod 64, 2)
              else if \<not> continuation (rest ! 1) then (RuneError, 1)
              else if sz = 3 then
                ((b0 mod 16) * 4096 + (rest ! 0 mod 64) * 64 + rest ! 1 mod 64, 3)
              else if \<not> continuation (rest ! 2) then (RuneError, 1)
              else ((b0 mod 8) * 262144 + (rest ! 0 mod 64) * 4096
                      + (rest ! 1 mod 64) * 64 + rest ! 2 mod 64, 4)))"

lemma DecodeRune_Nil [simp]: "DecodeRune [] = (RuneError, 0)"
  by (simp add: DecodeRune_def)

lemma DecodeRune_ascii: "byte c < 128 \<Longrightarrow> DecodeRune (c # s) = (byte c, 1)"
  by (simp add: DecodeRune_def)

text \<open>Decoding a non-empty string makes progress and stays inside it.\<close>

lemma DecodeRune_width:
  assumes "s \<noteq> []" and "DecodeRune s = (r, w)"
  shows "1 \<le> w \<and> w \<le> length s \<and> w \<le> 4"
  using assms
  by (cases s) (auto simp: DecodeRune_def utf8_first_def Suc_le_eq split: if_splits)

text \<open>
  \<open>DecodeLastRuneInString\<close> looks back at most four bytes for a byte that can start a
  rune, and decodes there; the result counts only if it ends at the end of the string.
\<close>

fun last_rune_start :: "nat list \<Rightarrow> nat \<Rightarrow> nat \<Rightarrow> nat" where
  "last_rune_start bs 0 start = start"
| "last_rune_start bs (Suc k) start =
     (if start = 0 then 0
      else if continuation (bs ! (start - 1)) then last_rune_start bs k (start - 1)
      else start - 1)"

definition DecodeLastRune :: "string \<Rightarrow> nat \<times> nat" where
  "DecodeLastRune s =
     (let n = length s in
      if n = 0 then (RuneError, 0)
      else if byte (s ! (n - 1)) < 128 then (byte (s ! (n - 1)), 1)
      else
        let start = last_rune_start (map byte s) 3 (n - 1);
            (r, size) = DecodeRune (drop start s)
        in if start + size \<noteq> n then (RuneError, 1) else (r, size))"

function RuneCount :: "string \<Rightarrow> nat" where
  "RuneCount s = (if s = [] then 0 else Suc (RuneCount (drop (max 1 (snd (DecodeRune s))) s)))"
  by pat_completeness auto
termination
  by (relation "measure length") auto

declare RuneCount.simps [simp del]

lemma RuneCount_Nil [simp]: "RuneCount [] = 0"
  by (simp add: RuneCount.simps)

lemma RuneCount_le: "RuneCount s \<le> length s"
proof (induction s rule: RuneCount.induct)
  case (1 s)
  show ?case
  proof (cases "s = []")
    case False
    with 1 have "RuneCount (drop (max 1 (snd (DecodeRune s))) s)
        \<le> length (drop (max 1 (snd (DecodeRune s))) s)" by simp
    also have "\<dots> < length s" using False by simp
    finally show ?thesis by (subst RuneCount.simps) simp
  qed simp
qed

lemma RuneCount_ascii: "(\<forall>c \<in> set s. byte c < 128) \<Longrightarrow> RuneCount s = length s"
proof (induction s)
  case (Cons c s)
  then show ?case by (subst RuneCount.simps) (simp add: DecodeRune_ascii)
qed simp

end
