(* ===== verification/Scum_Types.thy ===== *)
theory Scum_Types
  imports Utf8
begin

text \<open>
  The data of the markup library \<open>scum\<close>: constants (\<open>consts.go\<close>), issue codes
  (\<open>issues.go\<close>), configuration errors (\<open>config_error.go\<close>), limits (\<open>limits.go\<close>), tag
  sequences and tags (\<open>tag_sequence.go\<close>, \<open>tag.go\<close>), spans and tokens (\<open>token.go\<close>),
  and the byte predicates of \<open>utils.go\<close>.
\<close>

section \<open>Constants\<close>

datatype token_type = TokenText | TokenTag | TokenAttributeKV | TokenAttributeFlag

text \<open>\<open>Rule\<close> and \<open>Greed\<close> are \<open>uint8\<close>: a caller may pass any of the 256 values.\<close>

type_synonym uint8 = "8 word"

definition RuleNA :: uint8 where "RuleNA = 0"
definition RuleInfraWord :: uint8 where "RuleInfraWord = 1"
definition RuleTagVsContent :: uint8 where "RuleTagVsContent = 2"

definition NonGreedy :: uint8 where "NonGreedy = 0"
definition Greedy :: uint8 where "Greedy = 1"
definition Grasping :: uint8 where "Grasping = 2"

lemmas enum_defs = RuleNA_def RuleInfraWord_def RuleTagVsContent_def
  NonGreedy_def Greedy_def Grasping_def

definition MaxTagLen :: int where "MaxTagLen = 4"
definition MaxGreedLevel :: uint8 where "MaxGreedLevel = Grasping"
definition MaxRule :: uint8 where "MaxRule = RuleTagVsContent"
definition MaxTagNameLen :: int where "MaxTagNameLen = 20"
definition DefaultMaxAttrKeyLen :: int where "DefaultMaxAttrKeyLen = 128"
definition DefaultMaxAttrPayloadLen :: int where "DefaultMaxAttrPayloadLen = 512"
definition DefaultMaxPayloadLen :: int where "DefaultMaxPayloadLen = 1024"
definition DefaultMaxKeyLen :: int where "DefaultMaxKeyLen = 128"

lemmas const_defs = MaxTagLen_def MaxGreedLevel_def MaxRule_def MaxTagNameLen_def
  DefaultMaxAttrKeyLen_def DefaultMaxAttrPayloadLen_def DefaultMaxPayloadLen_def
  DefaultMaxKeyLen_def

text \<open>The zero byte: \<open>OpenID\<close> or \<open>CloseID\<close> not set, no special symbol registered.\<close>

definition NUL :: char where "NUL = CHR 0x00"

section \<open>Issues and configuration errors\<close>

datatype issue =
    IssueUnexpectedEOL | IssueUnexpectedSymbol | IssueUnclosedTag | IssueMisplacedClosingTag
  | IssueInvalidGreedLevel | IssueInvalidRule | IssueAmbiguousTagType
  | IssueInvalidTagNameLen | IssueInvalidTagSeqLen | IssueDuplicateTagID
  | IssueInvalidTagSeq | IssueRuleInapplicable | IssueRedundantEscape
  | IssueUnprintableChar | IssueWarningsTruncated | IssueInvalidWarningsPolicy
  | IssueNegativeWarningsCap | IssueEmptyAttrPayload | IssueUnclosedAttrPayload
  | IssueAttrKeyTooLong | IssueAttrPayloadTooLong | IssueInvalidAttrSymbol
  | IssueNegativeLimit | IssueTagKeyTooLong | IssueTagPayloadTooLong
  | IssueOpenCloseTagMismatch | IssueDuplicateNestedTag | IssueMaxNodesExceeded
  | IssueMaxAttributesExceeded | IssueMaxParseDepthExceeded

definition issueCodeBase :: int where "issueCodeBase = 1000"

text \<open>The constants in the order of the source, which \<open>iota\<close> numbers from the base.\<close>

definition all_issues :: "issue list" where
  "all_issues =
    [IssueUnexpectedEOL, IssueUnexpectedSymbol, IssueUnclosedTag, IssueMisplacedClosingTag,
     IssueInvalidGreedLevel, IssueInvalidRule, IssueAmbiguousTagType,
     IssueInvalidTagNameLen, IssueInvalidTagSeqLen, IssueDuplicateTagID,
     IssueInvalidTagSeq, IssueRuleInapplicable, IssueRedundantEscape,
     IssueUnprintableChar, IssueWarningsTruncated, IssueInvalidWarningsPolicy,
     IssueNegativeWarningsCap, IssueEmptyAttrPayload, IssueUnclosedAttrPayload,
     IssueAttrKeyTooLong, IssueAttrPayloadTooLong, IssueInvalidAttrSymbol,
     IssueNegativeLimit, IssueTagKeyTooLong, IssueTagPayloadTooLong,
     IssueOpenCloseTagMismatch, IssueDuplicateNestedTag, IssueMaxNodesExceeded,
     IssueMaxAttributesExceeded, IssueMaxParseDepthExceeded]"

definition NumIssues :: int where "NumIssues = len all_issues"

text \<open>\<open>issueIndex\<close> is the position of an issue in the enumeration, its code less the base.\<close>

definition issueIndex :: "issue \<Rightarrow> int" where
  "issueIndex i = index_byte all_issues i"

definition issue_code :: "issue \<Rightarrow> int" where
  "issue_code i = issueCodeBase + issueIndex i"

text \<open>
  A \<open>ConfigError\<close> carries its issue; the wrapped \<open>error\<close>, a message for the log, is not
  modelled. A function returning \<open>error\<close> returns \<open>None\<close> for \<open>nil\<close>.
\<close>

datatype config_error = ConfigError issue

definition NewConfigError :: "issue \<Rightarrow> config_error" where
  "NewConfigError i = ConfigError i"

definition newEmptySequenceError :: config_error where
  "newEmptySequenceError = NewConfigError IssueInvalidTagSeqLen"

definition newDuplicateTagIDError :: "char \<Rightarrow> config_error" where
  "newDuplicateTagIDError b = NewConfigError IssueDuplicateTagID"

definition newUnprintableError :: "char \<Rightarrow> config_error" where
  "newUnprintableError c = NewConfigError IssueUnprintableChar"

lemmas error_defs = NewConfigError_def newEmptySequenceError_def
  newDuplicateTagIDError_def newUnprintableError_def

section \<open>Limits\<close>

record limits =
  MaxAttrKeyLen :: int
  MaxAttrPayloadLen :: int
  MaxPayloadLen :: int
  MaxKeyLen :: int
  MaxNodes :: int
  MaxAttributes :: int
  MaxParseDepth :: int

definition no_limits :: limits where
  "no_limits = \<lparr>MaxAttrKeyLen = 0, MaxAttrPayloadLen = 0, MaxPayloadLen = 0, MaxKeyLen = 0,
     MaxNodes = 0, MaxAttributes = 0, MaxParseDepth = 0\<rparr>"

fun first_negative :: "int list \<Rightarrow> bool" where
  "first_negative [] = False"
| "first_negative (v # vs) = (if v < 0 then True else first_negative vs)"

definition limits_Validate :: "limits \<Rightarrow> config_error option" where
  "limits_Validate l =
     (if first_negative [MaxAttrKeyLen l, MaxAttrPayloadLen l, MaxPayloadLen l, MaxKeyLen l,
           MaxNodes l, MaxAttributes l, MaxParseDepth l]
      then Some (NewConfigError IssueNegativeLimit) else None)"

lemma limits_Validate_None: "limits_Validate l = None \<longleftrightarrow>
    0 \<le> MaxAttrKeyLen l \<and> 0 \<le> MaxAttrPayloadLen l \<and> 0 \<le> MaxPayloadLen l \<and> 0 \<le> MaxKeyLen l
    \<and> 0 \<le> MaxNodes l \<and> 0 \<le> MaxAttributes l \<and> 0 \<le> MaxParseDepth l"
  by (auto simp: limits_Validate_def)

section \<open>Byte predicates\<close>

definition isASCIIPrintable :: "char \<Rightarrow> bool" where
  "isASCIIPrintable b \<longleftrightarrow> 32 \<le> byte b \<and> byte b \<le> 126"

definition isASCIIPunct :: "char \<Rightarrow> bool" where
  "isASCIIPunct b \<longleftrightarrow>
     (33 \<le> byte b \<and> byte b \<le> 47) \<or> (58 \<le> byte b \<and> byte b \<le> 64) \<or>
     (91 \<le> byte b \<and> byte b \<le> 96) \<or> (123 \<le> byte b \<and> byte b \<le> 126)"

definition isASCIIAlphanum :: "char \<Rightarrow> bool" where
  "isASCIIAlphanum b \<longleftrightarrow>
     (byte CHR ''0'' \<le> byte b \<and> byte b \<le> byte CHR ''9'') \<or>
     (byte CHR ''A'' \<le> byte b \<and> byte b \<le> byte CHR ''Z'') \<or>
     (byte CHR ''a'' \<le> byte b \<and> byte b \<le> byte CHR ''z'')"

text \<open>\<open>extractNextRune\<close> reads the first byte, so it panics on an empty string.\<close>

definition extractNextRune :: "string \<Rightarrow> (nat \<times> nat \<times> bool) option" where
  "extractNextRune substr = do {
     b \<leftarrow> go_index substr 0;
     if byte b < 128 then Some (byte b, 1, True)
     else let (next, width) = DecodeRune substr
          in Some (next, width, \<not> (next = RuneError \<and> width = 1))
   }"

lemma extractNextRune_returns:
  "s \<noteq> [] \<Longrightarrow> returns (extractNextRune s) (\<lambda>(r, w, ok). 1 \<le> w \<and> int w \<le> len s)"
  using DecodeRune_width [of s]
  by (cases s) (auto simp: extractNextRune_def len_def split: prod.splits)

section \<open>Tag sequences and tags\<close>

record tag_sequence =
  seq_Bytes :: "char list"
  seq_Len :: uint8

definition zero_sequence :: tag_sequence where
  "zero_sequence = \<lparr>seq_Bytes = replicate (nat MaxTagLen) NUL, seq_Len = 0\<rparr>"

definition seq_ID :: "tag_sequence \<Rightarrow> char" where
  "seq_ID s = seq_Bytes s ! 0"

text \<open>The bytes of the sequence, \<open>seq.Bytes[:seq.Len]\<close>.\<close>

definition seq_bytes :: "tag_sequence \<Rightarrow> char list" where
  "seq_bytes s = take (unat (seq_Len s)) (seq_Bytes s)"

fun fill_sequence :: "char list \<Rightarrow> nat \<Rightarrow> char list \<Rightarrow> config_error + char list" where
  "fill_sequence bytes i [] = Inr bytes"
| "fill_sequence bytes i (b # bs) =
     (if \<not> isASCIIPrintable b then Inl (NewConfigError IssueUnprintableChar)
      else fill_sequence (bytes[i := b]) (Suc i) bs)"

definition NewTagSequence :: "char list \<Rightarrow> config_error + tag_sequence" where
  "NewTagSequence src =
     (let n = len src in
      if n > MaxTagLen then Inl (NewConfigError IssueInvalidTagSeqLen)
      else if n = 0 then Inl newEmptySequenceError
      else case fill_sequence (seq_Bytes zero_sequence) 0 src of
        Inl e \<Rightarrow> Inl e
      | Inr bytes \<Rightarrow> Inr \<lparr>seq_Bytes = bytes, seq_Len = word_of_int n\<rparr>)"

record tag =
  tag_Name :: string
  tag_Greed :: uint8
  tag_Seq :: tag_sequence
  tag_Rule :: uint8
  tag_OpenID :: char
  tag_CloseID :: char

definition zero_tag :: tag where
  "zero_tag = \<lparr>tag_Name = [], tag_Greed = NonGreedy, tag_Seq = zero_sequence,
     tag_Rule = RuleNA, tag_OpenID = NUL, tag_CloseID = NUL\<rparr>"

definition tag_ID :: "tag \<Rightarrow> char" where
  "tag_ID t = seq_ID (tag_Seq t)"

definition IsUniversal :: "tag \<Rightarrow> bool" where
  "IsUniversal t \<longleftrightarrow> tag_CloseID t = tag_ID t \<and> tag_OpenID t = tag_ID t"

definition IsOpening :: "tag \<Rightarrow> bool" where
  "IsOpening t \<longleftrightarrow> tag_CloseID t \<noteq> NUL \<and> tag_OpenID t = NUL"

definition IsClosing :: "tag \<Rightarrow> bool" where
  "IsClosing t \<longleftrightarrow> tag_OpenID t \<noteq> NUL \<and> tag_CloseID t = NUL"

definition tag_Len :: "tag \<Rightarrow> uint8" where
  "tag_Len t = seq_Len (tag_Seq t)"

text \<open>\<open>TagDecorator\<close>s fill the optional fields of a tag built by \<open>NewTag\<close>.\<close>

type_synonym tag_decorator = "tag \<Rightarrow> tag"

definition WithGreed :: "uint8 \<Rightarrow> tag_decorator" where
  "WithGreed greed = (\<lambda>t. t\<lparr>tag_Greed := greed\<rparr>)"

definition WithRule :: "uint8 \<Rightarrow> tag_decorator" where
  "WithRule rule = (\<lambda>t. t\<lparr>tag_Rule := rule\<rparr>)"

definition NewTag ::
  "char list \<Rightarrow> string \<Rightarrow> char \<Rightarrow> char \<Rightarrow> tag_decorator list \<Rightarrow> config_error + tag" where
  "NewTag sq name openID closeID opts =
     (case NewTagSequence sq of
        Inl e \<Rightarrow> Inl e
      | Inr s \<Rightarrow> Inr (fold (\<lambda>dec t. dec t) opts
          \<lparr>tag_Name = name, tag_Greed = NonGreedy, tag_Seq = s, tag_Rule = RuleNA,
           tag_OpenID = openID, tag_CloseID = closeID\<rparr>))"

text \<open>Well-formed sequences: four bytes of storage, of which 1 to 4 printable ones are used.\<close>

definition seq_wf :: "tag_sequence \<Rightarrow> bool" where
  "seq_wf s \<longleftrightarrow> length (seq_Bytes s) = 4 \<and> 1 \<le> unat (seq_Len s) \<and> unat (seq_Len s) \<le> 4
     \<and> (\<forall>b \<in> set (seq_bytes s). isASCIIPrintable b)"

lemma fill_sequence_result:
  assumes "fill_sequence bytes i src = Inr bytes'"
    and "length bytes = 4" and "i + length src \<le> 4"
  shows "length bytes' = 4 \<and> bytes' = take i bytes @ src @ drop (i + length src) bytes
    \<and> (\<forall>b \<in> set src. isASCIIPrintable b)"
  using assms
proof (induction bytes i src rule: fill_sequence.induct)
  case (2 bytes i b bs)
  then have "isASCIIPrintable b"
    and IH: "bytes' = take (Suc i) (bytes[i := b]) @ bs @ drop (Suc i + length bs) (bytes[i := b])"
    and "length bytes' = 4" "\<forall>b \<in> set bs. isASCIIPrintable b"
    by (auto split: if_splits)
  moreover have "take (Suc i) (bytes[i := b]) = take i bytes @ [b]"
    using 2 by (simp add: take_Suc_conv_app_nth)
  ultimately show ?case by simp
qed simp

lemma NewTagSequence_wf:
  assumes "NewTagSequence src = Inr s"
  shows "seq_wf s \<and> seq_bytes s = src \<and> seq_ID s = hd src \<and> src \<noteq> []"
proof -
  from assms obtain bytes where b: "fill_sequence (seq_Bytes zero_sequence) 0 src = Inr bytes"
    and s: "s = \<lparr>seq_Bytes = bytes, seq_Len = word_of_int (len src)\<rparr>"
    and n: "length src \<le> 4" "src \<noteq> []"
    by (auto simp: NewTagSequence_def Let_def len_def MaxTagLen_def split: if_splits sum.splits)
  have r: "length bytes = 4" "bytes = src @ drop (length src) (seq_Bytes zero_sequence)"
    "\<forall>b \<in> set src. isASCIIPrintable b"
    using fill_sequence_result [OF b] n by (auto simp: zero_sequence_def MaxTagLen_def)
  from n have u: "unat (word_of_int (len src) :: uint8) = length src"
    by (simp add: len_def unat_of_nat)
  from n have "1 \<le> length src" by (cases src) auto
  with r s u n show ?thesis
    by (auto simp: seq_wf_def seq_bytes_def seq_ID_def nth_append hd_conv_nth)
qed

section \<open>Spans and tokens\<close>

record span =
  sp_Start :: int
  sp_End :: int

definition mk_span :: "int \<Rightarrow> int \<Rightarrow> span" where
  "mk_span a b = \<lparr>sp_Start = a, sp_End = b\<rparr>"

definition NewSpan :: "int \<Rightarrow> int \<Rightarrow> span" where
  "NewSpan startIdx width = mk_span startIdx (startIdx + width)"

lemma span_simps [simp]:
  "sp_Start (mk_span a b) = a" "sp_End (mk_span a b) = b"
  "sp_Start (NewSpan a w) = a" "sp_End (NewSpan a w) = a + w"
  by (simp_all add: mk_span_def NewSpan_def)

record token =
  tok_Type :: token_type
  tok_Trigger :: char
  tok_Pos :: int
  tok_Width :: int
  tok_Payload :: span
  tok_AttrKey :: span

text \<open>\<open>Token{}\<close>\<close>

definition zero_token :: token where
  "zero_token = \<lparr>tok_Type = TokenText, tok_Trigger = NUL, tok_Pos = 0, tok_Width = 0,
     tok_Payload = mk_span 0 0, tok_AttrKey = mk_span 0 0\<rparr>"

section \<open>Properties\<close>

lemma nth_issue: "index_byte xs c = -1 \<or> xs ! nat (index_byte xs c) = c"
  using index_byte_some [of xs c] by blast

text \<open>
  The issue codes are distinct and fill the range from 1000 without a gap, so a code
  names its issue and \<open>issueIndex\<close> is a valid index of the tables of \<open>NumIssues\<close> entries.
\<close>

theorem issue_codes:
  "inj issue_code \<and> issue_code ` UNIV = {issueCodeBase..<issueCodeBase + NumIssues}"
proof
  have all: "i \<in> set all_issues" for i by (cases i) (simp_all add: all_issues_def)
  have ne: "issueIndex i \<noteq> -1" for i
    using all [of i] by (simp add: issueIndex_def)
  have at: "all_issues ! nat (issueIndex i) = i" "0 \<le> issueIndex i" "issueIndex i < NumIssues" for i
    using index_byte_some [OF ne [unfolded issueIndex_def]] by (auto simp: issueIndex_def NumIssues_def)
  show "inj issue_code"
    by (rule injI) (metis add_left_cancel at(1) issue_code_def)
  have idx: "issueIndex (all_issues ! k) = int k" if "k < 30" for k
  proof -
    have "\<forall>k \<in> {0..<30}. issueIndex (all_issues ! k) = int k" by code_simp
    with that show ?thesis by simp
  qed
  show "issue_code ` UNIV = {issueCodeBase..<issueCodeBase + NumIssues}"
  proof (rule set_eqI)
    fix x
    have n: "NumIssues = 30" by code_simp
    show "x \<in> issue_code ` UNIV \<longleftrightarrow> x \<in> {issueCodeBase..<issueCodeBase + NumIssues}"
    proof
      assume "x \<in> {issueCodeBase..<issueCodeBase + NumIssues}"
      then have "nat (x - issueCodeBase) < 30" "0 \<le> x - issueCodeBase" by (auto simp: n)
      then have "issue_code (all_issues ! nat (x - issueCodeBase)) = x"
        using idx by (simp add: issue_code_def)
      then show "x \<in> issue_code ` UNIV" by (metis rangeI)
    qed (use at in \<open>auto simp: issue_code_def\<close>)
  qed
qed

lemma fill_sequence_complete:
  assumes "\<forall>b \<in> set src. isASCIIPrintable b"
  shows "\<exists>bytes'. fill_sequence bytes i src = Inr bytes'"
  using assms by (induction bytes i src rule: fill_sequence.induct) auto

lemma fill_sequence_error:
  "fill_sequence bytes i src = Inl e \<Longrightarrow>
     e = NewConfigError IssueUnprintableChar \<and> (\<exists>b \<in> set src. \<not> isASCIIPrintable b)"
  by (induction bytes i src rule: fill_sequence.induct) (auto split: if_splits)

text \<open>
  \<open>NewTagSequence\<close> accepts exactly the sequences of one to four printable ASCII bytes,
  and the sequence it returns holds them; every other is refused with the error of its kind.
\<close>

theorem NewTagSequence_spec:
  "if 1 \<le> len src \<and> len src \<le> MaxTagLen \<and> (\<forall>b \<in> set src. isASCIIPrintable b)
   then \<exists>s. NewTagSequence src = Inr s \<and> seq_bytes s = src \<and> seq_ID s = src ! 0
   else NewTagSequence src = Inl (NewConfigError
     (if len src = 0 \<or> len src > MaxTagLen then IssueInvalidTagSeqLen else IssueUnprintableChar))"
proof (cases "1 \<le> len src \<and> len src \<le> MaxTagLen \<and> (\<forall>b \<in> set src. isASCIIPrintable b)")
  case True
  then obtain bytes where "fill_sequence (seq_Bytes zero_sequence) 0 src = Inr bytes"
    using fill_sequence_complete by blast
  moreover have "\<not> (len src = 0 \<or> len src > MaxTagLen)" using True by auto
  ultimately obtain s where s: "NewTagSequence src = Inr s" by (auto simp: NewTagSequence_def Let_def)
  from True NewTagSequence_wf [OF s] s show ?thesis by (auto simp: hd_conv_nth)
next
  case False
  show ?thesis
  proof (cases "len src = 0 \<or> len src > MaxTagLen")
    case True
    with False show ?thesis by (auto simp: NewTagSequence_def Let_def newEmptySequenceError_def const_defs)
  next
    case in_range: False
    with False have "\<exists>b \<in> set src. \<not> isASCIIPrintable b" by (auto simp: len_def Suc_le_eq)
    moreover have "fill_sequence (seq_Bytes zero_sequence) 0 src \<noteq> Inr bytes" for bytes
      using fill_sequence_result [of "seq_Bytes zero_sequence" 0 src bytes] in_range calculation
      by (auto simp: zero_sequence_def const_defs len_def)
    then obtain e where e: "fill_sequence (seq_Bytes zero_sequence) 0 src = Inl e"
      by (cases "fill_sequence (seq_Bytes zero_sequence) 0 src") auto
    with fill_sequence_error [OF e] in_range False show ?thesis
      by (auto simp: NewTagSequence_def Let_def)
  qed
qed

theorem NewTagSequence_spec_witness:
  "(\<exists>s. NewTagSequence ''$$'' = Inr s \<and> seq_bytes s = ''$$'')
   \<and> NewTagSequence ''$$$$$'' = Inl (NewConfigError IssueInvalidTagSeqLen)"
  using NewTagSequence_spec [of "''$$''"] NewTagSequence_spec [of "''$$$$$''"]
  by (auto simp: const_defs len_def isASCIIPrintable_def byte_def)

end
