(* ===== verification/Scum_Search.thy ===== *)
theory Scum_Search
  imports Scum_Types
begin

text \<open>
  The sequence search of \<open>utils.go\<close> and the tag checks beside it:
  \<open>longestCommonSubPrefix\<close>, through which a multi-byte tag or the closing tag of a
  greedy tag is found in the input, with its specification; \<open>checkTagName\<close> and
  \<open>checkTagConsistency\<close>. The scanning loops index inside their bounds by their own
  guards, so they run over \<open>nat\<close> positions.
\<close>

section \<open>longestCommonSubPrefix\<close>

text \<open>The inner loop: extend the match at \<open>start\<close> while the bytes agree.\<close>

function match_from :: "char list \<Rightarrow> char list \<Rightarrow> nat \<Rightarrow> nat \<Rightarrow> nat \<Rightarrow> nat" where
  "match_from src sq start minLen i =
     (if i < minLen \<and> src ! (start + i) = sq ! i
      then match_from src sq start minLen (Suc i) else i)"
  by pat_completeness auto
termination
  by (relation "measure (\<lambda>(src, sq, start, minLen, i). minLen - i)") auto

declare match_from.simps [simp del]

text \<open>The outer loop: the next candidate start, and the best match so far.\<close>

function lcsp_loop :: "char list \<Rightarrow> char list \<Rightarrow> nat \<Rightarrow> int \<Rightarrow> nat \<Rightarrow> bool \<times> int \<times> int" where
  "lcsp_loop src sq searchStart maxStartIdx maxLength =
     (if searchStart < length src - maxLength then
        let relStartIdx = index_byte (drop searchStart src) (sq ! 0) in
        if relStartIdx = -1 then (False, maxStartIdx, int maxLength)
        else
          let startIdx = nat relStartIdx + searchStart;
              minLen = min (length src - startIdx) (length sq);
              i = match_from src sq startIdx minLen 1;
              (maxLength', maxStartIdx') =
                (if i > maxLength then (i, int startIdx) else (maxLength, maxStartIdx))
          in if i = length sq then (i = length sq, maxStartIdx', int maxLength')
             else lcsp_loop src sq (startIdx + 1) maxStartIdx' maxLength'
      else (False, maxStartIdx, int maxLength))"
  by pat_completeness auto
termination
  by (relation "measure (\<lambda>(src, sq, searchStart, maxStartIdx, maxLength). length src - searchStart)")
    auto

declare lcsp_loop.simps [simp del]

definition longestCommonSubPrefix :: "char list \<Rightarrow> char list \<Rightarrow> bool \<times> int \<times> int" where
  "longestCommonSubPrefix src sq =
     (let m = len sq in
      if m = 0 then (False, -1, 0)
      else if m = 1 then
        let idx = index_byte src (sq ! 0)
        in (idx > -1, idx, if idx > -1 then 1 else 0)
      else lcsp_loop src sq 0 (-1) 0)"

definition IsContainedIn :: "tag_sequence \<Rightarrow> string \<Rightarrow> bool \<times> int \<times> int" where
  "IsContainedIn s src = longestCommonSubPrefix src (seq_bytes s)"

subsection \<open>Its specification\<close>

fun lcp :: "'a list \<Rightarrow> 'a list \<Rightarrow> nat" where
  "lcp (x # xs) (y # ys) = (if x = y then Suc (lcp xs ys) else 0)"
| "lcp _ _ = 0"

text \<open>How much of \<open>sq\<close> the source holds at position \<open>k\<close>.\<close>

definition match_len :: "char list \<Rightarrow> char list \<Rightarrow> nat \<Rightarrow> nat" where
  "match_len src sq k = lcp (drop k src) sq"

lemma lcp_le: "lcp xs ys \<le> length xs \<and> lcp xs ys \<le> length ys"
  by (induction xs ys rule: lcp.induct) auto

lemma lcp_take: "take (lcp xs ys) xs = take (lcp xs ys) ys"
  by (induction xs ys rule: lcp.induct) auto

lemma lcp_full: "lcp xs ys = length ys \<longleftrightarrow> prefix ys xs"
  by (induction xs ys rule: lcp.induct) (auto simp: Suc_le_eq)

lemma match_len_le: "match_len src sq k \<le> length sq \<and> match_len src sq k \<le> length src - k"
  using lcp_le [of "drop k src" sq] by (simp add: match_len_def)

lemma match_len_0: "k < length src \<Longrightarrow> sq \<noteq> [] \<Longrightarrow> src ! k \<noteq> sq ! 0 \<Longrightarrow> match_len src sq k = 0"
  by (cases sq) (auto simp: match_len_def Cons_nth_drop_Suc [symmetric])

lemma match_len_pos: "k < length src \<Longrightarrow> sq \<noteq> [] \<Longrightarrow> src ! k = sq ! 0 \<Longrightarrow> 1 \<le> match_len src sq k"
  by (cases sq) (auto simp: match_len_def Cons_nth_drop_Suc [symmetric])

lemma match_from_lcp:
  assumes "minLen = min (length src - start) (length sq)" and "i \<le> minLen"
  shows "match_from src sq start minLen i = i + lcp (drop (start + i) src) (drop i sq)"
  using assms
proof (induction src sq start minLen i rule: match_from.induct)
  case (1 src sq start minLen i)
  show ?case
  proof (cases "i < minLen")
    case True
    then have "start + i < length src" "i < length sq" using 1 by linarith+
    then have "drop (start + i) src = src ! (start + i) # drop (start + Suc i) src"
      and "drop i sq = sq ! i # drop (Suc i) sq"
      by (simp_all add: Cons_nth_drop_Suc)
    with True 1 show ?thesis by (subst match_from.simps) simp
  next
    case False
    with 1 have "length src \<le> start + i \<or> length sq \<le> i" by linarith
    then have "lcp (drop (start + i) src) (drop i sq) = 0" by (cases "drop (start + i) src") auto
    with False show ?thesis by (subst match_from.simps) simp
  qed
qed

lemma match_from_match_len:
  assumes "start < length src" and "sq \<noteq> []" and "src ! start = sq ! 0"
  shows "match_from src sq start (min (length src - start) (length sq)) 1 = match_len src sq start"
proof -
  obtain y ys where y: "sq = y # ys" using assms by (cases sq) auto
  have d: "drop start src = y # drop (Suc start) src"
    using assms y by (simp add: Cons_nth_drop_Suc [symmetric])
  have "1 \<le> min (length src - start) (length sq)" using assms y by simp
  then show ?thesis using y d by (simp add: match_from_lcp match_len_def)
qed

text \<open>
  \<open>best src sq b idx l\<close>: among the starts before \<open>b\<close>, \<open>l\<close> is the longest match and
  \<open>idx\<close> the first start that has it, \<open>-1\<close> when nothing matches.
\<close>

definition best :: "char list \<Rightarrow> char list \<Rightarrow> nat \<Rightarrow> int \<Rightarrow> nat \<Rightarrow> bool" where
  "best src sq b idx l \<longleftrightarrow> (\<forall>k<b. match_len src sq k \<le> l) \<and>
     (if l = 0 then idx = -1
      else 0 \<le> idx \<and> nat idx < b \<and> match_len src sq (nat idx) = l
           \<and> (\<forall>k<nat idx. match_len src sq k < l))"

lemma best_extend:
  assumes "best src sq b idx l" and "b \<le> b'" and "\<And>k. b \<le> k \<Longrightarrow> k < b' \<Longrightarrow> match_len src sq k \<le> l"
  shows "best src sq b' idx l"
  using assms by (auto simp: best_def not_less split: if_splits) (meson not_less)+

lemma best_next:
  assumes "best src sq b idx l" and "match_len src sq b > l"
  shows "best src sq (Suc b) (int b) (match_len src sq b)"
  using assms by (auto simp: best_def less_Suc_eq intro: le_less_trans order.strict_implies_order)

lemma lcsp_loop_best:
  assumes "best src sq ss idx l" and "l < length sq" and "sq \<noteq> []"
    and "lcsp_loop src sq ss idx l = (c, idx', l')"
  shows "0 \<le> l' \<and> best src sq (length src) idx' (nat l') \<and> (c \<longleftrightarrow> nat l' = length sq)"
  using assms
proof (induction src sq ss idx l rule: lcsp_loop.induct)
  case (1 src sq ss idx l)
  note unfolded = "1.prems"(4) [unfolded lcsp_loop.simps [of src sq ss idx l]]
  show ?case
  proof (cases "ss < length src - l")
    case False
    have "best src sq (length src) idx l"
    proof (cases "ss \<le> length src")
      case True
      show ?thesis
        using "1.prems"(1) True
      proof (rule best_extend)
        fix k assume "ss \<le> k"
        then show "match_len src sq k \<le> l"
          using False match_len_le [of src sq k] by linarith
      qed
    next
      case beyond: False
      then show ?thesis
        using "1.prems"(1) match_len_le [of src sq "nat idx"]
        by (auto simp: best_def split: if_splits)
    qed
    with False unfolded "1.prems"(2) show ?thesis by auto
  next
    case True
    define rel where "rel = index_byte (drop ss src) (sq ! 0)"
    show ?thesis
    proof (cases "rel = -1")
      case none: True
      have "best src sq (length src) idx l"
        using "1.prems"(1)
      proof (rule best_extend)
        show "ss \<le> length src" using True by simp
        fix k assume k: "ss \<le> k" "k < length src"
        then have "src ! k = drop ss src ! (k - ss)" by simp
        with k have "src ! k \<in> set (drop ss src)"
          by (metis diff_less_mono length_drop nth_mem)
        then have "src ! k \<noteq> sq ! 0" using none by (auto simp: rel_def)
        then show "match_len src sq k \<le> l" using k "1.prems"(3) by (simp add: match_len_0)
      qed
      with True none unfolded "1.prems"(2) show ?thesis by (auto simp: rel_def Let_def)
    next
      case found: False
      define st where "st = nat rel + ss"
      have rel: "0 \<le> rel" "rel < len (drop ss src)" "drop ss src ! nat rel = sq ! 0"
        using index_byte_some [of "drop ss src" "sq ! 0"] found by (auto simp: rel_def)
      then have st: "ss \<le> st" "st < length src" "src ! st = sq ! 0"
        by (auto simp: st_def len_def add.commute)
      have before: "best src sq st idx l"
        using "1.prems"(1) st(1)
      proof (rule best_extend)
        fix k assume k: "ss \<le> k" "k < st"
        then have "int (k - ss) < index_byte (drop ss src) (sq ! 0)"
          using rel(1) by (auto simp: rel_def [symmetric] st_def)
        then have "drop ss src ! (k - ss) \<noteq> sq ! 0" by (rule index_byte_first_nat)
        then have "src ! k \<noteq> sq ! 0" using k st by simp
        then show "match_len src sq k \<le> l" using k st "1.prems"(3) by (simp add: match_len_0)
      qed
      define i where "i = match_len src sq st"
      have i: "match_from src sq st (min (length src - st) (length sq)) 1 = i"
        using match_from_match_len [OF st(2) "1.prems"(3) st(3)] by (simp add: i_def)
      define l1 where "l1 = (if i > l then i else l)"
      define idx1 where "idx1 = (if i > l then int st else idx)"
      have after: "best src sq (Suc st) idx1 l1"
        using best_next [OF before] best_extend [OF before, of "Suc st"]
        by (auto simp: idx1_def l1_def i_def less_Suc_eq not_less)
      have step: "lcsp_loop src sq ss idx l =
          (if i = length sq then (True, idx1, int l1) else lcsp_loop src sq (Suc st) idx1 l1)"
        using True found i
        by (subst lcsp_loop.simps) (simp add: Let_def rel_def [symmetric] st_def [symmetric] l1_def idx1_def)
      have le: "i \<le> length sq" using match_len_le [of src sq st] by (simp add: i_def)
      show ?thesis
      proof (cases "i = length sq")
        case full: True
        with "1.prems"(2) have "l1 = length sq" by (simp_all add: l1_def idx1_def)
        moreover have "best src sq (length src) idx1 l1"
          using after st(2) match_len_le calculation(1)
          by (intro best_extend [OF after]) auto
        ultimately show ?thesis using full step "1.prems"(4) by auto
      next
        case False
        have "l1 < length sq" using False le "1.prems"(2) by (auto simp: l1_def)
        moreover have "lcsp_loop src sq (st + 1) idx1 l1 = (c, idx', l')"
          using step False "1.prems"(4) by simp
        ultimately show ?thesis
          using "1.IH" [OF True rel_def _ st_def refl i [symmetric], of "(l1, idx1)" l1 idx1]
            found after False "1.prems"(3)
          by (simp add: l1_def idx1_def split: if_splits)
      qed
    qed
  qed
qed

text \<open>
  The result is the first best match in the whole source, and \<open>contained\<close> says whether it
  is all of the sequence.
\<close>

lemma longestCommonSubPrefix_best:
  assumes "sq \<noteq> []" and "longestCommonSubPrefix src sq = (c, idx, l)"
  shows "0 \<le> l \<and> best src sq (length src) idx (nat l) \<and> (c \<longleftrightarrow> l = len sq)"
proof (cases "len sq = 1")
  case False
  with assms have "lcsp_loop src sq 0 (-1) 0 = (c, idx, l)"
    by (simp add: longestCommonSubPrefix_def Let_def)
  from lcsp_loop_best [OF _ _ _ this] assms(1) show ?thesis
    by (auto simp: best_def len_def)
next
  case True
  then have sq: "length sq = 1" by (simp add: len_def)
  have m: "match_len src sq k = (if k < length src \<and> src ! k = sq ! 0 then 1 else 0)" for k
    using match_len_le [of src sq k] match_len_0 [of k src sq] match_len_pos [of k src sq]
      assms(1) sq by (cases "k < length src") auto
  have idx: "idx = index_byte src (sq ! 0)" and c: "c = (idx > -1)" and l: "l = (if idx > -1 then 1 else 0)"
    using assms(2) True by (auto simp: longestCommonSubPrefix_def Let_def)
  show ?thesis
  proof (cases "idx = -1")
    case none: True
    then have "\<forall>k<length src. src ! k \<noteq> sq ! 0" using idx by (metis index_byte_none nth_mem)
    with none c l show ?thesis by (auto simp: best_def m True)
  next
    case found: False
    then have f: "0 \<le> idx" "idx < len src" "src ! nat idx = sq ! 0"
      using index_byte_some [of src "sq ! 0"] idx by auto
    then have "\<forall>k<nat idx. src ! k \<noteq> sq ! 0"
      using index_byte_first_nat [of _ src "sq ! 0"] idx by auto
    with f c l True show ?thesis by (auto simp: best_def m len_def nat_less_iff)
  qed
qed

text \<open>What the tokenizer needs of it: the match lies inside the source.\<close>

lemma longestCommonSubPrefix_bounds:
  assumes "longestCommonSubPrefix src sq = (c, idx, l)" and "sq \<noteq> []"
  shows "0 \<le> l \<and> l \<le> len sq \<and> (idx = -1 \<or> 0 \<le> idx \<and> idx + l \<le> len src)
    \<and> (c \<longrightarrow> 0 \<le> idx \<and> l = len sq) \<and> (idx = -1 \<longrightarrow> l = 0)"
proof -
  have b: "0 \<le> l" "best src sq (length src) idx (nat l)" "c \<longleftrightarrow> l = len sq"
    using longestCommonSubPrefix_best [OF assms(2,1)] by auto
  show ?thesis
  proof (cases "nat l = 0")
    case True
    with b assms(2) show ?thesis by (auto simp: best_def)
  next
    case False
    with b have "0 \<le> idx" "match_len src sq (nat idx) = nat l" "nat idx < length src"
      by (auto simp: best_def)
    moreover have "nat l \<le> length sq" "nat l \<le> length src - nat idx"
      using match_len_le [of src sq "nat idx"] calculation by auto
    ultimately show ?thesis using b False by (auto simp: len_def)
  qed
qed

text \<open>A source that starts with the first byte of the sequence matches at least that byte.\<close>

lemma longestCommonSubPrefix_pos:
  assumes "longestCommonSubPrefix src sq = (c, idx, l)" and "sq \<noteq> []"
    and "src \<noteq> []" and "src ! 0 = sq ! 0"
  shows "1 \<le> l"
proof -
  have "1 \<le> match_len src sq 0" using assms by (intro match_len_pos) auto
  moreover have "match_len src sq 0 \<le> nat l"
    using longestCommonSubPrefix_best [OF assms(2,1)] assms(3) by (auto simp: best_def)
  ultimately show ?thesis by linarith
qed

section \<open>Tag checks\<close>

definition checkTagName :: "string \<Rightarrow> config_error option" where
  "checkTagName name =
     (if name = [] then Some (NewConfigError IssueInvalidTagNameLen)
      else if int (RuneCount name) > MaxTagNameLen then Some (NewConfigError IssueInvalidTagNameLen)
      else None)"

definition checkTagConsistency :: "bool \<Rightarrow> bool \<Rightarrow> uint8 \<Rightarrow> uint8 \<Rightarrow> config_error option" where
  "checkTagConsistency isSingle isUniversal rule greed =
     (if rule > MaxRule then Some (NewConfigError IssueInvalidRule)
      else if greed > MaxGreedLevel then Some (NewConfigError IssueInvalidGreedLevel)
      else if rule \<noteq> RuleNA \<and> \<not> (isSingle \<and> isUniversal)
        then Some (NewConfigError IssueRuleInapplicable)
      else if rule = RuleNA then None
      else if rule = RuleInfraWord then
        (if greed \<noteq> NonGreedy then Some (NewConfigError IssueInvalidRule) else None)
      else if rule = RuleTagVsContent then
        (if greed = NonGreedy then Some (NewConfigError IssueInvalidRule) else None)
      else Some (NewConfigError IssueInvalidRule))"

section \<open>Properties\<close>

text \<open>
  \<open>longestCommonSubPrefix\<close> finds the best place for a sequence in a source: the length it
  returns is the longest prefix of the sequence that occurs anywhere in the source, its index
  is the first place that has it (\<open>-1\<close> if not even the first byte occurs), and the sequence
  is contained exactly when all of it matches there.
\<close>

theorem sub_prefix_is_longest:
  assumes "sq \<noteq> []" and "longestCommonSubPrefix src sq = (c, idx, l)"
  shows "0 \<le> l \<and> l \<le> len sq \<and> (\<forall>k < length src. int (match_len src sq k) \<le> l)
    \<and> (if l = 0 then idx = -1
       else 0 \<le> idx \<and> int (match_len src sq (nat idx)) = l
         \<and> (\<forall>k < nat idx. int (match_len src sq k) < l))
    \<and> (c \<longleftrightarrow> l = len sq)"
  using longestCommonSubPrefix_best [OF assms] longestCommonSubPrefix_bounds [OF assms(2,1)]
  by (auto simp: best_def len_def split: if_splits)

theorem sub_prefix_is_longest_witness:
  "longestCommonSubPrefix ''aabaabc'' ''abc'' = (True, 4, 3) \<and> match_len ''aabaabc'' ''abc'' 4 = 3"
proof -
  have "longestCommonSubPrefix ''aabaabc'' ''abc'' = (True, 4, 3)" by code_simp
  with sub_prefix_is_longest [OF _ this] show ?thesis by simp
qed

end
