(* ===== verification/Scum_Dictionary.thy ===== *)
theory Scum_Dictionary
  imports Scum_Search
begin

text \<open>
  Plans and the dictionary: the steps of an action (\<open>plan.go\<close>), the plans that
  \<open>CreateAction\<close> builds from a tag (\<open>create_action.go\<close>), and the dictionary with its
  registration methods (\<open>dictionary.go\<close>, \<open>add_tag.go\<close>, \<open>add_universal_tag.go\<close>,
  \<open>set_escape_trigger.go\<close>, \<open>set_attribute_signature.go\<close>).

  A Go function value becomes a constructor that names it: a plan is the list of its
  steps, and an action is the plan it runs, or one of the two functions \<open>ActAttribute\<close> and
  \<open>ActEscape\<close>. What the steps do is in the theory \<open>Scum_Actions\<close>.
\<close>

section \<open>Steps and plans\<close>

datatype mutator =
    DoPrepareSingleCharTag | DoCheckMultiCharTagSeq | DoWarnInvalidSequence
  | DoWarnOpenTagBeforeEOL | DoWarnCloseTagAfterStart | DoCheckCloseTag
  | DoCheckTagVsContent | DoWarnTagKeyTooLong | DoWarnTagPayloadTooLong | DoWarnUnclosedTag
  | DoCountTag | DoCountCloseTag | DoCountOpenTag | DoCountUniversalTag

datatype step =
    MutateWith mutator
  | SkipInvalidTriggerTag | SkipOpenTagBeforeEOL | SkipCloseTagAfterStart
  | InfraWordCheck | SkipUnclosedOpenTag | EmitEntireTagToken

type_synonym plan = "step list"

datatype action = ActPlan plan | ActAttributeFn | ActEscapeFn

definition AddStep :: "plan \<Rightarrow> step \<Rightarrow> plan" where
  "AddStep p s = p @ [s]"

definition addCloseTagCheck :: "tag \<Rightarrow> plan \<Rightarrow> plan" where
  "addCloseTagCheck t p =
     (let p1 = (if tag_Rule t = RuleTagVsContent
                then AddStep (AddStep p (MutateWith DoCheckTagVsContent))
                       (MutateWith DoWarnTagKeyTooLong)
                else AddStep p (MutateWith DoCheckCloseTag))
      in AddStep p1 (MutateWith DoWarnTagPayloadTooLong))"

definition singleCharNonGreedyPlan :: "tag \<Rightarrow> plan \<Rightarrow> plan" where
  "singleCharNonGreedyPlan t p =
     (let p1 = (if tag_Rule t = RuleInfraWord then AddStep p InfraWordCheck else p);
          p2 = (if IsUniversal t then AddStep p1 (MutateWith DoCountUniversalTag)
                else if IsOpening t then AddStep p1 (MutateWith DoCountOpenTag)
                else p1)
      in AddStep p2 EmitEntireTagToken)"

definition singleCharGreedyPlan :: "tag \<Rightarrow> plan \<Rightarrow> plan" where
  "singleCharGreedyPlan t p =
     (let p1 = addCloseTagCheck t p;
          p2 = AddStep p1 (MutateWith DoWarnUnclosedTag);
          p3 = AddStep p2 SkipUnclosedOpenTag;
          p4 = AddStep p3 (MutateWith DoCountTag)
      in AddStep p4 EmitEntireTagToken)"

definition singleCharGraspingPlan :: "tag \<Rightarrow> plan \<Rightarrow> plan" where
  "singleCharGraspingPlan t p =
     (let p1 = addCloseTagCheck t p;
          p2 = AddStep p1 (MutateWith DoWarnUnclosedTag);
          p3 = AddStep p2 (MutateWith DoCountTag)
      in AddStep p3 EmitEntireTagToken)"

definition singleCharUniversalPlan :: "tag \<Rightarrow> plan \<Rightarrow> plan" where
  "singleCharUniversalPlan t p =
     (if tag_Greed t = NonGreedy then singleCharNonGreedyPlan t p
      else if tag_Greed t = Greedy then singleCharGreedyPlan t p
      else if tag_Greed t = Grasping then singleCharGraspingPlan t p
      else p)"

definition singleCharOpeningPlan :: "tag \<Rightarrow> plan \<Rightarrow> plan" where
  "singleCharOpeningPlan t p =
     (let p1 = AddStep p (MutateWith DoWarnOpenTagBeforeEOL);
          p2 = AddStep p1 SkipOpenTagBeforeEOL
      in singleCharUniversalPlan t p2)"

definition closingPlan :: "tag \<Rightarrow> plan \<Rightarrow> plan" where
  "closingPlan t p =
     (let p1 = AddStep p (MutateWith DoWarnCloseTagAfterStart);
          p2 = AddStep p1 SkipCloseTagAfterStart;
          p3 = AddStep p2 (MutateWith DoCountCloseTag)
      in AddStep p3 EmitEntireTagToken)"

definition singleCharPlan :: "tag \<Rightarrow> plan \<Rightarrow> plan" where
  "singleCharPlan t p =
     (let p1 = AddStep p (MutateWith DoPrepareSingleCharTag)
      in if IsUniversal t then singleCharUniversalPlan t p1
         else if IsOpening t then singleCharOpeningPlan t p1
         else if IsClosing t then closingPlan t p1
         else p1)"

definition multiCharUniversalPlan :: "tag \<Rightarrow> plan \<Rightarrow> plan" where
  "multiCharUniversalPlan t p =
     (let p1 = (if tag_Greed t > NonGreedy then
                  let q1 = AddStep p (MutateWith DoCheckCloseTag);
                      q2 = AddStep q1 (MutateWith DoWarnUnclosedTag);
                      q3 = AddStep q2 (MutateWith DoWarnTagPayloadTooLong)
                  in if tag_Greed t = Greedy then AddStep q3 SkipUnclosedOpenTag else q3
                else p);
          p2 = (if tag_Greed t = NonGreedy then
                  (if IsUniversal t then AddStep p1 (MutateWith DoCountUniversalTag)
                   else if IsOpening t then AddStep p1 (MutateWith DoCountOpenTag)
                   else p1)
                else AddStep p1 (MutateWith DoCountTag))
      in AddStep p2 EmitEntireTagToken)"

definition multiCharOpeningPlan :: "tag \<Rightarrow> plan \<Rightarrow> plan" where
  "multiCharOpeningPlan t p =
     (let p1 = AddStep p (MutateWith DoWarnOpenTagBeforeEOL);
          p2 = AddStep p1 SkipOpenTagBeforeEOL
      in multiCharUniversalPlan t p2)"

definition multiCharPlan :: "tag \<Rightarrow> plan \<Rightarrow> plan" where
  "multiCharPlan t p =
     (let p1 = AddStep p (MutateWith DoCheckMultiCharTagSeq);
          p2 = AddStep p1 (MutateWith DoWarnInvalidSequence);
          p3 = AddStep p2 SkipInvalidTriggerTag
      in if IsUniversal t then multiCharUniversalPlan t p3
         else if IsOpening t then multiCharOpeningPlan t p3
         else if IsClosing t then closingPlan t p3
         else p3)"

definition CreateAction :: "tag \<Rightarrow> action" where
  "CreateAction t =
     (if seq_Len (tag_Seq t) = 1 then ActPlan (singleCharPlan t [])
      else ActPlan (multiCharPlan t []))"

lemmas plan_defs = AddStep_def addCloseTagCheck_def singleCharNonGreedyPlan_def
  singleCharGreedyPlan_def singleCharGraspingPlan_def singleCharUniversalPlan_def
  singleCharOpeningPlan_def closingPlan_def singleCharPlan_def multiCharUniversalPlan_def
  multiCharOpeningPlan_def multiCharPlan_def CreateAction_def Let_def

section \<open>The dictionary\<close>

text \<open>The two arrays of 256 entries are functions of the byte that indexes them.\<close>

record dictionary =
  d_Limits :: limits
  d_actions :: "char \<Rightarrow> action option"
  d_tags :: "char \<Rightarrow> tag"
  d_attrTrigger :: char
  d_attrPayloadStart :: char
  d_attrPayloadEnd :: char
  d_escapeTrigger :: char

definition dict_Tag :: "dictionary \<Rightarrow> char \<Rightarrow> tag \<times> bool" where
  "dict_Tag d c = (let t = d_tags d c in (t, seq_Len (tag_Seq t) \<noteq> 0))"

definition dict_Action :: "dictionary \<Rightarrow> char \<Rightarrow> action option" where
  "dict_Action d c = d_actions d c"

definition IsSpecial :: "dictionary \<Rightarrow> char \<Rightarrow> bool" where
  "IsSpecial d char =
     (if char = NUL then False
      else if char = d_attrTrigger d \<or> char = d_attrPayloadStart d
              \<or> char = d_attrPayloadEnd d \<or> char = d_escapeTrigger d then True
      else d_actions d char \<noteq> None)"

definition NewDictionary :: "limits \<Rightarrow> config_error + dictionary" where
  "NewDictionary l =
     (case limits_Validate l of
        Some err \<Rightarrow> Inl err
      | None \<Rightarrow>
          let dflt = (\<lambda>v k. if v = 0 then k else v) in
          Inr \<lparr>d_Limits = l
                 \<lparr>MaxAttrKeyLen := dflt (MaxAttrKeyLen l) DefaultMaxAttrKeyLen,
                  MaxAttrPayloadLen := dflt (MaxAttrPayloadLen l) DefaultMaxAttrPayloadLen,
                  MaxPayloadLen := dflt (MaxPayloadLen l) DefaultMaxPayloadLen,
                  MaxKeyLen := dflt (MaxKeyLen l) DefaultMaxKeyLen\<rparr>,
               d_actions = (\<lambda>_. None), d_tags = (\<lambda>_. zero_tag),
               d_attrTrigger = NUL, d_attrPayloadStart = NUL, d_attrPayloadEnd = NUL,
               d_escapeTrigger = NUL\<rparr>)"

text \<open>
  The registration methods change the dictionary only when they return \<open>nil\<close>, so they are
  functions to an error or the new dictionary; \<open>None\<close> is a panic.
\<close>

definition AddTag ::
  "dictionary \<Rightarrow> string \<Rightarrow> char list \<Rightarrow> uint8 \<Rightarrow> uint8 \<Rightarrow> char \<Rightarrow> char
     \<Rightarrow> (config_error + dictionary) option" where
  "AddTag d name sq greed rule openID closeID =
     (case checkTagName name of
        Some err \<Rightarrow> Some (Inl err)
      | None \<Rightarrow>
          (case NewTagSequence sq of
             Inl err \<Rightarrow> Some (Inl err)
           | Inr ts \<Rightarrow>
               let tid = seq_ID ts in
               if tag_ID (d_tags d tid) \<noteq> NUL then Some (Inl (newDuplicateTagIDError tid))
               else do {
                 s0 \<leftarrow> go_index sq 0;
                 let isSingleChar = (seq_Len ts = 1);
                 let isUniversal = (openID = s0 \<and> closeID = s0);
                 (case checkTagConsistency isSingleChar isUniversal rule greed of
                    Some err \<Rightarrow> Some (Inl err)
                  | None \<Rightarrow>
                      let t = \<lparr>tag_Name = name, tag_Greed = greed, tag_Seq = ts,
                               tag_Rule = rule, tag_OpenID = openID, tag_CloseID = closeID\<rparr>
                      in Some (Inr (d\<lparr>d_tags := (d_tags d)(tid := t),
                                      d_actions := (d_actions d)(tid := Some (CreateAction t))\<rparr>)))
               }))"

definition AddUniversalTag ::
  "dictionary \<Rightarrow> string \<Rightarrow> char list \<Rightarrow> uint8 \<Rightarrow> uint8 \<Rightarrow> (config_error + dictionary) option" where
  "AddUniversalTag d name sq greed rule = do {
     o1 \<leftarrow> go_index sq 0;
     c1 \<leftarrow> go_index sq 0;
     AddTag d name sq greed rule o1 c1
   }"

definition SetEscapeTrigger :: "dictionary \<Rightarrow> char \<Rightarrow> config_error + dictionary" where
  "SetEscapeTrigger d char =
     (if \<not> isASCIIPrintable char then Inl (NewConfigError IssueUnprintableChar)
      else if d_actions d char \<noteq> None then Inl (newDuplicateTagIDError char)
      else Inr (d\<lparr>d_escapeTrigger := char,
                  d_actions := (d_actions d)(char := Some ActEscapeFn)\<rparr>))"

definition SetAttributeSignature ::
  "dictionary \<Rightarrow> char \<Rightarrow> char \<Rightarrow> char \<Rightarrow> config_error + dictionary" where
  "SetAttributeSignature d trigger payloadStart payloadEnd =
     (if d_actions d trigger \<noteq> None then Inl (newDuplicateTagIDError trigger)
      else if trigger = payloadStart \<or> trigger = payloadEnd
        then Inl (NewConfigError IssueInvalidAttrSymbol)
      else case find (\<lambda>c. \<not> isASCIIPrintable c) [trigger, payloadStart, payloadEnd] of
        Some c \<Rightarrow> Inl (newUnprintableError c)
      | None \<Rightarrow> Inr (d\<lparr>d_attrTrigger := trigger, d_attrPayloadStart := payloadStart,
                       d_attrPayloadEnd := payloadEnd,
                       d_actions := (d_actions d)(trigger := Some ActAttributeFn)\<rparr>))"

section \<open>Well-formed dictionaries\<close>

text \<open>
  The scanning limits are positive and small enough that adding one to a position does not
  wrap; the resource limits are not negative.
\<close>

definition limits_wf :: "limits \<Rightarrow> bool" where
  "limits_wf l \<longleftrightarrow> small (MaxAttrKeyLen l) \<and> small (MaxAttrPayloadLen l)
     \<and> small (MaxPayloadLen l) \<and> small (MaxKeyLen l)
     \<and> 0 < MaxAttrKeyLen l \<and> 0 < MaxAttrPayloadLen l \<and> 0 < MaxPayloadLen l \<and> 0 < MaxKeyLen l
     \<and> 0 \<le> MaxNodes l \<and> 0 \<le> MaxAttributes l \<and> 0 \<le> MaxParseDepth l"

text \<open>The tag registered under \<open>c\<close>: its sequence starts with \<open>c\<close>, its greed and rule fit.\<close>

definition tag_wf :: "char \<Rightarrow> tag \<Rightarrow> bool" where
  "tag_wf c t \<longleftrightarrow> seq_wf (tag_Seq t) \<and> tag_ID t = c
     \<and> checkTagConsistency (tag_Len t = 1) (IsUniversal t) (tag_Rule t) (tag_Greed t) = None"

definition entry_wf :: "dictionary \<Rightarrow> char \<Rightarrow> bool" where
  "entry_wf d c \<longleftrightarrow>
     (d_tags d c = zero_tag \<or> tag_wf c (d_tags d c)) \<and>
     (case d_actions d c of
        None \<Rightarrow> d_tags d c = zero_tag
      | Some (ActPlan p) \<Rightarrow> tag_wf c (d_tags d c) \<and> ActPlan p = CreateAction (d_tags d c)
      | Some _ \<Rightarrow> d_tags d c = zero_tag \<and> isASCIIPrintable c)"

definition dict_wf :: "dictionary \<Rightarrow> bool" where
  "dict_wf d \<longleftrightarrow> limits_wf (d_Limits d) \<and> (\<forall>c. entry_wf d c)"

lemma zero_tag_simps [simp]:
  "tag_ID zero_tag = NUL" "seq_Len (tag_Seq zero_tag) = 0" "tag_Greed zero_tag = NonGreedy"
  by (simp_all add: zero_tag_def tag_ID_def seq_ID_def zero_sequence_def MaxTagLen_def)

lemma seq_wf_ID: "seq_wf s \<Longrightarrow> isASCIIPrintable (seq_ID s)"
proof -
  assume s: "seq_wf s"
  then have "seq_bytes s \<noteq> []" "seq_ID s = seq_bytes s ! 0"
    by (auto simp: seq_wf_def seq_bytes_def seq_ID_def)
  with s show ?thesis by (metis length_greater_0_conv nth_mem seq_wf_def)
qed

lemma not_printable_NUL [simp]: "\<not> isASCIIPrintable NUL"
  by (simp add: isASCIIPrintable_def NUL_def byte_def)

lemma tag_wf_ID: "tag_wf c t \<Longrightarrow> isASCIIPrintable c \<and> tag_ID t \<noteq> NUL \<and> seq_Len (tag_Seq t) \<noteq> 0"
  using seq_wf_ID [of "tag_Seq t"]
  by (auto simp: tag_wf_def tag_ID_def seq_wf_def)

lemma NewDictionary_wf:
  assumes "NewDictionary l = Inr d"
    and "small (MaxAttrKeyLen l)" "small (MaxAttrPayloadLen l)"
    and "small (MaxPayloadLen l)" "small (MaxKeyLen l)"
  shows "dict_wf d"
  using assms
  by (auto simp: NewDictionary_def limits_Validate_None dict_wf_def limits_wf_def entry_wf_def
      Let_def const_defs small_def split: option.splits)

lemma dict_wf_update:
  assumes "dict_wf d" and "d_Limits d' = d_Limits d"
    and "\<And>x. x \<noteq> c \<Longrightarrow> d_tags d' x = d_tags d x \<and> d_actions d' x = d_actions d x"
    and "entry_wf d' c"
  shows "dict_wf d'"
  unfolding dict_wf_def
proof (intro conjI allI)
  show "limits_wf (d_Limits d')" using assms(1,2) by (simp add: dict_wf_def)
  fix x show "entry_wf d' x"
  proof (cases "x = c")
    case False
    then have e: "d_tags d' x = d_tags d x" "d_actions d' x = d_actions d x"
      using assms(3) by auto
    have "entry_wf d' x = entry_wf d x" unfolding entry_wf_def e ..
    with assms(1) show ?thesis by (simp add: dict_wf_def)
  qed (use assms(4) in simp)
qed

lemma CreateAction_plan: "\<exists>p. CreateAction t = ActPlan p"
  by (simp add: CreateAction_def)

lemma AddTag_wf:
  assumes "dict_wf d" and "AddTag d name sq greed rule openID closeID = Some (Inr d')"
  shows "dict_wf d'"
proof -
  from assms(2) obtain ts t where ts: "NewTagSequence sq = Inr ts"
    and t: "t = \<lparr>tag_Name = name, tag_Greed = greed, tag_Seq = ts,
                 tag_Rule = rule, tag_OpenID = openID, tag_CloseID = closeID\<rparr>"
    and c: "checkTagConsistency (seq_Len ts = 1) (openID = sq ! 0 \<and> closeID = sq ! 0) rule greed = None"
    and d': "d' = d\<lparr>d_tags := (d_tags d)(seq_ID ts := t),
                    d_actions := (d_actions d)(seq_ID ts := Some (CreateAction t))\<rparr>"
    by (auto simp: AddTag_def Let_def go_index_def bind_eq_Some_conv
        split: option.splits sum.splits if_splits)
  have s: "seq_wf ts" "seq_ID ts = sq ! 0"
    using NewTagSequence_wf [OF ts] by (auto simp: hd_conv_nth)
  then have "tag_wf (seq_ID ts) t"
    using c by (auto simp: tag_wf_def tag_ID_def tag_Len_def IsUniversal_def t conj_commute)
  with CreateAction_plan [of t] have "entry_wf d' (seq_ID ts)"
    by (auto simp: entry_wf_def d')
  with assms(1) show ?thesis
    by (intro dict_wf_update [of d d' "seq_ID ts"]) (auto simp: d')
qed

lemma AddUniversalTag_wf:
  "dict_wf d \<Longrightarrow> AddUniversalTag d name sq greed rule = Some (Inr d') \<Longrightarrow> dict_wf d'"
  by (auto simp: AddUniversalTag_def bind_eq_Some_conv intro: AddTag_wf)

lemma entry_unregistered: "dict_wf d \<Longrightarrow> d_actions d c = None \<Longrightarrow> d_tags d c = zero_tag"
  by (auto simp: dict_wf_def entry_wf_def split: option.splits dest!: spec [of _ c])

lemma SetEscapeTrigger_wf: "dict_wf d \<Longrightarrow> SetEscapeTrigger d c = Inr d' \<Longrightarrow> dict_wf d'"
  using entry_unregistered [of d c]
  by (intro dict_wf_update [of d d' c])
     (auto simp: SetEscapeTrigger_def entry_wf_def split: if_splits)

lemma SetAttributeSignature_wf:
  "dict_wf d \<Longrightarrow> SetAttributeSignature d a b c = Inr d' \<Longrightarrow> dict_wf d'"
  using entry_unregistered [of d a]
  by (intro dict_wf_update [of d d' a])
     (auto simp: SetAttributeSignature_def entry_wf_def split: if_splits option.splits)

end
