(* ===== verification/Scum_Warnings.thy ===== *)
theory Scum_Warnings
  imports Scum_Types
begin

text \<open>
  The warning collector of \<open>warnings.go\<close>: \<open>Add\<close> under its four overflow policies, and
  \<open>NewWarnings\<close>. The interface the tokenizer and the parser use is the locale
  \<open>capped_log\<close>: a log that only grows, by at most one entry per call, and never past its
  cap; \<open>Warnings\<close> is its interpretation.
\<close>

record warning =
  w_Issue :: issue
  w_Pos :: int
  w_TagID :: char
  w_CloseTagID :: char
  w_Expected :: char
  w_Got :: char

text \<open>\<open>Warning{Issue: i, Pos: p}\<close>: the fields not named are zero.\<close>

definition mk_warning :: "issue \<Rightarrow> int \<Rightarrow> warning" where
  "mk_warning i p = \<lparr>w_Issue = i, w_Pos = p, w_TagID = NUL, w_CloseTagID = NUL,
     w_Expected = NUL, w_Got = NUL\<rparr>"

definition WarnOverflowNoCap :: int where "WarnOverflowNoCap = 0"
definition WarnOverflowNoRec :: int where "WarnOverflowNoRec = 1"
definition WarnOverflowDrop :: int where "WarnOverflowDrop = 2"
definition WarnOverflowTrunc :: int where "WarnOverflowTrunc = 3"
definition numPolicies :: int where "numPolicies = 4"

lemmas policy_defs = WarnOverflowNoCap_def WarnOverflowNoRec_def WarnOverflowDrop_def
  WarnOverflowTrunc_def numPolicies_def

record warnings =
  ws_policy :: int
  ws_list :: "warning list"
  ws_maxWarnings :: int
  ws_overflowed :: bool
  ws_droppedCount :: int
  ws_firstDropPos :: int

definition IsOverflow :: "warnings \<Rightarrow> bool" where
  "IsOverflow w = ws_overflowed w"

definition DroppedCount :: "warnings \<Rightarrow> int" where
  "DroppedCount w = ws_droppedCount w"

definition FirstDropPos :: "warnings \<Rightarrow> int" where
  "FirstDropPos w = ws_firstDropPos w"

definition warnings_List :: "warnings \<Rightarrow> warning list" where
  "warnings_List w = ws_list w"

definition Add :: "warnings \<Rightarrow> warning \<Rightarrow> warnings" where
  "Add w item =
     (if ws_policy w = WarnOverflowNoRec then w
      else if ws_policy w = WarnOverflowNoCap then w\<lparr>ws_list := ws_list w @ [item]\<rparr>
      else if ws_overflowed w then
        (if ws_policy w = WarnOverflowTrunc
         then w\<lparr>ws_droppedCount := ws_droppedCount w + 1\<rparr> else w)
      else
        let limit = (if ws_policy w = WarnOverflowTrunc then max (ws_maxWarnings w - 1) 0
                     else ws_maxWarnings w)
        in if len (ws_list w) < limit then w\<lparr>ws_list := ws_list w @ [item]\<rparr>
           else
             let w1 = w\<lparr>ws_overflowed := True, ws_firstDropPos := w_Pos item\<rparr>
             in if ws_policy w = WarnOverflowTrunc then
                  let w2 = w1\<lparr>ws_droppedCount := 1\<rparr>
                  in if ws_maxWarnings w > 0
                     then w2\<lparr>ws_list := ws_list w2
                            @ [mk_warning IssueWarningsTruncated (ws_firstDropPos w2)]\<rparr>
                     else w2
                else w1)"

definition NewWarnings :: "int \<Rightarrow> int \<Rightarrow> config_error + warnings" where
  "NewWarnings policy cap =
     (if policy < 0 \<or> policy > numPolicies - 1
      then Inl (NewConfigError IssueInvalidWarningsPolicy)
      else if cap < 0 then Inl (NewConfigError IssueNegativeWarningsCap)
      else Inr \<lparr>ws_policy = policy, ws_list = [], ws_maxWarnings = cap,
             ws_overflowed = False, ws_droppedCount = 0, ws_firstDropPos = 0\<rparr>)"

section \<open>The interface of a capped log\<close>

text \<open>
  What the users of a log rely on: \<open>cap\<close> is fixed (\<open>None\<close> for no cap), an entry once
  recorded stays where it is, and a well-formed log is within its cap.
\<close>

locale capped_log =
  fixes add :: "'w \<Rightarrow> 'a \<Rightarrow> 'w"
    and entries :: "'w \<Rightarrow> 'a list"
    and cap :: "'w \<Rightarrow> nat option"
    and wf :: "'w \<Rightarrow> bool"
  assumes wf_add: "wf w \<Longrightarrow> wf (add w x)"
    and cap_add: "cap (add w x) = cap w"
    and grows: "\<exists>ys. entries (add w x) = entries w @ ys \<and> length ys \<le> 1"
    and within: "wf w \<Longrightarrow> cap w = Some n \<Longrightarrow> length (entries w) \<le> n"
begin

lemma wf_adds: "wf w \<Longrightarrow> wf (foldl add w xs)"
  by (induction xs arbitrary: w) (auto intro: wf_add)

lemma cap_adds: "cap (foldl add w xs) = cap w"
  by (induction xs arbitrary: w) (auto simp: cap_add)

lemma adds_extend: "\<exists>ys. entries (foldl add w xs) = entries w @ ys \<and> length ys \<le> length xs"
proof (induction xs arbitrary: w)
  case (Cons x xs)
  obtain ys where ys: "entries (add w x) = entries w @ ys" "length ys \<le> 1"
    using grows by blast
  obtain zs where "entries (foldl add (add w x) xs) = entries (add w x) @ zs"
    and "length zs \<le> length xs" using Cons by blast
  with ys show ?case by (intro exI [of _ "ys @ zs"]) simp
qed simp

lemma adds_within: "wf w \<Longrightarrow> cap w = Some n \<Longrightarrow> length (entries (foldl add w xs)) \<le> n"
  using within [OF wf_adds] by (simp add: cap_adds)

end

section \<open>The collector is a capped log\<close>

definition warnings_wf :: "warnings \<Rightarrow> bool" where
  "warnings_wf w \<longleftrightarrow> 0 \<le> ws_policy w \<and> ws_policy w < numPolicies \<and> 0 \<le> ws_maxWarnings w
     \<and> 0 \<le> ws_droppedCount w
     \<and> (ws_policy w = WarnOverflowNoRec \<longrightarrow> ws_list w = [])
     \<and> (ws_policy w = WarnOverflowDrop \<longrightarrow> len (ws_list w) \<le> ws_maxWarnings w)
     \<and> (ws_policy w = WarnOverflowTrunc \<longrightarrow>
          len (ws_list w) \<le>
            (if ws_overflowed w then ws_maxWarnings w else max (ws_maxWarnings w - 1) 0))"

definition warnings_cap :: "warnings \<Rightarrow> nat option" where
  "warnings_cap w =
     (if ws_policy w = WarnOverflowNoCap then None
      else if ws_policy w = WarnOverflowNoRec then Some 0
      else Some (nat (ws_maxWarnings w)))"

lemma Add_frame [simp]:
  "ws_policy (Add w x) = ws_policy w" "ws_maxWarnings (Add w x) = ws_maxWarnings w"
  by (simp_all add: Add_def Let_def)

lemma Add_wf: "warnings_wf w \<Longrightarrow> warnings_wf (Add w x)"
  by (auto simp: warnings_wf_def Add_def Let_def policy_defs split: if_splits)

lemma Add_grows: "\<exists>ys. ws_list (Add w x) = ws_list w @ ys \<and> length ys \<le> 1"
  by (auto simp: Add_def Let_def)

lemma warnings_wf_within:
  "warnings_wf w \<Longrightarrow> warnings_cap w = Some n \<Longrightarrow> length (ws_list w) \<le> n"
  by (auto simp: warnings_wf_def warnings_cap_def policy_defs len_def split: if_splits)

interpretation wlog: capped_log Add ws_list warnings_cap warnings_wf
  by unfold_locales (use Add_grows in \<open>auto simp: Add_wf warnings_wf_within warnings_cap_def\<close>)

lemma NewWarnings_wf: "NewWarnings p c = Inr w \<Longrightarrow> warnings_wf w"
  by (auto simp: NewWarnings_def warnings_wf_def policy_defs split: if_splits)

section \<open>What a collector holds after a sequence of additions\<close>

text \<open>The collector of the policy and cap, as a function of everything that was added.\<close>

definition collected :: "int \<Rightarrow> nat \<Rightarrow> warning list \<Rightarrow> warnings" where
  "collected p c xs =
     (let keep = (if p = WarnOverflowTrunc then c - 1 else c);
          over = keep < length xs
      in if p = WarnOverflowNoRec \<or> p = WarnOverflowNoCap then
           \<lparr>ws_policy = p, ws_list = (if p = WarnOverflowNoCap then xs else []),
            ws_maxWarnings = int c, ws_overflowed = False, ws_droppedCount = 0,
            ws_firstDropPos = 0\<rparr>
         else
           \<lparr>ws_policy = p,
            ws_list = take keep xs @
              (if over \<and> p = WarnOverflowTrunc \<and> 0 < c
               then [mk_warning IssueWarningsTruncated (w_Pos (xs ! keep))] else []),
            ws_maxWarnings = int c, ws_overflowed = over,
            ws_droppedCount = (if over \<and> p = WarnOverflowTrunc
                               then int (length xs - keep) else 0),
            ws_firstDropPos = (if over then w_Pos (xs ! keep) else 0)\<rparr>)"

lemma collected_Nil: "0 \<le> p \<Longrightarrow> p < numPolicies \<Longrightarrow> NewWarnings p (int c) = Inr (collected p c [])"
  by (auto simp: NewWarnings_def collected_def Let_def policy_defs)

lemma collected_Add:
  assumes "0 \<le> p" and "p < numPolicies"
  shows "Add (collected p c xs) x = collected p c (xs @ [x])"
proof -
  have simple: "Add (collected p c xs) x = collected p c (xs @ [x])" if "p \<noteq> 3"
    using that assms
    by (cases "length xs" c rule: linorder_cases)
       (auto simp: Add_def collected_def Let_def policy_defs len_def nth_append)
  have trunc0: "Add (collected 3 0 xs) x = collected 3 0 (xs @ [x])"
    by (cases xs) (auto simp: Add_def collected_def Let_def policy_defs)
  have trunc: "Add (collected 3 (Suc k) xs) x = collected 3 (Suc k) (xs @ [x])" for k
    by (cases "length xs" k rule: linorder_cases)
       (auto simp: Add_def collected_def Let_def policy_defs len_def nth_append Suc_diff_le)
  show ?thesis
    using simple trunc0 trunc by (cases "p = 3"; cases c) auto
qed

lemma collected_adds: "0 \<le> p \<Longrightarrow> p < numPolicies \<Longrightarrow>
    foldl Add (collected p c xs) ys = collected p c (xs @ ys)"
  by (induction ys arbitrary: xs) (simp_all add: collected_Add)

section \<open>Properties\<close>

text \<open>
  C40: a new collector that was given a sequence of warnings is what its policy says of the
  sequence: all of it without a cap, none of it under \<open>NoRec\<close>, its first \<open>cap\<close> under \<open>Drop\<close>
  and, under \<open>Trunc\<close>, its first \<open>cap - 1\<close> with one entry that marks the position of the first
  one dropped; and \<open>droppedCount\<close> and \<open>firstDropPos\<close> are those of the dropped part.
\<close>

theorem collector_holds:
  assumes "NewWarnings p (int c) = Inr w"
  shows "foldl Add w xs = collected p c xs"
proof -
  have p: "0 \<le> p" "p < numPolicies" using assms by (auto simp: NewWarnings_def split: if_splits)
  then have "w = collected p c []" using assms collected_Nil [of p c] by simp
  with collected_adds [OF p, of c "[]" xs] show ?thesis by simp
qed

theorem collector_holds_witness:
  "foldl Add (collected 3 2 []) [mk_warning IssueUnclosedTag 1, mk_warning IssueUnclosedTag 5,
     mk_warning IssueUnclosedTag 9] =
   collected 3 2 [mk_warning IssueUnclosedTag 1, mk_warning IssueUnclosedTag 5, mk_warning IssueUnclosedTag 9]"
  by (rule collector_holds) (simp add: NewWarnings_def collected_def policy_defs Let_def)

end
