(* ===== verification/Scum_Demo.thy ===== *)
theory Scum_Demo
  imports Scum_Dictionary Scum_Warnings
begin

text \<open>
  A small dictionary for the concrete evaluations: a universal tag \<open>$$\<close> of two bytes, a
  single-byte universal tag \<open>*\<close> under the intra-word rule, a greedy code tag \<open>`\<close> under the
  tag-against-content rule, a pair \<open>[\<close> \<open>]\<close>, attributes \<open>!key{payload}\<close> and the escape
  \<open>\\<close>. It is built by the registration methods.
\<close>

definition code_char :: char where "code_char = CHR 0x60"
definition escape_char :: char where "escape_char = CHR 0x5C"

text \<open>The unicode tables are parameters; for the demo no rune is a letter.\<close>

definition demo_unicode :: unicode where
  "demo_unicode = \<lparr>IsLetter = (\<lambda>_. False), IsNumber = (\<lambda>_. False), IsPunct = (\<lambda>_. False)\<rparr>"

definition lift_reg :: "config_error + dictionary \<Rightarrow> dictionary option" where
  "lift_reg r = (case r of Inl _ \<Rightarrow> None | Inr d \<Rightarrow> Some d)"

definition register_demo :: "limits \<Rightarrow> dictionary option" where
  "register_demo l = do {
     d0 \<leftarrow> lift_reg (NewDictionary l);
     r1 \<leftarrow> AddUniversalTag d0 ''BOLD'' ''$$'' NonGreedy RuleNA;
     d1 \<leftarrow> lift_reg r1;
     r2 \<leftarrow> AddUniversalTag d1 ''ITALIC'' ''*'' NonGreedy RuleInfraWord;
     d2 \<leftarrow> lift_reg r2;
     r3 \<leftarrow> AddUniversalTag d2 ''CODE'' [code_char] Greedy RuleTagVsContent;
     d3 \<leftarrow> lift_reg r3;
     r4 \<leftarrow> AddTag d3 ''LINK_START'' ''['' NonGreedy RuleNA NUL (CHR '']'');
     d4 \<leftarrow> lift_reg r4;
     r5 \<leftarrow> AddTag d4 ''LINK_END'' '']'' NonGreedy RuleNA (CHR ''['') NUL;
     d5 \<leftarrow> lift_reg r5;
     d6 \<leftarrow> lift_reg (SetAttributeSignature d5 (CHR ''!'') (CHR ''{'') (CHR ''}''));
     lift_reg (SetEscapeTrigger d6 escape_char)
   }"

definition demo_limits :: limits where
  "demo_limits = no_limits"

definition demo :: dictionary where
  "demo = (case register_demo demo_limits of Some d \<Rightarrow> d | None \<Rightarrow>
     \<lparr>d_Limits = no_limits, d_actions = (\<lambda>_. None), d_tags = (\<lambda>_. zero_tag), d_attrTrigger = NUL,
      d_attrPayloadStart = NUL, d_attrPayloadEnd = NUL, d_escapeTrigger = NUL\<rparr>)"

lemma demo_registered: "register_demo demo_limits = Some demo"
  unfolding demo_def by code_simp

lemma lift_reg_Some: "lift_reg r = Some d \<longleftrightarrow> r = Inr d"
  by (cases r) (auto simp: lift_reg_def)

lemma register_demo_wf:
  assumes "register_demo l = Some d"
    and "small (MaxAttrKeyLen l)" "small (MaxAttrPayloadLen l)"
    and "small (MaxPayloadLen l)" "small (MaxKeyLen l)"
  shows "dict_wf d"
proof -
  from assms(1) obtain d0 d1 d2 d3 d4 d5 d6 where
    "NewDictionary l = Inr d0"
    "AddUniversalTag d0 ''BOLD'' ''$$'' NonGreedy RuleNA = Some (Inr d1)"
    "AddUniversalTag d1 ''ITALIC'' ''*'' NonGreedy RuleInfraWord = Some (Inr d2)"
    "AddUniversalTag d2 ''CODE'' [code_char] Greedy RuleTagVsContent = Some (Inr d3)"
    "AddTag d3 ''LINK_START'' ''['' NonGreedy RuleNA NUL (CHR '']'') = Some (Inr d4)"
    "AddTag d4 ''LINK_END'' '']'' NonGreedy RuleNA (CHR ''['') NUL = Some (Inr d5)"
    "SetAttributeSignature d5 (CHR ''!'') (CHR ''{'') (CHR ''}'') = Inr d6"
    "SetEscapeTrigger d6 escape_char = Inr d"
    unfolding register_demo_def bind_eq_Some_conv lift_reg_Some by blast
  with assms(2-5) show ?thesis
    by (meson NewDictionary_wf AddUniversalTag_wf AddTag_wf SetAttributeSignature_wf SetEscapeTrigger_wf)
qed

lemma demo_wf: "dict_wf demo"
  using register_demo_wf [OF demo_registered]
  by (simp add: demo_limits_def no_limits_def small_def)

text \<open>A collector without a cap, and inputs for the evaluations.\<close>

definition demo_log :: warnings where
  "demo_log = \<lparr>ws_policy = WarnOverflowNoCap, ws_list = [], ws_maxWarnings = 0,
     ws_overflowed = False, ws_droppedCount = 0, ws_firstDropPos = 0\<rparr>"

definition demo_input :: string where
  "demo_input = ''a$$b*c*$$[x]!href{y}''"

lemma demo_input_small: "small (len demo_input)"
  by (simp add: demo_input_def small_def len_def)

end
