(* ===== verification/Scum_Dictionary_Props.thy ===== *)
theory Scum_Dictionary_Props
  imports Scum_Demo
begin

text \<open>
  Registration: what the methods of the dictionary keep, exactly when \<open>AddTag\<close> accepts a tag,
  and two cases that its checks miss.
\<close>

text \<open>
  C37: every dictionary made by \<open>NewDictionary\<close> and the registration methods is well-formed:
  its scanning limits are positive, and every entry is empty, a tag under its own first byte
  with the plan made for it and a consistent rule and greed, or a printable escape or
  attribute trigger. The configured scanning limits are below \<open>2 ^ 61\<close>.
\<close>

theorem registration_keeps_wf:
  assumes "NewDictionary l = Inr d0"
    and "small (MaxAttrKeyLen l)" "small (MaxAttrPayloadLen l)" "small (MaxPayloadLen l)" "small (MaxKeyLen l)"
  shows "dict_wf d0 \<and> (\<forall>d. dict_wf d \<longrightarrow>
     (\<forall>name sq greed rule o' c' d'. AddTag d name sq greed rule o' c' = Some (Inr d') \<longrightarrow> dict_wf d')
     \<and> (\<forall>name sq greed rule d'. AddUniversalTag d name sq greed rule = Some (Inr d') \<longrightarrow> dict_wf d')
     \<and> (\<forall>c d'. SetEscapeTrigger d c = Inr d' \<longrightarrow> dict_wf d')
     \<and> (\<forall>t s e d'. SetAttributeSignature d t s e = Inr d' \<longrightarrow> dict_wf d'))"
proof (intro conjI allI impI)
  show "dict_wf d0" by (rule NewDictionary_wf [OF assms])
qed (rule AddTag_wf AddUniversalTag_wf SetEscapeTrigger_wf SetAttributeSignature_wf; assumption)+

theorem registration_keeps_wf_witness:
  "\<exists>d0. NewDictionary no_limits = Inr d0 \<and> dict_wf d0"
proof -
  have v: "limits_Validate no_limits = None" by code_simp
  have sm: "small (MaxAttrKeyLen no_limits)" "small (MaxAttrPayloadLen no_limits)"
    "small (MaxPayloadLen no_limits)" "small (MaxKeyLen no_limits)"
    by (simp_all add: no_limits_def small_def)
  obtain d0 where d0: "NewDictionary no_limits = Inr d0"
    by (simp add: NewDictionary_def v Let_def)
  show ?thesis
    using d0 registration_keeps_wf [OF d0 sm, THEN conjunct1] by blast
qed

text \<open>
  What the documents of the package (\<open>dictionary.go:180\<close>, \<open>tag.go\<close>) list as reasons to refuse a tag,
  each with its issue: the length of the name in runes, the length and the bytes of the sequence,
  a tag that has the same first byte, a rule or a greed out of its range, a rule on a tag that is
  not universal of one byte, the intra-word rule on a greedy tag, and the tag-vs-content rule on
  one that is not.
\<close>

definition tag_refusal ::
  "dictionary \<Rightarrow> string \<Rightarrow> char list \<Rightarrow> uint8 \<Rightarrow> uint8 \<Rightarrow> char \<Rightarrow> char \<Rightarrow> issue option" where
  "tag_refusal d name sq greed rule openID closeID =
     (if RuneCount name = 0 \<or> 20 < RuneCount name then Some IssueInvalidTagNameLen
      else if sq = [] \<or> 4 < length sq then Some IssueInvalidTagSeqLen
      else if \<not> list_all isASCIIPrintable sq then Some IssueUnprintableChar
      else if tag_ID (d_tags d (hd sq)) \<noteq> NUL then Some IssueDuplicateTagID
      else if 2 < rule then Some IssueInvalidRule
      else if 2 < greed then Some IssueInvalidGreedLevel
      else if rule \<noteq> 0 \<and> \<not> (sq = [openID] \<and> closeID = openID) then Some IssueRuleInapplicable
      else if rule = 1 \<and> greed \<noteq> 0 then Some IssueInvalidRule
      else if rule = 2 \<and> greed = 0 then Some IssueInvalidRule
      else None)"

lemma RuneCount_pos: "s \<noteq> [] \<Longrightarrow> 1 \<le> RuneCount s"
  by (subst RuneCount.simps) simp

lemma checkTagName_None: "checkTagName name = None \<longleftrightarrow> 1 \<le> RuneCount name \<and> RuneCount name \<le> 20"
  using RuneCount_pos [of name] by (auto simp: checkTagName_def const_defs)

lemma checkTagName_Some: "checkTagName name = Some e \<Longrightarrow> e = ConfigError IssueInvalidTagNameLen"
  by (auto simp: checkTagName_def error_defs split: if_splits)

lemma RuneCount_nil: "RuneCount name = 0 \<longleftrightarrow> name = []"
  using RuneCount_pos [of name] by (auto simp: RuneCount.simps)

text \<open>The rule and the greed, as the last checks see them.\<close>

lemma uint8_upto_2: "2 < (x :: uint8) \<or> x = 0 \<or> x = 1 \<or> x = 2"
proof -
  have "unat x = 0 \<or> unat x = 1 \<or> unat x = 2 \<or> 2 < unat x" by linarith
  then show ?thesis by (auto simp: word_less_nat_alt word_unat_eq_iff)
qed

lemma checkTagConsistency_refusal:
  "checkTagConsistency (length sq = 1) (openID = sq ! 0 \<and> closeID = sq ! 0) rule greed
   = map_option ConfigError
     (if 2 < rule then Some IssueInvalidRule
      else if 2 < greed then Some IssueInvalidGreedLevel
      else if rule \<noteq> 0 \<and> \<not> (sq = [openID] \<and> closeID = openID) then Some IssueRuleInapplicable
      else if rule = 1 \<and> greed \<noteq> 0 then Some IssueInvalidRule
      else if rule = 2 \<and> greed = 0 then Some IssueInvalidRule
      else None)"
proof -
  have one: "(length sq = 1 \<and> openID = sq ! 0 \<and> closeID = sq ! 0) \<longleftrightarrow> sq = [openID] \<and> closeID = openID"
    by (cases sq) auto
  have c: "MaxRule = 2" "MaxGreedLevel = 2" "RuleNA = 0" "RuleInfraWord = 1" "RuleTagVsContent = 2" "NonGreedy = 0"
    by (simp_all add: const_defs enum_defs)
  consider "2 < rule" | "rule = 0" | "rule = 1" | "rule = 2" using uint8_upto_2 [of rule] by blast
  then show ?thesis
    unfolding checkTagConsistency_def one c NewConfigError_def by cases simp_all
qed

text \<open>
  C38: \<open>AddTag\<close> refuses a tag exactly for the reasons the documents list, each with its documented
  issue: a name without or with more than twenty runes, an empty sequence or one of more than four
  bytes, a byte that is not printable ASCII, a tag with the same first byte, a rule or greed out of
  range or not fit for the tag. Otherwise it stores the tag and the plan made for it under that
  byte and changes nothing else. It never panics. The documents also ask that triggers are unique;
  that is checked among the tags only, so a tag on the byte of the escape or of the attributes is
  accepted and replaces its action, as \<open>AddTag_replaces_escape\<close> below shows.
\<close>

theorem AddTag_accepts:
  "case tag_refusal d name sq greed rule openID closeID of
     Some i \<Rightarrow> AddTag d name sq greed rule openID closeID = Some (Inl (ConfigError i))
   | None \<Rightarrow> \<exists>ts. NewTagSequence sq = Inr ts \<and> seq_bytes ts = sq \<and>
     (let t = \<lparr>tag_Name = name, tag_Greed = greed, tag_Seq = ts, tag_Rule = rule,
               tag_OpenID = openID, tag_CloseID = closeID\<rparr>
      in AddTag d name sq greed rule openID closeID =
           Some (Inr (d\<lparr>d_tags := (d_tags d)(hd sq := t),
                        d_actions := (d_actions d)(hd sq := Some (CreateAction t))\<rparr>)))"
proof (cases "checkTagName name")
  case (Some e)
  then have "RuneCount name = 0 \<or> 20 < RuneCount name" using checkTagName_None [of name] by auto
  then show ?thesis using checkTagName_Some [OF Some] Some by (auto simp: tag_refusal_def AddTag_def)
next
  case None
  then have name: "RuneCount name \<noteq> 0" "\<not> 20 < RuneCount name" using checkTagName_None [of name] by auto
  show ?thesis
  proof (cases "NewTagSequence sq")
    case (Inl e)
    then have "if sq = [] \<or> 4 < length sq then e = ConfigError IssueInvalidTagSeqLen
        else \<not> list_all isASCIIPrintable sq \<and> e = ConfigError IssueUnprintableChar"
      using NewTagSequence_spec [of sq]
      by (auto simp: len_def const_defs error_defs list_all_iff Suc_le_eq split: if_splits)
    then show ?thesis using Inl None name by (auto simp: tag_refusal_def AddTag_def split: if_splits)
  next
    case (Inr ts)
    have ts: "seq_wf ts" "seq_bytes ts = sq" "seq_ID ts = sq ! 0" "sq \<noteq> []"
      using NewTagSequence_wf [OF Inr] by (auto simp: hd_conv_nth)
    then have sq: "length sq \<le> 4" "list_all isASCIIPrintable sq" and hd: "sq ! 0 = hd sq"
      by (auto simp: seq_wf_def seq_bytes_def list_all_iff hd_conv_nth)
    have "unat (seq_Len ts) = length sq" using ts by (auto simp: seq_wf_def seq_bytes_def)
    then have one: "seq_Len ts = 1 \<longleftrightarrow> length sq = 1" by (simp add: word_unat_eq_iff)
    have index: "go_index sq 0 = Some (sq ! 0)" using ts(4) by (simp add: go_index_def len_def)
    have run: "AddTag d name sq greed rule openID closeID =
        (if tag_ID (d_tags d (hd sq)) \<noteq> NUL then Some (Inl (ConfigError IssueDuplicateTagID))
         else case checkTagConsistency (length sq = 1) (openID = sq ! 0 \<and> closeID = sq ! 0) rule greed of
            Some e \<Rightarrow> Some (Inl e)
          | None \<Rightarrow> let t = \<lparr>tag_Name = name, tag_Greed = greed, tag_Seq = ts, tag_Rule = rule,
                 tag_OpenID = openID, tag_CloseID = closeID\<rparr>
              in Some (Inr (d\<lparr>d_tags := (d_tags d)(hd sq := t),
                        d_actions := (d_actions d)(hd sq := Some (CreateAction t))\<rparr>)))"
      using ts index None Inr one hd by (simp add: AddTag_def Let_def error_defs split: option.split)
    show ?thesis
      unfolding run checkTagConsistency_refusal using name ts Inr sq by (auto simp: tag_refusal_def Let_def)
  qed
qed

text \<open>The demo accepts a universal tag on a new byte, and refuses a second one on its byte.\<close>

lemma demo_refusals:
  "tag_refusal demo ''QUOTE'' ''>'' NonGreedy RuleInfraWord (CHR ''>'') (CHR ''>'') = None"
  "tag_refusal demo ''BOLD'' ''$'' NonGreedy RuleNA (CHR ''$'') (CHR ''$'') = Some IssueDuplicateTagID"
  by code_simp+

lemma AddTag_accepts_witness:
  "(\<exists>d. AddTag demo ''QUOTE'' ''>'' NonGreedy RuleInfraWord (CHR ''>'') (CHR ''>'') = Some (Inr d)
      \<and> tag_Name (d_tags d (CHR ''>'')) = ''QUOTE'')
   \<and> AddTag demo ''BOLD'' ''$'' NonGreedy RuleNA (CHR ''$'') (CHR ''$'') = Some (Inl (ConfigError IssueDuplicateTagID))"
  using AddTag_accepts [where d = demo and name = "''QUOTE''" and sq = "''>''" and greed = NonGreedy
      and rule = RuleInfraWord and openID = "CHR ''>''" and closeID = "CHR ''>''"]
    AddTag_accepts [where d = demo and name = "''BOLD''" and sq = "''$''" and greed = NonGreedy
      and rule = RuleNA and openID = "CHR ''$''" and closeID = "CHR ''$''"]
  by (auto simp: demo_refusals Let_def)

text \<open>
  \<open>AddUniversalTag\<close> panics on an empty sequence: it reads the first byte before \<open>AddTag\<close>
  can refuse the sequence with \<open>IssueInvalidTagSeqLen\<close>.
\<close>

theorem AddUniversalTag_empty_panics:
  "AddUniversalTag d name [] greed rule = None
   \<and> AddTag demo ''X'' [] greed rule openID closeID = Some (Inl (NewConfigError IssueInvalidTagSeqLen))"
proof
  have "checkTagName ''X'' = None" by code_simp
  then show "AddTag demo ''X'' [] greed rule openID closeID = Some (Inl (NewConfigError IssueInvalidTagSeqLen))"
    by (simp add: AddTag_def NewTagSequence_def newEmptySequenceError_def const_defs)
qed (simp add: AddUniversalTag_def go_index_def)

text \<open>
  The duplicate check of \<open>AddTag\<close> looks at the tags only, so a tag registered under the
  escape trigger replaces the escape action, while \<open>SetEscapeTrigger\<close> refuses a byte that
  already has an action.
\<close>

theorem AddTag_replaces_escape:
  "d_actions demo escape_char = Some ActEscapeFn
   \<and> (case AddUniversalTag demo ''X'' [escape_char] NonGreedy RuleNA of
        Some (Inr d) \<Rightarrow> d_actions d escape_char \<noteq> Some ActEscapeFn \<and> d_escapeTrigger d = escape_char
      | _ \<Rightarrow> False)
   \<and> SetEscapeTrigger demo (CHR ''*'') = Inl (newDuplicateTagIDError (CHR ''*''))"
  by code_simp

end
