(* ===== verification/Scum_Actions.thy ===== *)
theory Scum_Actions
  imports Scum_Dictionary Scum_Warnings
begin

text \<open>
  What a step does: the action context of \<open>plan.go\<close>, one definition per mutator and step
  (\<open>prepare_single_char_tag.go\<close>, \<open>check_*.go\<close>, \<open>warn_*.go\<close>, \<open>step_*.go\<close>, the counters
  of \<open>create_action.go\<close>), the execution of a plan, and the two functions \<open>ActEscape\<close> and
  \<open>ActAttribute\<close>. A mutator maps a context to a context, a step also says whether it
  handled the case, and \<open>None\<close> is a run-time panic. The loops are
  \<^theory_text>\<open>partial_function (option)\<close>, so that a loop that does not end would be \<open>None\<close> too.
\<close>

section \<open>The action context\<close>

record tokenizer_state =
  ts_TagsTotal :: int
  ts_UniversalTags :: int
  ts_OpenTags :: int
  ts_CloseTags :: int
  ts_Attributes :: int

definition zero_state :: tokenizer_state where
  "zero_state = \<lparr>ts_TagsTotal = 0, ts_UniversalTags = 0, ts_OpenTags = 0,
     ts_CloseTags = 0, ts_Attributes = 0\<rparr>"

record bounds =
  bnd_Raw :: span
  bnd_Inner :: span
  bnd_Closed :: bool
  bnd_Width :: int
  bnd_CloseWidth :: int
  bnd_CloseIdx :: int
  bnd_SeqValid :: bool
  bnd_KeyLenLimitReached :: bool
  bnd_PayloadLimitReached :: bool

definition Bounds_Reset :: "int \<Rightarrow> bounds" where
  "Bounds_Reset i = \<lparr>bnd_Raw = mk_span i (i + 1), bnd_Inner = mk_span i i, bnd_Closed = False,
     bnd_Width = 1, bnd_CloseWidth = 0, bnd_CloseIdx = -1, bnd_SeqValid = False,
     bnd_KeyLenLimitReached = False, bnd_PayloadLimitReached = False\<rparr>"

record action_context =
  ac_Tag :: tag
  ac_Dictionary :: dictionary
  ac_State :: tokenizer_state
  ac_Warns :: warnings
  ac_Bounds :: bounds
  ac_Trigger :: char
  ac_Input :: string
  ac_Idx :: int
  ac_Token :: token
  ac_Stride :: int
  ac_Skip :: bool

definition ActionContext_Reset :: "action_context \<Rightarrow> char \<Rightarrow> int \<Rightarrow> action_context" where
  "ActionContext_Reset ac char i = ac\<lparr>ac_Tag := d_tags (ac_Dictionary ac) char, ac_Idx := i,
     ac_Token := zero_token, ac_Stride := 0, ac_Skip := False, ac_Trigger := char,
     ac_Bounds := Bounds_Reset i\<rparr>"

definition NewActionContext ::
  "dictionary \<Rightarrow> tokenizer_state \<Rightarrow> warnings \<Rightarrow> string \<Rightarrow> char \<Rightarrow> int \<Rightarrow> action_context" where
  "NewActionContext d s w input char i =
     \<lparr>ac_Tag = d_tags d char, ac_Dictionary = d, ac_State = s, ac_Warns = w,
      ac_Bounds = Bounds_Reset i, ac_Trigger = char, ac_Input = input, ac_Idx = i,
      ac_Token = zero_token, ac_Stride = 0, ac_Skip = False\<rparr>"

definition ac_warn :: "action_context \<Rightarrow> warning \<Rightarrow> action_context" where
  "ac_warn ac w = ac\<lparr>ac_Warns := Add (ac_Warns ac) w\<rparr>"

section \<open>Mutators\<close>

definition PrepareSingleCharTag :: "action_context \<Rightarrow> action_context option" where
  "PrepareSingleCharTag ac = Some (ac\<lparr>ac_Bounds := (ac_Bounds ac)
     \<lparr>bnd_Width := 1, bnd_Raw := NewSpan (ac_Idx ac) 1, bnd_Inner := NewSpan (ac_Idx ac + 1) 0,
      bnd_SeqValid := True\<rparr>\<rparr>)"

definition CheckMultiCharTagSeq :: "action_context \<Rightarrow> action_context option" where
  "CheckMultiCharTagSeq ac = do {
     let i = ac_Idx ac;
     let expectedLastCharIdx = i + uint (seq_Len (tag_Seq (ac_Tag ac)));
     let seqEnd = min (len (ac_Input ac)) expectedLastCharIdx;
     sub \<leftarrow> go_slice (ac_Input ac) i seqEnd;
     let (contained, _, l) = IsContainedIn (tag_Seq (ac_Tag ac)) sub;
     Some (ac\<lparr>ac_Bounds := (ac_Bounds ac)
       \<lparr>bnd_SeqValid := contained, bnd_Width := l, bnd_Raw := NewSpan i l,
        bnd_Inner := NewSpan (i + l) 0\<rparr>\<rparr>)
   }"

definition WarnInvalidSequence :: "action_context \<Rightarrow> action_context option" where
  "WarnInvalidSequence ac =
     (let w = bnd_Width (ac_Bounds ac); i = ac_Idx ac in
      if bnd_SeqValid (ac_Bounds ac) \<or> w \<ge> MaxTagLen then Some ac
      else do {
        expected \<leftarrow> go_index (seq_Bytes (tag_Seq (ac_Tag ac))) w;
        got \<leftarrow> go_index (ac_Input ac) (i + w - 1);
        Some (ac_warn ac ((mk_warning IssueUnexpectedSymbol (i + w))
          \<lparr>w_TagID := tag_ID (ac_Tag ac), w_Expected := expected, w_Got := got\<rparr>))
      })"

definition WarnOpenTagBeforeEOL :: "action_context \<Rightarrow> action_context option" where
  "WarnOpenTagBeforeEOL ac =
     (let n = len (ac_Input ac); w = bnd_Width (ac_Bounds ac) in
      if ac_Idx ac + w < n \<or> \<not> IsOpening (ac_Tag ac) then Some ac
      else Some (ac_warn ac ((mk_warning IssueUnexpectedEOL n)\<lparr>w_TagID := tag_ID (ac_Tag ac)\<rparr>)))"

definition WarnCloseTagAfterStart :: "action_context \<Rightarrow> action_context option" where
  "WarnCloseTagAfterStart ac =
     (if ac_Idx ac \<noteq> 0 \<or> \<not> IsClosing (ac_Tag ac) then Some ac
      else Some (ac_warn ac ((mk_warning IssueMisplacedClosingTag (ac_Idx ac))
             \<lparr>w_TagID := tag_ID (ac_Tag ac)\<rparr>)))"

definition WarnTagKeyTooLong :: "action_context \<Rightarrow> action_context option" where
  "WarnTagKeyTooLong ac =
     (if \<not> bnd_KeyLenLimitReached (ac_Bounds ac) then Some ac
      else Some (ac_warn ac (mk_warning IssueTagKeyTooLong (ac_Idx ac))))"

definition WarnTagPayloadTooLong :: "action_context \<Rightarrow> action_context option" where
  "WarnTagPayloadTooLong ac =
     (if \<not> bnd_PayloadLimitReached (ac_Bounds ac) then Some ac
      else Some (ac_warn ac (mk_warning IssueTagPayloadTooLong (ac_Idx ac))))"

definition WarnUnclosedTag :: "action_context \<Rightarrow> action_context option" where
  "WarnUnclosedTag ac =
     (if bnd_Closed (ac_Bounds ac) \<or> IsClosing (ac_Tag ac)
         \<or> bnd_PayloadLimitReached (ac_Bounds ac) then Some ac
      else Some (ac_warn ac ((mk_warning IssueUnclosedTag (ac_Idx ac))
             \<lparr>w_TagID := tag_ID (ac_Tag ac), w_CloseTagID := tag_CloseID (ac_Tag ac)\<rparr>)))"

definition CheckCloseTag :: "action_context \<Rightarrow> action_context option" where
  "CheckCloseTag ac =
     (let n = len (ac_Input ac); b = ac_Bounds ac;
          closeID = tag_CloseID (ac_Tag ac);
          (closeTag, exists) = dict_Tag (ac_Dictionary ac) closeID;
          contentStartIdx = ac_Idx ac + bnd_Width b
      in if \<not> exists then
           Some (ac\<lparr>ac_Bounds := b\<lparr>bnd_Closed := False, bnd_CloseIdx := -1, bnd_CloseWidth := 0,
             bnd_Raw := mk_span (ac_Idx ac) n, bnd_Inner := mk_span contentStartIdx n\<rparr>\<rparr>)
         else do {
           let scanEnd =
             min (wrap64 (contentStartIdx + MaxPayloadLen (d_Limits (ac_Dictionary ac)) + 1)) n;
           sub \<leftarrow> go_slice (ac_Input ac) contentStartIdx scanEnd;
           let (contained, relStartIdx, w) = IsContainedIn (tag_Seq closeTag) sub;
           let absStartIdx = (if relStartIdx \<noteq> -1 then contentStartIdx + relStartIdx else -1);
           let b1 = b\<lparr>bnd_Closed := contained, bnd_CloseIdx := absStartIdx, bnd_CloseWidth := w,
                      bnd_PayloadLimitReached := (absStartIdx = -1 \<and> scanEnd < n)\<rparr>;
           if contained then
             Some (ac\<lparr>ac_Bounds := b1\<lparr>bnd_Raw := mk_span (ac_Idx ac) (absStartIdx + w),
                                      bnd_Inner := mk_span contentStartIdx absStartIdx\<rparr>\<rparr>)
           else
             Some (ac\<lparr>ac_Bounds := b1\<lparr>bnd_Raw := mk_span (ac_Idx ac) n,
                                      bnd_Inner := mk_span contentStartIdx n\<rparr>\<rparr>)
         })"

text \<open>The length of the run of \<open>char\<close> at \<open>i\<close>, counted from \<open>w\<close> up to \<open>maxWidth\<close>.\<close>

partial_function (option) run_width :: "string \<Rightarrow> int \<Rightarrow> char \<Rightarrow> int \<Rightarrow> int \<Rightarrow> int option" where
  "run_width input i char maxWidth w =
     (if w < maxWidth then do {
        b \<leftarrow> go_index input (i + w);
        if b = char then run_width input i char maxWidth (w + 1) else Some w
      } else Some w)"

declare run_width.simps [code]

definition mutateWithOnlyOpeningTag ::
  "action_context \<Rightarrow> int \<Rightarrow> bool \<Rightarrow> bool \<Rightarrow> action_context" where
  "mutateWithOnlyOpeningTag ac w keyLimitReached payloadLimitReached =
     (let i = ac_Idx ac; n = len (ac_Input ac) in
      ac\<lparr>ac_Bounds := (ac_Bounds ac)\<lparr>bnd_CloseIdx := -1, bnd_CloseWidth := 0, bnd_Closed := False,
        bnd_Width := w, bnd_Inner := mk_span (i + w) n, bnd_Raw := mk_span i n,
        bnd_KeyLenLimitReached := keyLimitReached,
        bnd_PayloadLimitReached := payloadLimitReached\<rparr>\<rparr>)"

text \<open>The search for a closing run as wide as the opening one.\<close>

partial_function (option) tagVsContent_loop ::
  "action_context \<Rightarrow> int \<Rightarrow> int \<Rightarrow> int \<Rightarrow> action_context option" where
  "tagVsContent_loop ac openWidth searchStartIdx scanEnd =
     (if searchStartIdx < scanEnd then do {
        sub \<leftarrow> go_slice (ac_Input ac) searchStartIdx scanEnd;
        let n = len (ac_Input ac);
        let char = tag_ID (ac_Tag ac);
        let relIdx = index_byte sub char;
        if relIdx = -1 then
          Some (mutateWithOnlyOpeningTag ac openWidth False (scanEnd < n - openWidth + 1))
        else do {
          let idx = searchStartIdx + relIdx;
          closeWidth \<leftarrow> run_width (ac_Input ac) idx char (n - idx) 1;
          if closeWidth = openWidth then
            Some (ac\<lparr>ac_Bounds := (ac_Bounds ac)\<lparr>bnd_Width := openWidth, bnd_CloseIdx := idx,
              bnd_CloseWidth := closeWidth, bnd_Closed := True,
              bnd_Inner := mk_span (ac_Idx ac + openWidth) idx,
              bnd_Raw := mk_span (ac_Idx ac) (idx + closeWidth)\<rparr>\<rparr>)
          else tagVsContent_loop ac openWidth (idx + closeWidth + 1) scanEnd
        }
      } else Some (mutateWithOnlyOpeningTag ac openWidth False False))"

declare tagVsContent_loop.simps [code]

definition CheckTagVsContent :: "action_context \<Rightarrow> action_context option" where
  "CheckTagVsContent ac = do {
     let n = len (ac_Input ac);
     let char = tag_ID (ac_Tag ac);
     let i = ac_Idx ac;
     let lim = MaxKeyLen (d_Limits (ac_Dictionary ac));
     openWidth \<leftarrow> run_width (ac_Input ac) i char (min lim (n - i)) 1;
     if i + openWidth = n then Some (mutateWithOnlyOpeningTag ac openWidth False False)
     else do {
       limited \<leftarrow> (if openWidth = lim
                   then do { c \<leftarrow> go_index (ac_Input ac) (i + openWidth); Some (c = char) }
                   else Some False);
       if limited then Some (mutateWithOnlyOpeningTag ac lim True False)
       else do {
         let searchStartIdx = i + openWidth + 1;
         let scanEnd = min (wrap64 (searchStartIdx + MaxPayloadLen (d_Limits (ac_Dictionary ac))))
                           (n - openWidth + 1);
         tagVsContent_loop ac openWidth searchStartIdx scanEnd
       }
     }
   }"

definition CountTag :: "action_context \<Rightarrow> action_context option" where
  "CountTag ac = Some (ac\<lparr>ac_State := (ac_State ac)
     \<lparr>ts_TagsTotal := ts_TagsTotal (ac_State ac) + 1\<rparr>\<rparr>)"

definition CountCloseTag :: "action_context \<Rightarrow> action_context option" where
  "CountCloseTag ac = do {
     ac' \<leftarrow> CountTag ac;
     Some (ac'\<lparr>ac_State := (ac_State ac')\<lparr>ts_CloseTags := ts_CloseTags (ac_State ac') + 1\<rparr>\<rparr>)
   }"

definition CountOpenTag :: "action_context \<Rightarrow> action_context option" where
  "CountOpenTag ac = do {
     ac' \<leftarrow> CountTag ac;
     Some (ac'\<lparr>ac_State := (ac_State ac')\<lparr>ts_OpenTags := ts_OpenTags (ac_State ac') + 1\<rparr>\<rparr>)
   }"

definition CountUniversalTag :: "action_context \<Rightarrow> action_context option" where
  "CountUniversalTag ac = do {
     ac' \<leftarrow> CountTag ac;
     Some (ac'\<lparr>ac_State := (ac_State ac')
       \<lparr>ts_UniversalTags := ts_UniversalTags (ac_State ac') + 1\<rparr>\<rparr>)
   }"

fun run_mutator :: "mutator \<Rightarrow> action_context \<Rightarrow> action_context option" where
  "run_mutator DoPrepareSingleCharTag ac = PrepareSingleCharTag ac"
| "run_mutator DoCheckMultiCharTagSeq ac = CheckMultiCharTagSeq ac"
| "run_mutator DoWarnInvalidSequence ac = WarnInvalidSequence ac"
| "run_mutator DoWarnOpenTagBeforeEOL ac = WarnOpenTagBeforeEOL ac"
| "run_mutator DoWarnCloseTagAfterStart ac = WarnCloseTagAfterStart ac"
| "run_mutator DoCheckCloseTag ac = CheckCloseTag ac"
| "run_mutator DoCheckTagVsContent ac = CheckTagVsContent ac"
| "run_mutator DoWarnTagKeyTooLong ac = WarnTagKeyTooLong ac"
| "run_mutator DoWarnTagPayloadTooLong ac = WarnTagPayloadTooLong ac"
| "run_mutator DoWarnUnclosedTag ac = WarnUnclosedTag ac"
| "run_mutator DoCountTag ac = CountTag ac"
| "run_mutator DoCountCloseTag ac = CountCloseTag ac"
| "run_mutator DoCountOpenTag ac = CountOpenTag ac"
| "run_mutator DoCountUniversalTag ac = CountUniversalTag ac"

section \<open>Steps\<close>

type_synonym step_result = "(action_context \<times> bool) option"

text \<open>The common ending of the skipping steps: no token, skip \<open>stride\<close> bytes as text.\<close>

definition skip_text :: "action_context \<Rightarrow> int \<Rightarrow> action_context" where
  "skip_text ac stride = ac\<lparr>ac_Token := zero_token, ac_Stride := stride, ac_Skip := True\<rparr>"

definition StepSkipInvalidTriggerTag :: "action_context \<Rightarrow> step_result" where
  "StepSkipInvalidTriggerTag ac =
     (let w = bnd_Width (ac_Bounds ac) in
      if bnd_SeqValid (ac_Bounds ac) \<or> w \<ge> MaxTagLen then Some (ac, False)
      else Some (skip_text ac w, True))"

definition StepSkipOpenTagBeforeEOL :: "action_context \<Rightarrow> step_result" where
  "StepSkipOpenTagBeforeEOL ac =
     (let n = len (ac_Input ac); w = bnd_Width (ac_Bounds ac) in
      if ac_Idx ac + w < n then Some (ac, False) else Some (skip_text ac w, True))"

definition StepSkipCloseTagAfterStart :: "action_context \<Rightarrow> step_result" where
  "StepSkipCloseTagAfterStart ac =
     (if ac_Idx ac \<noteq> 0 \<or> \<not> IsClosing (ac_Tag ac) then Some (ac, False)
      else Some (skip_text ac (bnd_Width (ac_Bounds ac)), True))"

definition StepSkipUnclosedOpenTag :: "action_context \<Rightarrow> step_result" where
  "StepSkipUnclosedOpenTag ac =
     (if bnd_Closed (ac_Bounds ac) then Some (ac, False)
      else Some (skip_text ac (bnd_Width (ac_Bounds ac)), True))"

definition StepEmitEntireTagToken :: "action_context \<Rightarrow> step_result" where
  "StepEmitEntireTagToken ac =
     (let w = sp_End (bnd_Raw (ac_Bounds ac)) - sp_Start (bnd_Raw (ac_Bounds ac)) in
      Some (ac\<lparr>ac_Token := zero_token\<lparr>tok_Type := TokenTag, tok_Trigger := tag_ID (ac_Tag ac),
                 tok_Pos := ac_Idx ac, tok_Width := w, tok_Payload := bnd_Inner (ac_Bounds ac)\<rparr>,
              ac_Stride := w, ac_Skip := False\<rparr>, True))"

definition is_word_part :: "action_context \<Rightarrow> char \<Rightarrow> bool" where
  "is_word_part ac b \<longleftrightarrow> b = tag_ID (ac_Tag ac) \<or>
     (\<not> IsSpecial (ac_Dictionary ac) b \<and> (isASCIIAlphanum b \<or> isASCIIPunct b))"

definition is_word_rune :: "unicode \<Rightarrow> nat \<Rightarrow> bool" where
  "is_word_rune U r \<longleftrightarrow> IsLetter U r \<or> IsNumber U r \<or> IsPunct U r"

definition StepInfraWordCheck :: "unicode \<Rightarrow> action_context \<Rightarrow> step_result" where
  "StepInfraWordCheck U ac = do {
     let i = ac_Idx ac;
     leftIsWordPart \<leftarrow>
       (if i > 0 then do {
          b \<leftarrow> go_index (ac_Input ac) (i - 1);
          if byte b < 128 then Some (is_word_part ac b)
          else do {
            leftPart \<leftarrow> go_slice (ac_Input ac) 0 i;
            Some (is_word_rune U (fst (DecodeLastRune leftPart)))
          }
        } else Some False);
     rightIsWordPart \<leftarrow>
       (if i + 1 < len (ac_Input ac) then do {
          b \<leftarrow> go_index (ac_Input ac) (i + 1);
          if byte b < 128 then Some (is_word_part ac b)
          else do {
            rightPart \<leftarrow> go_slice (ac_Input ac) (i + 1) (len (ac_Input ac));
            Some (is_word_rune U (fst (DecodeRune rightPart)))
          }
        } else Some False);
     if \<not> leftIsWordPart \<or> \<not> rightIsWordPart then Some (ac, False)
     else Some (ac\<lparr>ac_Stride := 1, ac_Skip := True\<rparr>, True)
   }"

fun run_step :: "unicode \<Rightarrow> step \<Rightarrow> action_context \<Rightarrow> step_result" where
  "run_step U (MutateWith m) ac = do { ac' \<leftarrow> run_mutator m ac; Some (ac', False) }"
| "run_step U SkipInvalidTriggerTag ac = StepSkipInvalidTriggerTag ac"
| "run_step U SkipOpenTagBeforeEOL ac = StepSkipOpenTagBeforeEOL ac"
| "run_step U SkipCloseTagAfterStart ac = StepSkipCloseTagAfterStart ac"
| "run_step U InfraWordCheck ac = StepInfraWordCheck U ac"
| "run_step U SkipUnclosedOpenTag ac = StepSkipUnclosedOpenTag ac"
| "run_step U EmitEntireTagToken ac = StepEmitEntireTagToken ac"

section \<open>Actions\<close>

text \<open>An action returns its token, the stride and the skip flag, and leaves the context.\<close>

type_synonym action_result = "(token \<times> int \<times> bool \<times> action_context) option"

fun Plan_Run :: "unicode \<Rightarrow> plan \<Rightarrow> action_context \<Rightarrow> action_result" where
  "Plan_Run U [] ac = Some (zero_token, 1, True, ac)"
| "Plan_Run U (s # ss) ac = do {
     (ac', handled) \<leftarrow> run_step U s ac;
     if handled then Some (ac_Token ac', ac_Stride ac', ac_Skip ac', ac')
     else Plan_Run U ss ac'
   }"

definition skipWithWarn :: "action_context \<Rightarrow> int \<Rightarrow> int \<Rightarrow> issue \<Rightarrow> action_result" where
  "skipWithWarn ac stride pos i = Some (zero_token, stride, True, ac_warn ac (mk_warning i pos))"

definition ActEscape :: "action_context \<Rightarrow> action_result" where
  "ActEscape ac =
     (let i = ac_Idx ac; n = len (ac_Input ac) in
      if i + 1 = n then
        Some (zero_token, 1, True, ac_warn ac (mk_warning IssueUnexpectedEOL i))
      else do {
        nextByte \<leftarrow> go_index (ac_Input ac) (i + 1);
        (nextWidth, ac') \<leftarrow>
          (if d_actions (ac_Dictionary ac) nextByte = None then do {
             (next, nextWidth, ok) \<leftarrow>
               (if byte nextByte > 127 then do {
                  rest \<leftarrow> go_slice (ac_Input ac) (i + 1) n;
                  extractNextRune rest
                } else Some (byte nextByte, 1, True));
             let gotByte = (if ok then char_of next else NUL);
             Some (nextWidth, ac_warn ac ((mk_warning IssueRedundantEscape i)\<lparr>w_Got := gotByte\<rparr>))
           } else Some (1, ac));
        Some (zero_token, 1 + int nextWidth, True, ac')
      })"

partial_function (option) findPayloadEndWithEscape_loop ::
  "string \<Rightarrow> int \<Rightarrow> int \<Rightarrow> char \<Rightarrow> char \<Rightarrow> bool \<Rightarrow> int option" where
  "findPayloadEndWithEscape_loop input j scanEnd payloadEnd esc escaped =
     (if j < scanEnd then do {
        c \<leftarrow> go_index input j;
        if escaped then findPayloadEndWithEscape_loop input (j + 1) scanEnd payloadEnd esc False
        else if c = esc then findPayloadEndWithEscape_loop input (j + 1) scanEnd payloadEnd esc True
        else if c = payloadEnd then Some j
        else findPayloadEndWithEscape_loop input (j + 1) scanEnd payloadEnd esc False
      } else Some (-1))"

declare findPayloadEndWithEscape_loop.simps [code]

definition findPayloadEndWithEscape ::
  "string \<Rightarrow> int \<Rightarrow> int \<Rightarrow> char \<Rightarrow> char \<Rightarrow> int option" where
  "findPayloadEndWithEscape input start scanEnd payloadEnd esc =
     findPayloadEndWithEscape_loop input start scanEnd payloadEnd esc False"

definition findPayloadEnd :: "string \<Rightarrow> int \<Rightarrow> int \<Rightarrow> char \<Rightarrow> int option" where
  "findPayloadEnd input start scanEnd payloadEnd = do {
     sub \<leftarrow> go_slice input start scanEnd;
     let relIdx = index_byte sub payloadEnd;
     if relIdx \<noteq> -1 then Some (start + relIdx) else Some (-1)
   }"

definition ActAttribute :: "action_context \<Rightarrow> action_result" where
  "ActAttribute ac =
     (let i = ac_Idx ac; n = len (ac_Input ac); d = ac_Dictionary ac in
      if i + 1 = n then skipWithWarn ac 1 i IssueUnexpectedEOL
      else do {
        let scanEnd = min (wrap64 (i + MaxAttrKeyLen (d_Limits d) + 2)) n;
        sub \<leftarrow> go_slice (ac_Input ac) (i + 1) scanEnd;
        let relIdx = index_byte sub (d_attrPayloadStart d);
        if relIdx = -1 then
          (if scanEnd < n then skipWithWarn ac 1 i IssueAttrKeyTooLong
           else skipWithWarn ac 1 n IssueUnexpectedEOL)
        else do {
          let payloadStartIdx = i + 1 + relIdx;
          if payloadStartIdx + 1 = n then skipWithWarn ac 1 payloadStartIdx IssueUnexpectedEOL
          else do {
            let startIdx = payloadStartIdx + 1;
            let scanEnd2 = min (wrap64 (startIdx + MaxAttrPayloadLen (d_Limits d) + 1)) n;
            payloadEndIdx \<leftarrow>
              (if d_escapeTrigger d \<noteq> NUL
               then findPayloadEndWithEscape (ac_Input ac) startIdx scanEnd2
                      (d_attrPayloadEnd d) (d_escapeTrigger d)
               else findPayloadEnd (ac_Input ac) startIdx scanEnd2 (d_attrPayloadEnd d));
            if payloadEndIdx = -1 then
              (if scanEnd2 < n then skipWithWarn ac 1 i IssueAttrPayloadTooLong
               else skipWithWarn ac 1 n IssueUnclosedAttrPayload)
            else if payloadEndIdx = startIdx then skipWithWarn ac 1 startIdx IssueEmptyAttrPayload
            else do {
              let width = payloadEndIdx - i + 1;
              let payload = NewSpan startIdx (payloadEndIdx - startIdx);
              let token = zero_token\<lparr>tok_Trigger := ac_Trigger ac, tok_Pos := i,
                            tok_Width := width, tok_Payload := payload\<rparr>;
              let ac' = ac\<lparr>ac_State := (ac_State ac)
                            \<lparr>ts_Attributes := ts_Attributes (ac_State ac) + 1\<rparr>\<rparr>;
              if payloadStartIdx - i - 1 = 0 then
                Some (token\<lparr>tok_Type := TokenAttributeFlag\<rparr>, width, False, ac')
              else
                Some (token\<lparr>tok_Type := TokenAttributeKV,
                            tok_AttrKey := NewSpan (i + 1) (payloadStartIdx - i - 1)\<rparr>,
                      width, False, ac')
            }
          }
        }
      })"

fun run_action :: "unicode \<Rightarrow> action \<Rightarrow> action_context \<Rightarrow> action_result" where
  "run_action U (ActPlan p) ac = Plan_Run U p ac"
| "run_action U ActAttributeFn ac = ActAttribute ac"
| "run_action U ActEscapeFn ac = ActEscape ac"

end
