(* ===== verification/Scum_Contract.thy ===== *)
theory Scum_Contract
  imports Scum_Actions
begin

text \<open>
  The contract of an action: run in a fresh context at a special byte, it does not panic,
  it consumes at least one byte and stays inside the input, it changes nothing of the
  context but its bounds, counters, warnings and outcome, warnings are only added, and a
  token it emits covers exactly the bytes it consumed, with its spans inside.
  One lemma per loop, mutator and step; the plans follow by induction on the step list.
\<close>

named_theorems contract \<open>what a step preserves\<close>

section \<open>The invariant of a running plan\<close>

text \<open>The context stands at a byte of the input whose tag entry it holds.\<close>

definition ctx_wf :: "action_context \<Rightarrow> bool" where
  "ctx_wf ac \<longleftrightarrow> dict_wf (ac_Dictionary ac) \<and> small (len (ac_Input ac))
     \<and> 0 \<le> ac_Idx ac \<and> ac_Idx ac < len (ac_Input ac)
     \<and> ac_Input ac ! nat (ac_Idx ac) = ac_Trigger ac
     \<and> ac_Tag ac = d_tags (ac_Dictionary ac) (ac_Trigger ac)"

definition tag_registered :: "action_context \<Rightarrow> bool" where
  "tag_registered ac \<longleftrightarrow> tag_wf (ac_Trigger ac) (ac_Tag ac)"

definition bounds_wf :: "action_context \<Rightarrow> bool" where
  "bounds_wf ac \<longleftrightarrow> (let b = ac_Bounds ac; i = ac_Idx ac; n = len (ac_Input ac) in
     1 \<le> bnd_Width b \<and> i + bnd_Width b \<le> n
     \<and> sp_Start (bnd_Raw b) = i \<and> i + bnd_Width b \<le> sp_End (bnd_Raw b) \<and> sp_End (bnd_Raw b) \<le> n
     \<and> i \<le> sp_Start (bnd_Inner b) \<and> sp_Start (bnd_Inner b) \<le> sp_End (bnd_Inner b)
     \<and> sp_End (bnd_Inner b) \<le> sp_End (bnd_Raw b))"

text \<open>What a step leaves alone.\<close>

definition frame :: "action_context \<Rightarrow> action_context \<Rightarrow> bool" where
  "frame ac ac' \<longleftrightarrow> ac_Dictionary ac' = ac_Dictionary ac \<and> ac_Input ac' = ac_Input ac
     \<and> ac_Idx ac' = ac_Idx ac \<and> ac_Tag ac' = ac_Tag ac \<and> ac_Trigger ac' = ac_Trigger ac
     \<and> (\<exists>ws. ac_Warns ac' = foldl Add (ac_Warns ac) ws)"

definition running :: "action_context \<Rightarrow> action_context \<Rightarrow> bool" where
  "running ac ac' \<longleftrightarrow> ctx_wf ac' \<and> tag_registered ac' \<and> bounds_wf ac' \<and> frame ac ac'"

lemmas inv_defs = bounds_wf_def Let_def

lemma frame_refl [simp]: "frame ac ac"
  unfolding frame_def by (auto intro: exI [of _ "[]"])

lemma frame_trans: "frame a b \<Longrightarrow> frame b c \<Longrightarrow> frame a c"
  unfolding frame_def by (metis foldl_append)

lemma frame_fields: "frame a b \<Longrightarrow> ac_Dictionary b = ac_Dictionary a \<and> ac_Input b = ac_Input a
    \<and> ac_Idx b = ac_Idx a \<and> ac_Tag b = ac_Tag a \<and> ac_Trigger b = ac_Trigger a"
  by (simp add: frame_def)

lemma ctx_wf_frame: "frame a b \<Longrightarrow> ctx_wf b = ctx_wf a"
  by (simp add: ctx_wf_def frame_def)

lemma registered_frame: "frame a b \<Longrightarrow> tag_registered b = tag_registered a"
  by (simp add: tag_registered_def frame_def)

lemma frame_updates [simp]:
  "frame ac (ac\<lparr>ac_Bounds := b\<rparr>) = True" "frame ac (ac\<lparr>ac_State := s\<rparr>) = True"
  by (auto simp: frame_def intro: exI [of _ "[]"])

lemma frame_warn [simp]: "frame ac (ac_warn ac w)"
  by (auto simp: frame_def ac_warn_def intro: exI [of _ "[w]"])

lemma ac_warn_simps [simp]:
  "ac_Bounds (ac_warn ac w) = ac_Bounds ac" "ac_Input (ac_warn ac w) = ac_Input ac"
  "ac_Idx (ac_warn ac w) = ac_Idx ac" "ac_Tag (ac_warn ac w) = ac_Tag ac"
  "ac_Trigger (ac_warn ac w) = ac_Trigger ac" "ac_Dictionary (ac_warn ac w) = ac_Dictionary ac"
  "ac_State (ac_warn ac w) = ac_State ac"
  by (simp_all add: ac_warn_def)

lemma runningI:
  "ctx_wf ac \<Longrightarrow> tag_registered ac \<Longrightarrow> frame ac ac' \<Longrightarrow> bounds_wf ac' \<Longrightarrow> running ac ac'"
  by (simp add: running_def ctx_wf_frame registered_frame)

lemma bounds_wf_warn [simp]: "bounds_wf (ac_warn ac w) = bounds_wf ac"
  by (simp add: bounds_wf_def)

lemma bounds_wf_state [simp]: "bounds_wf (ac\<lparr>ac_State := s\<rparr>) = bounds_wf ac"
  by (simp add: bounds_wf_def)

lemma registered_ID: "ctx_wf ac \<Longrightarrow> tag_registered ac \<Longrightarrow>
    ac_Input ac ! nat (ac_Idx ac) = tag_ID (ac_Tag ac) \<and> seq_wf (tag_Seq (ac_Tag ac))"
  by (simp add: ctx_wf_def tag_registered_def tag_wf_def)

lemma limits_of: "ctx_wf ac \<Longrightarrow> limits_wf (d_Limits (ac_Dictionary ac))"
  by (simp add: ctx_wf_def dict_wf_def)

section \<open>The mutators\<close>

lemma PrepareSingleCharTag_contract [contract]:
  assumes "ctx_wf ac" and "tag_registered ac" and "bounds_wf ac"
  shows "returns (PrepareSingleCharTag ac) (running ac)"
  using assms by (auto simp: PrepareSingleCharTag_def ctx_wf_def inv_defs intro!: runningI)

lemma seq_bytes_ID: "seq_wf s \<Longrightarrow> seq_bytes s \<noteq> [] \<and> seq_bytes s ! 0 = seq_ID s
    \<and> len (seq_bytes s) = uint (seq_Len s)"
  by (auto simp: seq_wf_def seq_bytes_def seq_ID_def len_def)

lemma CheckMultiCharTagSeq_contract [contract]:
  assumes "ctx_wf ac" and "tag_registered ac" and "bounds_wf ac"
  shows "returns (CheckMultiCharTagSeq ac) (running ac)"
proof -
  let ?s = "tag_Seq (ac_Tag ac)" and ?i = "ac_Idx ac" and ?inp = "ac_Input ac"
  define e where "e = min (len ?inp) (?i + uint (seq_Len ?s))"
  define sub where "sub = take (nat e - nat ?i) (drop (nat ?i) ?inp)"
  have s: "seq_bytes ?s \<noteq> []" "seq_bytes ?s ! 0 = ?inp ! nat ?i" "len (seq_bytes ?s) = uint (seq_Len ?s)"
    using seq_bytes_ID [of ?s] registered_ID [OF assms(1,2)] by (auto simp: tag_ID_def)
  have i: "0 \<le> ?i" "?i < len ?inp" using assms(1) by (auto simp: ctx_wf_def)
  have "0 < uint (seq_Len ?s)" using s by (simp add: len_def flip: s(3))
  with i have e: "?i < e" "e \<le> len ?inp" by (auto simp: e_def)
  have sub: "len sub = e - ?i" using e i by (simp add: sub_def len_slice)
  have sub0: "sub ! 0 = seq_bytes ?s ! 0"
    using nth_slice [of ?i e ?inp 0] e i s by (simp add: sub_def)
  obtain c idx l where lc: "longestCommonSubPrefix sub (seq_bytes ?s) = (c, idx, l)"
    by (cases "longestCommonSubPrefix sub (seq_bytes ?s)") auto
  have "sub \<noteq> []" using sub e by auto
  with longestCommonSubPrefix_pos [OF lc s(1)] sub0 have "1 \<le> l" by simp
  moreover have "l \<le> e - ?i"
    using longestCommonSubPrefix_bounds [OF lc s(1)] sub e \<open>1 \<le> l\<close> by auto
  ultimately show ?thesis
    using assms e i lc
    by (auto simp: CheckMultiCharTagSeq_def e_def [symmetric] sub_def [symmetric] IsContainedIn_def
        inv_defs intro!: runningI)
qed

lemma WarnInvalidSequence_contract [contract]:
  assumes "ctx_wf ac" and "tag_registered ac" and "bounds_wf ac"
  shows "returns (WarnInvalidSequence ac) (running ac)"
  using assms registered_ID [OF assms(1,2)]
  by (auto simp: WarnInvalidSequence_def Let_def MaxTagLen_def seq_wf_def ctx_wf_def len_def
      bounds_wf_def intro!: runningI)

lemma warners_contract [contract]:
  assumes "ctx_wf ac" and "tag_registered ac" and "bounds_wf ac"
  shows "returns (WarnOpenTagBeforeEOL ac) (running ac)"
    and "returns (WarnCloseTagAfterStart ac) (running ac)"
    and "returns (WarnTagKeyTooLong ac) (running ac)"
    and "returns (WarnTagPayloadTooLong ac) (running ac)"
    and "returns (WarnUnclosedTag ac) (running ac)"
  using assms
  by (auto simp: WarnOpenTagBeforeEOL_def WarnCloseTagAfterStart_def WarnTagKeyTooLong_def
      WarnTagPayloadTooLong_def WarnUnclosedTag_def Let_def intro!: runningI)

lemma counters_contract [contract]:
  assumes "ctx_wf ac" and "tag_registered ac" and "bounds_wf ac"
  shows "returns (CountTag ac) (running ac)"
    and "returns (CountCloseTag ac) (running ac)"
    and "returns (CountOpenTag ac) (running ac)"
    and "returns (CountUniversalTag ac) (running ac)"
  using assms
  by (auto simp: CountTag_def CountCloseTag_def CountOpenTag_def CountUniversalTag_def
      intro!: runningI)

lemma CheckCloseTag_contract [contract]:
  assumes "ctx_wf ac" and "tag_registered ac" and "bounds_wf ac"
  shows "returns (CheckCloseTag ac) (running ac)"
proof -
  let ?inp = "ac_Input ac" and ?d = "ac_Dictionary ac" and ?n = "len (ac_Input ac)"
  define ct where "ct = d_tags ?d (tag_CloseID (ac_Tag ac))"
  define st where "st = ac_Idx ac + bnd_Width (ac_Bounds ac)"
  have st: "0 \<le> st" "st \<le> ?n" "ac_Idx ac \<le> st"
    using assms by (auto simp: st_def ctx_wf_def inv_defs)
  have b: "1 \<le> bnd_Width (ac_Bounds ac)" "0 \<le> ac_Idx ac" using assms by (auto simp: ctx_wf_def inv_defs)
  show ?thesis
  proof (cases "seq_Len (tag_Seq ct) = 0")
    case True
    with assms st b show ?thesis
      by (auto simp: CheckCloseTag_def dict_Tag_def ct_def [symmetric] inv_defs
          intro!: runningI)
  next
    case False
    then have "seq_wf (tag_Seq ct)"
      using assms(1) zero_tag_simps(2)
      by (auto simp: ctx_wf_def dict_wf_def entry_wf_def ct_def tag_wf_def
          dest!: spec [of _ "tag_CloseID (ac_Tag ac)"])
    then have ne: "seq_bytes (tag_Seq ct) \<noteq> []" using seq_bytes_ID by blast
    define e where "e = min (wrap64 (st + MaxPayloadLen (d_Limits ?d) + 1)) ?n"
    have "small st" "small (MaxPayloadLen (d_Limits ?d))" "0 < MaxPayloadLen (d_Limits ?d)"
      using assms(1) st limits_of [OF assms(1)] by (auto simp: ctx_wf_def small_def limits_wf_def)
    then have e: "st \<le> e" "e \<le> ?n"
      using st by (auto simp: e_def wrap64_add)
    define sub where "sub = take (nat e - nat st) (drop (nat st) ?inp)"
    have sub: "len sub = e - st" using e st by (simp add: sub_def len_slice)
    obtain c idx l where lc: "longestCommonSubPrefix sub (seq_bytes (tag_Seq ct)) = (c, idx, l)"
      by (cases "longestCommonSubPrefix sub (seq_bytes (tag_Seq ct))") auto
    from longestCommonSubPrefix_bounds [OF lc ne] assms e st b lc sub False
    show ?thesis
      by (auto simp: CheckCloseTag_def dict_Tag_def ct_def [symmetric] st_def [symmetric] Let_def
          e_def [symmetric] sub_def [symmetric] IsContainedIn_def bounds_wf_def intro!: runningI)
  qed
qed

lemma interval_step: "P w \<Longrightarrow> (\<forall>j. w + 1 \<le> j \<and> j < r \<longrightarrow> P j) \<Longrightarrow> w \<le> j \<Longrightarrow> j < r \<Longrightarrow> P j"
  for w j r :: int
  by (cases "j = w") auto

lemma run_width_returns:
  assumes "0 \<le> i" and "0 \<le> w" and "w \<le> maxW \<or> maxW \<le> w" and "i + maxW \<le> len inp"
  shows "returns (run_width inp i c maxW w)
    (\<lambda>r. w \<le> r \<and> r \<le> max w maxW \<and> (\<forall>j. w \<le> j \<and> j < r \<longrightarrow> inp ! nat (i + j) = c)
         \<and> (r < maxW \<longrightarrow> inp ! nat (i + r) \<noteq> c))"
  using assms
proof (induction "nat (maxW - w)" arbitrary: w)
  case 0
  then show ?case by (subst run_width.simps) auto
next
  case (Suc k)
  show ?case
  proof (cases "inp ! nat (i + w) = c")
    case True
    have "returns (run_width inp i c maxW (w + 1))
      (\<lambda>r. w + 1 \<le> r \<and> r \<le> max (w + 1) maxW \<and> (\<forall>j. w + 1 \<le> j \<and> j < r \<longrightarrow> inp ! nat (i + j) = c)
         \<and> (r < maxW \<longrightarrow> inp ! nat (i + r) \<noteq> c))"
      using Suc by (intro Suc.hyps(1)) auto
    then have "returns (run_width inp i c maxW (w + 1))
      (\<lambda>r. w \<le> r \<and> r \<le> max w maxW \<and> (\<forall>j. w \<le> j \<and> j < r \<longrightarrow> inp ! nat (i + j) = c)
         \<and> (r < maxW \<longrightarrow> inp ! nat (i + r) \<noteq> c))"
      by (rule returns_mono) (use True Suc.hyps(2) interval_step [of "\<lambda>j. inp ! nat (i + j) = c" w] in auto)
    moreover have "w < maxW" using Suc.hyps(2) by linarith
    ultimately show ?thesis using True Suc.prems by (subst run_width.simps) simp
  next
    case False
    with Suc show ?thesis by (subst run_width.simps) auto
  qed
qed

lemma bounds_wf_only_opening:
  "1 \<le> w \<Longrightarrow> 0 \<le> ac_Idx ac \<Longrightarrow> ac_Idx ac + w \<le> len (ac_Input ac) \<Longrightarrow>
     bounds_wf (mutateWithOnlyOpeningTag ac w k p) \<and> frame ac (mutateWithOnlyOpeningTag ac w k p)"
  by (simp add: bounds_wf_def mutateWithOnlyOpeningTag_def Let_def)

lemma tagVsContent_loop_contract:
  assumes "ctx_wf ac" and "tag_registered ac" and "1 \<le> w"
    and "ac_Idx ac + w < ss" and "e \<le> len (ac_Input ac) - w + 1"
    and "ac_Idx ac + w \<le> len (ac_Input ac)"
  shows "returns (tagVsContent_loop ac w ss e) (running ac)"
  using assms
proof (induction "nat (e - ss)" arbitrary: ss rule: less_induct)
  case less
  let ?inp = "ac_Input ac" and ?c = "tag_ID (ac_Tag ac)"
  have i: "0 \<le> ac_Idx ac" using less.prems(1) by (simp add: ctx_wf_def)
  have only_open: "running ac (mutateWithOnlyOpeningTag ac w k p)" for k p
    using less.prems i bounds_wf_only_opening [of w ac k p] by (intro runningI) auto
  show ?case
  proof (cases "ss < e")
    case False
    with only_open show ?thesis by (subst tagVsContent_loop.simps) simp
  next
    case True
    define sub where "sub = take (nat e - nat ss) (drop (nat ss) ?inp)"
    have bnds: "0 \<le> ss" "ss \<le> e" "e \<le> len ?inp" using True i less.prems by auto
    show ?thesis
    proof (cases "index_byte sub ?c = -1")
      case none: True
      with True bnds only_open show ?thesis
        by (subst tagVsContent_loop.simps) (simp add: sub_def [symmetric])
    next
      case False
      define idx where "idx = ss + index_byte sub ?c"
      have "0 \<le> index_byte sub ?c" "index_byte sub ?c < e - ss"
        using index_byte_some [OF False] bnds by (auto simp: sub_def len_slice)
      then have idx: "ss \<le> idx" "idx < e" by (auto simp: idx_def)
      have "returns (run_width ?inp idx ?c (len ?inp - idx) 1)
          (\<lambda>r. 1 \<le> r \<and> r \<le> max 1 (len ?inp - idx) \<and> (\<forall>j. 1 \<le> j \<and> j < r \<longrightarrow> ?inp ! nat (idx + j) = ?c)
            \<and> (r < len ?inp - idx \<longrightarrow> ?inp ! nat (idx + r) \<noteq> ?c))"
        using bnds idx by (intro run_width_returns) auto
      then obtain r where r: "run_width ?inp idx ?c (len ?inp - idx) 1 = Some r" "1 \<le> r"
          "r \<le> len ?inp - idx"
        using idx bnds by (elim returns_obtain) auto
      show ?thesis
      proof (cases "r = w")
        case True
        with \<open>ss < e\<close> False bnds r idx i less.prems show ?thesis
          by (subst tagVsContent_loop.simps)
             (auto simp: sub_def [symmetric] idx_def [symmetric] bounds_wf_def Let_def
               intro!: runningI)
      next
        case differ: False
        have "returns (tagVsContent_loop ac w (idx + r + 1) e) (running ac)"
          using less.prems idx r True by (intro less.hyps) auto
        with True False differ bnds r show ?thesis
          by (subst tagVsContent_loop.simps)
             (simp add: sub_def [symmetric] idx_def [symmetric])
      qed
    qed
  qed
qed

lemma CheckTagVsContent_contract [contract]:
  assumes "ctx_wf ac" and "tag_registered ac" and "bounds_wf ac"
  shows "returns (CheckTagVsContent ac) (running ac)"
proof -
  let ?inp = "ac_Input ac" and ?c = "tag_ID (ac_Tag ac)" and ?n = "len (ac_Input ac)"
  define lim where "lim = MaxKeyLen (d_Limits (ac_Dictionary ac))"
  define mpl where "mpl = MaxPayloadLen (d_Limits (ac_Dictionary ac))"
  have i: "0 \<le> ac_Idx ac" "ac_Idx ac < ?n" "small ?n" using assms(1) by (auto simp: ctx_wf_def)
  have lim: "0 < lim" using limits_of [OF assms(1)] by (simp add: limits_wf_def lim_def)
  have "returns (run_width ?inp (ac_Idx ac) ?c (min lim (?n - ac_Idx ac)) 1)
      (\<lambda>r. 1 \<le> r \<and> r \<le> max 1 (min lim (?n - ac_Idx ac))
        \<and> (\<forall>j. 1 \<le> j \<and> j < r \<longrightarrow> ?inp ! nat (ac_Idx ac + j) = ?c)
        \<and> (r < min lim (?n - ac_Idx ac) \<longrightarrow> ?inp ! nat (ac_Idx ac + r) \<noteq> ?c))"
    using i by (intro run_width_returns) auto
  then obtain w where w: "run_width ?inp (ac_Idx ac) ?c (min lim (?n - ac_Idx ac)) 1 = Some w"
    "1 \<le> w" "w \<le> lim" "ac_Idx ac + w \<le> ?n"
    using i lim by (elim returns_obtain) auto
  have only_open: "running ac (mutateWithOnlyOpeningTag ac w k p)" for k p
    using assms i w bounds_wf_only_opening [of w ac k p] by (intro runningI) auto
  have loop: "returns (tagVsContent_loop ac w (ac_Idx ac + w + 1)
      (min (wrap64 (ac_Idx ac + w + 1 + mpl)) (?n - w + 1))) (running ac)"
    using assms w by (intro tagVsContent_loop_contract) auto
  show ?thesis
    using w i only_open loop
    by (auto simp: CheckTagVsContent_def lim_def [symmetric] mpl_def [symmetric] Let_def)
qed

section \<open>Steps and plans\<close>

definition span_in :: "int \<Rightarrow> int \<Rightarrow> span \<Rightarrow> bool" where
  "span_in lo hi s \<longleftrightarrow> lo \<le> sp_Start s \<and> sp_Start s \<le> sp_End s \<and> sp_End s \<le> hi"

text \<open>A token emitted at the context's position covers the bytes it consumed.\<close>

definition token_ok :: "action_context \<Rightarrow> token \<Rightarrow> int \<Rightarrow> bool" where
  "token_ok ac t stride \<longleftrightarrow> tok_Type t \<noteq> TokenText \<and> tok_Trigger t = ac_Trigger ac
     \<and> tok_Pos t = ac_Idx ac \<and> tok_Width t = stride
     \<and> span_in (ac_Idx ac) (ac_Idx ac + stride) (tok_Payload t)
     \<and> (if tok_Type t = TokenAttributeKV then span_in (ac_Idx ac) (ac_Idx ac + stride) (tok_AttrKey t)
        else tok_AttrKey t = mk_span 0 0)"

fun outcome_ok :: "action_context \<Rightarrow> token \<times> int \<times> bool \<times> action_context \<Rightarrow> bool" where
  "outcome_ok ac (tok, stride, skip, ac') \<longleftrightarrow>
     1 \<le> stride \<and> ac_Idx ac + stride \<le> len (ac_Input ac) \<and> frame ac ac'
     \<and> (\<not> skip \<longrightarrow> token_ok ac tok stride)"

text \<open>A step either hands a running context on, or its outcome satisfies the contract.\<close>

fun step_ok :: "action_context \<Rightarrow> action_context \<times> bool \<Rightarrow> bool" where
  "step_ok ac (ac', handled) \<longleftrightarrow>
     (if handled then outcome_ok ac (ac_Token ac', ac_Stride ac', ac_Skip ac', ac')
      else running ac ac')"

lemma running_refl: "ctx_wf ac \<Longrightarrow> tag_registered ac \<Longrightarrow> bounds_wf ac \<Longrightarrow> running ac ac"
  by (simp add: running_def)

lemma run_mutator_contract:
  assumes "ctx_wf ac" and "tag_registered ac" and "bounds_wf ac"
  shows "returns (run_mutator m ac) (running ac)"
  using contract [OF assms] by (cases m) simp_all

lemma skip_text_ok:
  "1 \<le> w \<Longrightarrow> ac_Idx ac + w \<le> len (ac_Input ac) \<Longrightarrow> step_ok ac (skip_text ac w, True)"
  by (auto simp: skip_text_def frame_def intro: exI [of _ "[]"])

lemma skipping_steps_ok:
  assumes "ctx_wf ac" and "tag_registered ac" and "bounds_wf ac"
  shows "returns (StepSkipInvalidTriggerTag ac) (step_ok ac)"
    and "returns (StepSkipOpenTagBeforeEOL ac) (step_ok ac)"
    and "returns (StepSkipCloseTagAfterStart ac) (step_ok ac)"
    and "returns (StepSkipUnclosedOpenTag ac) (step_ok ac)"
proof -
  have s: "step_ok ac (skip_text ac (bnd_Width (ac_Bounds ac)), True)"
    using assms(3) by (intro skip_text_ok) (auto simp: bounds_wf_def Let_def)
  have r: "step_ok ac (ac, False)" using assms by (simp add: running_refl)
  note [simp del] = step_ok.simps
  show "returns (StepSkipInvalidTriggerTag ac) (step_ok ac)"
    "returns (StepSkipOpenTagBeforeEOL ac) (step_ok ac)"
    "returns (StepSkipCloseTagAfterStart ac) (step_ok ac)"
    "returns (StepSkipUnclosedOpenTag ac) (step_ok ac)"
    using s r
    by (simp_all add: StepSkipInvalidTriggerTag_def StepSkipOpenTagBeforeEOL_def
        StepSkipCloseTagAfterStart_def StepSkipUnclosedOpenTag_def Let_def)
qed

lemma StepEmitEntireTagToken_ok:
  assumes "ctx_wf ac" and "tag_registered ac" and "bounds_wf ac"
  shows "returns (StepEmitEntireTagToken ac) (step_ok ac)"
  using assms
  by (auto simp: StepEmitEntireTagToken_def Let_def bounds_wf_def token_ok_def span_in_def
      frame_def zero_token_def tag_registered_def tag_wf_def intro: exI [of _ "[]"])

lemma StepInfraWordCheck_ok:
  assumes "ctx_wf ac" and "tag_registered ac" and "bounds_wf ac"
  shows "returns (StepInfraWordCheck U ac) (step_ok ac)"
  using assms running_refl [OF assms]
  by (auto simp: StepInfraWordCheck_def Let_def ctx_wf_def frame_def intro: exI [of _ "[]"])

lemma run_step_ok:
  assumes "ctx_wf ac" and "tag_registered ac" and "bounds_wf ac"
  shows "returns (run_step U s ac) (step_ok ac)"
  using skipping_steps_ok [OF assms] StepEmitEntireTagToken_ok [OF assms]
    StepInfraWordCheck_ok [OF assms] run_mutator_contract [OF assms]
  by (cases s) simp_all

lemma outcome_ok_frame: "frame a b \<Longrightarrow> outcome_ok b r \<Longrightarrow> outcome_ok a r"
  by (cases r) (auto simp: token_ok_def dest: frame_fields intro: frame_trans)

lemma Plan_Run_ok:
  assumes "ctx_wf ac" and "tag_registered ac" and "bounds_wf ac"
  shows "returns (Plan_Run U p ac) (outcome_ok ac)"
  using assms
proof (induction p arbitrary: ac)
  case Nil
  then show ?case by (simp add: ctx_wf_def)
next
  case (Cons s ss)
  have "returns (run_step U s ac) (\<lambda>(ac', handled).
      returns (if handled then Some (ac_Token ac', ac_Stride ac', ac_Skip ac', ac')
               else Plan_Run U ss ac') (outcome_ok ac))"
    using run_step_ok [OF Cons.prems]
  proof (rule returns_mono)
    fix x assume "step_ok ac x"
    then show "case x of (ac', handled) \<Rightarrow>
        returns (if handled then Some (ac_Token ac', ac_Stride ac', ac_Skip ac', ac')
                 else Plan_Run U ss ac') (outcome_ok ac)"
      by (cases x)
         (auto simp: running_def split: if_splits intro: returns_mono [OF Cons.IH] outcome_ok_frame)
  qed
  then show ?case by (simp add: case_prod_unfold)
qed

section \<open>The two built-in actions\<close>

lemma ActEscape_ok:
  assumes "ctx_wf ac"
  shows "returns (ActEscape ac) (outcome_ok ac)"
proof -
  let ?i = "ac_Idx ac" and ?inp = "ac_Input ac"
  have i: "0 \<le> ?i" "?i < len ?inp" using assms by (auto simp: ctx_wf_def)
  show ?thesis
  proof (cases "?i + 1 = len ?inp")
    case True
    with i show ?thesis by (simp add: ActEscape_def Let_def)
  next
    case False
    with i have lt: "?i + 1 < len ?inp" by simp
    define rest where "rest = take (nat (len ?inp) - nat (?i + 1)) (drop (nat (?i + 1)) ?inp)"
    have rest: "len rest = len ?inp - (?i + 1)"
      unfolding rest_def by (rule len_slice) (use lt i in auto)
    have sl: "go_slice ?inp (?i + 1) (len ?inp) = Some rest"
      using lt i by (simp add: go_slice_def rest_def)
    have "returns (extractNextRune rest) (\<lambda>(r, w, ok). 1 \<le> w \<and> int w \<le> len rest)"
      using rest lt by (intro extractNextRune_returns) auto
    then obtain r w ok where "extractNextRune rest = Some (r, w, ok)" "1 \<le> w" "int w \<le> len rest"
      by (auto simp: returns_ex)
    with rest sl lt i show ?thesis by (auto simp: ActEscape_def Let_def go_index_def)
  qed
qed

lemma escape_loop_returns:
  assumes "0 \<le> j" and "e \<le> len inp"
  shows "returns (findPayloadEndWithEscape_loop inp j e pe esc escaped)
    (\<lambda>r. r = -1 \<or> j \<le> r \<and> r < e)"
  using assms
proof (induction "nat (e - j)" arbitrary: j escaped)
  case 0
  then show ?case by (subst findPayloadEndWithEscape_loop.simps) simp
next
  case (Suc k)
  have "returns (findPayloadEndWithEscape_loop inp (j + 1) e pe esc f) (\<lambda>r. r = -1 \<or> j \<le> r \<and> r < e)"
    for f
    by (rule returns_mono [OF Suc.hyps(1)]) (use Suc in auto)
  with Suc show ?case by (subst findPayloadEndWithEscape_loop.simps) auto
qed

lemma findPayloadEnd_returns:
  assumes "0 \<le> s" and "s \<le> e" and "e \<le> len inp"
  shows "returns (findPayloadEnd inp s e pe) (\<lambda>r. r = -1 \<or> s \<le> r \<and> r < e)"
  using index_byte_some [of "take (nat e - nat s) (drop (nat s) inp)" pe] assms
  by (auto simp: findPayloadEnd_def len_slice)

lemma escape_loop_hit:
  assumes "findPayloadEndWithEscape_loop inp j e pe esc escaped = Some r" and "r \<noteq> -1" and "0 \<le> j"
  shows "j \<le> r \<and> r < e \<and> inp ! nat r = pe"
  using assms
proof (induction "nat (e - j)" arbitrary: j escaped rule: less_induct)
  case less
  note eqn = less.prems(1) [unfolded findPayloadEndWithEscape_loop.simps [of inp j e pe esc escaped]]
  show ?case
  proof (cases "j < e")
    case False
    with eqn less.prems(2) show ?thesis by simp
  next
    case True
    show ?thesis
    proof (cases "\<not> escaped \<and> inp ! nat j \<noteq> esc \<and> inp ! nat j = pe")
      case True
      with eqn \<open>j < e\<close> have "r = j" by (auto simp: go_index_def split: if_splits)
      with True \<open>j < e\<close> show ?thesis by simp
    next
      case False
      with eqn \<open>j < e\<close> obtain f where "findPayloadEndWithEscape_loop inp (j + 1) e pe esc f = Some r"
        by (auto simp: go_index_def split: if_splits)
      from less.hyps [OF _ this less.prems(2)] less.prems(3) \<open>j < e\<close> show ?thesis by simp
    qed
  qed
qed

lemma payload_end_hit:
  assumes "(if esc \<noteq> NUL then findPayloadEndWithEscape inp s e pe esc else findPayloadEnd inp s e pe) = Some r"
    and "r \<noteq> -1" and "0 \<le> s"
  shows "s \<le> r \<and> r < e \<and> inp ! nat r = pe"
proof (cases "esc = NUL")
  case False
  with assms show ?thesis by (auto simp: findPayloadEndWithEscape_def dest: escape_loop_hit)
next
  case True
  define sub where "sub = take (nat e - nat s) (drop (nat s) inp)"
  from True assms have sl: "0 \<le> s" "s \<le> e" "e \<le> len inp" and r: "r = s + index_byte sub pe" "index_byte sub pe \<noteq> -1"
    by (auto simp: findPayloadEnd_def go_slice_def sub_def Let_def bind_eq_Some_conv simp del: index_byte_none
        split: if_splits)
  have "len sub = e - s" using sl unfolding sub_def by (intro len_slice)
  then have "nat (index_byte sub pe) < nat (e - s)" and ge: "0 \<le> index_byte sub pe"
    and hit: "sub ! nat (index_byte sub pe) = pe"
    using index_byte_some [OF r(2)] by auto
  then have "inp ! (nat s + nat (index_byte sub pe)) = pe"
    using nth_slice [OF sl, of "nat (index_byte sub pe)"] by (simp add: sub_def)
  with \<open>nat (index_byte sub pe) < nat (e - s)\<close> ge r sl show ?thesis by (simp add: nat_add_distrib)
qed

text \<open>
  \<open>ActAttribute\<close> either skips one byte with a warning, or emits the attribute whose payload
  \<open>[st, r)\<close> it found after a key of \<open>rel\<close> bytes.
\<close>

definition attribute_token :: "action_context \<Rightarrow> int \<Rightarrow> int \<Rightarrow> int \<Rightarrow> token" where
  "attribute_token ac rel st r =
     (let t = zero_token\<lparr>tok_Trigger := ac_Trigger ac, tok_Pos := ac_Idx ac,
                tok_Width := r - ac_Idx ac + 1, tok_Payload := NewSpan st (r - st)\<rparr>
      in if rel = 0 then t\<lparr>tok_Type := TokenAttributeFlag\<rparr>
         else t\<lparr>tok_Type := TokenAttributeKV, tok_AttrKey := NewSpan (ac_Idx ac + 1) rel\<rparr>)"

lemma attribute_token_fields [simp]:
  "tok_Type (attribute_token ac rel st r) = (if rel = 0 then TokenAttributeFlag else TokenAttributeKV)"
  "tok_Trigger (attribute_token ac rel st r) = ac_Trigger ac"
  "tok_Pos (attribute_token ac rel st r) = ac_Idx ac"
  "tok_Width (attribute_token ac rel st r) = r - ac_Idx ac + 1"
  "tok_Payload (attribute_token ac rel st r) = mk_span st r"
  "tok_AttrKey (attribute_token ac rel st r) =
     (if rel = 0 then mk_span 0 0 else mk_span (ac_Idx ac + 1) (ac_Idx ac + 1 + rel))"
  by (simp_all add: attribute_token_def Let_def zero_token_def NewSpan_def)

definition attribute_found :: "action_context \<Rightarrow> int \<Rightarrow> int \<Rightarrow> int \<Rightarrow> bool" where
  "attribute_found ac rel st r \<longleftrightarrow> (let i = ac_Idx ac; inp = ac_Input ac; d = ac_Dictionary ac in
     0 \<le> rel \<and> rel \<le> MaxAttrKeyLen (d_Limits d) \<and> st = i + rel + 2
     \<and> inp ! nat (st - 1) = d_attrPayloadStart d
     \<and> st < r \<and> r - st \<le> MaxAttrPayloadLen (d_Limits d) \<and> r < len inp
     \<and> inp ! nat r = d_attrPayloadEnd d)"

lemma ActAttribute_cases:
  assumes "ctx_wf ac"
  shows "(\<exists>p q. ActAttribute ac = skipWithWarn ac 1 p q) \<or>
    (\<exists>rel st r. attribute_found ac rel st r \<and> ActAttribute ac =
       Some (attribute_token ac rel st r, r - ac_Idx ac + 1, False,
         ac\<lparr>ac_State := (ac_State ac)\<lparr>ts_Attributes := ts_Attributes (ac_State ac) + 1\<rparr>\<rparr>))"
proof -
  let ?i = "ac_Idx ac" and ?inp = "ac_Input ac" and ?n = "len (ac_Input ac)"
    and ?d = "ac_Dictionary ac"
  have i: "0 \<le> ?i" "?i < ?n" using assms by (auto simp: ctx_wf_def)
  have skipI: ?thesis if "ActAttribute ac = skipWithWarn ac 1 p q" for p q
    using that by blast
  show ?thesis
  proof (cases "?i + 1 = ?n")
    case True
    then show ?thesis by (intro skipI [of ?i IssueUnexpectedEOL]) (simp add: ActAttribute_def Let_def)
  next
    case False
    with i have lt: "?i + 1 < ?n" by simp
    define e1 where "e1 = min (wrap64 (?i + MaxAttrKeyLen (d_Limits ?d) + 2)) ?n"
    have w1: "wrap64 (?i + MaxAttrKeyLen (d_Limits ?d) + 2) = ?i + MaxAttrKeyLen (d_Limits ?d) + 2"
      using limits_of [OF assms] assms by (intro wrap64_add) (auto simp: limits_wf_def ctx_wf_def small_def)
    have e1: "?i + 1 \<le> e1" "e1 \<le> ?n"
      using lt limits_of [OF assms] by (auto simp: e1_def w1 limits_wf_def)
    define sub where "sub = take (nat e1 - nat (?i + 1)) (drop (nat (?i + 1)) ?inp)"
    have sl: "go_slice ?inp (?i + 1) e1 = Some sub"
      using e1 i by (simp add: go_slice_def sub_def)
    have sub: "len sub = e1 - (?i + 1)" using e1 i by (simp add: sub_def len_slice)
    define rel where "rel = index_byte sub (d_attrPayloadStart ?d)"
    show ?thesis
    proof (cases "rel = -1 \<or> ?i + 1 + rel + 1 = ?n")
      case True
      then show ?thesis
      proof
        assume "rel = -1"
        with lt sl have "ActAttribute ac = (if e1 < ?n then skipWithWarn ac 1 ?i IssueAttrKeyTooLong
            else skipWithWarn ac 1 ?n IssueUnexpectedEOL)"
          by (simp add: ActAttribute_def Let_def e1_def [symmetric] rel_def [symmetric]
              del: index_byte_none)
        then show ?thesis by (cases "e1 < ?n") (auto intro: skipI)
      next
        assume "?i + 1 + rel + 1 = ?n"
        with lt sl show ?thesis
          by (intro skipI [of "?i + 1 + rel" IssueUnexpectedEOL]) (simp add: ActAttribute_def Let_def e1_def [symmetric] rel_def [symmetric]
              del: index_byte_none)
      qed
    next
      case found: False
      define st where "st = ?i + 1 + rel + 1"
      have rel: "0 \<le> rel" "rel < e1 - (?i + 1)"
        using index_byte_some [of sub "d_attrPayloadStart ?d"] found sub by (auto simp: rel_def)
      then have st: "?i + 2 \<le> st" "st < ?n" "0 \<le> st" using found e1 i by (auto simp: st_def)
      define e2 where "e2 = min (wrap64 (st + MaxAttrPayloadLen (d_Limits ?d) + 1)) ?n"
      have "wrap64 (st + MaxAttrPayloadLen (d_Limits ?d) + 1) = st + MaxAttrPayloadLen (d_Limits ?d) + 1"
        using limits_of [OF assms] assms st i
        by (intro wrap64_add) (auto simp: limits_wf_def ctx_wf_def small_def)
      then have e2: "st \<le> e2" "e2 \<le> ?n" and e2': "e2 \<le> st + MaxAttrPayloadLen (d_Limits ?d) + 1"
        using limits_of [OF assms] st by (auto simp: e2_def limits_wf_def)
      define search where "search = (if d_escapeTrigger ?d \<noteq> NUL
          then findPayloadEndWithEscape ?inp st e2 (d_attrPayloadEnd ?d) (d_escapeTrigger ?d)
          else findPayloadEnd ?inp st e2 (d_attrPayloadEnd ?d))"
      have "returns search (\<lambda>r. r = -1 \<or> st \<le> r \<and> r < e2)"
        using e2 st escape_loop_returns findPayloadEnd_returns
        by (simp add: search_def findPayloadEndWithEscape_def)
      then obtain r where r: "search = Some r" "r = -1 \<or> st \<le> r \<and> r < e2"
        by (auto simp: returns_ex)
      have shape: "ActAttribute ac =
          (if r = -1 then (if e2 < ?n then skipWithWarn ac 1 ?i IssueAttrPayloadTooLong
                           else skipWithWarn ac 1 ?n IssueUnclosedAttrPayload)
           else if r = st then skipWithWarn ac 1 st IssueEmptyAttrPayload
           else let t = zero_token\<lparr>tok_Trigger := ac_Trigger ac, tok_Pos := ?i,
                          tok_Width := r - ?i + 1, tok_Payload := NewSpan st (r - st)\<rparr>;
                    ac' = ac\<lparr>ac_State := (ac_State ac)
                            \<lparr>ts_Attributes := ts_Attributes (ac_State ac) + 1\<rparr>\<rparr>
                in if rel = 0 then Some (t\<lparr>tok_Type := TokenAttributeFlag\<rparr>, r - ?i + 1, False, ac')
                   else Some (t\<lparr>tok_Type := TokenAttributeKV,
                                tok_AttrKey := NewSpan (?i + 1) rel\<rparr>, r - ?i + 1, False, ac'))"
        using lt found sl r(1)
        by (cases "d_escapeTrigger ?d = NUL")
          (simp_all add: ActAttribute_def Let_def e1_def [symmetric] rel_def [symmetric]
            st_def [symmetric] e2_def [symmetric] search_def del: index_byte_none)
      show ?thesis
      proof (cases "r = -1 \<or> r = st")
        case True
        with shape skipI show ?thesis by (auto split: if_splits)
      next
        case False
        have hit: "st \<le> r" "r < e2" "?inp ! nat r = d_attrPayloadEnd ?d"
          using payload_end_hit [of "d_escapeTrigger ?d" ?inp st e2 "d_attrPayloadEnd ?d" r] r(1) False st
          by (auto simp: search_def)
        have "sub ! nat rel = ?inp ! (nat (?i + 1) + nat rel)"
          using nth_slice [of "?i + 1" e1 ?inp "nat rel"] e1 i rel by (simp add: sub_def)
        moreover have "sub ! nat rel = d_attrPayloadStart ?d"
          using index_byte_some [of sub "d_attrPayloadStart ?d"] found by (auto simp: rel_def)
        ultimately have "?inp ! nat (st - 1) = d_attrPayloadStart ?d"
          using rel i by (simp add: st_def nat_add_distrib)
        with hit False rel e2 e2' have "attribute_found ac rel st r"
          by (auto simp: attribute_found_def Let_def st_def e1_def w1)
        moreover have "ActAttribute ac =
            Some (attribute_token ac rel st r, r - ac_Idx ac + 1, False,
              ac\<lparr>ac_State := (ac_State ac)\<lparr>ts_Attributes := ts_Attributes (ac_State ac) + 1\<rparr>\<rparr>)"
          using False by (simp add: shape attribute_token_def Let_def)
        ultimately show ?thesis by blast
      qed
    qed
  qed
qed

lemma ActAttribute_ok:
  assumes "ctx_wf ac"
  shows "returns (ActAttribute ac) (outcome_ok ac)"
proof -
  have i: "0 \<le> ac_Idx ac" "ac_Idx ac < len (ac_Input ac)" using assms by (auto simp: ctx_wf_def)
  show ?thesis
    using ActAttribute_cases [OF assms] i
    by (auto simp: skipWithWarn_def attribute_found_def Let_def token_ok_def span_in_def)
qed

section \<open>Every registered action\<close>

lemma Bounds_Reset_wf: "ctx_wf ac \<Longrightarrow> ac_Bounds ac = Bounds_Reset (ac_Idx ac) \<Longrightarrow> bounds_wf ac"
  by (simp add: bounds_wf_def Bounds_Reset_def Let_def ctx_wf_def)

lemma run_action_ok:
  assumes "ctx_wf ac" and "ac_Bounds ac = Bounds_Reset (ac_Idx ac)"
    and "d_actions (ac_Dictionary ac) (ac_Trigger ac) = Some a"
  shows "returns (run_action U a ac) (outcome_ok ac)"
proof (cases a)
  case (ActPlan p)
  have "entry_wf (ac_Dictionary ac) (ac_Trigger ac)"
    using assms(1) by (simp add: ctx_wf_def dict_wf_def)
  with assms ActPlan have "tag_registered ac"
    by (simp add: entry_wf_def tag_registered_def ctx_wf_def)
  with assms ActPlan show ?thesis by (simp add: Plan_Run_ok Bounds_Reset_wf)
qed (use assms ActEscape_ok ActAttribute_ok in auto)

end
