(* ===== verification/Scum_Counters.thy ===== *)
theory Scum_Counters
  imports Scum_Contract
begin

text \<open>
  The counters of the tokenizer. Every plan is a quiet prefix, which neither counts nor
  emits, followed by at most one counting step and the emission; so an action counts a tag
  exactly when it emits its token, once, under the kind of the tag.
\<close>

section \<open>What one emitted token counts as\<close>

definition kind_universal :: "tag \<Rightarrow> bool" where
  "kind_universal t \<longleftrightarrow> IsUniversal t \<and> tag_Greed t = NonGreedy"

definition kind_open :: "tag \<Rightarrow> bool" where
  "kind_open t \<longleftrightarrow> \<not> IsUniversal t \<and> IsOpening t \<and> tag_Greed t = NonGreedy"

definition kind_close :: "tag \<Rightarrow> bool" where
  "kind_close t \<longleftrightarrow> \<not> IsUniversal t \<and> \<not> IsOpening t \<and> IsClosing t"

definition bump :: "dictionary \<Rightarrow> token \<Rightarrow> tokenizer_state \<Rightarrow> tokenizer_state" where
  "bump d t s = (let g = d_tags d (tok_Trigger t) in case tok_Type t of
       TokenText \<Rightarrow> s
     | TokenTag \<Rightarrow> s\<lparr>ts_TagsTotal := ts_TagsTotal s + 1,
         ts_UniversalTags := ts_UniversalTags s + (if kind_universal g then 1 else 0),
         ts_OpenTags := ts_OpenTags s + (if kind_open g then 1 else 0),
         ts_CloseTags := ts_CloseTags s + (if kind_close g then 1 else 0)\<rparr>
     | _ \<Rightarrow> s\<lparr>ts_Attributes := ts_Attributes s + 1\<rparr>)"

fun counted :: "action_context \<Rightarrow> token \<times> int \<times> bool \<times> action_context \<Rightarrow> bool" where
  "counted ac (tok, stride, skip, ac') \<longleftrightarrow>
     ac_State ac' = (if skip then ac_State ac else bump (ac_Dictionary ac) tok (ac_State ac))"

section \<open>The shape of the plans\<close>

fun quiet :: "step \<Rightarrow> bool" where
  "quiet (MutateWith m) = (m \<notin> {DoCountTag, DoCountCloseTag, DoCountOpenTag, DoCountUniversalTag})"
| "quiet EmitEntireTagToken = False"
| "quiet _ = True"

definition final_steps :: "tag \<Rightarrow> plan" where
  "final_steps t =
     (if IsUniversal t \<or> IsOpening t then
        [MutateWith (if tag_Greed t \<noteq> NonGreedy then DoCountTag
                     else if IsUniversal t then DoCountUniversalTag else DoCountOpenTag),
         EmitEntireTagToken]
      else if IsClosing t then [MutateWith DoCountCloseTag, EmitEntireTagToken]
      else [])"

lemma greed_range:
  assumes "tag_wf c t"
  shows "tag_Greed t = NonGreedy \<or> tag_Greed t = Greedy \<or> tag_Greed t = Grasping"
proof -
  have "tag_Greed t \<le> 2"
    using assms
    by (auto simp: tag_wf_def checkTagConsistency_def const_defs enum_defs not_less split: if_splits)
  then have "unat (tag_Greed t) \<le> 2" by (simp add: word_le_nat_alt)
  then have "unat (tag_Greed t) = 0 \<or> unat (tag_Greed t) = 1 \<or> unat (tag_Greed t) = 2" by auto
  then show ?thesis by (auto simp: enum_defs word_unat_eq_iff)
qed

lemma not_both_kinds: "tag_wf c t \<Longrightarrow> IsUniversal t \<Longrightarrow> \<not> IsOpening t"
  by (auto simp: IsUniversal_def IsOpening_def dest: tag_wf_ID)

lemma dropWhile_quiet: "dropWhile quiet p = q \<Longrightarrow> \<exists>pre. list_all quiet pre \<and> p = pre @ q"
  by (metis takeWhile_dropWhile_id list_all_iff set_takeWhileD)

lemma CreateAction_shape:
  assumes "tag_wf c t"
  shows "\<exists>pre. list_all quiet pre \<and> CreateAction t = ActPlan (pre @ final_steps t)"
proof -
  obtain p where p: "CreateAction t = ActPlan p" using CreateAction_plan by blast
  have g: "(0::uint8) < 1" "(0::uint8) < 2" by simp_all
  have "dropWhile quiet p = final_steps t"
    using p greed_range [OF assms] not_both_kinds [OF assms] g
    by (elim disjE) (auto simp: plan_defs final_steps_def enum_defs split: if_splits)
  with p dropWhile_quiet show ?thesis by blast
qed

section \<open>Running a plan counts what it emits\<close>

lemma quiet_mutator_state:
  assumes "quiet (MutateWith m)" and "run_mutator m ac = Some ac'"
  shows "ac_State ac' = ac_State ac"
proof -
  have run: "ac_State ac' = ac_State ac" if "tagVsContent_loop ac w s e = Some ac'" for ac w s e ac'
    using that
  proof (induct rule: tagVsContent_loop.raw_induct [rotated, consumes 1])
    case (1 loop ac w s e r)
    from 1(2) show ?case
      by (auto simp: mutateWithOnlyOpeningTag_def Let_def bind_eq_Some_conv dest: 1(1) split: if_splits)
  qed
  show ?thesis using assms
    by (cases m) (auto simp: PrepareSingleCharTag_def CheckMultiCharTagSeq_def WarnInvalidSequence_def
      WarnOpenTagBeforeEOL_def WarnCloseTagAfterStart_def WarnTagKeyTooLong_def
      WarnTagPayloadTooLong_def WarnUnclosedTag_def CheckCloseTag_def CheckTagVsContent_def
      mutateWithOnlyOpeningTag_def Let_def bind_eq_Some_conv
      case_prod_unfold run split: if_splits)
qed

lemma quiet_step:
  assumes "quiet s" and "run_step U s ac = Some (ac', handled)"
  shows "ac_State ac' = ac_State ac \<and> (handled \<longrightarrow> ac_Skip ac')"
proof (cases s)
  case (MutateWith m)
  with assms quiet_mutator_state [of m ac ac'] show ?thesis
    by (auto simp: bind_eq_Some_conv simp del: run_mutator.simps)
qed (use assms in \<open>auto simp: StepSkipInvalidTriggerTag_def StepSkipOpenTagBeforeEOL_def
  StepSkipCloseTagAfterStart_def StepSkipUnclosedOpenTag_def StepInfraWordCheck_def skip_text_def
  Let_def bind_eq_Some_conv split: if_splits\<close>)

lemma run_step_frame:
  assumes "ctx_wf ac" and "tag_registered ac" and "bounds_wf ac"
    and "run_step U s ac = Some (ac', False)"
  shows "running ac ac'"
  using run_step_ok [OF assms(1-3), of U s] assms(4) by simp

lemma final_steps_counted:
  assumes "tag_registered ac" and "ac_Tag ac = d_tags (ac_Dictionary ac) (ac_Trigger ac)"
    and "Plan_Run U (final_steps (ac_Tag ac)) ac = Some r"
  shows "counted ac r"
proof -
  have "tag_ID (ac_Tag ac) = ac_Trigger ac" "\<not> (IsUniversal (ac_Tag ac) \<and> IsOpening (ac_Tag ac))"
    using assms(1) not_both_kinds by (auto simp: tag_registered_def tag_wf_def)
  with assms(2,3) show ?thesis
    by (cases r)
       (auto simp: final_steps_def StepEmitEntireTagToken_def bump_def kind_universal_def kind_open_def
         kind_close_def CountTag_def CountCloseTag_def CountOpenTag_def CountUniversalTag_def
         Let_def split: if_splits)
qed

lemma counted_frame: "ac_State b = ac_State a \<Longrightarrow> ac_Dictionary b = ac_Dictionary a \<Longrightarrow>
    counted b r \<Longrightarrow> counted a r"
  by (cases r) simp

lemma Plan_Run_counted:
  assumes "list_all quiet pre" and "ctx_wf ac" and "tag_registered ac" and "bounds_wf ac"
    and "Plan_Run U (pre @ final_steps (ac_Tag ac)) ac = Some r"
  shows "counted ac r"
  using assms
proof (induction pre arbitrary: ac)
  case Nil
  then show ?case using final_steps_counted by (simp add: ctx_wf_def)
next
  case (Cons s ss)
  from Cons.prems(5) obtain ac1 h where st: "run_step U s ac = Some (ac1, h)"
    and rest: "(if h then Some (ac_Token ac1, ac_Stride ac1, ac_Skip ac1, ac1)
                else Plan_Run U (ss @ final_steps (ac_Tag ac)) ac1) = Some r"
    by (auto simp: bind_eq_Some_conv)
  have q: "ac_State ac1 = ac_State ac" "h \<longrightarrow> ac_Skip ac1"
    using quiet_step [OF _ st] Cons.prems(1) by auto
  show ?case
  proof (cases h)
    case True
    with q rest show ?thesis by (cases r) auto
  next
    case False
    with st Cons.prems have run: "running ac ac1" using run_step_frame by simp
    then have f: "ac_Tag ac1 = ac_Tag ac" "ac_Dictionary ac1 = ac_Dictionary ac"
      by (auto simp: running_def dest: frame_fields)
    have "counted ac1 r"
      using Cons.IH [of ac1] Cons.prems(1) run rest False f by (simp add: running_def)
    with q f show ?thesis by (intro counted_frame [of ac1 ac]) auto
  qed
qed

lemma skipWithWarn_counted: "skipWithWarn ac stride pos i = Some r \<Longrightarrow> counted ac r"
  by (auto simp: skipWithWarn_def)

lemma attribute_counted:
  assumes "ActAttribute ac = Some r"
  shows "counted ac r"
proof -
  have skip: "whenever (skipWithWarn ac s p i) (counted ac)" for s p i
    by (simp add: skipWithWarn_def)
  have "whenever (ActAttribute ac) (counted ac)"
    unfolding ActAttribute_def
    by (intro whenever_intros skip) (simp_all add: bump_def zero_token_def)
  with assms show ?thesis by (simp add: whenever_def)
qed

lemma escape_counted: "ActEscape ac = Some r \<Longrightarrow> counted ac r"
  by (cases r) (auto simp: ActEscape_def Let_def bind_eq_Some_conv split: if_splits)

lemma run_action_counted:
  assumes "ctx_wf ac" and "ac_Bounds ac = Bounds_Reset (ac_Idx ac)"
    and "d_actions (ac_Dictionary ac) (ac_Trigger ac) = Some a"
    and "run_action U a ac = Some r"
  shows "counted ac r"
proof (cases a)
  case (ActPlan p)
  have "entry_wf (ac_Dictionary ac) (ac_Trigger ac)"
    using assms(1) by (simp add: ctx_wf_def dict_wf_def)
  with assms(1,3) ActPlan have "tag_registered ac" "CreateAction (ac_Tag ac) = ActPlan p"
    by (simp_all add: entry_wf_def tag_registered_def ctx_wf_def)
  moreover from this obtain pre where "list_all quiet pre" "p = pre @ final_steps (ac_Tag ac)"
    using CreateAction_shape unfolding tag_registered_def by (metis action.inject)
  ultimately show ?thesis
    using assms ActPlan by (simp add: Plan_Run_counted Bounds_Reset_wf)
qed (use assms attribute_counted escape_counted in auto)

end
