(* ===== verification/Scum_Action_Props.thy ===== *)
theory Scum_Action_Props
  imports Scum_Counters Scum_Demo
begin

text \<open>
  The functional behaviour of the actions: where a greedy tag closes under the two rules,
  what an attribute token is made of, and what the escape symbol does.
\<close>

section \<open>Tag against content\<close>

text \<open>At \<open>k\<close> stands a maximal run of exactly \<open>w\<close> bytes \<open>c\<close>.\<close>

definition run_at :: "string \<Rightarrow> char \<Rightarrow> int \<Rightarrow> int \<Rightarrow> bool" where
  "run_at inp c k w \<longleftrightarrow> 0 < k \<and> 0 < w \<and> k + w \<le> len inp \<and> inp ! nat (k - 1) \<noteq> c
     \<and> (\<forall>j. k \<le> j \<and> j < k + w \<longrightarrow> inp ! nat j = c)
     \<and> (k + w < len inp \<longrightarrow> inp ! nat (k + w) \<noteq> c)"

definition closes_at :: "action_context \<Rightarrow> int \<Rightarrow> action_context \<Rightarrow> bool" where
  "closes_at ac w r \<longleftrightarrow> (let b = ac_Bounds r; k = bnd_CloseIdx b; i = ac_Idx ac in
     bnd_Closed b \<longrightarrow> run_at (ac_Input ac) (tag_ID (ac_Tag ac)) k w
       \<and> bnd_Width b = w \<and> bnd_CloseWidth b = w
       \<and> bnd_Inner b = mk_span (i + w) k \<and> bnd_Raw b = mk_span i (k + w))"

lemma run_width_run:
  assumes "run_width inp c0 c (len inp - c0) 1 = Some r" and "0 \<le> c0" "c0 < len inp" "inp ! nat c0 = c"
  shows "1 \<le> r \<and> c0 + r \<le> len inp \<and> (\<forall>j. c0 \<le> j \<and> j < c0 + r \<longrightarrow> inp ! nat j = c)
    \<and> (c0 + r < len inp \<longrightarrow> inp ! nat (c0 + r) \<noteq> c)"
proof -
  have "returns (run_width inp c0 c (len inp - c0) 1)
    (\<lambda>r. 1 \<le> r \<and> r \<le> max 1 (len inp - c0) \<and> (\<forall>j. 1 \<le> j \<and> j < r \<longrightarrow> inp ! nat (c0 + j) = c)
         \<and> (r < len inp - c0 \<longrightarrow> inp ! nat (c0 + r) \<noteq> c))"
    using assms(2,3) by (intro run_width_returns) auto
  with assms have r: "1 \<le> r" "c0 + r \<le> len inp" "\<And>j. 1 \<le> j \<Longrightarrow> j < r \<Longrightarrow> inp ! nat (c0 + j) = c"
    "c0 + r < len inp \<longrightarrow> inp ! nat (c0 + r) \<noteq> c" by auto
  have "inp ! nat j = c" if "c0 \<le> j" "j < c0 + r" for j
    using r(3) [of "j - c0"] that assms(4) by (cases "j = c0") auto
  with r show ?thesis by blast
qed

lemma tagVsContent_loop_closes:
  assumes "tagVsContent_loop ac w ss e = Some r" and "0 < ss" "e \<le> len (ac_Input ac)" "\<not> bnd_Closed (ac_Bounds ac)"
    and "ss - 1 < len (ac_Input ac) \<Longrightarrow> ac_Input ac ! nat (ss - 1) \<noteq> tag_ID (ac_Tag ac)"
  shows "closes_at ac w r"
  using assms
proof (induction "nat (e - ss)" arbitrary: ss rule: less_induct)
  case less
  let ?inp = "ac_Input ac" and ?c = "tag_ID (ac_Tag ac)"
  have open_only: "closes_at ac w (mutateWithOnlyOpeningTag ac w k p)" for k p
    by (simp add: closes_at_def mutateWithOnlyOpeningTag_def Let_def)
  note eqn = less.prems(1) [unfolded tagVsContent_loop.simps [of ac w ss e]]
  show ?case
  proof (cases "ss < e")
    case False
    with eqn open_only show ?thesis by auto
  next
    case True
    define sub where "sub = take (nat e - nat ss) (drop (nat ss) ?inp)"
    have sl: "go_slice ?inp ss e = Some sub" using True less.prems by (simp add: go_slice_def sub_def)
    have sub: "len sub = e - ss" unfolding sub_def by (rule len_slice) (use True less.prems in auto)
    show ?thesis
    proof (cases "index_byte sub ?c = -1")
      case True
      with eqn sl \<open>ss < e\<close> open_only show ?thesis by (auto simp: Let_def simp del: index_byte_none)
    next
      case found: False
      define idx where "idx = ss + index_byte sub ?c"
      have rel: "0 \<le> index_byte sub ?c" "index_byte sub ?c < len sub" "sub ! nat (index_byte sub ?c) = ?c"
        using index_byte_some [OF found] by auto
      have nth: "sub ! j = ?inp ! (nat ss + j)" if "j < nat (e - ss)" for j
        using nth_slice [of ss e ?inp j] that True less.prems by (simp add: sub_def)
      have idx: "ss \<le> idx" "idx < e" "?inp ! nat idx = ?c"
        using rel sub nth [of "nat (index_byte sub ?c)"] less.prems(2)
        by (auto simp: idx_def nat_add_distrib)
      have before: "?inp ! nat (idx - 1) \<noteq> ?c"
      proof (cases "idx = ss")
        case True
        with less.prems idx show ?thesis by auto
      next
        case False
        with idx have "0 \<le> idx - 1 - ss" "idx - 1 - ss < index_byte sub ?c" by (auto simp: idx_def)
        then have "sub ! nat (idx - 1 - ss) \<noteq> ?c" by (rule index_byte_first)
        with nth [of "nat (idx - 1 - ss)"] idx False less.prems(2) show ?thesis
          by (simp add: nat_diff_distrib [symmetric] flip: nat_add_distrib)
      qed
      obtain cw where cw: "run_width ?inp idx ?c (len ?inp - idx) 1 = Some cw"
        and rest: "(if cw = w then Some (ac\<lparr>ac_Bounds := (ac_Bounds ac)\<lparr>bnd_Width := w, bnd_CloseIdx := idx,
              bnd_CloseWidth := cw, bnd_Closed := True, bnd_Inner := mk_span (ac_Idx ac + w) idx,
              bnd_Raw := mk_span (ac_Idx ac) (idx + cw)\<rparr>\<rparr>)
            else tagVsContent_loop ac w (idx + cw + 1) e) = Some r"
        using eqn sl True found
        by (auto simp: Let_def idx_def [symmetric] bind_eq_Some_conv simp del: index_byte_none)
      have run: "1 \<le> cw" "idx + cw \<le> len ?inp" "\<forall>j. idx \<le> j \<and> j < idx + cw \<longrightarrow> ?inp ! nat j = ?c"
        "idx + cw < len ?inp \<longrightarrow> ?inp ! nat (idx + cw) \<noteq> ?c"
        using run_width_run [OF cw _ _ idx(3)] idx less.prems by auto
      show ?thesis
      proof (cases "cw = w")
        case True
        with rest have r: "r = ac\<lparr>ac_Bounds := (ac_Bounds ac)\<lparr>bnd_Width := w, bnd_CloseIdx := idx,
              bnd_CloseWidth := w, bnd_Closed := True, bnd_Inner := mk_span (ac_Idx ac + w) idx,
              bnd_Raw := mk_span (ac_Idx ac) (idx + w)\<rparr>\<rparr>" by simp
        have "run_at ?inp ?c idx w"
          using run idx before less.prems(2) True by (auto simp: run_at_def)
        with r show ?thesis by (simp add: closes_at_def Let_def)
      next
        case False
        with rest have rec: "tagVsContent_loop ac w (idx + cw + 1) e = Some r" by simp
        show ?thesis
          by (rule less.hyps [OF _ rec]) (use idx run less.prems True in auto)
      qed
    qed
  qed
qed

text \<open>The run of trigger bytes that opens a tag, as far as it is counted.\<close>

lemma opening_width:
  assumes "ctx_wf ac" and "tag_registered ac"
    and "run_width (ac_Input ac) (ac_Idx ac) (tag_ID (ac_Tag ac))
      (min (MaxKeyLen (d_Limits (ac_Dictionary ac))) (len (ac_Input ac) - ac_Idx ac)) 1 = Some w"
  shows "1 \<le> w" "w \<le> MaxKeyLen (d_Limits (ac_Dictionary ac))" "ac_Idx ac + w \<le> len (ac_Input ac)"
    and "\<forall>j. ac_Idx ac \<le> j \<and> j < ac_Idx ac + w \<longrightarrow> ac_Input ac ! nat j = tag_ID (ac_Tag ac)"
    and "w < min (MaxKeyLen (d_Limits (ac_Dictionary ac))) (len (ac_Input ac) - ac_Idx ac) \<Longrightarrow>
      ac_Input ac ! nat (ac_Idx ac + w) \<noteq> tag_ID (ac_Tag ac)"
proof -
  let ?inp = "ac_Input ac" and ?c = "tag_ID (ac_Tag ac)" and ?i = "ac_Idx ac" and ?n = "len (ac_Input ac)"
  define lim where "lim = MaxKeyLen (d_Limits (ac_Dictionary ac))"
  have i: "0 \<le> ?i" "?i < ?n" "?inp ! nat ?i = ?c"
    using assms(1) registered_ID [OF assms(1,2)] by (auto simp: ctx_wf_def)
  have lim: "0 < lim" using limits_of [OF assms(1)] by (simp add: limits_wf_def lim_def)
  have "returns (run_width ?inp ?i ?c (min lim (?n - ?i)) 1)
    (\<lambda>r. 1 \<le> r \<and> r \<le> max 1 (min lim (?n - ?i)) \<and> (\<forall>j. 1 \<le> j \<and> j < r \<longrightarrow> ?inp ! nat (?i + j) = ?c)
         \<and> (r < min lim (?n - ?i) \<longrightarrow> ?inp ! nat (?i + r) \<noteq> ?c))"
    using i by (intro run_width_returns) auto
  with assms(3) lim i have w: "1 \<le> w" "w \<le> lim" "?i + w \<le> ?n"
    "\<And>j. 1 \<le> j \<Longrightarrow> j < w \<Longrightarrow> ?inp ! nat (?i + j) = ?c"
    "w < min lim (?n - ?i) \<Longrightarrow> ?inp ! nat (?i + w) \<noteq> ?c" by (auto simp: lim_def)
  have "?inp ! nat j = ?c" if "?i \<le> j" "j < ?i + w" for j
    using w(4) [of "j - ?i"] that i(3) by (cases "j = ?i") auto
  then show "\<forall>j. ?i \<le> j \<and> j < ?i + w \<longrightarrow> ?inp ! nat j = ?c" by blast
  show "1 \<le> w" "w \<le> MaxKeyLen (d_Limits (ac_Dictionary ac))" "?i + w \<le> ?n" using w(1-3) by (simp_all add: lim_def)
  show "w < min (MaxKeyLen (d_Limits (ac_Dictionary ac))) (?n - ?i) \<Longrightarrow> ?inp ! nat (?i + w) \<noteq> ?c"
    using w(5) by (simp add: lim_def)
qed

text \<open>
  C30: under the rule \<open>RuleTagVsContent\<close> a greedy tag that starts with a run of \<open>w\<close> trigger
  bytes closes at a maximal run of exactly \<open>w\<close> of them, and its content is what lies
  between the two runs; \<open>w\<close> does not exceed \<open>MaxKeyLen\<close>.
\<close>

theorem tag_vs_content_closes:
  assumes "ctx_wf ac" and "tag_registered ac" and "\<not> bnd_Closed (ac_Bounds ac)"
    and "CheckTagVsContent ac = Some r" and "bnd_Closed (ac_Bounds r)"
  shows "\<exists>w. 1 \<le> w \<and> w \<le> MaxKeyLen (d_Limits (ac_Dictionary ac)) \<and> closes_at ac w r
    \<and> (\<forall>j. ac_Idx ac \<le> j \<and> j < ac_Idx ac + w \<longrightarrow> ac_Input ac ! nat j = tag_ID (ac_Tag ac))
    \<and> ac_Input ac ! nat (ac_Idx ac + w) \<noteq> tag_ID (ac_Tag ac)"
proof -
  let ?inp = "ac_Input ac" and ?c = "tag_ID (ac_Tag ac)" and ?i = "ac_Idx ac" and ?n = "len (ac_Input ac)"
  define lim where "lim = MaxKeyLen (d_Limits (ac_Dictionary ac))"
  define sc where "sc = (\<lambda>w. min (wrap64 (?i + w + 1 + MaxPayloadLen (d_Limits (ac_Dictionary ac)))) (?n - w + 1))"
  have i: "0 \<le> ?i" "?i < ?n" "?inp ! nat ?i = ?c"
    using assms(1) registered_ID [OF assms(1,2)] by (auto simp: ctx_wf_def)
  obtain w where w: "run_width ?inp ?i ?c (min lim (?n - ?i)) 1 = Some w"
    and rest: "(if ?i + w = ?n then Some (mutateWithOnlyOpeningTag ac w False False) else do {
       limited \<leftarrow> (if w = lim then do { c \<leftarrow> go_index ?inp (?i + w); Some (c = ?c) } else Some False);
       if limited then Some (mutateWithOnlyOpeningTag ac lim True False)
       else tagVsContent_loop ac w (?i + w + 1) (sc w) }) = Some r"
    using assms(4) unfolding CheckTagVsContent_def Let_def lim_def [symmetric]
    unfolding sc_def
    by (auto simp only: bind_eq_Some_conv [of "run_width a b c d e" for a b c d e])
  note r = opening_width [OF assms(1,2) w [unfolded lim_def], folded lim_def]
  have notopen: "r \<noteq> mutateWithOnlyOpeningTag ac u k p" for u k p
    using assms(5) by (auto simp: mutateWithOnlyOpeningTag_def Let_def)
  have "?i + w < ?n" using rest r(3) notopen by (auto split: if_splits)
  moreover have loop: "tagVsContent_loop ac w (?i + w + 1) (sc w) = Some r"
    and "w = lim \<longrightarrow> ?inp ! nat (?i + w) \<noteq> ?c"
    using rest notopen calculation i r(1) by (auto simp: go_index_def split: if_splits)
  ultimately have ends: "?inp ! nat (?i + w) \<noteq> ?c" using r by (cases "w = lim") auto
  have "closes_at ac w r"
    by (rule tagVsContent_loop_closes [OF loop]) (use i r(1) ends assms(3) in \<open>auto simp: sc_def\<close>)
  with r(1,2,4) ends show ?thesis unfolding lim_def by blast
qed

text \<open>Contexts of the demo dictionary.\<close>

definition demo_ctx :: "string \<Rightarrow> int \<Rightarrow> action_context" where
  "demo_ctx input i = NewActionContext demo zero_state demo_log input (input ! nat i) i"

lemma demo_ctx_wf: "0 \<le> i \<Longrightarrow> i < len input \<Longrightarrow> small (len input) \<Longrightarrow> ctx_wf (demo_ctx input i)"
  by (simp add: ctx_wf_def demo_ctx_def NewActionContext_def demo_wf)

lemma demo_ctx_registered:
  "seq_Len (tag_Seq (d_tags demo (input ! nat i))) \<noteq> 0 \<Longrightarrow> tag_registered (demo_ctx input i)"
proof -
  have "entry_wf demo (input ! nat i)" using demo_wf by (simp add: dict_wf_def)
  moreover assume "seq_Len (tag_Seq (d_tags demo (input ! nat i))) \<noteq> 0"
  ultimately show ?thesis
    by (auto simp: entry_wf_def tag_registered_def demo_ctx_def NewActionContext_def)
qed

definition ticks :: string where
  "ticks = [code_char, code_char, CHR ''x'', code_char, code_char]"

theorem tag_vs_content_closes_witness:
  "\<exists>r w. CheckTagVsContent (demo_ctx ticks 0) = Some r \<and> 1 \<le> w \<and> closes_at (demo_ctx ticks 0) w r"
proof -
  have "ctx_wf (demo_ctx ticks 0)" by (rule demo_ctx_wf) (simp_all add: ticks_def len_def small_def)
  moreover have "tag_registered (demo_ctx ticks 0)" by (rule demo_ctx_registered) code_simp
  moreover have "\<not> bnd_Closed (ac_Bounds (demo_ctx ticks 0))" by code_simp
  moreover have "CheckTagVsContent (demo_ctx ticks 0) \<noteq> None" by code_simp
  then obtain r where r: "CheckTagVsContent (demo_ctx ticks 0) = Some r" by blast
  moreover have "bnd_Closed (ac_Bounds (the (CheckTagVsContent (demo_ctx ticks 0))))" by code_simp
  with r have "bnd_Closed (ac_Bounds r)" by simp
  ultimately have "\<exists>w. 1 \<le> w \<and> w \<le> MaxKeyLen (d_Limits (ac_Dictionary (demo_ctx ticks 0)))
      \<and> closes_at (demo_ctx ticks 0) w r
    \<and> (\<forall>j. ac_Idx (demo_ctx ticks 0) \<le> j \<and> j < ac_Idx (demo_ctx ticks 0) + w \<longrightarrow>
         ac_Input (demo_ctx ticks 0) ! nat j = tag_ID (ac_Tag (demo_ctx ticks 0)))
    \<and> ac_Input (demo_ctx ticks 0) ! nat (ac_Idx (demo_ctx ticks 0) + w) \<noteq> tag_ID (ac_Tag (demo_ctx ticks 0))"
    by (rule tag_vs_content_closes)
  with r show ?thesis by blast
qed

section \<open>Greedy tags with a closing tag\<close>

lemma lcsp_contained:
  assumes "longestCommonSubPrefix src sq = (True, k, l)" and "sq \<noteq> []"
  shows "0 \<le> k \<and> l = len sq \<and> prefix sq (drop (nat k) src)
    \<and> (\<forall>j. j < nat k \<longrightarrow> \<not> prefix sq (drop j src))"
proof -
  have b: "best src sq (length src) k (nat l)" and l: "l = len sq"
    using longestCommonSubPrefix_best [OF assms(2,1)] by auto
  then have "nat l \<noteq> 0" using assms(2) by simp
  with b l show ?thesis
    by (auto simp: best_def match_len_def lcp_full [symmetric] less_le)
qed

text \<open>
  A greedy tag whose closing tag is found ends at the first occurrence of the closing
  sequence after the opening one, at most \<open>MaxPayloadLen\<close> bytes away; its content is what
  lies between them.
\<close>

theorem close_tag_is_first:
  assumes "ctx_wf ac" and "tag_registered ac" and "bounds_wf ac"
    and "CheckCloseTag ac = Some r" and "bnd_Closed (ac_Bounds r)"
  shows "let b = ac_Bounds r; st = ac_Idx ac + bnd_Width (ac_Bounds ac); k = bnd_CloseIdx b;
             closer = seq_bytes (tag_Seq (d_tags (ac_Dictionary ac) (tag_CloseID (ac_Tag ac)))) in
    st \<le> k \<and> closer \<noteq> [] \<and> prefix closer (drop (nat k) (ac_Input ac))
    \<and> k + len closer - st \<le> MaxPayloadLen (d_Limits (ac_Dictionary ac)) + 1
    \<and> (\<forall>j. nat st \<le> j \<and> j < nat k \<longrightarrow> \<not> prefix closer (drop j (ac_Input ac)))
    \<and> bnd_Inner b = mk_span st k \<and> bnd_Raw b = mk_span (ac_Idx ac) (k + len closer)"
proof -
  let ?inp = "ac_Input ac" and ?d = "ac_Dictionary ac" and ?n = "len (ac_Input ac)"
  define ct where "ct = d_tags ?d (tag_CloseID (ac_Tag ac))"
  define sq where "sq = seq_bytes (tag_Seq ct)"
  define st where "st = ac_Idx ac + bnd_Width (ac_Bounds ac)"
  define e where "e = min (wrap64 (st + MaxPayloadLen (d_Limits ?d) + 1)) ?n"
  have st: "0 \<le> st" "st \<le> ?n" using assms(1,3) by (auto simp: st_def ctx_wf_def bounds_wf_def Let_def)
  have reg: "seq_Len (tag_Seq ct) \<noteq> 0"
    using assms(4,5) by (auto simp: CheckCloseTag_def dict_Tag_def ct_def Let_def)
  then have "seq_wf (tag_Seq ct)"
    using assms(1) zero_tag_simps(2)
    by (auto simp: ctx_wf_def dict_wf_def entry_wf_def ct_def tag_wf_def
        dest!: spec [of _ "tag_CloseID (ac_Tag ac)"])
  then have ne: "sq \<noteq> []" using seq_bytes_ID unfolding sq_def by blast
  have "small st" "small (MaxPayloadLen (d_Limits ?d))" "0 < MaxPayloadLen (d_Limits ?d)"
    using assms(1) st limits_of [OF assms(1)] by (auto simp: ctx_wf_def small_def limits_wf_def)
  then have e: "st \<le> e" "e \<le> ?n" "e \<le> st + MaxPayloadLen (d_Limits ?d) + 1"
    using st by (auto simp: e_def wrap64_add)
  define sub where "sub = take (nat e - nat st) (drop (nat st) ?inp)"
  have sl: "go_slice ?inp st e = Some sub" using e st by (simp add: go_slice_def sub_def)
  have sub: "len sub = e - st" using e st unfolding sub_def by (intro len_slice) auto
  obtain c k0 l where lc: "longestCommonSubPrefix sub sq = (c, k0, l)"
    by (cases "longestCommonSubPrefix sub sq") auto
  have shape: "CheckCloseTag ac = Some (if c
      then ac\<lparr>ac_Bounds := (ac_Bounds ac)\<lparr>bnd_Closed := True,
          bnd_CloseIdx := (if k0 \<noteq> -1 then st + k0 else -1), bnd_CloseWidth := l,
          bnd_PayloadLimitReached := ((if k0 \<noteq> -1 then st + k0 else -1) = -1 \<and> e < ?n),
          bnd_Raw := mk_span (ac_Idx ac) ((if k0 \<noteq> -1 then st + k0 else -1) + l),
          bnd_Inner := mk_span st (if k0 \<noteq> -1 then st + k0 else -1)\<rparr>\<rparr>
      else ac\<lparr>ac_Bounds := (ac_Bounds ac)\<lparr>bnd_Closed := False,
          bnd_CloseIdx := (if k0 \<noteq> -1 then st + k0 else -1), bnd_CloseWidth := l,
          bnd_PayloadLimitReached := ((if k0 \<noteq> -1 then st + k0 else -1) = -1 \<and> e < ?n),
          bnd_Raw := mk_span (ac_Idx ac) ?n, bnd_Inner := mk_span st ?n\<rparr>\<rparr>)"
    using reg sl lc
    by (simp add: CheckCloseTag_def dict_Tag_def Let_def ct_def [symmetric] st_def [symmetric]
        e_def [symmetric] IsContainedIn_def sq_def)
  then have c: "c" using assms(4,5) by (auto split: if_splits)
  with lc have f: "0 \<le> k0" "l = len sq" "prefix sq (drop (nat k0) sub)"
    "\<And>j. j < nat k0 \<Longrightarrow> \<not> prefix sq (drop j sub)"
    using lcsp_contained [of sub sq k0 l] ne by auto
  have le: "k0 + len sq \<le> e - st"
    using prefix_length_le [OF f(3)] f(1) sub ne by (cases sq) (auto simp: len_def)
  have sub_drop: "drop j sub = take (nat e - nat st - j) (drop (nat st + j) ?inp)" for j
    by (simp add: sub_def drop_take add.commute)
  have inside: "prefix sq (drop j sub)" if "prefix sq (drop (nat st + j) ?inp)" "j + length sq \<le> nat e - nat st" for j
    using that unfolding sub_drop by (auto simp: prefix_def)
  define k where "k = st + k0"
  have nk: "nat k = nat st + nat k0" using st f(1) by (simp add: k_def nat_add_distrib)
  have "prefix sq (drop (nat k) ?inp)"
    using f(3) unfolding sub_drop nk by (meson prefix_order.trans take_is_prefix)
  moreover have "\<not> prefix sq (drop j ?inp)" if "nat st \<le> j" "j < nat k" for j
  proof
    assume p: "prefix sq (drop j ?inp)"
    have "int (nat k0 + length sq) \<le> int (nat e - nat st)" using le f(1) e st by (simp add: len_def)
    then have "j - nat st + length sq \<le> nat e - nat st" using that nk by linarith
    with inside [of "j - nat st"] p that have "prefix sq (drop (j - nat st) sub)" by simp
    moreover have "j - nat st < nat k0" using that nk by linarith
    ultimately show False using f(4) by blast
  qed
  moreover have r: "r = ac\<lparr>ac_Bounds := (ac_Bounds ac)\<lparr>bnd_Closed := True, bnd_CloseIdx := k,
      bnd_CloseWidth := l, bnd_PayloadLimitReached := (k = -1 \<and> e < ?n),
      bnd_Raw := mk_span (ac_Idx ac) (k + l), bnd_Inner := mk_span st k\<rparr>\<rparr>"
    using shape c assms(4) f(1) by (simp add: k_def)
  moreover have "st \<le> k" "k + len sq - st \<le> MaxPayloadLen (d_Limits ?d) + 1"
    using f(1) le e by (simp_all add: k_def)
  ultimately show ?thesis
    using ne f(2) by (simp add: Let_def sq_def ct_def st_def)
qed

text \<open>The demo has no greedy tag with a closing tag, so a parenthesis is added to it.\<close>

definition quote_demo :: dictionary where
  "quote_demo = (case AddTag demo ''QUOTE'' ''('' Greedy RuleNA NUL (CHR '')'') of
     Some (Inr d) \<Rightarrow> (case AddTag d ''QUOTE_END'' '')'' Greedy RuleNA (CHR ''('') NUL of
       Some (Inr d') \<Rightarrow> d' | _ \<Rightarrow> demo) | _ \<Rightarrow> demo)"

lemma quote_demo_wf: "dict_wf quote_demo"
  using demo_wf
  by (auto simp: quote_demo_def split: option.split sum.split dest: AddTag_wf)

definition quote_ctx :: action_context where
  "quote_ctx = (NewActionContext quote_demo zero_state demo_log ''(ab)'' (CHR ''('') 0)"

theorem close_tag_is_first_witness:
  "\<exists>r. CheckCloseTag quote_ctx = Some r \<and> prefix '')'' (drop (nat (bnd_CloseIdx (ac_Bounds r))) ''(ab)'')"
proof -
  have "ctx_wf quote_ctx"
    by (simp add: ctx_wf_def quote_ctx_def NewActionContext_def quote_demo_wf len_def small_def)
  moreover have "entry_wf quote_demo (CHR ''('')" using quote_demo_wf by (simp add: dict_wf_def)
  moreover have "seq_Len (tag_Seq (d_tags quote_demo (CHR ''(''))) \<noteq> 0" by code_simp
  ultimately have "tag_registered quote_ctx"
    by (auto simp: entry_wf_def tag_registered_def quote_ctx_def NewActionContext_def)
  moreover have "bounds_wf quote_ctx"
    using \<open>ctx_wf quote_ctx\<close> by (rule Bounds_Reset_wf) (simp add: quote_ctx_def NewActionContext_def)
  moreover have "CheckCloseTag quote_ctx \<noteq> None" by code_simp
  then obtain r where r: "CheckCloseTag quote_ctx = Some r" by blast
  moreover have "bnd_Closed (ac_Bounds (the (CheckCloseTag quote_ctx)))" by code_simp
  with r have "bnd_Closed (ac_Bounds r)" by simp
  moreover have "seq_bytes (tag_Seq (d_tags quote_demo (CHR '')''))) = '')''" by code_simp
  moreover have "tag_CloseID (d_tags quote_demo (CHR ''('')) = CHR '')''" by code_simp
  ultimately show ?thesis
    using close_tag_is_first [of quote_ctx r] \<open>ctx_wf quote_ctx\<close>
    by (simp add: Let_def quote_ctx_def NewActionContext_def)
qed

section \<open>Attributes\<close>

text \<open>
  What an attribute token is made of: \<open>! key { payload }\<close>, with the two bytes of the
  signature around the payload and nothing but the key between the trigger and the first.
\<close>

definition attribute_shape :: "action_context \<Rightarrow> token \<Rightarrow> int \<Rightarrow> bool" where
  "attribute_shape ac t stride \<longleftrightarrow> (let i = ac_Idx ac; inp = ac_Input ac; d = ac_Dictionary ac;
       p = tok_Payload t; l = d_Limits d in
     tok_Pos t = i \<and> tok_Width t = stride \<and> sp_End p = i + stride - 1
     \<and> inp ! nat (sp_End p) = d_attrPayloadEnd d
     \<and> inp ! nat (sp_Start p - 1) = d_attrPayloadStart d
     \<and> 0 < sp_End p - sp_Start p \<and> sp_End p - sp_Start p \<le> MaxAttrPayloadLen l
     \<and> (if sp_Start p = i + 2 then tok_Type t = TokenAttributeFlag \<and> tok_AttrKey t = mk_span 0 0
        else tok_Type t = TokenAttributeKV \<and> tok_AttrKey t = mk_span (i + 1) (sp_Start p - 1)
          \<and> i + 2 < sp_Start p \<and> sp_Start p - 1 - (i + 1) \<le> MaxAttrKeyLen l))"

text \<open>
  An emitted attribute token is exactly the attribute the input holds there: the key
  reaches to the payload's opening symbol, the payload is not empty and ends before the
  closing symbol, a flag is an attribute with an empty key, and both respect their limits.
\<close>

theorem attribute_token_shape:
  assumes "ctx_wf ac" and "ActAttribute ac = Some (t, stride, False, ac')"
  shows "attribute_shape ac t stride"
  using ActAttribute_cases [OF assms(1)] assms(2)
  by (auto simp: skipWithWarn_def attribute_found_def attribute_shape_def Let_def)

theorem attribute_token_shape_witness:
  "\<exists>t stride. attribute_shape (demo_ctx ''!k{v}'' 0) t stride"
proof -
  have wf: "ctx_wf (demo_ctx ''!k{v}'' 0)" by (rule demo_ctx_wf) (simp_all add: len_def small_def)
  have "(case ActAttribute (demo_ctx ''!k{v}'' 0) of Some (t, stride, skip, _) \<Rightarrow> \<not> skip | None \<Rightarrow> False)"
    by code_simp
  then obtain t stride ac' where "ActAttribute (demo_ctx ''!k{v}'' 0) = Some (t, stride, False, ac')"
    by (auto split: option.splits)
  from attribute_token_shape [OF wf this] show ?thesis by blast
qed

section \<open>Escapes\<close>

text \<open>
  An escape symbol before a special symbol makes both plain text, without a warning;
  before any other symbol it does so too, over all bytes of a rune, with a warning that names
  an ASCII symbol; as the last byte of the input it is text and is reported.
\<close>

theorem escape_skips:
  assumes "ctx_wf ac"
  shows "let i = ac_Idx ac; n = len (ac_Input ac); c = ac_Input ac ! nat (i + 1);
             special = (d_actions (ac_Dictionary ac) c \<noteq> None) in
    (i + 1 = n \<longrightarrow> ActEscape ac = Some (zero_token, 1, True, ac_warn ac (mk_warning IssueUnexpectedEOL i)))
    \<and> (i + 1 < n \<and> special \<longrightarrow> ActEscape ac = Some (zero_token, 2, True, ac))
    \<and> (i + 1 < n \<and> \<not> special \<and> byte c < 128 \<longrightarrow> ActEscape ac = Some (zero_token, 2, True,
         ac_warn ac ((mk_warning IssueRedundantEscape i)\<lparr>w_Got := c\<rparr>)))
    \<and> (i + 1 < n \<and> \<not> special \<and> 128 \<le> byte c \<longrightarrow> returns (ActEscape ac) (\<lambda>(t, stride, skip, ac').
         2 \<le> stride \<and> i + stride \<le> n \<and> skip \<and> (\<exists>w. ac' = ac_warn ac w \<and> w_Issue w = IssueRedundantEscape)))"
proof -
  let ?i = "ac_Idx ac" and ?inp = "ac_Input ac"
  let ?c = "?inp ! nat (?i + 1)"
  have i: "0 \<le> ?i" "?i < len ?inp" using assms by (auto simp: ctx_wf_def)
  have ch: "char_of (byte ?c) = ?c" by (simp add: byte_def)
  have rune: "returns (ActEscape ac) (\<lambda>(t, stride, skip, ac').
         2 \<le> stride \<and> ?i + stride \<le> len ?inp \<and> skip
         \<and> (\<exists>w. ac' = ac_warn ac w \<and> w_Issue w = IssueRedundantEscape))"
    if lt: "?i + 1 < len ?inp" and ns: "d_actions (ac_Dictionary ac) ?c = None" and b: "128 \<le> byte ?c"
  proof -
    define rest where "rest = take (nat (len ?inp) - nat (?i + 1)) (drop (nat (?i + 1)) ?inp)"
    have rest: "len rest = len ?inp - (?i + 1)"
      unfolding rest_def by (rule len_slice) (use lt i in auto)
    have sl: "go_slice ?inp (?i + 1) (len ?inp) = Some rest"
      using lt i by (simp add: go_slice_def rest_def)
    have "returns (extractNextRune rest) (\<lambda>(r, w, ok). 1 \<le> w \<and> int w \<le> len rest)"
      using rest lt by (intro extractNextRune_returns) auto
    then obtain r w ok where "extractNextRune rest = Some (r, w, ok)" "1 \<le> w" "int w \<le> len rest"
      by (auto simp: returns_ex)
    with rest sl lt i ns b show ?thesis
      by (auto simp: ActEscape_def Let_def go_index_def mk_warning_def intro!: exI)
  qed
  show ?thesis
    using i rune ch by (auto simp: ActEscape_def Let_def go_index_def)
qed

theorem escape_skips_witness:
  "ActEscape (demo_ctx [escape_char, CHR ''*''] 0) = Some (zero_token, 2, True, demo_ctx [escape_char, CHR ''*''] 0)"
proof -
  have "ctx_wf (demo_ctx [escape_char, CHR ''*''] 0)" by (rule demo_ctx_wf) (simp_all add: len_def small_def)
  moreover have "d_actions demo (CHR ''*'') \<noteq> None" by code_simp
  ultimately show ?thesis
    using escape_skips [of "demo_ctx [escape_char, CHR ''*''] 0"]
    by (simp add: Let_def demo_ctx_def NewActionContext_def)
qed

section \<open>The contract\<close>

text \<open>
  C32: every action of a registered dictionary, run in a fresh context, returns; it consumes
  at least one byte and stays inside the input, changes nothing of the context but its
  bounds, counters, warnings and outcome, only adds warnings, and the token it emits covers
  exactly the bytes it consumed, with its payload and key inside.
\<close>

theorem action_outcome:
  assumes "ctx_wf ac" and "ac_Bounds ac = Bounds_Reset (ac_Idx ac)"
    and "d_actions (ac_Dictionary ac) (ac_Trigger ac) = Some a"
  shows "returns (run_action U a ac) (outcome_ok ac)"
  using assms by (rule run_action_ok)

theorem action_outcome_witness:
  "returns (run_action demo_unicode (the (d_actions demo (CHR ''*''))) (demo_ctx ''*a*'' 0))
     (outcome_ok (demo_ctx ''*a*'' 0))"
proof (rule action_outcome)
  show "ctx_wf (demo_ctx ''*a*'' 0)" by (rule demo_ctx_wf) (simp_all add: len_def small_def)
  have "d_actions demo (CHR ''*'') \<noteq> None" by code_simp
  then show "d_actions (ac_Dictionary (demo_ctx ''*a*'' 0)) (ac_Trigger (demo_ctx ''*a*'' 0)) =
      Some (the (d_actions demo (CHR ''*'')))"
    by (auto simp: demo_ctx_def NewActionContext_def)
qed (simp add: demo_ctx_def NewActionContext_def)

end
