(* ===== verification/Scum_Tokenize.thy ===== *)
theory Scum_Tokenize
  imports Scum_Counters Scum_Demo
begin

text \<open>
  The tokenizer, \<open>tokenize.go\<close>. The loop calls the action registered for a special byte;
  what it relies on is the locale \<open>action_executor\<close>: an action run in a fresh context
  returns, keeps to the contract of \<open>Scum_Contract\<close> and counts as \<open>Scum_Counters\<close> says.
  The properties of the loop are proved from that contract alone, and \<open>run_action\<close> is its
  interpretation.
\<close>

section \<open>The program\<close>

record tokenizer_output =
  out_Tokens :: "token list"
  out_TextByteLen :: int
  out_TagsTotal :: int
  out_UniversalTags :: int
  out_OpenTags :: int
  out_CloseTags :: int
  out_TextTokens :: int
  out_Attributes :: int

definition zero_output :: tokenizer_output where
  "zero_output = \<lparr>out_Tokens = [], out_TextByteLen = 0, out_TagsTotal = 0,
     out_UniversalTags = 0, out_OpenTags = 0, out_CloseTags = 0, out_TextTokens = 0,
     out_Attributes = 0\<rparr>"

text \<open>The zero value of \<open>Bounds\<close>, before the first \<open>Reset\<close>.\<close>

definition zero_bounds :: bounds where
  "zero_bounds = \<lparr>bnd_Raw = mk_span 0 0, bnd_Inner = mk_span 0 0, bnd_Closed = False,
     bnd_Width = 0, bnd_CloseWidth = 0, bnd_CloseIdx = 0, bnd_SeqValid = False,
     bnd_KeyLenLimitReached = False, bnd_PayloadLimitReached = False\<rparr>"

definition text_token :: "int \<Rightarrow> int \<Rightarrow> token" where
  "text_token a b = zero_token\<lparr>tok_Type := TokenText, tok_Pos := a, tok_Width := b - a,
     tok_Payload := mk_span a b\<rparr>"

text \<open>Append the pending text \<open>[a, b)\<close>, as the loop does before a token and at the end.\<close>

definition flush_text :: "int \<Rightarrow> int \<Rightarrow> tokenizer_output \<Rightarrow> tokenizer_output" where
  "flush_text a b out = out\<lparr>out_Tokens := out_Tokens out @ [text_token a b],
     out_TextTokens := out_TextTokens out + 1,
     out_TextByteLen := out_TextByteLen out + (b - a)\<rparr>"

text \<open>A token of an action: flush the text before it, append it, count greedy content.\<close>

definition emit_token :: "tag \<Rightarrow> token \<Rightarrow> int \<Rightarrow> int \<Rightarrow> tokenizer_output \<Rightarrow> tokenizer_output" where
  "emit_token g t textStart i out =
     (let textLen = i - textStart;
          out1 = (if textLen > 0 then flush_text textStart i out else out);
          out2 = out1\<lparr>out_Tokens := out_Tokens out1 @ [t]\<rparr>;
          p = tok_Payload t
      in if tag_Greed g > NonGreedy \<and> sp_End p > sp_Start p
         then out2\<lparr>out_TextTokens := out_TextTokens out2 + 1,
                   out_TextByteLen := out_TextByteLen out2 + (sp_End p - sp_Start p)\<rparr>
         else out2)"

partial_function (option) tokenize_loop ::
  "(action \<Rightarrow> action_context \<Rightarrow> action_result) \<Rightarrow> string \<Rightarrow> action_context \<Rightarrow> tokenizer_output
     \<Rightarrow> int \<Rightarrow> int \<Rightarrow> (action_context \<times> tokenizer_output \<times> int) option" where
  "tokenize_loop run input ac out textStart i =
     (if i < len input then do {
        b \<leftarrow> go_index input i;
        case dict_Action (ac_Dictionary ac) b of
          None \<Rightarrow> tokenize_loop run input ac out textStart (i + 1)
        | Some act \<Rightarrow> do {
            (token, stride, skip, ac') \<leftarrow> run act (ActionContext_Reset ac b i);
            if skip then tokenize_loop run input ac' out textStart (i + stride)
            else tokenize_loop run input ac' (emit_token (ac_Tag ac') token textStart i out)
                   (i + stride) (i + stride)
          }
      } else Some (ac, out, textStart))"

declare tokenize_loop.simps [code]

definition Tokenize_with ::
  "(action \<Rightarrow> action_context \<Rightarrow> action_result) \<Rightarrow> dictionary \<Rightarrow> string \<Rightarrow> warnings
     \<Rightarrow> (tokenizer_output \<times> warnings) option" where
  "Tokenize_with run d input warns = do {
     let n = len input;
     let ac = \<lparr>ac_Tag = zero_tag, ac_Dictionary = d, ac_State = zero_state, ac_Warns = warns,
               ac_Bounds = zero_bounds, ac_Trigger = NUL, ac_Input = input, ac_Idx = 0,
               ac_Token = zero_token, ac_Stride = 0, ac_Skip = False\<rparr>;
     (ac', out, textStart) \<leftarrow> tokenize_loop run input ac zero_output 0 0;
     let out' = (if textStart < n then flush_text textStart n out else out);
     let s = ac_State ac';
     Some (out'\<lparr>out_TagsTotal := ts_TagsTotal s, out_UniversalTags := ts_UniversalTags s,
                out_OpenTags := ts_OpenTags s, out_CloseTags := ts_CloseTags s,
                out_Attributes := ts_Attributes s\<rparr>, ac_Warns ac')
   }"

definition Tokenize ::
  "unicode \<Rightarrow> dictionary \<Rightarrow> string \<Rightarrow> warnings \<Rightarrow> (tokenizer_output \<times> warnings) option" where
  "Tokenize U = Tokenize_with (run_action U)"

section \<open>What the tokens of an input are\<close>

text \<open>The tokens lie one after the other from \<open>a\<close> to \<open>b\<close>, none of them empty.\<close>

fun tiles :: "int \<Rightarrow> token list \<Rightarrow> int \<Rightarrow> bool" where
  "tiles a [] b \<longleftrightarrow> a = b"
| "tiles a (t # ts) b \<longleftrightarrow> tok_Pos t = a \<and> 1 \<le> tok_Width t \<and> tiles (a + tok_Width t) ts b"

lemma tiles_append: "tiles a (xs @ ys) c \<longleftrightarrow> (\<exists>b. tiles a xs b \<and> tiles b ys c)"
  by (induction a xs "c" rule: tiles.induct) auto

text \<open>A byte with a plan is the first byte of a registered tag.\<close>

definition has_plan :: "dictionary \<Rightarrow> char \<Rightarrow> bool" where
  "has_plan d c \<longleftrightarrow> (case d_actions d c of Some (ActPlan p) \<Rightarrow> True | _ \<Rightarrow> False)"

definition token_wf :: "dictionary \<Rightarrow> string \<Rightarrow> token \<Rightarrow> bool" where
  "token_wf d input t \<longleftrightarrow> (let a = tok_Pos t; b = tok_Pos t + tok_Width t in
     0 \<le> a \<and> a < b \<and> b \<le> len input \<and> span_in a b (tok_Payload t)
     \<and> (if tok_Type t = TokenAttributeKV then span_in a b (tok_AttrKey t)
        else tok_AttrKey t = mk_span 0 0)
     \<and> (if tok_Type t = TokenText then tok_Payload t = mk_span a b
        else d_actions d (tok_Trigger t) \<noteq> None \<and> input ! nat a = tok_Trigger t
          \<and> (tok_Type t = TokenTag \<longrightarrow> has_plan d (tok_Trigger t))))"

text \<open>The tokens that carry text: text tokens, and greedy tags that are not empty.\<close>

definition holds_text :: "dictionary \<Rightarrow> token \<Rightarrow> bool" where
  "holds_text d t \<longleftrightarrow> tok_Type t = TokenText
     \<or> tag_Greed (d_tags d (tok_Trigger t)) > NonGreedy
         \<and> sp_Start (tok_Payload t) < sp_End (tok_Payload t)"

definition text_size :: "token \<Rightarrow> int" where
  "text_size t = sp_End (tok_Payload t) - sp_Start (tok_Payload t)"

definition counts_of :: "dictionary \<Rightarrow> token list \<Rightarrow> tokenizer_state" where
  "counts_of d ts =
     (let tags = filter (\<lambda>t. tok_Type t = TokenTag) ts;
          kind = (\<lambda>K. len (filter (\<lambda>t. K (d_tags d (tok_Trigger t))) tags))
      in \<lparr>ts_TagsTotal = len tags, ts_UniversalTags = kind kind_universal,
          ts_OpenTags = kind kind_open, ts_CloseTags = kind kind_close,
          ts_Attributes =
            len (filter (\<lambda>t. tok_Type t = TokenAttributeKV \<or> tok_Type t = TokenAttributeFlag) ts)\<rparr>)"

lemma counts_of_snoc: "counts_of d (ts @ [t]) = bump d t (counts_of d ts)"
  by (cases "tok_Type t") (simp_all add: counts_of_def bump_def Let_def)

lemma counts_of_Nil: "counts_of d [] = zero_state"
  by (simp add: counts_of_def zero_state_def Let_def)

definition separated :: "token list \<Rightarrow> bool" where
  "separated = successively (\<lambda>a b. \<not> (tok_Type a = TokenText \<and> tok_Type b = TokenText))"

definition out_inv :: "dictionary \<Rightarrow> string \<Rightarrow> tokenizer_output \<Rightarrow> int \<Rightarrow> bool" where
  "out_inv d input out e \<longleftrightarrow> tiles 0 (out_Tokens out) e
     \<and> (\<forall>t \<in> set (out_Tokens out). token_wf d input t) \<and> separated (out_Tokens out)
     \<and> out_TextTokens out = len (filter (holds_text d) (out_Tokens out))
     \<and> out_TextByteLen out = sum_list (map text_size (filter (holds_text d) (out_Tokens out)))"

definition ends_in_text :: "tokenizer_output \<Rightarrow> bool" where
  "ends_in_text out \<longleftrightarrow> out_Tokens out \<noteq> [] \<and> tok_Type (last (out_Tokens out)) = TokenText"

lemma separated_snoc: "separated (ts @ [t]) \<longleftrightarrow>
    separated ts \<and> (ts = [] \<or> \<not> (tok_Type (last ts) = TokenText \<and> tok_Type t = TokenText))"
  by (auto simp: separated_def successively_append_iff)

lemma text_token_simps [simp]:
  "tok_Type (text_token a b) = TokenText" "tok_Pos (text_token a b) = a"
  "tok_Width (text_token a b) = b - a" "tok_Payload (text_token a b) = mk_span a b"
  "tok_AttrKey (text_token a b) = mk_span 0 0"
  by (simp_all add: text_token_def zero_token_def)

lemma out_inv_flush:
  assumes "out_inv d input out a" and "\<not> ends_in_text out" and "0 \<le> a" "a < b" "b \<le> len input"
  shows "out_inv d input (flush_text a b out) b"
  using assms
  by (auto simp: out_inv_def flush_text_def tiles_append separated_snoc ends_in_text_def
      token_wf_def Let_def span_in_def holds_text_def text_size_def)

lemma out_inv_emit:
  assumes "out_inv d input out a" and "\<not> ends_in_text out" and "0 \<le> a" "a \<le> i"
    and t: "token_wf d input t" "tok_Pos t = i" "tok_Type t \<noteq> TokenText"
    and g: "g = d_tags d (tok_Trigger t)"
  shows "out_inv d input (emit_token g t a i out) (i + tok_Width t)"
    and "\<not> ends_in_text (emit_token g t a i out)"
    and "counts_of d (out_Tokens (emit_token g t a i out)) = bump d t (counts_of d (out_Tokens out))"
proof -
  let ?out = "if i - a > 0 then flush_text a i out else out"
  have "i \<le> len input" using t by (auto simp: token_wf_def Let_def)
  with assms have "out_inv d input ?out i" using out_inv_flush [of d input out a i] by auto
  with t show "out_inv d input (emit_token g t a i out) (i + tok_Width t)"
    by (auto simp: emit_token_def Let_def g out_inv_def tiles_append separated_snoc holds_text_def
        text_size_def token_wf_def)
  show "\<not> ends_in_text (emit_token g t a i out)"
    using t by (simp add: emit_token_def Let_def ends_in_text_def)
  have "counts_of d (out_Tokens ?out) = counts_of d (out_Tokens out)"
    by (simp add: flush_text_def counts_of_snoc bump_def Let_def)
  then show "counts_of d (out_Tokens (emit_token g t a i out)) = bump d t (counts_of d (out_Tokens out))"
    by (simp add: emit_token_def Let_def counts_of_snoc)
qed

definition loop_inv ::
  "dictionary \<Rightarrow> string \<Rightarrow> warnings \<Rightarrow> action_context \<Rightarrow> tokenizer_output \<Rightarrow> int \<Rightarrow> bool" where
  "loop_inv d input w0 ac out ts \<longleftrightarrow> ac_Dictionary ac = d \<and> ac_Input ac = input
     \<and> out_inv d input out ts \<and> \<not> ends_in_text out \<and> ac_State ac = counts_of d (out_Tokens out)
     \<and> (\<exists>ws. ac_Warns ac = foldl Add w0 ws)"

text \<open>Only plans emit tag tokens.\<close>

fun planned :: "action_context \<Rightarrow> token \<times> int \<times> bool \<times> action_context \<Rightarrow> bool" where
  "planned ac (t, stride, skip, ac') \<longleftrightarrow>
     (\<not> skip \<and> tok_Type t = TokenTag \<longrightarrow> has_plan (ac_Dictionary ac) (ac_Trigger ac))"

lemma run_action_planned:
  assumes "ctx_wf ac" and "d_actions (ac_Dictionary ac) (ac_Trigger ac) = Some a"
    and "run_action U a ac = Some r"
  shows "planned ac r"
proof (cases a)
  case ActEscapeFn
  with assms(3) show ?thesis
    by (cases r) (auto simp: ActEscape_def Let_def bind_eq_Some_conv split: if_splits)
next
  case ActAttributeFn
  with assms(3) ActAttribute_cases [OF assms(1)] show ?thesis
    by (cases r) (auto simp: skipWithWarn_def attribute_token_def Let_def split: if_splits)
next
  case (ActPlan p)
  with assms(2) show ?thesis by (cases r) (simp add: has_plan_def)
qed

text \<open>What the loop sees of one action, called at \<open>i\<close> with the context \<open>ac\<close>.\<close>

fun acted :: "dictionary \<Rightarrow> string \<Rightarrow> warnings \<Rightarrow> action_context \<Rightarrow> int
    \<Rightarrow> token \<times> int \<times> bool \<times> action_context \<Rightarrow> bool" where
  "acted d input w0 ac i (t, stride, skip, ac') \<longleftrightarrow>
     1 \<le> stride \<and> i + stride \<le> len input \<and> ac_Dictionary ac' = d \<and> ac_Input ac' = input
     \<and> ac_Tag ac' = d_tags d (input ! nat i) \<and> (\<exists>ws. ac_Warns ac' = foldl Add w0 ws)
     \<and> (if skip then ac_State ac' = ac_State ac
        else ac_State ac' = bump d t (ac_State ac) \<and> token_wf d input t \<and> tok_Pos t = i
          \<and> tok_Width t = stride \<and> tok_Type t \<noteq> TokenText \<and> tok_Trigger t = input ! nat i)"

lemma acted_skip: "loop_inv d input w0 ac out ts \<Longrightarrow> acted d input w0 ac i (t, stride, skip, ac') \<Longrightarrow>
    skip \<Longrightarrow> loop_inv d input w0 ac' out ts"
  by (simp add: loop_inv_def)

lemma acted_emit:
  assumes "loop_inv d input w0 ac out ts" and "acted d input w0 ac i (t, stride, False, ac')"
    and "0 \<le> ts" "ts \<le> i"
  shows "loop_inv d input w0 ac' (emit_token (ac_Tag ac') t ts i out) (i + stride)"
  using assms out_inv_emit [of d input out ts i t "ac_Tag ac'"] by (simp add: loop_inv_def)

section \<open>The loop, for any executor that keeps the contract\<close>

locale action_executor =
  fixes run :: "action \<Rightarrow> action_context \<Rightarrow> action_result"
  assumes run_contract: "ctx_wf ac \<Longrightarrow> ac_Bounds ac = Bounds_Reset (ac_Idx ac) \<Longrightarrow>
    d_actions (ac_Dictionary ac) (ac_Trigger ac) = Some a \<Longrightarrow>
    returns (run a ac) (\<lambda>r. outcome_ok ac r \<and> counted ac r \<and> planned ac r)"
begin

lemma action_returns:
  assumes "dict_wf d" and "small (len input)" and "loop_inv d input w0 ac out ts"
    and "0 \<le> i" "i < len input" and "d_actions d (input ! nat i) = Some a"
  shows "returns (run a (ActionContext_Reset ac (input ! nat i) i)) (acted d input w0 ac i)"
proof -
  let ?ac = "ActionContext_Reset ac (input ! nat i) i"
  have "ctx_wf ?ac" "ac_Bounds ?ac = Bounds_Reset (ac_Idx ?ac)"
    "d_actions (ac_Dictionary ?ac) (ac_Trigger ?ac) = Some a"
    using assms by (auto simp: ActionContext_Reset_def ctx_wf_def loop_inv_def)
  from run_contract [OF this] show ?thesis
  proof (rule returns_mono)
    fix r assume r: "outcome_ok ?ac r \<and> counted ?ac r \<and> planned ?ac r"
    obtain ws where "ac_Warns ac = foldl Add w0 ws" using assms(3) by (auto simp: loop_inv_def)
    then have "\<exists>ws'. foldl Add (ac_Warns ac) us = foldl Add w0 ws'" for us
      by (auto intro: exI [of _ "ws @ us"])
    with r show "acted d input w0 ac i r"
      using assms
      by (cases r) (auto simp: ActionContext_Reset_def frame_def loop_inv_def token_ok_def
          token_wf_def Let_def)
  qed
qed

lemma loop_returns:
  assumes "dict_wf d" and "small (len input)" and "loop_inv d input w0 ac out ts"
    and "0 \<le> ts" "ts \<le> i" "i \<le> len input"
  shows "returns (tokenize_loop run input ac out ts i) (\<lambda>(ac', out', ts').
    loop_inv d input w0 ac' out' ts' \<and> 0 \<le> ts' \<and> ts' \<le> len input)"
    (is "returns _ ?post")
  using assms
proof (induction "nat (len input - i)" arbitrary: ac out ts i rule: less_induct)
  case less
  note pre = less.prems
  consider "i = len input" | "i < len input" "d_actions d (input ! nat i) = None"
    | a where "i < len input" "d_actions d (input ! nat i) = Some a"
    using pre by (cases "d_actions d (input ! nat i)"; cases "i = len input") auto
  then show ?case
  proof cases
    case 1
    with pre show ?thesis by (subst tokenize_loop.simps) simp
  next
    case 2
    have "returns (tokenize_loop run input ac out ts (i + 1)) ?post"
      using pre 2 by (intro less.hyps) auto
    with 2 pre show ?thesis
      by (subst tokenize_loop.simps) (simp add: dict_Action_def loop_inv_def)
  next
    case (3 a)
    have d: "ac_Dictionary ac = d" using pre by (simp add: loop_inv_def)
    obtain t stride skip ac' where
      run: "run a (ActionContext_Reset ac (input ! nat i) i) = Some (t, stride, skip, ac')"
      and act: "acted d input w0 ac i (t, stride, skip, ac')"
      using returns_obtain [OF action_returns [OF pre(1,2,3) _ 3]] pre
      by (metis order_trans prod_cases4)
    have "returns (tokenize_loop run input ac' out ts (i + stride)) ?post" if skip
      using pre act that acted_skip [OF pre(3) act that] by (intro less.hyps) auto
    moreover have "returns (tokenize_loop run input ac' (emit_token (ac_Tag ac') t ts i out)
        (i + stride) (i + stride)) ?post" if "\<not> skip"
      using pre act that acted_emit [of d input w0 ac out ts i t stride ac']
      by (intro less.hyps) auto
    ultimately show ?thesis
      using run 3 pre by (subst tokenize_loop.simps) (simp add: dict_Action_def d)
  qed
qed

text \<open>What \<open>Tokenize\<close> promises of its output and of the warnings it leaves.\<close>

lemma Tokenize_contract:
  assumes "dict_wf d" and "small (len input)"
  shows "returns (Tokenize_with run d input w0) (\<lambda>(out, w).
    out_inv d input out (len input)
    \<and> counts_of d (out_Tokens out) = \<lparr>ts_TagsTotal = out_TagsTotal out,
        ts_UniversalTags = out_UniversalTags out, ts_OpenTags = out_OpenTags out,
        ts_CloseTags = out_CloseTags out, ts_Attributes = out_Attributes out\<rparr>
    \<and> (\<exists>ws. w = foldl Add w0 ws))"
proof -
  let ?ac = "\<lparr>ac_Tag = zero_tag, ac_Dictionary = d, ac_State = zero_state, ac_Warns = w0,
               ac_Bounds = zero_bounds, ac_Trigger = NUL, ac_Input = input, ac_Idx = 0,
               ac_Token = zero_token, ac_Stride = 0, ac_Skip = False\<rparr>"
  have "loop_inv d input w0 ?ac zero_output 0"
    by (auto simp: loop_inv_def out_inv_def zero_output_def separated_def ends_in_text_def
        counts_of_Nil intro: exI [of _ "[]"])
  from loop_returns [OF assms this, of 0] obtain ac out ts where
    run: "tokenize_loop run input ?ac zero_output 0 0 = Some (ac, out, ts)"
    and inv: "loop_inv d input w0 ac out ts" and ts: "0 \<le> ts" "ts \<le> len input"
    by (auto simp: returns_ex)
  define out' where "out' = (if ts < len input then flush_text ts (len input) out else out)"
  have "out_inv d input out' (len input)"
    using inv ts out_inv_flush [of d input out ts "len input"] by (auto simp: loop_inv_def out'_def)
  moreover have "counts_of d (out_Tokens out') = ac_State ac"
    using inv by (simp add: out'_def flush_text_def counts_of_snoc bump_def Let_def loop_inv_def)
  ultimately show ?thesis
    using run inv by (simp add: Tokenize_with_def out'_def [symmetric] loop_inv_def out_inv_def Let_def)
qed

end

section \<open>The executor of the program\<close>

interpretation tokenizer: action_executor "run_action U" for U
proof
  fix ac a
  assume ac: "ctx_wf ac" "ac_Bounds ac = Bounds_Reset (ac_Idx ac)"
    "d_actions (ac_Dictionary ac) (ac_Trigger ac) = Some a"
  obtain r where "run_action U a ac = Some r" "outcome_ok ac r"
    using run_action_ok [OF ac, of U] by (rule returns_obtain)
  with run_action_counted [OF ac] run_action_planned [OF ac(1,3)] show
    "returns (run_action U a ac) (\<lambda>r. outcome_ok ac r \<and> counted ac r \<and> planned ac r)" by simp
qed

lemmas Tokenize_facts = tokenizer.Tokenize_contract [folded Tokenize_def, unfolded out_inv_def]

section \<open>Properties\<close>

text \<open>
  C15: \<open>Tokenize\<close> returns for every input and every dictionary built by the registration
  methods, without a panic; its tokens are not empty and lie one after the other from the
  first byte of the input to the last, and the payload and key of each are slices inside it.
\<close>

theorem tokenize_tiles:
  assumes "dict_wf d" and "small (len input)"
  shows "returns (Tokenize U d input w) (\<lambda>(out, w').
    tiles 0 (out_Tokens out) (len input) \<and> (\<forall>t \<in> set (out_Tokens out). token_wf d input t))"
  by (rule returns_mono [OF Tokenize_facts [OF assms, of U w]]) auto

theorem tokenize_tiles_witness:
  "returns (Tokenize demo_unicode demo demo_input demo_log) (\<lambda>(out, w').
    tiles 0 (out_Tokens out) (len demo_input)
    \<and> (\<forall>t \<in> set (out_Tokens out). token_wf demo demo_input t))"
  by (rule tokenize_tiles [OF demo_wf demo_input_small])

text \<open>
  Plain text between two tags is one token: no two adjacent tokens are text tokens.
\<close>

theorem tokenize_separated:
  assumes "dict_wf d" and "small (len input)"
  shows "returns (Tokenize U d input w) (\<lambda>(out, w'). separated (out_Tokens out))"
  by (rule returns_mono [OF Tokenize_facts [OF assms, of U w]]) auto

theorem tokenize_separated_witness:
  "returns (Tokenize demo_unicode demo demo_input demo_log) (\<lambda>(out, w'). separated (out_Tokens out))"
  by (rule tokenize_separated [OF demo_wf demo_input_small])

text \<open>
  The counters of the output are the numbers of tokens of each kind: all tags, the
  universal, opening and closing tags that are not greedy, and the attributes. A plan counts
  a tag exactly when it emits its token.
\<close>

theorem tokenize_counters:
  assumes "dict_wf d" and "small (len input)"
  shows "returns (Tokenize U d input w) (\<lambda>(out, w').
    \<lparr>ts_TagsTotal = out_TagsTotal out, ts_UniversalTags = out_UniversalTags out,
     ts_OpenTags = out_OpenTags out, ts_CloseTags = out_CloseTags out,
     ts_Attributes = out_Attributes out\<rparr> = counts_of d (out_Tokens out))"
  by (rule returns_mono [OF Tokenize_facts [OF assms, of U w]]) auto

theorem tokenize_counters_witness:
  "returns (Tokenize demo_unicode demo demo_input demo_log) (\<lambda>(out, w').
    \<lparr>ts_TagsTotal = out_TagsTotal out, ts_UniversalTags = out_UniversalTags out,
     ts_OpenTags = out_OpenTags out, ts_CloseTags = out_CloseTags out,
     ts_Attributes = out_Attributes out\<rparr> = counts_of demo (out_Tokens out))"
  by (rule tokenize_counters [OF demo_wf demo_input_small])

text \<open>
  \<open>TextTokens\<close> and \<open>TextByteLen\<close> account for the text exactly: the text tokens and the
  greedy tags with a non-empty payload, and the sum of their payload lengths.
\<close>

theorem tokenize_text_accounting:
  assumes "dict_wf d" and "small (len input)"
  shows "returns (Tokenize U d input w) (\<lambda>(out, w').
    let texts = filter (holds_text d) (out_Tokens out) in
    out_TextTokens out = len texts \<and> out_TextByteLen out = sum_list (map text_size texts))"
  by (rule returns_mono [OF Tokenize_facts [OF assms, of U w]]) (auto simp: Let_def)

theorem tokenize_text_accounting_witness:
  "returns (Tokenize demo_unicode demo demo_input demo_log) (\<lambda>(out, w').
    let texts = filter (holds_text demo) (out_Tokens out) in
    out_TextTokens out = len texts \<and> out_TextByteLen out = sum_list (map text_size texts))"
  by (rule tokenize_text_accounting [OF demo_wf demo_input_small])

end
