(* ===== verification/Scum_Ast.thy ===== *)
theory Scum_Ast
  imports Scum_Types
begin

text \<open>
  The abstract syntax tree: the arena of nodes linked by indices and the arena of
  attributes (\<open>ast.go\<close>), \<open>appendNode\<close> (\<open>append_node.go\<close>) and \<open>appendAttribute\<close>
  (\<open>append_attribute.go\<close>). The links refine an abstract tree, the list of each node's
  parent: \<open>arena nodes par\<close> says that \<open>FirstChild\<close>, \<open>LastChild\<close>, \<open>NextSibling\<close> and
  \<open>ChildCount\<close> are exactly those of the tree \<open>par\<close>.
\<close>

section \<open>Nodes, attributes and the tree\<close>

record range =
  rg_Start :: int
  rg_Len :: int

datatype node_type = NodeRoot | NodeText | NodeTag

record attribute =
  at_Name :: span
  at_Payload :: span
  at_IsFlag :: bool

record node =
  nd_Type :: node_type
  nd_TagID :: char
  nd_Span :: span
  nd_FirstChild :: int
  nd_LastChild :: int
  nd_NextSibling :: int
  nd_ChildCount :: int
  nd_Attributes :: range

definition NewNode :: node where
  "NewNode = \<lparr>nd_Type = NodeRoot, nd_TagID = NUL, nd_Span = mk_span 0 0,
     nd_FirstChild = -1, nd_LastChild = -1, nd_NextSibling = -1, nd_ChildCount = 0,
     nd_Attributes = \<lparr>rg_Start = 0, rg_Len = 0\<rparr>\<rparr>"

record ast =
  ast_Input :: string
  ast_Nodes :: "node list"
  ast_Attributes :: "attribute list"
  ast_MaxDepth :: int
  ast_TextByteLen :: int
  ast_TotalTagNodes :: int
  ast_TotalTextNodes :: int

definition zero_ast :: ast where
  "zero_ast = \<lparr>ast_Input = [], ast_Nodes = [], ast_Attributes = [], ast_MaxDepth = 0,
     ast_TextByteLen = 0, ast_TotalTagNodes = 0, ast_TotalTextNodes = 0\<rparr>"

text \<open>
  The Go code writes through the pointers \<open>parent\<close> and \<open>lastChild\<close> into the arena; each
  write is an update of the list, in the same order, and the parent is read again for the
  last one. Indexing panics when it is out of range.
\<close>

definition appendNode :: "ast \<Rightarrow> int \<Rightarrow> node \<Rightarrow> (ast \<times> int) option" where
  "appendNode ast parentIdx nd = do {
     let nodeIdx = len (ast_Nodes ast);
     let ns = ast_Nodes ast @ [nd];
     parent \<leftarrow> go_index ns parentIdx;
     let parent1 = parent\<lparr>nd_ChildCount := nd_ChildCount parent + 1\<rparr>;
     ns1 \<leftarrow> go_update ns parentIdx parent1;
     if nd_FirstChild parent1 = -1 then do {
       ns2 \<leftarrow> go_update ns1 parentIdx
                (parent1\<lparr>nd_FirstChild := nodeIdx, nd_LastChild := nodeIdx\<rparr>);
       Some (ast\<lparr>ast_Nodes := ns2\<rparr>, nodeIdx)
     } else do {
       lastChild \<leftarrow> go_index ns1 (nd_LastChild parent1);
       ns2 \<leftarrow> go_update ns1 (nd_LastChild parent1) (lastChild\<lparr>nd_NextSibling := nodeIdx\<rparr>);
       parent2 \<leftarrow> go_index ns2 parentIdx;
       ns3 \<leftarrow> go_update ns2 parentIdx (parent2\<lparr>nd_LastChild := nodeIdx\<rparr>);
       Some (ast\<lparr>ast_Nodes := ns3\<rparr>, nodeIdx)
     }
   }"

definition appendAttribute :: "ast \<Rightarrow> int \<Rightarrow> attribute \<Rightarrow> ast option" where
  "appendAttribute ast parentIdx attr = do {
     let attrIdx = len (ast_Attributes ast);
     parent \<leftarrow> go_index (ast_Nodes ast) parentIdx;
     let r = nd_Attributes parent;
     let r1 = (if rg_Len r = 0 then r\<lparr>rg_Start := attrIdx\<rparr> else r);
     ns \<leftarrow> go_update (ast_Nodes ast) parentIdx
             (parent\<lparr>nd_Attributes := r1\<lparr>rg_Len := rg_Len r1 + 1\<rparr>\<rparr>);
     Some (ast\<lparr>ast_Nodes := ns, ast_Attributes := ast_Attributes ast @ [attr]\<rparr>)
   }"

section \<open>The abstract tree\<close>

text \<open>
  A tree of \<open>n\<close> nodes is the list of their parents; node \<open>0\<close> is the root, whose entry does
  not count, and a node comes after its parent.
\<close>

type_synonym parents = "nat list"

definition kids :: "parents \<Rightarrow> nat \<Rightarrow> nat list" where
  "kids par i = filter (\<lambda>j. par ! j = i) [1..<length par]"

definition later_siblings :: "parents \<Rightarrow> nat \<Rightarrow> nat list" where
  "later_siblings par j = (if j = 0 then [] else filter (\<lambda>k. par ! k = par ! j) [Suc j..<length par])"

definition first_or :: "nat list \<Rightarrow> int" where
  "first_or xs = (case xs of [] \<Rightarrow> -1 | x # _ \<Rightarrow> int x)"

definition last_or :: "nat list \<Rightarrow> int" where
  "last_or xs = (if xs = [] then -1 else int (last xs))"

definition links_ok :: "parents \<Rightarrow> nat \<Rightarrow> node \<Rightarrow> bool" where
  "links_ok par i nd \<longleftrightarrow> nd_FirstChild nd = first_or (kids par i)
     \<and> nd_LastChild nd = last_or (kids par i) \<and> nd_ChildCount nd = len (kids par i)
     \<and> nd_NextSibling nd = first_or (later_siblings par i)"

definition tree :: "parents \<Rightarrow> bool" where
  "tree par \<longleftrightarrow> par \<noteq> [] \<and> (\<forall>j. 1 \<le> j \<and> j < length par \<longrightarrow> par ! j < j)"

definition arena :: "node list \<Rightarrow> parents \<Rightarrow> bool" where
  "arena ns par \<longleftrightarrow> length ns = length par \<and> tree par \<and> (\<forall>i < length ns. links_ok par i (ns ! i))"

lemma kids_snoc: "par \<noteq> [] \<Longrightarrow> kids (par @ [p]) i = kids par i @ (if p = i then [length par] else [])"
proof -
  assume "par \<noteq> []"
  then have "[1..<length (par @ [p])] = [1..<length par] @ [length par]"
    by (simp add: Suc_le_eq upt_Suc_append)
  moreover have "filter (\<lambda>j. (par @ [p]) ! j = i) [1..<length par] = kids par i"
    unfolding kids_def by (rule filter_cong) (simp_all add: nth_append)
  ultimately show ?thesis by (simp add: kids_def [of "par @ [p]"] nth_append)
qed

lemma kids_set: "j \<in> set (kids par i) \<longleftrightarrow> 1 \<le> j \<and> j < length par \<and> par ! j = i"
  by (auto simp: kids_def)

lemma kids_gt: "tree par \<Longrightarrow> j \<in> set (kids par i) \<Longrightarrow> i < j \<and> j < length par"
  by (auto simp: kids_set tree_def)

lemma kids_sorted: "sorted_wrt (<) (kids par i)"
  unfolding kids_def by (rule sorted_wrt_filter) simp

lemma tree_snoc: "tree par \<Longrightarrow> p < length par \<Longrightarrow> tree (par @ [p])"
  by (auto simp: tree_def nth_append)

lemma siblings_snoc:
  "j < length par \<Longrightarrow> later_siblings (par @ [p]) j =
     later_siblings par j @ (if j \<noteq> 0 \<and> p = par ! j then [length par] else [])"
  by (auto simp: later_siblings_def nth_append intro: filter_cong)

lemma siblings_new: "later_siblings (par @ [p]) (length par) = []"
  by (simp add: later_siblings_def)

text \<open>A node has no later sibling exactly when it is the last child of its parent.\<close>

lemma siblings_last:
  assumes "1 \<le> j" and "j < length par"
  shows "later_siblings par j = [] \<longleftrightarrow> last (kids par (par ! j)) = j"
proof -
  obtain k where "length par = Suc j + k" using assms(2) by (auto simp: less_iff_Suc_add)
  with assms(1) have "[1..<length par] = [1..<Suc j] @ [Suc j..<length par]"
    by (metis le_SucI upt_add_eq_append)
  then have "kids par (par ! j) = filter (\<lambda>k. par ! k = par ! j) ([1..<Suc j] @ [Suc j..<length par])"
    by (simp add: kids_def)
  then have k: "kids par (par ! j) =
      filter (\<lambda>k. par ! k = par ! j) [1..<j] @ [j] @ later_siblings par j"
    using assms by (simp add: later_siblings_def)
  show ?thesis
  proof
    assume l: "last (kids par (par ! j)) = j"
    show "later_siblings par j = []"
    proof (rule ccontr)
      assume ne: "later_siblings par j \<noteq> []"
      then have "last (later_siblings par j) = j" using k l by simp
      with last_in_set [OF ne] show False by (auto simp: later_siblings_def split: if_splits)
    qed
  qed (simp add: k)
qed

lemma first_or_append: "first_or (xs @ [x]) = (if xs = [] then int x else first_or xs)"
  by (cases xs) (simp_all add: first_or_def)

lemma first_or_Cons [simp]: "first_or (x # xs) = int x"
  by (simp add: first_or_def)

lemma last_or_append: "last_or (xs @ [x]) = int x"
  by (simp add: last_or_def)

lemma first_or_minus [simp]: "first_or xs = -1 \<longleftrightarrow> xs = []"
  by (cases xs) (simp_all add: first_or_def)

lemma arena_root: "arena [NewNode] [0]"
  by (simp add: arena_def tree_def links_ok_def kids_def later_siblings_def NewNode_def
      first_or_def last_or_def)

text \<open>Fields that are not links can change freely.\<close>

lemma arena_update:
  assumes "arena ns par" and "nat i < length ns"
    and "nd_FirstChild nd = nd_FirstChild (ns ! nat i)" "nd_LastChild nd = nd_LastChild (ns ! nat i)"
    and "nd_NextSibling nd = nd_NextSibling (ns ! nat i)"
    and "nd_ChildCount nd = nd_ChildCount (ns ! nat i)"
  shows "arena (ns[nat i := nd]) par"
  using assms by (auto simp: arena_def links_ok_def nth_list_update)

section \<open>appendNode adds a last child\<close>

definition fresh_node :: "node \<Rightarrow> bool" where
  "fresh_node nd \<longleftrightarrow> nd_FirstChild nd = -1 \<and> nd_LastChild nd = -1 \<and> nd_NextSibling nd = -1
     \<and> nd_ChildCount nd = 0"

text \<open>The payload of a node: what is not a link.\<close>

definition node_data :: "node \<Rightarrow> node_type \<times> char \<times> span \<times> range" where
  "node_data nd = (nd_Type nd, nd_TagID nd, nd_Span nd, nd_Attributes nd)"

lemma appendNode_refines:
  assumes "arena (ast_Nodes a) par" and "fresh_node nd" and p: "0 \<le> p" "p < len (ast_Nodes a)"
  shows "returns (appendNode a p nd) (\<lambda>(a', i). i = len (ast_Nodes a)
    \<and> (\<exists>ns. a' = a\<lparr>ast_Nodes := ns\<rparr> \<and> arena ns (par @ [nat p])
         \<and> map node_data ns = map node_data (ast_Nodes a @ [nd])))"
proof -
  let ?ns = "ast_Nodes a" and ?n = "len (ast_Nodes a)"
  define P where "P = nat p"
  have len: "length ?ns = length par" and t: "tree par" and links: "\<And>i. i < length par \<Longrightarrow> links_ok par i (?ns ! i)"
    using assms(1) by (auto simp: arena_def)
  have P: "P < length par" "p = int P" using p len by (auto simp: P_def len_def)
  have t': "tree (par @ [P])" using t P by (simp add: tree_snoc)
  have ne: "par \<noteq> []" using t by (simp add: tree_def)
  note new = kids_snoc [OF ne] siblings_snoc siblings_new first_or_append last_or_append
  have kn: "kids par (length par) = []"
    using kids_gt [OF t] by (metis all_not_in_conv less_asym set_empty)
  have "P = 0 \<or> par ! P < P" using P t by (auto simp: tree_def Suc_le_eq)
  then have pp: "later_siblings (par @ [P]) P = later_siblings par P"
    using P by (auto simp: siblings_snoc)
  define pn where "pn = ?ns ! P"
  have pl: "links_ok par P pn" using links P by (simp add: pn_def)
  show ?thesis
  proof (cases "kids par P = []")
    case True
    define ns where "ns = (?ns @ [nd])[P := pn\<lparr>nd_ChildCount := nd_ChildCount pn + 1,
        nd_FirstChild := ?n, nd_LastChild := ?n\<rparr>]"
    have "appendNode a p nd = Some (a\<lparr>ast_Nodes := ns\<rparr>, ?n)"
      using P len pl True
      by (simp add: appendNode_def go_index_def go_update_def len_def ns_def pn_def nth_append
          links_ok_def first_or_def Let_def)
    moreover have "arena ns (par @ [P])"
      unfolding arena_def
    proof (intro conjI allI impI t')
      fix i assume "i < length ns"
      then consider "i = length par" | "i = P" | "i < length par" "i \<noteq> P"
        using len by (fastforce simp: ns_def)
      then show "links_ok (par @ [P]) i (ns ! i)"
      proof cases
        case 1
        then show ?thesis using assms(2) P len kn
          by (simp add: links_ok_def fresh_node_def new ns_def nth_list_update nth_append first_or_def last_or_def)
      next
        case 2
        then show ?thesis using pl P len True
          by (simp add: links_ok_def kids_snoc [OF ne] pp ns_def len_def first_or_def last_or_def)
      next
        case 3
        moreover have "par ! i \<noteq> P \<or> i = 0"
          using 3 True kids_set [of i par P] by fastforce
        ultimately show ?thesis using links [of i] len
          by (auto simp: links_ok_def new ns_def nth_append)
      qed
    qed (use len in \<open>simp add: ns_def\<close>)
    moreover have "map node_data ns = map node_data (?ns @ [nd])"
      using P len by (simp add: ns_def map_update node_data_def pn_def nth_append list_update_same_conv)
    ultimately show ?thesis by (auto simp: P_def)
  next
    case False
    define L where "L = last (kids par P)"
    have L: "P < L" "L < length par" "1 \<le> L" "par ! L = P" "later_siblings par L = []"
      using last_in_set [OF False] kids_gt [OF t, of L P] kids_set [of L par P] siblings_last [of L par]
      by (auto simp: L_def)
    define pn1 where "pn1 = pn\<lparr>nd_ChildCount := nd_ChildCount pn + 1, nd_LastChild := ?n\<rparr>"
    define ns where "ns = (?ns @ [nd])[L := (?ns ! L)\<lparr>nd_NextSibling := ?n\<rparr>, P := pn1]"
    have "nd_FirstChild pn \<noteq> -1" "nd_LastChild pn = int L"
      using pl False by (simp_all add: links_ok_def last_or_def L_def)
    then have "appendNode a p nd = Some (a\<lparr>ast_Nodes := ns\<rparr>, ?n)"
      using P len L
      by (simp add: appendNode_def go_index_def go_update_def len_def ns_def pn1_def pn_def nth_append
          Let_def nth_list_update list_update_swap)
    moreover have "arena ns (par @ [P])"
      unfolding arena_def
    proof (intro conjI allI impI t')
      fix i assume "i < length ns"
      then consider "i = length par" | "i = P" | "i = L" | "i < length par" "i \<noteq> P" "i \<noteq> L"
        using len by (fastforce simp: ns_def)
      then show "links_ok (par @ [P]) i (ns ! i)"
      proof cases
        case 1
        then show ?thesis using assms(2) P L len kn
          by (simp add: links_ok_def fresh_node_def new ns_def nth_list_update nth_append first_or_def last_or_def)
      next
        case 2
        then show ?thesis using pl P L len False
          by (simp add: links_ok_def kids_snoc [OF ne] pp first_or_append last_or_append ns_def pn1_def
              nth_list_update len_def)
      next
        case 3
        then show ?thesis using links [of L] P L len
          by (simp add: links_ok_def new ns_def nth_list_update nth_append len_def)
      next
        case 4
        moreover have "par ! i = P \<Longrightarrow> i \<noteq> 0 \<Longrightarrow> later_siblings par i \<noteq> []"
          using 4 siblings_last [of i par] by (simp add: L_def)
        ultimately show ?thesis using links [of i] len
          by (auto simp: links_ok_def new ns_def nth_append)
      qed
    qed (use len in \<open>simp add: ns_def\<close>)
    moreover have "map node_data ns = map node_data (?ns @ [nd])"
      using P L len
      by (intro nth_equalityI)
         (auto simp: ns_def node_data_def pn1_def pn_def nth_append nth_list_update)
    ultimately show ?thesis by (auto simp: P_def)
  qed
qed


section \<open>Following the links\<close>

text \<open>What remains after a child \<open>k\<close> of \<open>i\<close> is what its \<open>NextSibling\<close> starts.\<close>

lemma filter_upt_Cons:
  assumes "filter P [a..<n] = k # ks"
  shows "filter P [Suc k..<n] = ks \<and> a \<le> k \<and> k < n \<and> P k"
  using assms
proof (induction "n - a" arbitrary: a)
  case (Suc m)
  then have "[a..<n] = a # [Suc a..<n]" by (simp add: upt_conv_Cons)
  moreover have "m = n - Suc a" "a < n" using Suc.hyps(2) by simp_all
  ultimately show ?case using Suc.prems Suc.hyps(1) [of "Suc a"] by (auto split: if_splits)
qed simp

lemma kids_Cons: "kids par i = k # ks \<Longrightarrow> later_siblings par k = ks"
  using filter_upt_Cons [of "\<lambda>j. par ! j = i" 1 "length par" k ks]
  by (auto simp: kids_def later_siblings_def)

lemma siblings_Cons: "later_siblings par j = k # ks \<Longrightarrow> later_siblings par k = ks"
  using filter_upt_Cons [of "\<lambda>k. par ! k = par ! j" "Suc j" "length par" k ks]
  by (auto simp: later_siblings_def split: if_splits)

lemma arena_node:
  assumes "arena ns par" and "i < length ns"
  shows "nd_FirstChild (ns ! i) = first_or (kids par i)"
    "nd_NextSibling (ns ! i) = first_or (later_siblings par i)"
    "nd_ChildCount (ns ! i) = len (kids par i)"
  using assms by (auto simp: arena_def links_ok_def)

section \<open>appendAttribute\<close>

text \<open>The ranges of a node's attributes stay inside the arena of attributes.\<close>

definition attrs_ok :: "ast \<Rightarrow> bool" where
  "attrs_ok a \<longleftrightarrow> (\<forall>nd \<in> set (ast_Nodes a). let r = nd_Attributes nd in
     0 \<le> rg_Start r \<and> 0 \<le> rg_Len r \<and> rg_Start r + rg_Len r \<le> len (ast_Attributes a))"

lemma appendAttribute_refines:
  assumes "arena (ast_Nodes a) par" and "attrs_ok a" and i: "0 \<le> i" "i < len (ast_Nodes a)"
  shows "returns (appendAttribute a i x) (\<lambda>a'. \<exists>ns. a' = a\<lparr>ast_Nodes := ns,
       ast_Attributes := ast_Attributes a @ [x]\<rparr> \<and> arena ns par \<and> attrs_ok a'
     \<and> length ns = length (ast_Nodes a)
     \<and> map nd_Type ns = map nd_Type (ast_Nodes a) \<and> map nd_TagID ns = map nd_TagID (ast_Nodes a)
     \<and> map nd_Span ns = map nd_Span (ast_Nodes a))"
proof -
  let ?nd = "ast_Nodes a ! nat i"
  have n: "nat i < length (ast_Nodes a)" using i by (simp add: len_def nat_less_iff)
  have r: "0 \<le> rg_Start (nd_Attributes ?nd)" "0 \<le> rg_Len (nd_Attributes ?nd)"
    "rg_Start (nd_Attributes ?nd) + rg_Len (nd_Attributes ?nd) \<le> len (ast_Attributes a)"
    using assms(2) nth_mem [OF n] by (auto simp: attrs_ok_def Let_def)
  have other: "\<forall>nd \<in> set (ast_Nodes a). let r = nd_Attributes nd in
     0 \<le> rg_Start r \<and> 0 \<le> rg_Len r \<and> rg_Start r + rg_Len r \<le> len (ast_Attributes a) + 1"
    using assms(2) by (auto simp: attrs_ok_def Let_def)
  show ?thesis
    using i n r other arena_update [OF assms(1) n]
    by (auto simp: appendAttribute_def Let_def attrs_ok_def map_update list_update_same_conv
        dest!: subsetD [OF set_update_subset_insert])
qed

section \<open>Properties\<close>

text \<open>
  \<open>appendNode\<close> implements "add a last child": on an arena that represents a tree it does
  not panic, the new node gets the next index, the arena represents the tree with it as the
  last child of the given parent, and the data of all other nodes is unchanged.
\<close>

theorem appendNode_adds_child:
  assumes "arena (ast_Nodes a) par" and "fresh_node nd" and "0 \<le> p" and "p < len (ast_Nodes a)"
  shows "returns (appendNode a p nd) (\<lambda>(a', i). i = len (ast_Nodes a)
    \<and> arena (ast_Nodes a') (par @ [nat p])
    \<and> kids (par @ [nat p]) (nat p) = kids par (nat p) @ [nat i]
    \<and> (\<forall>j. j \<noteq> nat p \<longrightarrow> kids (par @ [nat p]) j = kids par j)
    \<and> map node_data (ast_Nodes a') = map node_data (ast_Nodes a) @ [node_data nd]
    \<and> a'\<lparr>ast_Nodes := []\<rparr> = a\<lparr>ast_Nodes := []\<rparr>)"
proof -
  have "par \<noteq> []" "length par = length (ast_Nodes a)" using assms(1) by (auto simp: arena_def tree_def)
  then show ?thesis
    by (intro returns_mono [OF appendNode_refines [OF assms]]) (auto simp: kids_snoc len_def)
qed

theorem appendNode_adds_child_witness:
  "\<exists>a' i. appendNode (zero_ast\<lparr>ast_Nodes := [NewNode]\<rparr>) 0 NewNode = Some (a', i)
     \<and> arena (ast_Nodes a') [0, 0]"
  using appendNode_adds_child [of "zero_ast\<lparr>ast_Nodes := [NewNode]\<rparr>" "[0]" NewNode 0] arena_root
  by (auto simp: returns_ex fresh_node_def NewNode_def)

end
