(* ===== verification/Scum_Parser.thy ===== *)
theory Scum_Parser
  imports Scum_Tokenize Scum_Ast
begin

text \<open>
  The parser: its state and stacks (\<open>parser_state.go\<close>), the resource limits
  (\<open>parser_limits.go\<close>), the handlers of the tokens (\<open>process_*.go\<close>,
  \<open>append_greedy_node.go\<close>, \<open>close_tag.go\<close>) and \<open>ParseInto\<close> with its pooled state
  (\<open>parse.go\<close>). A handler maps the parser state and the warnings to the new ones; \<open>None\<close>
  is a panic, as of a pop of an empty stack. A Go slice is a list, its top the last element.
\<close>

section \<open>The parser state\<close>

record parser_state =
  ps_ast :: ast
  ps_limits :: limits
  ps_breadcrumbs :: "int list"
  ps_cumWidth :: "int list"
  ps_skip :: "char \<Rightarrow> int"
  ps_openedTags :: "char \<Rightarrow> bool"
  ps_stack :: "char list"
  ps_maxDepth :: int
  ps_lastNodeIdx :: int
  ps_totalTagNodes :: int
  ps_textNodes :: int
  ps_warnedMaxNodes :: bool
  ps_warnedMaxAttributes :: bool
  ps_warnedMaxParseDepth :: bool

definition newParserState :: parser_state where
  "newParserState = \<lparr>ps_ast = zero_ast, ps_limits = no_limits, ps_breadcrumbs = [0],
     ps_cumWidth = [0], ps_skip = (\<lambda>_. 0), ps_openedTags = (\<lambda>_. False), ps_stack = [],
     ps_maxDepth = 1, ps_lastNodeIdx = 0, ps_totalTagNodes = 0, ps_textNodes = 0,
     ps_warnedMaxNodes = False, ps_warnedMaxAttributes = False,
     ps_warnedMaxParseDepth = False\<rparr>"

definition ParserState_Reset :: "parser_state \<Rightarrow> parser_state" where
  "ParserState_Reset s = s\<lparr>ps_ast := zero_ast, ps_limits := no_limits,
     ps_breadcrumbs := take 0 (ps_breadcrumbs s) @ [0], ps_cumWidth := take 0 (ps_cumWidth s) @ [0],
     ps_skip := (\<lambda>_. 0), ps_openedTags := (\<lambda>_. False), ps_stack := take 0 (ps_stack s),
     ps_maxDepth := 1, ps_lastNodeIdx := 0, ps_totalTagNodes := 0, ps_textNodes := 0,
     ps_warnedMaxNodes := False, ps_warnedMaxAttributes := False,
     ps_warnedMaxParseDepth := False\<rparr>"

section \<open>The stacks\<close>

definition peekCrumb :: "parser_state \<Rightarrow> int option" where
  "peekCrumb s = go_index (ps_breadcrumbs s) (len (ps_breadcrumbs s) - 1)"

definition popCrumb :: "parser_state \<Rightarrow> (int \<times> parser_state) option" where
  "popCrumb s = do {
     let lastItemIdx = len (ps_breadcrumbs s) - 1;
     lastItem \<leftarrow> go_index (ps_breadcrumbs s) lastItemIdx;
     rest \<leftarrow> go_slice (ps_breadcrumbs s) 0 lastItemIdx;
     Some (lastItem, s\<lparr>ps_breadcrumbs := rest\<rparr>)
   }"

definition pushCrumb :: "int \<Rightarrow> parser_state \<Rightarrow> parser_state" where
  "pushCrumb idx s = s\<lparr>ps_breadcrumbs := ps_breadcrumbs s @ [idx]\<rparr>"

definition peekStack :: "parser_state \<Rightarrow> char option" where
  "peekStack s = (let l = len (ps_stack s) in
     if l > 0 then go_index (ps_stack s) (l - 1) else Some NUL)"

definition popStack :: "parser_state \<Rightarrow> (char \<times> parser_state) option" where
  "popStack s = do {
     let lastItemIdx = len (ps_stack s) - 1;
     lastItem \<leftarrow> go_index (ps_stack s) lastItemIdx;
     rest \<leftarrow> go_slice (ps_stack s) 0 lastItemIdx;
     Some (lastItem, s\<lparr>ps_stack := rest\<rparr>)
   }"

definition pushStack :: "char \<Rightarrow> parser_state \<Rightarrow> parser_state" where
  "pushStack b s = (let s1 = s\<lparr>ps_stack := ps_stack s @ [b]\<rparr> in
     s1\<lparr>ps_maxDepth := max (ps_maxDepth s1) (len (ps_stack s1))\<rparr>)"

definition incrementCumWidth :: "int \<Rightarrow> parser_state \<Rightarrow> parser_state option" where
  "incrementCumWidth w s = do {
     x \<leftarrow> go_index (ps_cumWidth s) (len (ps_cumWidth s) - 1);
     cw \<leftarrow> go_update (ps_cumWidth s) (len (ps_cumWidth s) - 1) (x + w);
     Some (s\<lparr>ps_cumWidth := cw\<rparr>)
   }"

definition pushCumWidth :: "int \<Rightarrow> parser_state \<Rightarrow> parser_state" where
  "pushCumWidth w s = s\<lparr>ps_cumWidth := ps_cumWidth s @ [w]\<rparr>"

definition popCumWidth :: "int \<Rightarrow> parser_state \<Rightarrow> (int \<times> parser_state) option" where
  "popCumWidth w s = do {
     let lastItemIdx = len (ps_cumWidth s) - 1;
     lastItem \<leftarrow> go_index (ps_cumWidth s) lastItemIdx;
     let delta = lastItem + w;
     x \<leftarrow> go_index (ps_cumWidth s) (lastItemIdx - 1);
     cw \<leftarrow> go_update (ps_cumWidth s) (lastItemIdx - 1) (x + delta);
     rest \<leftarrow> go_slice cw 0 lastItemIdx;
     Some (delta, s\<lparr>ps_cumWidth := rest\<rparr>)
   }"

definition peekCumWidth :: "parser_state \<Rightarrow> int option" where
  "peekCumWidth s = go_index (ps_cumWidth s) (len (ps_cumWidth s) - 1)"

section \<open>Resource limits\<close>

definition warnLimitOnce ::
  "parser_state \<Rightarrow> warnings \<Rightarrow> issue \<Rightarrow> int \<Rightarrow> parser_state \<times> warnings" where
  "warnLimitOnce s w iss pos =
     (let warn = (\<lambda>s'. (s', Add w (mk_warning iss pos))) in
      case iss of
        IssueMaxNodesExceeded \<Rightarrow>
          if ps_warnedMaxNodes s then (s, w) else warn (s\<lparr>ps_warnedMaxNodes := True\<rparr>)
      | IssueMaxAttributesExceeded \<Rightarrow>
          if ps_warnedMaxAttributes s then (s, w) else warn (s\<lparr>ps_warnedMaxAttributes := True\<rparr>)
      | IssueMaxParseDepthExceeded \<Rightarrow>
          if ps_warnedMaxParseDepth s then (s, w) else warn (s\<lparr>ps_warnedMaxParseDepth := True\<rparr>)
      | _ \<Rightarrow> warn s)"

text \<open>\<open>(idx, true)\<close> is \<open>Some idx\<close>, \<open>(-1, false)\<close> is \<open>None\<close>.\<close>

definition appendStateNode ::
  "parser_state \<Rightarrow> int \<Rightarrow> node \<Rightarrow> int \<Rightarrow> warnings
     \<Rightarrow> (int option \<times> parser_state \<times> warnings) option" where
  "appendStateNode s parentIdx nd pos w =
     (if MaxNodes (ps_limits s) > 0 \<and> len (ast_Nodes (ps_ast s)) \<ge> MaxNodes (ps_limits s)
      then Some (None, warnLimitOnce s w IssueMaxNodesExceeded pos)
      else do {
        (a, idx) \<leftarrow> appendNode (ps_ast s) parentIdx nd;
        Some (Some idx, s\<lparr>ps_ast := a\<rparr>, w)
      })"

definition canAppendAttribute ::
  "parser_state \<Rightarrow> int \<Rightarrow> warnings \<Rightarrow> bool \<times> parser_state \<times> warnings" where
  "canAppendAttribute s pos w =
     (if MaxAttributes (ps_limits s) > 0
         \<and> len (ast_Attributes (ps_ast s)) \<ge> MaxAttributes (ps_limits s)
      then (False, warnLimitOnce s w IssueMaxAttributesExceeded pos) else (True, s, w))"

definition canPushParseDepth ::
  "parser_state \<Rightarrow> int \<Rightarrow> warnings \<Rightarrow> bool \<times> parser_state \<times> warnings" where
  "canPushParseDepth s pos w =
     (if MaxParseDepth (ps_limits s) > 0 \<and> len (ps_stack s) \<ge> MaxParseDepth (ps_limits s)
      then (False, warnLimitOnce s w IssueMaxParseDepthExceeded pos) else (True, s, w))"

section \<open>Handlers\<close>

type_synonym handled = "(parser_state \<times> warnings) option"

definition processText :: "parser_state \<Rightarrow> token \<Rightarrow> warnings \<Rightarrow> handled" where
  "processText s tok w = do {
     let nd = NewNode\<lparr>nd_Type := NodeText, nd_Span := tok_Payload tok\<rparr>;
     p \<leftarrow> peekCrumb s;
     (r, s1, w1) \<leftarrow> appendStateNode s p nd (tok_Pos tok) w;
     let s2 = (case r of Some textIdx \<Rightarrow> s1\<lparr>ps_lastNodeIdx := textIdx\<rparr> | None \<Rightarrow> s1);
     s3 \<leftarrow> incrementCumWidth (tok_Width tok) s2;
     Some (s3, w1)
   }"

definition processAttribute :: "parser_state \<Rightarrow> token \<Rightarrow> warnings \<Rightarrow> handled" where
  "processAttribute s tok w =
     (let (ok, s1, w1) = canAppendAttribute s (tok_Pos tok) w in
      if \<not> ok then Some (s1, w1)
      else do {
        let attr = \<lparr>at_Name = tok_AttrKey tok, at_Payload = tok_Payload tok,
                    at_IsFlag = (tok_Type tok = TokenAttributeFlag)\<rparr>;
        a \<leftarrow> appendAttribute (ps_ast s1) (ps_lastNodeIdx s1) attr;
        Some (s1\<lparr>ps_ast := a\<rparr>, w1)
      })"

definition appendGreedyNode :: "parser_state \<Rightarrow> token \<Rightarrow> warnings \<Rightarrow> handled" where
  "appendGreedyNode s tok w = do {
     let nd = NewNode\<lparr>nd_Type := NodeTag, nd_TagID := tok_Trigger tok,
                nd_Span := NewSpan (tok_Pos tok) (tok_Width tok)\<rparr>;
     p \<leftarrow> peekCrumb s;
     (r, s1, w1) \<leftarrow> appendStateNode s p nd (tok_Pos tok) w;
     (case r of
        None \<Rightarrow> do { s2 \<leftarrow> incrementCumWidth (tok_Width tok) s1; Some (s2, w1) }
      | Some parentIdx \<Rightarrow> do {
          let payload = NewNode\<lparr>nd_Type := NodeText, nd_Span := tok_Payload tok\<rparr>;
          (r2, s2, w2) \<leftarrow>
            appendStateNode s1 parentIdx payload (sp_Start (tok_Payload tok)) w1;
          let s3 = (case r2 of Some nodeIdx \<Rightarrow> s2\<lparr>ps_lastNodeIdx := nodeIdx\<rparr>
                    | None \<Rightarrow> s2\<lparr>ps_lastNodeIdx := parentIdx\<rparr>);
          s4 \<leftarrow> incrementCumWidth (tok_Width tok) s3;
          Some (s4, w2)
        })
   }"

text \<open>\<open>Nodes[idx].Span.End = Nodes[idx].Span.Start + width\<close>\<close>

definition set_span_end :: "parser_state \<Rightarrow> int \<Rightarrow> int \<Rightarrow> parser_state option" where
  "set_span_end s idx width = do {
     nd \<leftarrow> go_index (ast_Nodes (ps_ast s)) idx;
     ns \<leftarrow> go_update (ast_Nodes (ps_ast s)) idx
             (nd\<lparr>nd_Span := (nd_Span nd)\<lparr>sp_End := sp_Start (nd_Span nd) + width\<rparr>\<rparr>);
     Some (s\<lparr>ps_ast := (ps_ast s)\<lparr>ast_Nodes := ns\<rparr>\<rparr>)
   }"

definition closeTag :: "parser_state \<Rightarrow> token \<Rightarrow> parser_state option" where
  "closeTag s tok = do {
     (idx, s1) \<leftarrow> popCrumb s;
     let s2 = s1\<lparr>ps_lastNodeIdx := idx\<rparr>;
     (width, s3) \<leftarrow> popCumWidth (tok_Width tok) s2;
     s4 \<leftarrow> set_span_end s3 idx width;
     (openTagID, s5) \<leftarrow> popStack s4;
     Some (s5\<lparr>ps_openedTags := (ps_openedTags s5)(openTagID := False)\<rparr>)
   }"

text \<open>\<open>if closeID := d.tags[t].CloseID; closeID != 0 { skip[closeID]++ }\<close>\<close>

definition skip_closer :: "dictionary \<Rightarrow> char \<Rightarrow> parser_state \<Rightarrow> parser_state" where
  "skip_closer d t s = (let closeID = tag_CloseID (d_tags d t) in
     if closeID \<noteq> NUL then s\<lparr>ps_skip := (ps_skip s)(closeID := ps_skip s closeID + 1)\<rparr> else s)"

definition processOpeningTag ::
  "parser_state \<Rightarrow> dictionary \<Rightarrow> warnings \<Rightarrow> token \<Rightarrow> handled" where
  "processOpeningTag s d w tok =
     (let t = tok_Trigger tok in
      if ps_openedTags s t then
        (let w1 = Add w ((mk_warning IssueDuplicateNestedTag (tok_Pos tok))\<lparr>w_TagID := t\<rparr>);
             c = tag_CloseID (d_tags d t)
         in Some (s\<lparr>ps_skip := (ps_skip s)(c := ps_skip s c + 1)\<rparr>, w1))
      else
        (let (ok, s1, w1) = canPushParseDepth s (tok_Pos tok) w in
         if \<not> ok then do {
           s2 \<leftarrow> incrementCumWidth (tok_Width tok) s1;
           Some (skip_closer d t s2, w1)
         } else do {
           let nd = NewNode\<lparr>nd_Type := NodeTag, nd_TagID := t,
                      nd_Span := NewSpan (tok_Pos tok) (tok_Width tok)\<rparr>;
           p \<leftarrow> peekCrumb s1;
           (r, s2, w2) \<leftarrow> appendStateNode s1 p nd (tok_Pos tok) w1;
           (case r of
              None \<Rightarrow> do {
                s3 \<leftarrow> incrementCumWidth (tok_Width tok) s2;
                Some (skip_closer d t s3, w2)
              }
            | Some idx \<Rightarrow>
                let s3 = pushCumWidth (tok_Width tok) (pushStack t (pushCrumb idx s2)) in
                Some (s3\<lparr>ps_lastNodeIdx := idx, ps_openedTags := (ps_openedTags s3)(t := True),
                         ps_totalTagNodes := ps_totalTagNodes s3 + 1\<rparr>, w2))
         }))"

definition processClosingTag ::
  "parser_state \<Rightarrow> dictionary \<Rightarrow> warnings \<Rightarrow> token \<Rightarrow> handled" where
  "processClosingTag s d w tok = do {
     stacked \<leftarrow> peekStack s;
     let t = tok_Trigger tok;
     let tag = d_tags d t;
     if stacked = NUL then
       Some (s, Add w ((mk_warning IssueMisplacedClosingTag (tok_Pos tok))
                  \<lparr>w_TagID := t, w_Expected := tag_OpenID tag\<rparr>))
     else do {
       let openTag = d_tags d stacked;
       if tag_CloseID openTag \<noteq> t \<and> tag_OpenID tag \<noteq> stacked then do {
         let w1 = Add w ((mk_warning IssueOpenCloseTagMismatch (tok_Pos tok))
                    \<lparr>w_TagID := t, w_Expected := stacked\<rparr>);
         let a = ps_ast s;
         let s1 = s\<lparr>ps_ast := a\<lparr>ast_TextByteLen := ast_TextByteLen a + tok_Width tok\<rparr>,
                    ps_textNodes := ps_textNodes s + 1\<rparr>;
         processText s1 (tok\<lparr>tok_Type := TokenText,
                           tok_Payload := NewSpan (tok_Pos tok) (tok_Width tok)\<rparr>) w1
       } else do { s1 \<leftarrow> closeTag s tok; Some (s1, w) }
     }
   }"

definition processUniversalTag ::
  "parser_state \<Rightarrow> dictionary \<Rightarrow> warnings \<Rightarrow> token \<Rightarrow> handled" where
  "processUniversalTag s d w tok = do {
     close \<leftarrow> (if ps_openedTags s (tok_Trigger tok)
              then do { top \<leftarrow> peekStack s; Some (top = tok_Trigger tok) } else Some False);
     if close then do { s1 \<leftarrow> closeTag s tok; Some (s1, w) }
     else processOpeningTag s d w tok
   }"

definition processTag :: "parser_state \<Rightarrow> dictionary \<Rightarrow> warnings \<Rightarrow> token \<Rightarrow> handled" where
  "processTag s d w tok =
     (let t = tok_Trigger tok in
      if ps_skip s t > 0 then Some (s\<lparr>ps_skip := (ps_skip s)(t := ps_skip s t - 1)\<rparr>, w)
      else
        let tag = d_tags d t in
        if tag_Greed tag > NonGreedy then appendGreedyNode s tok w
        else if IsUniversal tag then processUniversalTag s d w tok
        else if IsOpening tag then processOpeningTag s d w tok
        else if IsClosing tag then processClosingTag s d w tok
        else Some (s, w))"

section \<open>ParseInto\<close>

text \<open>
  The allocation of the two arenas: the capacities of the destination's slices decide
  whether they are reused. \<open>make\<close> panics when the length exceeds the capacity, and so does
  reslicing.
\<close>

record storage =
  st_Nodes :: int
  st_Attributes :: int

definition resetAST ::
  "storage \<Rightarrow> string \<Rightarrow> tokenizer_output \<Rightarrow> limits \<Rightarrow> (ast \<times> storage) option" where
  "resetAST dst input out l = do {
     let nodeCap0 = max (out_TagsTotal out + out_TextTokens out) 1;
     let nodeCap = (if MaxNodes l > 0 then max (min nodeCap0 (MaxNodes l)) 1 else nodeCap0);
     let c = st_Nodes dst;
     nodes \<leftarrow> (if c < nodeCap \<or> (MaxNodes l > 0 \<and> c > MaxNodes l)
              then (if 1 \<le> nodeCap then Some nodeCap else None)
              else (if 1 \<le> c then Some c else None));
     let attrCap = (if MaxAttributes l > 0 then min (out_Attributes out) (MaxAttributes l)
                    else out_Attributes out);
     let c2 = st_Attributes dst;
     attrs \<leftarrow> (if c2 < attrCap \<or> (MaxAttributes l > 0 \<and> c2 > MaxAttributes l)
              then (if 0 \<le> attrCap then Some attrCap else None)
              else Some c2);
     Some (zero_ast\<lparr>ast_Input := input, ast_Nodes := [NewNode], ast_Attributes := []\<rparr>,
           \<lparr>st_Nodes = nodes, st_Attributes = attrs\<rparr>)
   }"

definition processToken :: "dictionary \<Rightarrow> parser_state \<Rightarrow> warnings \<Rightarrow> token \<Rightarrow> handled" where
  "processToken d s w t =
     (case tok_Type t of
        TokenText \<Rightarrow> processText s t w
      | TokenAttributeFlag \<Rightarrow> processAttribute s t w
      | TokenAttributeKV \<Rightarrow> processAttribute s t w
      | TokenTag \<Rightarrow> processTag s d w t)"

fun processTokens :: "dictionary \<Rightarrow> parser_state \<Rightarrow> warnings \<Rightarrow> token list \<Rightarrow> handled" where
  "processTokens d s w [] = Some (s, w)"
| "processTokens d s w (t # ts) = do {
     (s1, w1) \<leftarrow> processToken d s w t;
     processTokens d s1 w1 ts
   }"

partial_function (option) closeRemaining ::
  "dictionary \<Rightarrow> parser_state \<Rightarrow> warnings \<Rightarrow> handled" where
  "closeRemaining d s w =
     (if len (ps_breadcrumbs s) > 1 then do {
        (idx, s1) \<leftarrow> popCrumb s;
        (childWidth, s2) \<leftarrow> popCumWidth 0 s1;
        s3 \<leftarrow> set_span_end s2 idx childWidth;
        (openTagID, s4) \<leftarrow> popStack s3;
        let s5 = s4\<lparr>ps_openedTags := (ps_openedTags s4)(openTagID := False)\<rparr>;
        nd \<leftarrow> go_index (ast_Nodes (ps_ast s5)) idx;
        closeRemaining d s5 (Add w ((mk_warning IssueUnclosedTag (sp_Start (nd_Span nd)))
          \<lparr>w_TagID := openTagID, w_CloseTagID := tag_CloseID (d_tags d openTagID)\<rparr>))
      } else Some (s, w))"

declare closeRemaining.simps [code]

definition finishAST :: "tokenizer_output \<Rightarrow> parser_state \<Rightarrow> ast option" where
  "finishAST out s = do {
     let a = ps_ast s;
     width \<leftarrow> peekCumWidth s;
     root \<leftarrow> go_index (ast_Nodes a) 0;
     ns \<leftarrow> go_update (ast_Nodes a) 0 (root\<lparr>nd_Span := (nd_Span root)\<lparr>sp_End := width\<rparr>\<rparr>);
     Some (a\<lparr>ast_Nodes := ns, ast_MaxDepth := ps_maxDepth s,
             ast_TextByteLen := ast_TextByteLen a + out_TextByteLen out,
             ast_TotalTextNodes := ps_textNodes s + out_TextTokens out,
             ast_TotalTagNodes := ps_totalTagNodes s\<rparr>)
   }"

text \<open>\<open>pooled\<close> is the state taken from the pool; the last component is the one put back.\<close>

definition ParseInto ::
  "unicode \<Rightarrow> parser_state \<Rightarrow> storage \<Rightarrow> string \<Rightarrow> dictionary \<Rightarrow> warnings
     \<Rightarrow> (ast \<times> warnings \<times> parser_state) option" where
  "ParseInto U pooled dst input d w = do {
     (out, w1) \<leftarrow> Tokenize U d input w;
     (a0, _) \<leftarrow> resetAST dst input out (d_Limits d);
     let s0 = pooled\<lparr>ps_ast := a0, ps_limits := d_Limits d\<rparr>;
     (s1, w2) \<leftarrow> processTokens d s0 w1 (out_Tokens out);
     (s2, w3) \<leftarrow> closeRemaining d s1 w2;
     a \<leftarrow> finishAST out s2;
     Some (a, w3, ParserState_Reset (s2\<lparr>ps_ast := a\<rparr>))
   }"

definition Parse ::
  "unicode \<Rightarrow> parser_state \<Rightarrow> string \<Rightarrow> dictionary \<Rightarrow> warnings
     \<Rightarrow> (ast \<times> warnings \<times> parser_state) option" where
  "Parse U pooled input d w = ParseInto U pooled \<lparr>st_Nodes = 0, st_Attributes = 0\<rparr> input d w"

text \<open>\<open>AST.Text\<close>: the concatenated slices of the text nodes; \<open>Grow\<close> panics below zero.\<close>

fun collect_text :: "string \<Rightarrow> node list \<Rightarrow> string option" where
  "collect_text input [] = Some []"
| "collect_text input (nd # ns) =
     (if nd_Type nd \<noteq> NodeText then collect_text input ns
      else do {
        s \<leftarrow> go_slice input (sp_Start (nd_Span nd)) (sp_End (nd_Span nd));
        rest \<leftarrow> collect_text input ns;
        Some (s @ rest)
      })"

definition ast_Text :: "ast \<Rightarrow> string option" where
  "ast_Text a =
     (if ast_TextByteLen a < 0 then None else collect_text (ast_Input a) (ast_Nodes a))"

end
