(* ===== verification/Scum_Parser_Inv.thy ===== *)
theory Scum_Parser_Inv
  imports Scum_Parser
begin

text \<open>
  The invariant of the parser and its preservation by every handler: the arena is a tree of
  typed nodes, the three stacks describe the path from the root to the current tag, widths
  and spans stay within the input read so far, the resource limits hold, and warnings are
  only added. The two stacks that are popped as plain slices are interpretations of the
  locale \<open>slice_stack\<close>.
\<close>

section \<open>A slice used as a stack\<close>

lemma slice_top [simp]:
  "go_index (xs @ [x]) (len xs) = Some x" "go_slice (xs @ [x]) 0 (len xs) = Some xs"
  "go_update (xs @ [x]) (len xs) y = Some (xs @ [y])"
  by (simp_all add: go_index_def go_slice_def go_update_def)

locale slice_stack =
  fixes items :: "'s \<Rightarrow> 'a list"
    and set_items :: "'a list \<Rightarrow> 's \<Rightarrow> 's"
    and push :: "'a \<Rightarrow> 's \<Rightarrow> 's"
    and pop :: "'s \<Rightarrow> ('a \<times> 's) option"
  assumes items_set: "items (set_items xs s) = xs"
    and items_push: "items (push x s) = items s @ [x]"
    and pop_top: "items s = xs @ [x] \<Longrightarrow> pop s = Some (x, set_items xs s)"
    and pop_empty: "items s = [] \<Longrightarrow> pop s = None"
begin

lemma pop_push: "\<exists>s'. pop (push x s) = Some (x, s') \<and> items s' = items s"
  using pop_top [of "push x s" "items s" x] by (auto simp: items_push items_set)

lemma pop_returns: "returns (pop s) P \<longleftrightarrow>
    items s \<noteq> [] \<and> P (last (items s), set_items (butlast (items s)) s)"
  by (cases "items s" rule: rev_cases) (simp_all add: pop_empty pop_top)

lemma pop_rev: "items s = rev (x # xs) \<Longrightarrow> pop s = Some (x, set_items (rev xs) s)"
  using pop_top [of s "rev xs" x] by simp

end

interpretation crumbs: slice_stack ps_breadcrumbs "\<lambda>xs s. s\<lparr>ps_breadcrumbs := xs\<rparr>" pushCrumb popCrumb
  by unfold_locales (simp_all add: popCrumb_def pushCrumb_def go_index_def)

interpretation opened: slice_stack ps_stack "\<lambda>xs s. s\<lparr>ps_stack := xs\<rparr>" pushStack popStack
  by unfold_locales (simp_all add: popStack_def pushStack_def go_index_def Let_def)

lemma peekCrumb_rev: "ps_breadcrumbs s = rev (x # xs) \<Longrightarrow> peekCrumb s = Some x"
  by (simp add: peekCrumb_def)

lemma peekStack_rev:
  "ps_stack s = rev xs \<Longrightarrow> peekStack s = Some (case xs of [] \<Rightarrow> NUL | x # _ \<Rightarrow> x)"
  by (cases xs) (simp_all add: peekStack_def add_nonneg_pos)

lemma incrementCumWidth_rev: "ps_cumWidth s = rev (w # ws) \<Longrightarrow>
    incrementCumWidth x s = Some (s\<lparr>ps_cumWidth := rev ((w + x) # ws)\<rparr>)"
  by (simp add: incrementCumWidth_def)

lemma popCumWidth_rev:
  assumes "ps_cumWidth s = rev (w # v # ws)"
  shows "popCumWidth x s = Some (w + x, s\<lparr>ps_cumWidth := rev ((v + (w + x)) # ws)\<rparr>)"
proof -
  have "go_index ((rev ws @ [v]) @ [w]) (len (rev ws)) = Some v"
    "go_update ((rev ws @ [v]) @ [w]) (len (rev ws)) y = Some ((rev ws @ [y]) @ [w])" for y
    by (simp_all add: go_index_def go_update_def nth_append list_update_append)
  moreover have "go_slice ((rev ws @ [y]) @ [w]) 0 (len (rev ws) + 1) = Some (rev ws @ [y])" for y
    using slice_top(2) [of "rev ws @ [y]" w] by simp
  moreover have "go_index ((rev ws @ [v]) @ [w]) (len (rev ws) + 1) = Some w"
    using slice_top(1) [of "rev ws @ [v]" w] by simp
  ultimately show ?thesis using assms by (simp add: popCumWidth_def Let_def add.commute)
qed

section \<open>The path of open tags\<close>

text \<open>What the path needs of a node: its type, its tag and where it starts.\<close>

type_synonym core = "node_type \<times> char \<times> int"

definition core_of :: "node \<Rightarrow> core" where
  "core_of nd = (nd_Type nd, nd_TagID nd, sp_Start (nd_Span nd))"

text \<open>
  The path from the current node up to the root, with the widths and tags of the stacks,
  innermost first; \<open>e\<close> is the position up to which the width of the innermost counts, and
  the width of a parent counts up to the start of its open child.
\<close>

fun open_path :: "core list \<Rightarrow> parents \<Rightarrow> int \<Rightarrow> nat list \<Rightarrow> int list \<Rightarrow> char list \<Rightarrow> bool" where
  "open_path ks par e [c] [w] [] \<longleftrightarrow> c = 0 \<and> 0 \<le> w \<and> w \<le> e"
| "open_path ks par e (c # c' # cs) (w # ws) (t # ts) \<longleftrightarrow>
     1 \<le> c \<and> c < length ks \<and> par ! c = c' \<and> fst (ks ! c) = NodeTag \<and> fst (snd (ks ! c)) = t
     \<and> 0 \<le> w \<and> snd (snd (ks ! c)) + w \<le> e
     \<and> open_path ks par (snd (snd (ks ! c))) (c' # cs) ws ts"
| "open_path ks par e _ _ _ \<longleftrightarrow> False"

lemma open_path_mono: "open_path ks par e cs ws ts \<Longrightarrow> e \<le> e' \<Longrightarrow> open_path ks par e' cs ws ts"
  by (cases "(ks, par, e, cs, ws, ts)" rule: open_path.cases) auto

lemma open_path_append:
  "open_path ks par e cs ws ts \<Longrightarrow> length ks = length par \<Longrightarrow>
   open_path (ks @ [k]) (par @ [p]) e cs ws ts"
  by (induction ks par e cs ws ts rule: open_path.induct) (auto simp: nth_append)

lemma open_path_lengths: "open_path ks par e cs ws ts \<Longrightarrow>
    length ws = length cs \<and> length cs = length ts + 1 \<and> cs \<noteq> [] \<and> ws \<noteq> []"
  by (induction ks par e cs ws ts rule: open_path.induct) auto

lemma open_path_top: "open_path ks par e (c # cs) ws ts \<Longrightarrow> 0 < length ks \<Longrightarrow> c < length ks
    \<and> (c = 0 \<or> fst (ks ! c) = NodeTag)"
  by (cases "(ks, par, e, c # cs, ws, ts)" rule: open_path.cases) auto

lemma open_path_width:
  "open_path ks par e cs (w # ws) ts \<Longrightarrow> 0 \<le> x \<Longrightarrow> open_path ks par (e + x) cs ((w + x) # ws) ts"
  by (cases "(ks, par, e, cs, w # ws, ts)" rule: open_path.cases) auto

lemma open_path_push:
  assumes "open_path ks par e (c # cs) ws ts" and "length ks = length par" "0 < length ks"
    and "0 \<le> x"
  shows "open_path (ks @ [(NodeTag, t, e)]) (par @ [c]) (e + x) (length ks # c # cs) (x # ws) (t # ts)"
  using assms open_path_append [OF assms(1,2)] by (simp add: nth_append Suc_le_eq)

lemma open_path_pop:
  assumes "open_path ks par e (c # cs) ws (t # ts)" and "0 \<le> x"
  obtains c' cs' w v ws' where "cs = c' # cs'" "ws = w # v # ws'"
    and "open_path ks par (e + x) cs ((v + (w + x)) # ws') ts"
    and "1 \<le> c" "c < length ks" "0 \<le> w + x" "snd (snd (ks ! c)) + (w + x) \<le> e + x"
proof -
  from assms(1) obtain c' cs' w ws'' where d: "cs = c' # cs'" "ws = w # ws''"
    and c: "1 \<le> c" "c < length ks" "0 \<le> w" "snd (snd (ks ! c)) + w \<le> e"
    and p: "open_path ks par (snd (snd (ks ! c))) (c' # cs') ws'' ts"
    by (cases "(ks, par, e, c # cs, ws, t # ts)" rule: open_path.cases) auto
  from p obtain v ws' where v: "ws'' = v # ws'"
    using open_path_lengths [OF p] by (cases ws'') auto
  with p have "open_path ks par (snd (snd (ks ! c)) + (w + x)) (c' # cs') ((v + (w + x)) # ws') ts"
    using open_path_width c assms(2) by simp
  with c v d that show thesis using open_path_mono assms(2) by (simp add: add.assoc)
qed

section \<open>The other parts of the invariant\<close>

definition spans_ok :: "node list \<Rightarrow> int \<Rightarrow> bool" where
  "spans_ok ns e \<longleftrightarrow> (\<forall>nd \<in> set ns. span_in 0 e (nd_Span nd))"

text \<open>The spans of the attributes are slices of the input.\<close>

definition attr_spans :: "attribute list \<Rightarrow> int \<Rightarrow> bool" where
  "attr_spans xs n \<longleftrightarrow> (\<forall>x \<in> set xs. span_in 0 n (at_Name x) \<and> span_in 0 n (at_Payload x))"

text \<open>The root is the first node and the only one of its type, and text nodes are leaves.\<close>

definition typed :: "core list \<Rightarrow> parents \<Rightarrow> bool" where
  "typed ks par \<longleftrightarrow> ks \<noteq> [] \<and> ks ! 0 = (NodeRoot, NUL, 0)
     \<and> (\<forall>j. 1 \<le> j \<and> j < length ks \<longrightarrow> fst (ks ! j) \<noteq> NodeRoot \<and> fst (ks ! (par ! j)) \<noteq> NodeText)"

definition within_limits :: "limits \<Rightarrow> parser_state \<Rightarrow> bool" where
  "within_limits l s \<longleftrightarrow>
     (MaxNodes l > 0 \<longrightarrow> len (ast_Nodes (ps_ast s)) \<le> MaxNodes l)
     \<and> (MaxAttributes l > 0 \<longrightarrow> len (ast_Attributes (ps_ast s)) \<le> MaxAttributes l)
     \<and> (MaxParseDepth l > 0 \<longrightarrow> len (ps_stack s) \<le> MaxParseDepth l \<and> ps_maxDepth s \<le> MaxParseDepth l)
     \<and> len (ps_stack s) \<le> ps_maxDepth s \<and> 1 \<le> ps_maxDepth s"

text \<open>The nodes that \<open>TotalTagNodes\<close> counts.\<close>

definition counted_tags :: "dictionary \<Rightarrow> core list \<Rightarrow> int" where
  "counted_tags d ks = len (filter (\<lambda>(ty, t, _). ty = NodeTag \<and> tag_Greed (d_tags d t) = NonGreedy) ks)"

text \<open>The tag nodes are of registered tags.\<close>

definition tags_known :: "dictionary \<Rightarrow> core list \<Rightarrow> bool" where
  "tags_known d ks \<longleftrightarrow> (\<forall>(ty, t, _) \<in> set ks. ty = NodeTag \<longrightarrow> has_plan d t)"

text \<open>
  The invariant, with every span within \<open>m\<close> and the widths counted up to \<open>e\<close>: while a token
  \<open>[e, m)\<close> is processed its node exists before its width is added.
\<close>

definition pinv ::
  "dictionary \<Rightarrow> string \<Rightarrow> int \<Rightarrow> int \<Rightarrow> parser_state \<Rightarrow> parents \<Rightarrow> nat list \<Rightarrow> bool" where
  "pinv d input m e s par cs \<longleftrightarrow> (let a = ps_ast s; ks = map core_of (ast_Nodes a) in
     arena (ast_Nodes a) par \<and> attrs_ok a \<and> ast_Input a = input \<and> ps_limits s = d_Limits d
     \<and> ps_breadcrumbs s = rev (map int cs)
     \<and> open_path ks par e cs (rev (ps_cumWidth s)) (rev (ps_stack s))
     \<and> distinct (ps_stack s) \<and> ps_openedTags s = (\<lambda>t. t \<in> set (ps_stack s)) \<and> NUL \<notin> set (ps_stack s)
     \<and> 0 \<le> ps_lastNodeIdx s \<and> ps_lastNodeIdx s < len (ast_Nodes a)
     \<and> spans_ok (ast_Nodes a) m \<and> typed ks par \<and> within_limits (d_Limits d) s
     \<and> ps_totalTagNodes s = counted_tags d ks \<and> 0 \<le> ast_TextByteLen a
     \<and> attr_spans (ast_Attributes a) (len input) \<and> tags_known d ks)"

definition grown :: "warnings \<Rightarrow> warnings \<Rightarrow> bool" where
  "grown w w' \<longleftrightarrow> (\<exists>ws. w' = foldl Add w ws)"

lemma grown_refl [simp]: "grown w w"
  by (auto simp: grown_def intro: exI [of _ "[]"])

lemma grown_Add [simp]: "grown w (Add w x)"
  by (auto simp: grown_def intro: exI [of _ "[x]"])

lemma grown_trans: "grown a b \<Longrightarrow> grown b c \<Longrightarrow> grown a c"
  unfolding grown_def by (metis foldl_append)

text \<open>What a handler of a token of width \<open>x\<close>, read at \<open>e\<close>, achieves.\<close>

definition keeps :: "dictionary \<Rightarrow> string \<Rightarrow> int \<Rightarrow> warnings \<Rightarrow> parser_state \<times> warnings \<Rightarrow> bool" where
  "keeps d input e w r \<longleftrightarrow> (\<exists>par cs. pinv d input e e (fst r) par cs) \<and> grown w (snd r)"

lemma spans_ok_mono: "spans_ok ns e \<Longrightarrow> e \<le> e' \<Longrightarrow> spans_ok ns e'"
  by (fastforce simp: spans_ok_def span_in_def)

lemma pinv_mono: "pinv d input m e s par cs \<Longrightarrow> m \<le> m' \<Longrightarrow> e \<le> e' \<Longrightarrow> pinv d input m' e' s par cs"
  by (auto simp: pinv_def Let_def intro: open_path_mono spans_ok_mono)

lemma pinv_cong:
  assumes "ps_ast s' = ps_ast s" "ps_limits s' = ps_limits s" "ps_breadcrumbs s' = ps_breadcrumbs s"
    "ps_cumWidth s' = ps_cumWidth s" "ps_stack s' = ps_stack s"
    "ps_openedTags s' = ps_openedTags s" "ps_maxDepth s' = ps_maxDepth s"
    "ps_lastNodeIdx s' = ps_lastNodeIdx s" "ps_totalTagNodes s' = ps_totalTagNodes s"
  shows "pinv d input m e s' par cs = pinv d input m e s par cs"
  by (simp only: pinv_def within_limits_def assms)

lemma pinv_path:
  assumes "pinv d input m e s par cs"
  obtains c cs' w ws where "cs = c # cs'" "ps_breadcrumbs s = rev (int c # map int cs')"
    "ps_cumWidth s = rev (w # ws)" "c < length (ast_Nodes (ps_ast s))"
    "c = 0 \<or> nd_Type (ast_Nodes (ps_ast s) ! c) = NodeTag"
proof -
  let ?ks = "map core_of (ast_Nodes (ps_ast s))"
  have p: "open_path ?ks par e cs (rev (ps_cumWidth s)) (rev (ps_stack s))"
    and b: "ps_breadcrumbs s = rev (map int cs)" and n: "ast_Nodes (ps_ast s) \<noteq> []"
    using assms by (auto simp: pinv_def Let_def typed_def)
  obtain c cs' where c: "cs = c # cs'" using open_path_lengths [OF p] by (cases cs) auto
  obtain w ws where w: "rev (ps_cumWidth s) = w # ws"
    using open_path_lengths [OF p] by (cases "rev (ps_cumWidth s)") auto
  have "0 < length ?ks" using n by simp
  then have "c < length ?ks \<and> (c = 0 \<or> fst (?ks ! c) = NodeTag)"
    using open_path_top p unfolding c by blast
  with that [of c cs' w ws] c w b show thesis
    by (auto simp: core_of_def simp flip: rev_swap)
qed

section \<open>Appending nodes and attributes\<close>

definition plain_node :: "node_type \<Rightarrow> char \<Rightarrow> span \<Rightarrow> node" where
  "plain_node ty t sp = NewNode\<lparr>nd_Type := ty, nd_TagID := t, nd_Span := sp\<rparr>"

lemma plain_node_simps [simp]:
  "fresh_node (plain_node ty t sp)" "core_of (plain_node ty t sp) = (ty, t, sp_Start sp)"
  "nd_Span (plain_node ty t sp) = sp"
  "nd_Attributes (plain_node ty t sp) = \<lparr>rg_Start = 0, rg_Len = 0\<rparr>"
  by (simp_all add: plain_node_def fresh_node_def NewNode_def core_of_def)

lemma data_core: "map node_data ns = map node_data ms \<Longrightarrow> map core_of ns = map core_of ms
    \<and> set (map nd_Span ns) = set (map nd_Span ms)
    \<and> set (map nd_Attributes ns) = set (map nd_Attributes ms)"
proof -
  assume m: "map node_data ns = map node_data ms"
  have c: "map core_of xs = map (\<lambda>(ty, t, sp, r). (ty, t, sp_Start sp)) (map node_data xs)"
    "map nd_Span xs = map (\<lambda>(ty, t, sp, r). sp) (map node_data xs)"
    "map nd_Attributes xs = map (\<lambda>(ty, t, sp, r). r) (map node_data xs)" for xs
    by (simp_all add: core_of_def node_data_def)
  show ?thesis unfolding c m by blast
qed

definition tag_count :: "dictionary \<Rightarrow> node_type \<Rightarrow> char \<Rightarrow> int" where
  "tag_count d ty t = (if ty = NodeTag \<and> tag_Greed (d_tags d t) = NonGreedy then 1 else 0)"

lemma warnLimitOnce_keeps:
  assumes "pinv d input m e s par cs"
  shows "pinv d input m e (fst (warnLimitOnce s w iss pos)) par cs"
    and "grown w (snd (warnLimitOnce s w iss pos))"
proof -
  have upd: "pinv d input m e (s\<lparr>ps_warnedMaxNodes := b\<rparr>) par cs"
    "pinv d input m e (s\<lparr>ps_warnedMaxAttributes := b\<rparr>) par cs"
    "pinv d input m e (s\<lparr>ps_warnedMaxParseDepth := b\<rparr>) par cs" for b
    using assms by (subst pinv_cong [of _ s]; simp)+
  show "pinv d input m e (fst (warnLimitOnce s w iss pos)) par cs"
    by (cases iss) (simp_all add: warnLimitOnce_def upd assms)
  show "grown w (snd (warnLimitOnce s w iss pos))"
    by (cases iss) (simp_all add: warnLimitOnce_def)
qed

lemma warnLimitOnce_frame:
  "ps_breadcrumbs (fst (warnLimitOnce s w iss pos)) = ps_breadcrumbs s"
  "ps_cumWidth (fst (warnLimitOnce s w iss pos)) = ps_cumWidth s"
  "ps_ast (fst (warnLimitOnce s w iss pos)) = ps_ast s"
  by (cases iss; simp add: warnLimitOnce_def)+

text \<open>The new node is a leaf of type \<open>ty\<close>, and its parent \<open>p\<close> is not a text node.\<close>

lemma appendStateNode_ok:
  assumes inv: "pinv d input m e s par cs" and sp: "span_in 0 m sp"
    and p: "p < length (ast_Nodes (ps_ast s))" "nd_Type (ast_Nodes (ps_ast s) ! p) \<noteq> NodeText"
    and ty: "ty \<noteq> NodeRoot" "ty = NodeTag \<Longrightarrow> has_plan d t"
  shows "returns (appendStateNode s (int p) (plain_node ty t sp) pos w) (\<lambda>(r, s', w'). grown w w'
    \<and> (case r of None \<Rightarrow> pinv d input m e s' par cs
       | Some i \<Rightarrow> \<exists>a. s' = s\<lparr>ps_ast := a\<rparr> \<and> i = len (ast_Nodes (ps_ast s))
           \<and> map core_of (ast_Nodes a) = map core_of (ast_Nodes (ps_ast s)) @ [(ty, t, sp_Start sp)]
           \<and> pinv d input m e (s\<lparr>ps_ast := a,
               ps_totalTagNodes := ps_totalTagNodes s + tag_count d ty t\<rparr>) (par @ [p]) cs))"
proof (cases "MaxNodes (ps_limits s) > 0 \<and> len (ast_Nodes (ps_ast s)) \<ge> MaxNodes (ps_limits s)")
  case True
  then show ?thesis
    using warnLimitOnce_keeps [OF inv, of w IssueMaxNodesExceeded pos]
    by (simp add: appendStateNode_def case_prod_unfold)
next
  case False
  define a0 where "a0 = ps_ast s"
  let ?ks = "map core_of (ast_Nodes a0)"
  have ar: "arena (ast_Nodes a0) par" and at: "attrs_ok a0" and ty0: "typed ?ks par"
    and path: "open_path ?ks par e cs (rev (ps_cumWidth s)) (rev (ps_stack s))"
    and spn: "spans_ok (ast_Nodes a0) m" and lims: "ps_limits s = d_Limits d"
    using inv by (auto simp: pinv_def Let_def a0_def)
  have lp: "length ?ks = length par" using ar by (simp add: arena_def)
  obtain ns where app: "appendNode a0 (int p) (plain_node ty t sp) =
        Some (a0\<lparr>ast_Nodes := ns\<rparr>, len (ast_Nodes a0))"
    and ar': "arena ns (par @ [p])"
    and data: "map node_data ns = map node_data (ast_Nodes a0 @ [plain_node ty t sp])"
    using appendNode_refines [OF ar, of "plain_node ty t sp" "int p"] p
    by (auto simp: returns_ex a0_def len_def)
  have ks': "map core_of ns = ?ks @ [(ty, t, sp_Start sp)]"
    and sps: "set (map nd_Span ns) = insert sp (set (map nd_Span (ast_Nodes a0)))"
    and ats: "set (map nd_Attributes ns) =
      insert \<lparr>rg_Start = 0, rg_Len = 0\<rparr> (set (map nd_Attributes (ast_Nodes a0)))"
    using data_core [OF data] by simp_all
  have len_ns: "len ns = len (ast_Nodes a0) + 1"
    using arg_cong [OF ks', of len] by simp
  have "spans_ok ns m"
    using spn sp sps unfolding spans_ok_def
    by (metis (mono_tags, lifting) imageE image_eqI insertE set_map)
  moreover have "attrs_ok (a0\<lparr>ast_Nodes := ns\<rparr>)"
    unfolding attrs_ok_def
  proof
    fix nd assume "nd \<in> set (ast_Nodes (a0\<lparr>ast_Nodes := ns\<rparr>))"
    then have "nd_Attributes nd \<in> insert \<lparr>rg_Start = 0, rg_Len = 0\<rparr> (set (map nd_Attributes (ast_Nodes a0)))"
      unfolding ats [symmetric] by simp
    with at show "let r = nd_Attributes nd in 0 \<le> rg_Start r \<and> 0 \<le> rg_Len r
      \<and> rg_Start r + rg_Len r \<le> len (ast_Attributes (a0\<lparr>ast_Nodes := ns\<rparr>))"
      by (auto simp: attrs_ok_def Let_def)
  qed
  moreover have "typed (map core_of ns) (par @ [p])"
    using ty0 ty(1) p lp tree_snoc ar unfolding ks'
    by (auto simp: typed_def nth_append a0_def core_of_def arena_def tree_def less_Suc_eq)
  moreover have "open_path (map core_of ns) (par @ [p]) e cs (rev (ps_cumWidth s)) (rev (ps_stack s))"
    unfolding ks' by (rule open_path_append [OF path lp])
  moreover have "counted_tags d (map core_of ns) = counted_tags d ?ks + tag_count d ty t"
    unfolding ks' by (simp add: counted_tags_def tag_count_def)
  moreover have "tags_known d (map core_of ns)"
    using inv ty(2) unfolding ks' by (auto simp: pinv_def Let_def a0_def tags_known_def)
  ultimately have "pinv d input m e (s\<lparr>ps_ast := a0\<lparr>ast_Nodes := ns\<rparr>,
      ps_totalTagNodes := ps_totalTagNodes s + tag_count d ty t\<rparr>) (par @ [p]) cs"
    using inv ar' len_ns False lims
    by (auto simp: pinv_def Let_def within_limits_def a0_def [symmetric])
  with False app ks' show ?thesis
    unfolding appendStateNode_def a0_def [symmetric] by (auto intro!: exI)
qed

end
