(* ===== verification/Scum_Parser_Steps.thy ===== *)
theory Scum_Parser_Steps
  imports Scum_Parser_Inv
begin

text \<open>
  Every handler of a token keeps the invariant, so the loop over the tokens does, the loop
  that closes the remaining tags ends, and the final tree is well-formed.
\<close>

section \<open>The invariant, field by field\<close>

lemma pinvD:
  assumes "pinv d input m e s par cs"
  shows "arena (ast_Nodes (ps_ast s)) par" "attrs_ok (ps_ast s)" "ast_Input (ps_ast s) = input"
    "ps_limits s = d_Limits d" "ps_breadcrumbs s = rev (map int cs)"
    "open_path (map core_of (ast_Nodes (ps_ast s))) par e cs (rev (ps_cumWidth s)) (rev (ps_stack s))"
    "distinct (ps_stack s)" "ps_openedTags s t = (t \<in> set (ps_stack s))" "NUL \<notin> set (ps_stack s)"
    "0 \<le> ps_lastNodeIdx s" "ps_lastNodeIdx s < len (ast_Nodes (ps_ast s))"
    "spans_ok (ast_Nodes (ps_ast s)) m" "typed (map core_of (ast_Nodes (ps_ast s))) par"
    "within_limits (d_Limits d) s"
    "ps_totalTagNodes s = counted_tags d (map core_of (ast_Nodes (ps_ast s)))"
    "0 \<le> ast_TextByteLen (ps_ast s)" "attr_spans (ast_Attributes (ps_ast s)) (len input)"
    "tags_known d (map core_of (ast_Nodes (ps_ast s)))"
  using assms by (simp_all add: pinv_def Let_def)

lemma pinvI:
  assumes "arena (ast_Nodes (ps_ast s)) par" "attrs_ok (ps_ast s)" "ast_Input (ps_ast s) = input"
    "ps_limits s = d_Limits d" "ps_breadcrumbs s = rev (map int cs)"
    "open_path (map core_of (ast_Nodes (ps_ast s))) par e cs (rev (ps_cumWidth s)) (rev (ps_stack s))"
    "distinct (ps_stack s)" "\<And>t. ps_openedTags s t = (t \<in> set (ps_stack s))" "NUL \<notin> set (ps_stack s)"
    "0 \<le> ps_lastNodeIdx s" "ps_lastNodeIdx s < len (ast_Nodes (ps_ast s))"
    "spans_ok (ast_Nodes (ps_ast s)) m" "typed (map core_of (ast_Nodes (ps_ast s))) par"
    "within_limits (d_Limits d) s"
    "ps_totalTagNodes s = counted_tags d (map core_of (ast_Nodes (ps_ast s)))"
    "0 \<le> ast_TextByteLen (ps_ast s)" "attr_spans (ast_Attributes (ps_ast s)) (len input)"
    "tags_known d (map core_of (ast_Nodes (ps_ast s)))"
  shows "pinv d input m e s par cs"
  using assms unfolding pinv_def Let_def by (intro conjI ext) blast+

section \<open>Small changes of the state\<close>

lemma inc_ok:
  assumes "pinv d input m e s par cs" and "0 \<le> x"
  shows "returns (incrementCumWidth x s) (\<lambda>s'. pinv d input m (e + x) s' par cs)"
proof -
  obtain w ws where w: "ps_cumWidth s = rev (w # ws)" using pinv_path [OF assms(1)] by metis
  then have cw: "rev (ps_cumWidth s) = w # ws" by simp
  from assms(1) have "open_path (map core_of (ast_Nodes (ps_ast s))) par e cs (w # ws) (rev (ps_stack s))"
    by (simp add: pinv_def Let_def cw)
  then have "open_path (map core_of (ast_Nodes (ps_ast s))) par (e + x) cs ((w + x) # ws) (rev (ps_stack s))"
    using assms(2) by (rule open_path_width)
  with assms(1) w show ?thesis
    by (simp add: incrementCumWidth_rev pinv_def Let_def within_limits_def)
qed

lemma last_ok: "pinv d input m e s par cs \<Longrightarrow> 0 \<le> i \<Longrightarrow> i < len (ast_Nodes (ps_ast s)) \<Longrightarrow>
    pinv d input m e (s\<lparr>ps_lastNodeIdx := i\<rparr>) par cs"
  by (simp add: pinv_def Let_def within_limits_def)

lemma skip_ok [simp]: "pinv d input m e (s\<lparr>ps_skip := f\<rparr>) par cs = pinv d input m e s par cs"
  by (rule pinv_cong) simp_all

lemma skip_closer_ok [simp]: "pinv d input m e (skip_closer d' t s) par cs = pinv d input m e s par cs"
  by (simp add: skip_closer_def Let_def)

lemma keepsI: "pinv d input e e s par cs \<Longrightarrow> grown w w' \<Longrightarrow> keeps d input e w (s, w')"
  by (auto simp: keeps_def)

lemma keeps_skip [simp]:
  "keeps d input e w (skip_closer d' t s, w') = keeps d input e w (s, w')"
  "keeps d input e w (s\<lparr>ps_skip := f\<rparr>, w') = keeps d input e w (s, w')"
  by (simp_all add: keeps_def)

lemma pinv_last: "pinv d input m e s par cs \<Longrightarrow> 0 \<le> ps_lastNodeIdx s
    \<and> ps_lastNodeIdx s < len (ast_Nodes (ps_ast s)) \<and> len (ast_Nodes (ps_ast s)) > 0"
  by (auto simp: pinv_def Let_def)

lemma pinv_top:
  assumes "pinv d input m e s par cs"
  obtains c cs' where "peekCrumb s = Some (int c)" "c < length (ast_Nodes (ps_ast s))"
    "nd_Type (ast_Nodes (ps_ast s) ! c) \<noteq> NodeText" "cs = c # cs'"
proof -
  obtain c cs' w ws where cs: "cs = c # cs'" and c: "ps_breadcrumbs s = rev (int c # map int cs')"
    "c < length (ast_Nodes (ps_ast s))" "c = 0 \<or> nd_Type (ast_Nodes (ps_ast s) ! c) = NodeTag"
    using pinv_path [OF assms] by metis
  moreover have "nd_Type (ast_Nodes (ps_ast s) ! 0) = NodeRoot"
    using assms c(2) by (auto simp: pinv_def Let_def typed_def core_of_def)
  ultimately show thesis using that [of c cs'] peekCrumb_rev [OF c(1)] cs by auto
qed

section \<open>Text and attributes\<close>

lemma text_node: "NewNode\<lparr>nd_Type := ty, nd_Span := sp\<rparr> = plain_node ty NUL sp"
  "NewNode\<lparr>nd_Type := ty, nd_TagID := t, nd_Span := sp\<rparr> = plain_node ty t sp"
  by (simp_all add: plain_node_def NewNode_def)

lemma appendStateNode_refused:
  "appendStateNode s p nd pos w = Some (None, s1, w1) \<Longrightarrow> ps_ast s1 = ps_ast s"
  using warnLimitOnce_frame(3) [of s w IssueMaxNodesExceeded pos]
  by (auto simp: appendStateNode_def bind_eq_Some_conv split: if_splits)

text \<open>A node that is not counted as a tag, with the index at which it was put.\<close>

lemma attach_ok:
  assumes inv: "pinv d input m e s par cs" and sp: "span_in 0 m sp"
    and p: "p < length (ast_Nodes (ps_ast s))" "nd_Type (ast_Nodes (ps_ast s) ! p) \<noteq> NodeText"
    and ty: "ty \<noteq> NodeRoot" "tag_count d ty t = 0" "ty = NodeTag \<Longrightarrow> has_plan d t"
  obtains r s1 w1 par1 where
    "appendStateNode s (int p) (plain_node ty t sp) pos w = Some (r, s1, w1)" "grown w w1"
    "pinv d input m e s1 par1 cs"
    "\<And>i. r = Some i \<Longrightarrow> 0 \<le> i \<and> nat i < length (ast_Nodes (ps_ast s1))
       \<and> nd_Type (ast_Nodes (ps_ast s1) ! nat i) = ty"
    "length (ast_Nodes (ps_ast s)) \<le> length (ast_Nodes (ps_ast s1))"
proof -
  obtain r s1 w1 where app: "appendStateNode s (int p) (plain_node ty t sp) pos w = Some (r, s1, w1)"
      "grown w w1"
    and r: "case r of None \<Rightarrow> pinv d input m e s1 par cs
       | Some i \<Rightarrow> \<exists>a. s1 = s\<lparr>ps_ast := a\<rparr> \<and> i = len (ast_Nodes (ps_ast s))
           \<and> map core_of (ast_Nodes a) = map core_of (ast_Nodes (ps_ast s)) @ [(ty, t, sp_Start sp)]
           \<and> pinv d input m e (s\<lparr>ps_ast := a,
               ps_totalTagNodes := ps_totalTagNodes s + tag_count d ty t\<rparr>) (par @ [p]) cs"
    using appendStateNode_ok [OF inv sp p ty(1,3), of pos w] by (auto simp: returns_ex)
  show thesis
  proof (cases r)
    case None
    with app r that [of r s1 w1 par] appendStateNode_refused show thesis by simp
  next
    case (Some i)
    with r obtain a where a: "s1 = s\<lparr>ps_ast := a\<rparr>" "i = len (ast_Nodes (ps_ast s))"
      "map core_of (ast_Nodes a) = map core_of (ast_Nodes (ps_ast s)) @ [(ty, t, sp_Start sp)]"
      "pinv d input m e s1 (par @ [p]) cs" using ty(2) by auto
    let ?n = "length (ast_Nodes (ps_ast s))"
    have n: "length (ast_Nodes a) = Suc ?n" using arg_cong [OF a(3), of length] by simp
    have "map core_of (ast_Nodes a) ! ?n = (ty, t, sp_Start sp)" unfolding a(3) by (simp add: nth_append)
    with n have "nd_Type (ast_Nodes a ! ?n) = ty" by (simp add: core_of_def)
    with app a n Some that [of r s1 w1 "par @ [p]"] show thesis by (simp add: len_def)
  qed
qed

lemma processText_ok:
  assumes inv: "pinv d input e e s par cs" and "0 \<le> tok_Width tok"
    and sp: "span_in 0 (e + tok_Width tok) (tok_Payload tok)"
  shows "returns (processText s tok w) (keeps d input (e + tok_Width tok) w)"
proof -
  let ?m = "e + tok_Width tok"
  have inv': "pinv d input ?m e s par cs" using inv assms(2) by (auto intro: pinv_mono)
  obtain c where c: "peekCrumb s = Some (int c)" "c < length (ast_Nodes (ps_ast s))"
    "nd_Type (ast_Nodes (ps_ast s) ! c) \<noteq> NodeText" by (metis pinv_top [OF inv])
  obtain r s1 w1 par1 where app: "appendStateNode s (int c) (plain_node NodeText NUL (tok_Payload tok))
        (tok_Pos tok) w = Some (r, s1, w1)" "grown w w1" and s1: "pinv d input ?m e s1 par1 cs"
    and i: "\<And>i. r = Some i \<Longrightarrow> 0 \<le> i \<and> nat i < length (ast_Nodes (ps_ast s1))"
    using attach_ok [OF inv' sp c(2,3), of NodeText NUL "tok_Pos tok" w]
    by (metis (no_types, lifting) node_type.distinct(1,5) tag_count_def)
  define s2 where "s2 = (case r of Some i \<Rightarrow> s1\<lparr>ps_lastNodeIdx := i\<rparr> | None \<Rightarrow> s1)"
  have "pinv d input ?m e s2 par1 cs"
    using s1 i last_ok [OF s1] by (auto simp: s2_def len_def split: option.split)
  from inc_ok [OF this assms(2)] app c show ?thesis
    by (auto simp: processText_def text_node returns_ex s2_def [symmetric] intro: keepsI)
qed

lemma processAttribute_ok:
  assumes inv: "pinv d input e e s par cs"
    and sp: "span_in 0 (len input) (tok_AttrKey tok)" "span_in 0 (len input) (tok_Payload tok)"
  shows "returns (processAttribute s tok w) (keeps d input e w)"
proof (cases "MaxAttributes (ps_limits s) > 0
    \<and> len (ast_Attributes (ps_ast s)) \<ge> MaxAttributes (ps_limits s)")
  case True
  with warnLimitOnce_keeps [OF inv, of w IssueMaxAttributesExceeded "tok_Pos tok"] show ?thesis
    by (auto simp: processAttribute_def canAppendAttribute_def case_prod_unfold keeps_def)
next
  case False
  define a0 where "a0 = ps_ast s"
  let ?i = "ps_lastNodeIdx s"
  let ?attr = "\<lparr>at_Name = tok_AttrKey tok, at_Payload = tok_Payload tok,
                    at_IsFlag = (tok_Type tok = TokenAttributeFlag)\<rparr>"
  have pre: "arena (ast_Nodes a0) par" "attrs_ok a0" "0 \<le> ?i" "?i < len (ast_Nodes a0)"
    "spans_ok (ast_Nodes a0) e" "ps_limits s = d_Limits d"
    using inv by (auto simp: pinv_def Let_def a0_def)
  obtain ns where a: "appendAttribute a0 ?i ?attr =
      Some (a0\<lparr>ast_Nodes := ns, ast_Attributes := ast_Attributes a0 @ [?attr]\<rparr>)"
    and ns: "arena ns par" "length ns = length (ast_Nodes a0)"
      "attrs_ok (a0\<lparr>ast_Nodes := ns, ast_Attributes := ast_Attributes a0 @ [?attr]\<rparr>)"
    and same: "map nd_Type ns = map nd_Type (ast_Nodes a0)"
      "map nd_TagID ns = map nd_TagID (ast_Nodes a0)" "map nd_Span ns = map nd_Span (ast_Nodes a0)"
    using appendAttribute_refines [OF pre(1-4), of ?attr] by (auto simp: returns_ex)
  have "map core_of ns = map core_of (ast_Nodes a0)"
  proof (rule nth_equalityI)
    fix i assume "i < length (map core_of ns)"
    with same ns(2) show "map core_of ns ! i = map core_of (ast_Nodes a0) ! i"
      by (simp add: core_of_def) (metis nth_map)
  qed (use ns in simp)
  moreover have "spans_ok ns e"
    using pre(5) arg_cong [OF same(3), of set] unfolding spans_ok_def
    by (metis (mono_tags, lifting) imageE image_eqI set_map)
  ultimately have "pinv d input e e (s\<lparr>ps_ast := a0\<lparr>ast_Nodes := ns,
      ast_Attributes := ast_Attributes a0 @ [?attr]\<rparr>\<rparr>) par cs"
    using inv ns False pre sp
    by (auto simp: pinv_def Let_def within_limits_def a0_def [symmetric] len_def attr_spans_def)
  with a False show ?thesis
    by (auto simp: processAttribute_def canAppendAttribute_def a0_def [symmetric] intro: keepsI)
qed

section \<open>Tags\<close>

lemma appendGreedyNode_ok:
  assumes inv: "pinv d input e e s par cs" and "0 \<le> e" "0 \<le> tok_Width tok"
    and sp: "span_in 0 (e + tok_Width tok) (tok_Payload tok)" and pos: "tok_Pos tok = e"
    and g: "tag_Greed (d_tags d (tok_Trigger tok)) \<noteq> NonGreedy" "has_plan d (tok_Trigger tok)"
  shows "returns (appendGreedyNode s tok w) (keeps d input (e + tok_Width tok) w)"
proof -
  let ?m = "e + tok_Width tok" and ?t = "tok_Trigger tok"
  let ?sp = "NewSpan (tok_Pos tok) (tok_Width tok)"
  have inv': "pinv d input ?m e s par cs" using inv assms by (auto intro: pinv_mono)
  have spt: "span_in 0 ?m ?sp" using assms by (simp add: span_in_def pos)
  obtain c where c: "peekCrumb s = Some (int c)" "c < length (ast_Nodes (ps_ast s))"
    "nd_Type (ast_Nodes (ps_ast s) ! c) \<noteq> NodeText" by (metis pinv_top [OF inv])
  have tc: "tag_count d NodeTag ?t = 0" "tag_count d NodeText NUL = 0"
    using g(1) by (simp_all add: tag_count_def)
  obtain r s1 w1 par1 where app: "appendStateNode s (int c) (plain_node NodeTag ?t ?sp)
        (tok_Pos tok) w = Some (r, s1, w1)" "grown w w1" and s1: "pinv d input ?m e s1 par1 cs"
    and i: "\<And>i. r = Some i \<Longrightarrow> 0 \<le> i \<and> nat i < length (ast_Nodes (ps_ast s1))
       \<and> nd_Type (ast_Nodes (ps_ast s1) ! nat i) = NodeTag"
    using attach_ok [OF inv' spt c(2,3) _ tc(1) g(2), of "tok_Pos tok" w]
    by (metis node_type.distinct(3))
  show ?thesis
  proof (cases r)
    case None
    with inc_ok [OF s1 assms(3)] app c show ?thesis
      by (auto simp: appendGreedyNode_def text_node returns_ex intro: keepsI)
  next
    case (Some j)
    then have j: "0 \<le> j" "nat j < length (ast_Nodes (ps_ast s1))" "j = int (nat j)"
      "nd_Type (ast_Nodes (ps_ast s1) ! nat j) \<noteq> NodeText" using i by auto
    obtain r2 s2 w2 par2 where app2: "appendStateNode s1 j (plain_node NodeText NUL (tok_Payload tok))
          (sp_Start (tok_Payload tok)) w1 = Some (r2, s2, w2)" "grown w1 w2"
      and s2: "pinv d input ?m e s2 par2 cs"
      and i2: "\<And>i. r2 = Some i \<Longrightarrow> 0 \<le> i \<and> nat i < length (ast_Nodes (ps_ast s2))"
      and le: "length (ast_Nodes (ps_ast s1)) \<le> length (ast_Nodes (ps_ast s2))"
      using attach_ok [OF s1 sp j(2,4) _ tc(2), of "sp_Start (tok_Payload tok)" w1] j(3)
      by (metis node_type.distinct(1,5))
    define s3 where "s3 = (case r2 of Some i \<Rightarrow> s2\<lparr>ps_lastNodeIdx := i\<rparr>
        | None \<Rightarrow> s2\<lparr>ps_lastNodeIdx := j\<rparr>)"
    have "pinv d input ?m e s3 par2 cs"
      using s2 i2 j(1,2) le last_ok [OF s2] by (auto simp: s3_def len_def split: option.split)
    moreover have "grown w w2" using app(2) app2(2) by (rule grown_trans)
    ultimately show ?thesis
      using inc_ok [of d input ?m e s3 par2 cs "tok_Width tok"] assms(3) app app2 c Some
      by (auto simp: appendGreedyNode_def text_node returns_ex s3_def [symmetric] intro: keepsI)
  qed
qed

text \<open>The top of the stack is popped with its node and its width.\<close>

lemma pinv_stack:
  assumes "pinv d input m e s par cs" and "rev (ps_stack s) = t # ts"
  obtains c cs' w ws where "cs = c # cs'" "rev (ps_cumWidth s) = w # ws"
    "open_path (map core_of (ast_Nodes (ps_ast s))) par e (c # cs') (w # ws) (t # ts)"
proof -
  have p: "open_path (map core_of (ast_Nodes (ps_ast s))) par e cs (rev (ps_cumWidth s)) (t # ts)"
    using assms by (simp add: pinv_def Let_def)
  from open_path_lengths [OF p] obtain c cs' w ws where "cs = c # cs'" "rev (ps_cumWidth s) = w # ws"
    by (metis list.exhaust)
  with p that show thesis by simp
qed

lemma spans_ok_end:
  assumes "spans_ok ns m" and "i < length ns" and "0 \<le> x" "sp_Start (nd_Span (ns ! i)) + x \<le> m"
  shows "spans_ok (ns[i := (ns ! i)\<lparr>nd_Span := (nd_Span (ns ! i))
    \<lparr>sp_End := sp_Start (nd_Span (ns ! i)) + x\<rparr>\<rparr>]) m"
  using assms nth_mem [of i ns]
  by (auto simp: spans_ok_def span_in_def dest!: subsetD [OF set_update_subset_insert])

text \<open>The state after closing the innermost tag with a closer of width \<open>x\<close>.\<close>

lemma close_ok:
  assumes inv: "pinv d input m e s par cs" and st: "rev (ps_stack s) = t # ts"
    and "0 \<le> x" "e + x \<le> m"
  obtains c cs' w v ws ns where
    "popCrumb s = Some (int c, s\<lparr>ps_breadcrumbs := rev (map int cs')\<rparr>)"
    "ps_cumWidth s = rev (w # v # ws)" "c < length (ast_Nodes (ps_ast s))"
    "cs = c # cs'" "ns = (ast_Nodes (ps_ast s))[c := (ast_Nodes (ps_ast s) ! c)
       \<lparr>nd_Span := (nd_Span (ast_Nodes (ps_ast s) ! c))
          \<lparr>sp_End := sp_Start (nd_Span (ast_Nodes (ps_ast s) ! c)) + (w + x)\<rparr>\<rparr>]"
    "\<forall>i. i = ps_lastNodeIdx s \<or> i = int c \<longrightarrow>
       pinv d input m (e + x) (s\<lparr>ps_ast := (ps_ast s)\<lparr>ast_Nodes := ns\<rparr>,
         ps_breadcrumbs := rev (map int cs'), ps_cumWidth := rev ((v + (w + x)) # ws),
         ps_openedTags := (ps_openedTags s)(t := False), ps_stack := rev ts,
         ps_lastNodeIdx := i\<rparr>) par cs'"
proof -
  let ?ns = "ast_Nodes (ps_ast s)"
  let ?ks = "map core_of ?ns"
  obtain c cs1 w ws1 where cs: "cs = c # cs1" and cw: "rev (ps_cumWidth s) = w # ws1"
    and path: "open_path ?ks par e (c # cs1) (w # ws1) (t # ts)"
    by (rule pinv_stack [OF inv st])
  obtain c' cs' w' v ws where eqs: "cs1 = c' # cs'" "w # ws1 = w' # v # ws"
    and p: "open_path ?ks par (e + x) cs1 ((v + (w' + x)) # ws) ts"
    and c: "1 \<le> c" "c < length ?ks" and n: "0 \<le> w' + x" "snd (snd (?ks ! c)) + (w' + x) \<le> e + x"
    by (rule open_path_pop [OF path assms(3)])
  from eqs p n have ws: "ws1 = v # ws"
    and path': "open_path ?ks par (e + x) cs1 ((v + (w + x)) # ws) ts"
    and wx: "0 \<le> w + x" "snd (snd (?ks ! c)) + (w + x) \<le> e + x" by simp_all
  define ns where "ns = ?ns[c := (?ns ! c)\<lparr>nd_Span := (nd_Span (?ns ! c))
          \<lparr>sp_End := sp_Start (nd_Span (?ns ! c)) + (w + x)\<rparr>\<rparr>]"
  have core: "map core_of ns = ?ks"
    using c by (auto simp: ns_def map_update core_of_def list_update_same_conv)
  have "ps_breadcrumbs s = rev (map int cs)" using inv by (simp add: pinv_def Let_def)
  then have pop: "popCrumb s = Some (int c, s\<lparr>ps_breadcrumbs := rev (map int cs1)\<rparr>)"
    using crumbs.pop_rev [of s "int c" "map int cs1"] by (simp add: cs)
  have spn: "spans_ok ns m"
    unfolding ns_def using pinvD(12) [OF inv] c wx assms(4)
    by (intro spans_ok_end) (auto simp: core_of_def)
  have arn: "arena ns par"
    unfolding ns_def using arena_update [of ?ns par "int c"] pinvD(1) [OF inv] c by simp
  have at: "attrs_ok ((ps_ast s)\<lparr>ast_Nodes := ns\<rparr>)"
    using pinvD(2) [OF inv] c by (auto simp: attrs_ok_def ns_def
        dest!: subsetD [OF set_update_subset_insert])
  have st': "ps_stack s = rev ts @ [t]" using arg_cong [OF st, of rev] by simp
  have cw': "ps_cumWidth s = rev (w # v # ws)" using arg_cong [OF cw, of rev] ws by simp
  have "pinv d input m (e + x) (s\<lparr>ps_ast := (ps_ast s)\<lparr>ast_Nodes := ns\<rparr>,
         ps_breadcrumbs := rev (map int cs1), ps_cumWidth := rev ((v + (w + x)) # ws),
         ps_openedTags := (ps_openedTags s)(t := False), ps_stack := rev ts,
         ps_lastNodeIdx := i\<rparr>) par cs1" (is "pinv _ _ _ _ ?s _ _")
    if i: "i = ps_lastNodeIdx s \<or> i = int c" for i
  proof -
    have f: "ps_ast ?s = (ps_ast s)\<lparr>ast_Nodes := ns\<rparr>" "ps_limits ?s = ps_limits s"
      "ps_breadcrumbs ?s = rev (map int cs1)" "ps_stack ?s = rev ts" "ps_lastNodeIdx ?s = i"
      "rev (ps_cumWidth ?s) = (v + (w + x)) # ws" "ps_totalTagNodes ?s = ps_totalTagNodes s"
      "ps_maxDepth ?s = ps_maxDepth s" "len ns = len ?ns"
      "\<And>u. ps_openedTags ?s u = (u \<noteq> t \<and> ps_openedTags s u)" by (simp_all add: ns_def)
    have o: "(u \<noteq> t \<and> ps_openedTags s u) = (u \<in> set (rev ts))" for u
      using pinvD(7,8) [OF inv] by (auto simp: st')
    have l: "0 \<le> i \<and> i < len ns"
      using i pinvD(10,11) [OF inv] c f(9) by (auto simp: len_def)
    have lim: "within_limits (d_Limits d) ?s"
      using pinvD(14) [OF inv] by (auto simp: within_limits_def f st')
    show ?thesis
      by (rule pinvI, unfold f)
        (use pinvD(3,4,7,9,13,15,16,17,18) [OF inv] core spn arn at path' o l lim in
          \<open>simp_all add: st'\<close>)
  qed
  then show thesis using c by (intro that [OF pop cw' _ cs ns_def]) simp_all
qed

lemma set_span_end_eq: "c < length (ast_Nodes (ps_ast s)) \<Longrightarrow> set_span_end s (int c) x =
    Some (s\<lparr>ps_ast := (ps_ast s)\<lparr>ast_Nodes := (ast_Nodes (ps_ast s))[c := (ast_Nodes (ps_ast s) ! c)
       \<lparr>nd_Span := (nd_Span (ast_Nodes (ps_ast s) ! c))
          \<lparr>sp_End := sp_Start (nd_Span (ast_Nodes (ps_ast s) ! c)) + x\<rparr>\<rparr>]\<rparr>\<rparr>)"
  by (simp add: set_span_end_def go_index_def go_update_def len_def)

lemma closeTag_ok:
  assumes inv: "pinv d input m e s par cs" and st: "ps_stack s \<noteq> []"
    and x: "0 \<le> tok_Width tok" "e + tok_Width tok \<le> m"
  shows "returns (closeTag s tok) (\<lambda>s'. \<exists>cs'. pinv d input m (e + tok_Width tok) s' par cs')"
proof -
  obtain t ts where t: "rev (ps_stack s) = t # ts" using st by (cases "rev (ps_stack s)") auto
  then have st': "ps_stack s = rev (t # ts)" by (metis rev_rev_ident)
  obtain c cs' w v ws ns where
    pop: "popCrumb s = Some (int c, s\<lparr>ps_breadcrumbs := rev (map int cs')\<rparr>)"
    and cw: "ps_cumWidth s = rev (w # v # ws)" and c: "c < length (ast_Nodes (ps_ast s))"
    and "cs = c # cs'" and ns: "ns = (ast_Nodes (ps_ast s))[c := (ast_Nodes (ps_ast s) ! c)
       \<lparr>nd_Span := (nd_Span (ast_Nodes (ps_ast s) ! c))
          \<lparr>sp_End := sp_Start (nd_Span (ast_Nodes (ps_ast s) ! c)) + (w + tok_Width tok)\<rparr>\<rparr>]"
    and inv': "\<forall>i. i = ps_lastNodeIdx s \<or> i = int c \<longrightarrow>
       pinv d input m (e + tok_Width tok) (s\<lparr>ps_ast := (ps_ast s)\<lparr>ast_Nodes := ns\<rparr>,
         ps_breadcrumbs := rev (map int cs'), ps_cumWidth := rev ((v + (w + tok_Width tok)) # ws),
         ps_openedTags := (ps_openedTags s)(t := False), ps_stack := rev ts,
         ps_lastNodeIdx := i\<rparr>) par cs'"
    by (rule close_ok [OF inv t x])
  have "closeTag s tok = Some (s\<lparr>ps_ast := (ps_ast s)\<lparr>ast_Nodes := ns\<rparr>,
         ps_breadcrumbs := rev (map int cs'), ps_cumWidth := rev ((v + (w + tok_Width tok)) # ws),
         ps_openedTags := (ps_openedTags s)(t := False), ps_stack := rev ts,
         ps_lastNodeIdx := int c\<rparr>)"
    by (simp add: closeTag_def pop popCumWidth_rev cw set_span_end_eq c opened.pop_rev st' ns
        del: rev.simps)
  with inv' show ?thesis by auto
qed

lemma depth_push: "within_limits l s \<Longrightarrow> \<not> (MaxParseDepth l > 0 \<and> len (ps_stack s) \<ge> MaxParseDepth l) \<Longrightarrow>
    MaxParseDepth l > 0 \<Longrightarrow> len (ps_stack s) + 1 \<le> MaxParseDepth l \<and>
    max (ps_maxDepth s) (len (ps_stack s) + 1) \<le> MaxParseDepth l"
  by (auto simp: within_limits_def)

lemma processOpeningTag_ok:
  assumes inv: "pinv d input e e s par cs" and "0 \<le> e" "0 \<le> tok_Width tok" and pos: "tok_Pos tok = e"
    and g: "tag_Greed (d_tags d (tok_Trigger tok)) = NonGreedy" and t0: "tok_Trigger tok \<noteq> NUL"
    and hp: "has_plan d (tok_Trigger tok)"
  shows "returns (processOpeningTag s d w tok) (keeps d input (e + tok_Width tok) w)"
proof -
  let ?m = "e + tok_Width tok" and ?t = "tok_Trigger tok"
  let ?sp = "NewSpan (tok_Pos tok) (tok_Width tok)"
  have inv': "pinv d input ?m e s par cs" using inv assms by (auto intro: pinv_mono)
  have invm: "pinv d input ?m ?m s par cs" using inv assms by (auto intro: pinv_mono)
  consider (dup) "ps_openedTags s ?t"
    | (deep) "\<not> ps_openedTags s ?t" "MaxParseDepth (ps_limits s) > 0 \<and> len (ps_stack s) \<ge> MaxParseDepth (ps_limits s)"
    | (opn) "\<not> ps_openedTags s ?t" "\<not> (MaxParseDepth (ps_limits s) > 0 \<and> len (ps_stack s) \<ge> MaxParseDepth (ps_limits s))"
    by blast
  then show ?thesis
  proof cases
    case dup
    with invm show ?thesis by (simp add: processOpeningTag_def Let_def keepsI)
  next
    case deep
    obtain s1 w1 where w: "warnLimitOnce s w IssueMaxParseDepthExceeded (tok_Pos tok) = (s1, w1)"
      by (cases "warnLimitOnce s w IssueMaxParseDepthExceeded (tok_Pos tok)") auto
    with warnLimitOnce_keeps [OF inv', of w IssueMaxParseDepthExceeded "tok_Pos tok"]
    have "pinv d input ?m e s1 par cs" "grown w w1" by simp_all
    with inc_ok [OF this(1) assms(3)] deep w show ?thesis
      by (auto simp: processOpeningTag_def canPushParseDepth_def Let_def returns_ex intro: keepsI)
  next
    case opn
    obtain c cs' where c: "peekCrumb s = Some (int c)" "c < length (ast_Nodes (ps_ast s))"
      "nd_Type (ast_Nodes (ps_ast s) ! c) \<noteq> NodeText" and cs: "cs = c # cs'"
      by (rule pinv_top [OF inv])
    have spt: "span_in 0 ?m ?sp" using assms by (simp add: span_in_def pos)
    obtain r s1 w1 where app: "appendStateNode s (int c) (plain_node NodeTag ?t ?sp) (tok_Pos tok) w
        = Some (r, s1, w1)" and gr: "grown w w1"
      and r: "case r of None \<Rightarrow> pinv d input ?m e s1 par cs
       | Some i \<Rightarrow> \<exists>a. s1 = s\<lparr>ps_ast := a\<rparr> \<and> i = len (ast_Nodes (ps_ast s))
           \<and> map core_of (ast_Nodes a) = map core_of (ast_Nodes (ps_ast s)) @ [(NodeTag, ?t, sp_Start ?sp)]
           \<and> pinv d input ?m e (s\<lparr>ps_ast := a,
               ps_totalTagNodes := ps_totalTagNodes s + tag_count d NodeTag ?t\<rparr>) (par @ [c]) cs"
      using appendStateNode_ok [OF inv' spt c(2,3) _ hp, of NodeTag "tok_Pos tok" w] by (auto simp: returns_ex)
    show ?thesis
    proof (cases r)
      case None
      with r have "pinv d input ?m e s1 par cs" by simp
      with inc_ok [OF this assms(3)] opn c app gr None show ?thesis
        by (auto simp: processOpeningTag_def canPushParseDepth_def Let_def returns_ex text_node intro: keepsI)
    next
      case (Some i)
      with r g obtain a where a: "s1 = s\<lparr>ps_ast := a\<rparr>" "i = len (ast_Nodes (ps_ast s))"
        and ks: "map core_of (ast_Nodes a) = map core_of (ast_Nodes (ps_ast s)) @ [(NodeTag, ?t, e)]"
        and J: "pinv d input ?m e (s\<lparr>ps_ast := a, ps_totalTagNodes := ps_totalTagNodes s + 1\<rparr>)
          (par @ [c]) cs" by (auto simp: tag_count_def pos)
      have n: "len (ast_Nodes a) = i + 1" "i = int (length (ast_Nodes (ps_ast s)))"
        using arg_cong [OF ks, of len] a(2) by (simp_all add: len_def)
      define f where "f = (pushCumWidth (tok_Width tok) (pushStack ?t (pushCrumb i s1)))
        \<lparr>ps_lastNodeIdx := i, ps_openedTags := (ps_openedTags s)(?t := True),
         ps_totalTagNodes := ps_totalTagNodes s + 1\<rparr>"
      have F: "ps_ast f = a" "ps_limits f = ps_limits s" "ps_breadcrumbs f = ps_breadcrumbs s @ [i]"
        "rev (ps_cumWidth f) = tok_Width tok # rev (ps_cumWidth s)" "ps_stack f = ps_stack s @ [?t]"
        "ps_openedTags f u = (u = ?t \<or> ps_openedTags s u)" "ps_lastNodeIdx f = i"
        "ps_totalTagNodes f = ps_totalTagNodes s + 1"
        "ps_maxDepth f = max (ps_maxDepth s) (len (ps_stack s) + 1)" for u
        by (simp_all add: f_def pushCumWidth_def pushStack_def pushCrumb_def a Let_def)
      have run: "processOpeningTag s d w tok = Some (f, w1)"
        using opn c app Some
        by (auto simp: processOpeningTag_def canPushParseDepth_def Let_def text_node f_def
            pushCumWidth_def pushStack_def pushCrumb_def a)
      have lp: "length (map core_of (ast_Nodes (ps_ast s))) = length par"
        using pinvD(1) [OF inv] by (simp add: arena_def)
      have nz: "0 < length (map core_of (ast_Nodes (ps_ast s)))" using c(2) by auto
      have path: "open_path (map core_of (ast_Nodes a)) (par @ [c]) ?m
          (length (ast_Nodes (ps_ast s)) # cs) (tok_Width tok # rev (ps_cumWidth s)) (?t # rev (ps_stack s))"
        using open_path_push [OF pinvD(6) [OF inv, unfolded cs] lp nz assms(3), of ?t]
        by (simp only: ks cs length_map)
      have "within_limits (d_Limits d) f"
        using pinvD(14) [OF J] opn(2) pinvD(4) [OF inv]
        by (auto simp: within_limits_def F)
      then have "pinv d input ?m ?m f (par @ [c]) (length (ast_Nodes (ps_ast s)) # cs)"
        using pinvD(1,2,3,4,5,12,13,15,16,17,18) [OF J] pinvD(7,8,9) [OF inv] path opn(1) n t0
        by (intro pinvI, unfold F) (auto simp: pinvD(5) [OF inv])
      with run gr show ?thesis by (simp add: keepsI)
    qed
  qed
qed

end
