(* ===== verification/Scum_Parse.thy ===== *)
theory Scum_Parse
  imports Scum_Parser_Steps
begin

text \<open>
  The parser as a whole: the remaining handlers, the loop over the tokens, the loop that
  closes the tags left open, and the tree that \<open>ParseInto\<close> returns.
\<close>

section \<open>Closing, universal and greedy tags\<close>

lemma keeps_closeTag:
  assumes inv: "pinv d input e e s par cs" and "ps_stack s \<noteq> []" and "0 \<le> tok_Width tok"
  shows "returns (closeTag s tok) (\<lambda>s'. keeps d input (e + tok_Width tok) w (s', w))"
proof (rule returns_mono [OF closeTag_ok])
  show "pinv d input (e + tok_Width tok) e s par cs" using inv assms(3) by (auto intro: pinv_mono)
qed (use assms in \<open>auto intro: keepsI\<close>)

lemma demote_ok:
  assumes inv: "pinv d input m e s par cs" and "0 \<le> x"
  shows "pinv d input m e (s\<lparr>ps_ast := (ps_ast s)\<lparr>ast_TextByteLen := ast_TextByteLen (ps_ast s) + x\<rparr>,
      ps_textNodes := n\<rparr>) par cs" (is "pinv _ _ _ _ ?s _ _")
proof -
  have f: "ast_Nodes (ps_ast ?s) = ast_Nodes (ps_ast s)" "ps_limits ?s = ps_limits s"
    "ast_Attributes (ps_ast ?s) = ast_Attributes (ps_ast s)" "ast_Input (ps_ast ?s) = ast_Input (ps_ast s)"
    "ps_breadcrumbs ?s = ps_breadcrumbs s" "ps_cumWidth ?s = ps_cumWidth s" "ps_stack ?s = ps_stack s"
    "ps_openedTags ?s = ps_openedTags s" "ps_lastNodeIdx ?s = ps_lastNodeIdx s"
    "ps_totalTagNodes ?s = ps_totalTagNodes s" "ps_maxDepth ?s = ps_maxDepth s"
    "ast_TextByteLen (ps_ast ?s) = ast_TextByteLen (ps_ast s) + x" by simp_all
  have "attrs_ok (ps_ast ?s)" "within_limits (d_Limits d) ?s"
    using pinvD(2,14) [OF inv] unfolding attrs_ok_def within_limits_def f by blast+
  then show ?thesis
    using pinvD(1,3-13,15,16,17,18) [OF inv] assms(2) by (intro pinvI, unfold f) auto
qed

lemma processClosingTag_ok:
  assumes inv: "pinv d input e e s par cs" and "0 \<le> e" "0 \<le> tok_Width tok" and pos: "tok_Pos tok = e"
  shows "returns (processClosingTag s d w tok) (keeps d input (e + tok_Width tok) w)"
proof -
  let ?m = "e + tok_Width tok" and ?t = "tok_Trigger tok"
  have invm: "pinv d input ?m ?m s par cs" using inv assms by (auto intro: pinv_mono)
  define top where "top = (case rev (ps_stack s) of [] \<Rightarrow> NUL | x # _ \<Rightarrow> x)"
  have peek: "peekStack s = Some top"
    using peekStack_rev [of s "rev (ps_stack s)"] by (simp add: top_def)
  show ?thesis
  proof (cases "top = NUL")
    case True
    with peek invm show ?thesis by (simp add: processClosingTag_def Let_def keepsI)
  next
    case False
    then have ne: "ps_stack s \<noteq> []" by (auto simp: top_def)
    let ?wm = "Add w ((mk_warning IssueOpenCloseTagMismatch (tok_Pos tok))\<lparr>w_TagID := ?t, w_Expected := top\<rparr>)"
    let ?s = "s\<lparr>ps_ast := (ps_ast s)\<lparr>ast_TextByteLen := ast_TextByteLen (ps_ast s) + tok_Width tok\<rparr>,
      ps_textNodes := ps_textNodes s + 1\<rparr>"
    let ?tok = "tok\<lparr>tok_Type := TokenText, tok_Payload := NewSpan (tok_Pos tok) (tok_Width tok)\<rparr>"
    have "returns (processText ?s ?tok ?wm) (keeps d input (e + tok_Width ?tok) ?wm)"
      using demote_ok [OF inv assms(3)] assms by (intro processText_ok) (auto simp: span_in_def)
    then have demoted: "returns (processText ?s ?tok ?wm) (keeps d input ?m w)"
      by (rule returns_mono) (auto simp: keeps_def intro: grown_trans [OF grown_Add])
    from keeps_closeTag [OF inv ne assms(3), of w] demoted peek False show ?thesis
      by (simp add: processClosingTag_def Let_def)
  qed
qed

lemma processUniversalTag_ok:
  assumes inv: "pinv d input e e s par cs" and "0 \<le> e" "0 \<le> tok_Width tok" and pos: "tok_Pos tok = e"
    and g: "tag_Greed (d_tags d (tok_Trigger tok)) = NonGreedy" and t0: "tok_Trigger tok \<noteq> NUL"
    and hp: "has_plan d (tok_Trigger tok)"
  shows "returns (processUniversalTag s d w tok) (keeps d input (e + tok_Width tok) w)"
proof -
  obtain top where peek: "peekStack s = Some top"
    using peekStack_rev [of s "rev (ps_stack s)"] by simp
  have "ps_stack s \<noteq> []" if "ps_openedTags s (tok_Trigger tok)"
    using that pinvD(8) [OF inv] by auto
  with keeps_closeTag [OF inv _ assms(3), of w] processOpeningTag_ok [OF assms] peek show ?thesis
    by (simp add: processUniversalTag_def)
qed

section \<open>The loops\<close>

lemma token_greed: "tag_Greed t > NonGreedy \<longleftrightarrow> tag_Greed t \<noteq> NonGreedy"
  by (simp add: NonGreedy_def word_neq_0_conv)

lemma token_nonzero: "dict_wf d \<Longrightarrow> d_actions d c \<noteq> None \<Longrightarrow> c \<noteq> NUL"
proof -
  assume d: "dict_wf d" and c: "d_actions d c \<noteq> None"
  then obtain a where a: "d_actions d c = Some a" by auto
  have "entry_wf d c" using d by (simp add: dict_wf_def)
  with a have "isASCIIPrintable c"
    using tag_wf_ID [of c "d_tags d c"] by (cases a) (auto simp: entry_wf_def)
  then show "c \<noteq> NUL" using not_printable_NUL by auto
qed

lemma processToken_ok:
  assumes inv: "pinv d input e e s par cs" and d: "dict_wf d" and "0 \<le> e"
    and t: "token_wf d input t" and pos: "tok_Pos t = e"
  shows "returns (processToken d s w t) (keeps d input (e + tok_Width t) w)"
proof -
  have x: "0 \<le> tok_Width t" and sp: "span_in 0 (e + tok_Width t) (tok_Payload t)"
    using t assms(3) by (auto simp: token_wf_def Let_def span_in_def pos)
  have invm: "pinv d input (e + tok_Width t) (e + tok_Width t) s par cs"
    using inv x by (auto intro: pinv_mono)
  have tag: "returns (processTag s d w t) (keeps d input (e + tok_Width t) w)"
    if "tok_Type t = TokenTag"
  proof -
    have "d_actions d (tok_Trigger t) \<noteq> None" using t that by (auto simp: token_wf_def Let_def)
    with d have t0: "tok_Trigger t \<noteq> NUL" by (rule token_nonzero)
    have hp: "has_plan d (tok_Trigger t)" using t that by (simp add: token_wf_def Let_def)
    show ?thesis
      using appendGreedyNode_ok [OF inv assms(3) x sp pos _ hp] processUniversalTag_ok [OF inv assms(3) x pos _ t0 hp]
        processOpeningTag_ok [OF inv assms(3) x pos _ t0 hp] processClosingTag_ok [OF inv assms(3) x pos]
        keepsI [OF invm grown_refl]
      by (simp add: processTag_def Let_def token_greed)
  qed
  have asp: "span_in 0 (len input) (tok_AttrKey t)" "span_in 0 (len input) (tok_Payload t)"
    using t by (auto simp: token_wf_def Let_def span_in_def split: if_splits)
  show ?thesis
    using tag processText_ok [OF inv x sp] processAttribute_ok [OF invm asp]
    by (cases "tok_Type t") (simp_all add: processToken_def)
qed

lemma processTokens_ok:
  assumes "dict_wf d" and "tiles e ts n" and "\<forall>t \<in> set ts. token_wf d input t"
    and "pinv d input e e s par cs" and "0 \<le> e"
  shows "returns (processTokens d s w ts) (keeps d input n w)"
  using assms
proof (induction ts arbitrary: e s par cs w)
  case (Cons t ts)
  from Cons.prems have pos: "tok_Pos t = e" and x: "1 \<le> tok_Width t"
    and rest: "tiles (e + tok_Width t) ts n" by auto
  have "returns (processToken d s w t) (keeps d input (e + tok_Width t) w)"
    using Cons.prems pos by (intro processToken_ok) auto
  then obtain s1 w1 par1 cs1 where st: "processToken d s w t = Some (s1, w1)"
    and s1: "pinv d input (e + tok_Width t) (e + tok_Width t) s1 par1 cs1" and g: "grown w w1"
    by (auto simp: returns_ex keeps_def)
  have "returns (processTokens d s1 w1 ts) (keeps d input n w1)"
    using Cons.IH [OF Cons.prems(1) rest _ s1] Cons.prems x by simp
  then have "returns (processTokens d s1 w1 ts) (keeps d input n w)"
    by (rule returns_mono) (auto simp: keeps_def intro: grown_trans [OF g])
  with st show ?case by simp
qed (simp add: keepsI)

lemma closeRemaining_ok:
  assumes "pinv d input m m s par cs"
  shows "returns (closeRemaining d s w) (\<lambda>(s', w'). pinv d input m m s' par [0] \<and> grown w w')"
  using assms
proof (induction "length cs" arbitrary: s cs w rule: less_induct)
  case less
  have b: "ps_breadcrumbs s = rev (map int cs)" and
    p: "open_path (map core_of (ast_Nodes (ps_ast s))) par m cs (rev (ps_cumWidth s)) (rev (ps_stack s))"
    using pinvD(5,6) [OF less.prems] .
  show ?case
  proof (cases "rev (ps_stack s)")
    case Nil
    with p have "cs = [0]"
      by (cases "(map core_of (ast_Nodes (ps_ast s)), par, m, cs, rev (ps_cumWidth s), rev (ps_stack s))"
          rule: open_path.cases) auto
    with less.prems b show ?thesis by (subst closeRemaining.simps) simp
  next
    case (Cons t ts)
    then have st': "ps_stack s = rev (t # ts)" by (metis rev_rev_ident)
    obtain c cs' w0 v ws ns where
      pop: "popCrumb s = Some (int c, s\<lparr>ps_breadcrumbs := rev (map int cs')\<rparr>)"
      and cw: "ps_cumWidth s = rev (w0 # v # ws)" and c: "c < length (ast_Nodes (ps_ast s))"
      and cs: "cs = c # cs'" and ns: "ns = (ast_Nodes (ps_ast s))[c := (ast_Nodes (ps_ast s) ! c)
         \<lparr>nd_Span := (nd_Span (ast_Nodes (ps_ast s) ! c))
            \<lparr>sp_End := sp_Start (nd_Span (ast_Nodes (ps_ast s) ! c)) + (w0 + 0)\<rparr>\<rparr>]"
      and inv': "\<forall>i. i = ps_lastNodeIdx s \<or> i = int c \<longrightarrow>
         pinv d input m (m + 0) (s\<lparr>ps_ast := (ps_ast s)\<lparr>ast_Nodes := ns\<rparr>,
           ps_breadcrumbs := rev (map int cs'), ps_cumWidth := rev ((v + (w0 + 0)) # ws),
           ps_openedTags := (ps_openedTags s)(t := False), ps_stack := rev ts,
           ps_lastNodeIdx := i\<rparr>) par cs'"
      by (rule close_ok [OF less.prems Cons, of 0]) auto
    let ?s = "s\<lparr>ps_ast := (ps_ast s)\<lparr>ast_Nodes := ns\<rparr>,
           ps_breadcrumbs := rev (map int cs'), ps_cumWidth := rev ((v + (w0 + 0)) # ws),
           ps_openedTags := (ps_openedTags s)(t := False), ps_stack := rev ts\<rparr>"
    let ?w = "Add w ((mk_warning IssueUnclosedTag (sp_Start (nd_Span (ns ! c))))
          \<lparr>w_TagID := t, w_CloseTagID := tag_CloseID (d_tags d t)\<rparr>)"
    have s: "pinv d input m m ?s par cs'" using inv' [THEN spec, of "ps_lastNodeIdx s"] by simp
    have "cs' \<noteq> []" using p Cons cs by (cases cs') auto
    then have len: "len (ps_breadcrumbs s) > 1" using b cs by (cases cs') (simp_all add: len_def)
    have order: "s\<lparr>ps_breadcrumbs := rev (map int cs'), ps_cumWidth := rev ((v + (w0 + 0)) # ws),
           ps_ast := (ps_ast s)\<lparr>ast_Nodes := ns\<rparr>, ps_stack := rev ts,
           ps_openedTags := (ps_openedTags s)(t := False)\<rparr> = ?s" by simp
    have step: "closeRemaining d s w = closeRemaining d ?s ?w"
      unfolding order [symmetric] using len by (subst closeRemaining.simps)
        (simp add: pop popCumWidth_rev cw set_span_end_eq c opened.pop_rev st' ns go_index_def len_def
          del: rev.simps)
    have "returns (closeRemaining d ?s ?w) (\<lambda>(s', w'). pinv d input m m s' par [0] \<and> grown ?w w')"
      using s cs by (intro less.hyps) auto
    then show ?thesis unfolding step
      by (rule returns_mono) (auto intro: grown_trans [OF grown_Add])
  qed
qed

section \<open>ParseInto\<close>

text \<open>What a parse promises of the tree it returns.\<close>

definition ast_wf :: "dictionary \<Rightarrow> string \<Rightarrow> ast \<Rightarrow> bool" where
  "ast_wf d input a \<longleftrightarrow> (let l = d_Limits d; ks = map core_of (ast_Nodes a) in
     (\<exists>par. arena (ast_Nodes a) par \<and> typed ks par) \<and> attrs_ok a \<and> ast_Input a = input
     \<and> spans_ok (ast_Nodes a) (len input)
     \<and> (MaxNodes l > 0 \<longrightarrow> len (ast_Nodes a) \<le> MaxNodes l)
     \<and> (MaxAttributes l > 0 \<longrightarrow> len (ast_Attributes a) \<le> MaxAttributes l)
     \<and> 1 \<le> ast_MaxDepth a \<and> (MaxParseDepth l > 0 \<longrightarrow> ast_MaxDepth a \<le> MaxParseDepth l)
     \<and> ast_TotalTagNodes a = counted_tags d ks \<and> 0 \<le> ast_TextByteLen a
     \<and> attr_spans (ast_Attributes a) (len input) \<and> tags_known d ks)"

lemma ParserState_Reset_new: "ParserState_Reset s = newParserState"
  by (simp add: ParserState_Reset_def newParserState_def)

lemma resetAST_returns:
  assumes "0 \<le> out_Attributes out"
  shows "returns (resetAST dst input out l) (\<lambda>(a, c).
    a = zero_ast\<lparr>ast_Input := input, ast_Nodes := [NewNode]\<rparr> \<and> 1 \<le> st_Nodes c
    \<and> (MaxNodes l > 0 \<longrightarrow> st_Nodes c \<le> MaxNodes l)
    \<and> (MaxAttributes l > 0 \<longrightarrow> st_Attributes c \<le> MaxAttributes l))"
  using assms by (auto simp: resetAST_def Let_def zero_ast_def)

lemma initial_pinv:
  assumes "limits_wf (d_Limits d)"
  shows "pinv d input 0 0 (newParserState\<lparr>ps_ast := zero_ast\<lparr>ast_Input := input,
    ast_Nodes := [NewNode]\<rparr>, ps_limits := d_Limits d\<rparr>) [0] [0]"
  using assms
  using arena_root
  by (intro pinvI)
     (simp_all add: newParserState_def attrs_ok_def zero_ast_def spans_ok_def typed_def
       within_limits_def counted_tags_def NewNode_def core_of_def span_in_def limits_wf_def attr_spans_def tags_known_def)

lemma text_size_nonneg: "token_wf d input t \<Longrightarrow> 0 \<le> text_size t"
  by (auto simp: token_wf_def Let_def span_in_def text_size_def)

lemma text_sizes: "\<forall>t \<in> set ts. token_wf d input t \<Longrightarrow>
    0 \<le> sum_list (map text_size (filter (holds_text d) ts))"
  by (induction ts) (auto dest: text_size_nonneg)

lemma finishAST_ok:
  assumes inv: "pinv d input n n s par [0]" and n: "n = len input" and out: "0 \<le> out_TextByteLen out"
  shows "returns (finishAST out s) (ast_wf d input)"
proof -
  let ?ns = "ast_Nodes (ps_ast s)"
  obtain w ws where cw: "ps_cumWidth s = rev (w # ws)" and c: "0 < length ?ns"
    using pinv_path [OF inv] by (metis list.inject)
  have path: "open_path (map core_of ?ns) par n [0] (w # ws) (rev (ps_stack s))"
    using pinvD(6) [OF inv] cw by simp
  then have w: "0 \<le> w" "w \<le> n"
    by (cases "(map core_of ?ns, par, n, [0::nat], w # ws, rev (ps_stack s))" rule: open_path.cases; simp)+
  have root: "core_of (?ns ! 0) = (NodeRoot, NUL, 0)" using pinvD(13) [OF inv] c unfolding typed_def
    by (metis nth_map)
  then have start: "sp_Start (nd_Span (?ns ! 0)) = 0" by (simp add: core_of_def)
  define ns where "ns = ?ns[0 := (?ns ! 0)\<lparr>nd_Span := (nd_Span (?ns ! 0))\<lparr>sp_End := w\<rparr>\<rparr>]"
  have "spans_ok ns n"
    using spans_ok_end [OF pinvD(12) [OF inv] c w(1)] w by (simp add: ns_def start)
  moreover have "arena ns par"
    unfolding ns_def using arena_update [of ?ns par 0] pinvD(1) [OF inv] c by simp
  moreover have "attrs_ok ((ps_ast s)\<lparr>ast_Nodes := ns\<rparr>)"
    using pinvD(2) [OF inv] c by (auto simp: attrs_ok_def ns_def
        dest!: subsetD [OF set_update_subset_insert])
  moreover have "map core_of ns = map core_of ?ns"
    using c by (auto simp: ns_def map_update core_of_def list_update_same_conv)
  moreover have "finishAST out s = Some ((ps_ast s)\<lparr>ast_Nodes := ns, ast_MaxDepth := ps_maxDepth s,
             ast_TextByteLen := ast_TextByteLen (ps_ast s) + out_TextByteLen out,
             ast_TotalTextNodes := ps_textNodes s + out_TextTokens out,
             ast_TotalTagNodes := ps_totalTagNodes s\<rparr>)"
    using cw c by (simp add: finishAST_def peekCumWidth_def go_index_def go_update_def ns_def len_def Let_def nth_append)
  moreover have "len ns = len ?ns" by (simp add: ns_def)
  ultimately show ?thesis
    using pinvD(3,13,15,16,17,18) [OF inv] pinvD(14) [OF inv] out n
    by (auto simp: ast_wf_def Let_def within_limits_def attrs_ok_def)
qed

lemma ParseInto_ok:
  assumes "dict_wf d" and "small (len input)"
  shows "returns (ParseInto U newParserState dst input d w)
    (\<lambda>(a, w', s'). ast_wf d input a \<and> grown w w' \<and> s' = newParserState)"
proof -
  obtain out w1 where tk: "Tokenize U d input w = Some (out, w1)" and oi: "out_inv d input out (len input)"
    and cnt: "counts_of d (out_Tokens out) = \<lparr>ts_TagsTotal = out_TagsTotal out,
        ts_UniversalTags = out_UniversalTags out, ts_OpenTags = out_OpenTags out,
        ts_CloseTags = out_CloseTags out, ts_Attributes = out_Attributes out\<rparr>"
    and g: "grown w w1"
    using tokenizer.Tokenize_contract [OF assms, of U w]
    by (auto simp: returns_ex Tokenize_def grown_def)
  have "0 \<le> out_Attributes out"
    using arg_cong [OF cnt, of ts_Attributes] by (simp add: counts_of_def Let_def) (metis len_simps(6))
  then obtain c where reset: "resetAST dst input out (d_Limits d) =
      Some (zero_ast\<lparr>ast_Input := input, ast_Nodes := [NewNode]\<rparr>, c)"
    using resetAST_returns [of out dst input "d_Limits d"] by (auto simp: returns_ex)
  let ?s = "newParserState\<lparr>ps_ast := zero_ast\<lparr>ast_Input := input, ast_Nodes := [NewNode]\<rparr>,
      ps_limits := d_Limits d\<rparr>"
  have "pinv d input 0 0 ?s [0] [0]" using assms(1) by (intro initial_pinv) (simp add: dict_wf_def)
  then have "returns (processTokens d ?s w1 (out_Tokens out)) (keeps d input (len input) w1)"
    using oi assms(1) by (intro processTokens_ok) (auto simp: out_inv_def)
  then obtain s1 w2 par cs where pt: "processTokens d ?s w1 (out_Tokens out) = Some (s1, w2)"
    and s1: "pinv d input (len input) (len input) s1 par cs" and g1: "grown w1 w2"
    by (auto simp: returns_ex keeps_def)
  obtain s2 w3 where cr: "closeRemaining d s1 w2 = Some (s2, w3)"
    and s2: "pinv d input (len input) (len input) s2 par [0]" and g2: "grown w2 w3"
    using closeRemaining_ok [OF s1, of w2] by (auto simp: returns_ex)
  have "0 \<le> out_TextByteLen out" using oi text_sizes [of "out_Tokens out" d input] by (simp add: out_inv_def)
  then obtain a where fa: "finishAST out s2 = Some a" "ast_wf d input a"
    using finishAST_ok [OF s2] by (auto simp: returns_ex)
  have "grown w w3" using g g1 g2 by (blast intro: grown_trans)
  with tk reset pt cr fa show ?thesis
    by (simp add: ParseInto_def ParserState_Reset_new)
qed

lemma collect_text_ok: "spans_ok ns (len input) \<Longrightarrow> returns (collect_text input ns) (\<lambda>_. True)"
  by (induction ns) (auto simp: spans_ok_def span_in_def intro: returns_mono)

lemma ast_Text_ok: "ast_wf d input a \<Longrightarrow> returns (ast_Text a) (\<lambda>_. True)"
  using collect_text_ok [of "ast_Nodes a" input] by (simp add: ast_Text_def ast_wf_def Let_def)

section \<open>Properties\<close>

text \<open>
  C1: a parse returns for every input, without a panic: with a state from the pool, which is
  whatever an earlier parse left after \<open>Reset\<close>, \<open>ParseInto\<close> builds a well-formed tree,
  only adds warnings, and puts back a state that equals a new one, so no parse depends on an
  earlier one.
\<close>

theorem parse_total:
  assumes "dict_wf d" and "small (len input)"
  shows "returns (ParseInto U (ParserState_Reset s) dst input d w)
    (\<lambda>(a, w', s'). ast_wf d input a \<and> grown w w' \<and> s' = newParserState)"
  using ParseInto_ok [OF assms] by (simp add: ParserState_Reset_new)

theorem parse_total_witness:
  "returns (ParseInto demo_unicode (ParserState_Reset newParserState) \<lparr>st_Nodes = 0, st_Attributes = 0\<rparr>
      demo_input demo demo_log)
    (\<lambda>(a, w', s'). ast_wf demo demo_input a \<and> grown demo_log w' \<and> s' = newParserState)"
  by (rule parse_total [OF demo_wf demo_input_small])

lemma Parse_ok:
  assumes "dict_wf d" and "small (len input)"
  shows "returns (Parse U newParserState input d w)
    (\<lambda>(a, w', s'). ast_wf d input a \<and> grown w w' \<and> s' = newParserState)"
  unfolding Parse_def by (rule ParseInto_ok [OF assms])

text \<open>
  C2: the nodes of a parsed tree form one rooted tree: the arena's \<open>FirstChild\<close>,
  \<open>LastChild\<close>, \<open>NextSibling\<close> and \<open>ChildCount\<close> are those of a tree in which every node
  follows its parent, the root is node 0 and the only root node, text nodes are leaves, and
  every tag node is of a registered tag.
\<close>

theorem parse_builds_tree:
  assumes "dict_wf d" and "small (len input)"
  shows "returns (Parse U newParserState input d w) (\<lambda>(a, w', s').
    \<exists>par. arena (ast_Nodes a) par \<and> typed (map core_of (ast_Nodes a)) par
      \<and> tags_known d (map core_of (ast_Nodes a)))"
  by (rule returns_mono [OF Parse_ok [OF assms, of U w]]) (auto simp: ast_wf_def Let_def)

theorem parse_builds_tree_witness:
  "returns (Parse demo_unicode newParserState demo_input demo demo_log) (\<lambda>(a, w', s').
    \<exists>par. arena (ast_Nodes a) par \<and> typed (map core_of (ast_Nodes a)) par
      \<and> tags_known demo (map core_of (ast_Nodes a)))"
  by (rule parse_builds_tree [OF demo_wf demo_input_small])

text \<open>
  C26: everything a parsed tree points to exists: the spans of nodes and attributes are
  slices of the input, and the attribute range of a node is a range of the attribute arena.
\<close>

theorem parse_in_bounds:
  assumes "dict_wf d" and "small (len input)"
  shows "returns (Parse U newParserState input d w) (\<lambda>(a, w', s').
    ast_Input a = input \<and> spans_ok (ast_Nodes a) (len input)
    \<and> attr_spans (ast_Attributes a) (len input) \<and> attrs_ok a)"
  by (rule returns_mono [OF Parse_ok [OF assms, of U w]]) (auto simp: ast_wf_def Let_def)

theorem parse_in_bounds_witness:
  "returns (Parse demo_unicode newParserState demo_input demo demo_log) (\<lambda>(a, w', s').
    ast_Input a = demo_input \<and> spans_ok (ast_Nodes a) (len demo_input)
    \<and> attr_spans (ast_Attributes a) (len demo_input) \<and> attrs_ok a)"
  by (rule parse_in_bounds [OF demo_wf demo_input_small])

text \<open>
  C35: a parse keeps to the configured resource limits: \<open>MaxNodes\<close>, \<open>MaxAttributes\<close> and
  \<open>MaxParseDepth\<close>, when set, bound the nodes, the attributes and the depth of the tree.
\<close>

theorem parse_within_limits:
  assumes "dict_wf d" and "small (len input)"
  shows "returns (Parse U newParserState input d w) (\<lambda>(a, w', s'). let l = d_Limits d in
    (MaxNodes l > 0 \<longrightarrow> len (ast_Nodes a) \<le> MaxNodes l)
    \<and> (MaxAttributes l > 0 \<longrightarrow> len (ast_Attributes a) \<le> MaxAttributes l)
    \<and> (MaxParseDepth l > 0 \<longrightarrow> ast_MaxDepth a \<le> MaxParseDepth l))"
  by (rule returns_mono [OF Parse_ok [OF assms, of U w]]) (auto simp: ast_wf_def Let_def)

text \<open>The demo with at most three nodes, one attribute and depth one.\<close>

definition tight_demo :: dictionary where
  "tight_demo = demo\<lparr>d_Limits := (d_Limits demo)
     \<lparr>MaxNodes := 3, MaxAttributes := 1, MaxParseDepth := 1\<rparr>\<rparr>"

lemma entry_wf_limits: "entry_wf (d\<lparr>d_Limits := l\<rparr>) c = entry_wf d c"
  by (simp add: entry_wf_def split: option.split action.split)

lemma tight_demo_wf: "dict_wf tight_demo"
  using demo_wf by (simp add: dict_wf_def limits_wf_def tight_demo_def entry_wf_limits)

theorem parse_within_limits_witness:
  "returns (Parse demo_unicode newParserState demo_input tight_demo demo_log)
    (\<lambda>(a, w', s'). let l = d_Limits tight_demo in
    (MaxNodes l > 0 \<longrightarrow> len (ast_Nodes a) \<le> MaxNodes l)
    \<and> (MaxAttributes l > 0 \<longrightarrow> len (ast_Attributes a) \<le> MaxAttributes l)
    \<and> (MaxParseDepth l > 0 \<longrightarrow> ast_MaxDepth a \<le> MaxParseDepth l))"
  by (rule parse_within_limits [OF tight_demo_wf demo_input_small])

text \<open>
  \<open>AST.TotalTagNodes\<close> is the number of tag nodes of the tree whose tag is not greedy.
\<close>

theorem parse_counts_tags:
  assumes "dict_wf d" and "small (len input)"
  shows "returns (Parse U newParserState input d w) (\<lambda>(a, w', s').
    ast_TotalTagNodes a = len (filter (\<lambda>nd. nd_Type nd = NodeTag
      \<and> tag_Greed (d_tags d (nd_TagID nd)) = NonGreedy) (ast_Nodes a)))"
  by (rule returns_mono [OF Parse_ok [OF assms, of U w]])
    (auto simp: ast_wf_def Let_def counted_tags_def core_of_def filter_map o_def)

theorem parse_counts_tags_witness:
  "returns (Parse demo_unicode newParserState demo_input demo demo_log) (\<lambda>(a, w', s').
    ast_TotalTagNodes a = len (filter (\<lambda>nd. nd_Type nd = NodeTag
      \<and> tag_Greed (d_tags demo (nd_TagID nd)) = NonGreedy) (ast_Nodes a)))"
  by (rule parse_counts_tags [OF demo_wf demo_input_small])

text \<open>
  A collector that is within its cap is within it after a parse, whatever the input:
  the policy and the cap do not change, and at most \<open>cap\<close> warnings are recorded.
\<close>

theorem parse_warnings_capped:
  assumes "dict_wf d" and "small (len input)" and "warnings_wf w" and "warnings_cap w = Some n"
  shows "returns (Parse U newParserState input d w) (\<lambda>(a, w', s').
    warnings_wf w' \<and> warnings_cap w' = Some n \<and> length (ws_list w') \<le> n)"
  by (rule returns_mono [OF Parse_ok [OF assms(1,2), of U w]])
    (auto simp: grown_def assms wlog.wf_adds wlog.cap_adds intro: wlog.adds_within)

definition two_warnings :: warnings where
  "two_warnings = collected WarnOverflowTrunc 2 []"

theorem parse_warnings_capped_witness:
  "returns (Parse demo_unicode newParserState demo_input demo two_warnings) (\<lambda>(a, w', s').
    warnings_wf w' \<and> warnings_cap w' = Some 2 \<and> length (ws_list w') \<le> 2)"
  by (rule parse_warnings_capped [OF demo_wf demo_input_small])
    (simp_all add: two_warnings_def collected_def warnings_wf_def warnings_cap_def policy_defs Let_def)

text \<open>
  \<open>AST.Text\<close> of a parsed tree does not panic: every slice it takes is inside the input.
\<close>

theorem parse_text_returns:
  assumes "dict_wf d" and "small (len input)"
  shows "returns (Parse U newParserState input d w) (\<lambda>(a, w', s'). returns (ast_Text a) (\<lambda>_. True))"
  by (rule returns_mono [OF Parse_ok [OF assms, of U w]]) (auto intro: ast_Text_ok)

theorem parse_text_returns_witness:
  "returns (Parse demo_unicode newParserState demo_input demo demo_log)
     (\<lambda>(a, w', s'). returns (ast_Text a) (\<lambda>_. True))"
  by (rule parse_text_returns [OF demo_wf demo_input_small])

end
