(* ===== verification/Scum_Parse_Props.thy ===== *)
theory Scum_Parse_Props
  imports Scum_Parse
begin

text \<open>
  What a parse does on concrete shapes of input: an opening tag and its closing tag restore
  the stacks, a text without special symbols is one text node; and the evaluations of
  \<open>Parse\<close> on small inputs, two of which show where the tree differs from its description.
\<close>

section \<open>Opening and closing\<close>

text \<open>
  A tag that opens and is closed at once leaves the parser where it was: the path, the
  stack and the set of open tags are restored, the width of both is added to the parent, and
  the node that was added spans the two.
\<close>

theorem open_close_restores:
  assumes inv: "pinv d input e e s par cs" and w: "0 \<le> tok_Width t" "0 \<le> tok_Width t'"
    and new: "\<not> ps_openedTags s (tok_Trigger t)"
    and depth: "MaxParseDepth (ps_limits s) = 0" and nodes: "MaxNodes (ps_limits s) = 0"
  shows "returns (do { (s1, w1) \<leftarrow> processOpeningTag s d wn t; s2 \<leftarrow> closeTag s1 t'; Some (s1, s2) })
    (\<lambda>(s1, s2). ps_breadcrumbs s2 = ps_breadcrumbs s \<and> ps_stack s2 = ps_stack s
      \<and> ps_openedTags s2 = ps_openedTags s
      \<and> ps_breadcrumbs s1 = ps_breadcrumbs s @ [len (ast_Nodes (ps_ast s))]
      \<and> ps_stack s1 = ps_stack s @ [tok_Trigger t]
      \<and> ps_cumWidth s2 = butlast (ps_cumWidth s) @ [last (ps_cumWidth s) + (tok_Width t + tok_Width t')]
      \<and> sp_End (nd_Span (last (ast_Nodes (ps_ast s2)))) = tok_Pos t + (tok_Width t + tok_Width t'))"
proof -
  obtain c cs' where c: "peekCrumb s = Some (int c)" "c < length (ast_Nodes (ps_ast s))"
      "nd_Type (ast_Nodes (ps_ast s) ! c) \<noteq> NodeText" "cs = c # cs'"
    by (rule pinv_top [OF inv])
  obtain x ws where cw: "ps_cumWidth s = rev (x # ws)" using pinv_path [OF inv] by metis
  let ?nd = "plain_node NodeTag (tok_Trigger t) (NewSpan (tok_Pos t) (tok_Width t))"
  have ar: "arena (ast_Nodes (ps_ast s)) par" using pinvD(1) [OF inv] .
  obtain ns where app: "appendNode (ps_ast s) (int c) ?nd =
      Some ((ps_ast s)\<lparr>ast_Nodes := ns\<rparr>, len (ast_Nodes (ps_ast s)))"
    and data: "map node_data ns = map node_data (ast_Nodes (ps_ast s) @ [?nd])"
    using appendNode_refines [OF ar, of ?nd "int c"] c(2) by (auto simp: returns_ex len_def)
  have ln: "length ns = Suc (length (ast_Nodes (ps_ast s)))"
    using arg_cong [OF data, of length] by simp
  have "map node_data ns ! length (ast_Nodes (ps_ast s)) = node_data ?nd"
    unfolding data by (simp add: nth_append)
  then have sp: "nd_Span (ns ! length (ast_Nodes (ps_ast s))) = NewSpan (tok_Pos t) (tok_Width t)"
    using ln by (simp add: node_data_def)
  let ?n = "length (ast_Nodes (ps_ast s))"
  let ?s1 = "s\<lparr>ps_ast := (ps_ast s)\<lparr>ast_Nodes := ns\<rparr>, ps_breadcrumbs := ps_breadcrumbs s @ [int ?n],
      ps_cumWidth := ps_cumWidth s @ [tok_Width t], ps_stack := ps_stack s @ [tok_Trigger t],
      ps_openedTags := (ps_openedTags s)(tok_Trigger t := True),
      ps_maxDepth := max (ps_maxDepth s) (len (ps_stack s) + 1), ps_lastNodeIdx := int ?n,
      ps_totalTagNodes := ps_totalTagNodes s + 1\<rparr>"
  have "processOpeningTag s d wn t = Some (?s1, wn)"
    using new depth nodes c app
    by (simp add: processOpeningTag_def canPushParseDepth_def appendStateNode_def Let_def text_node
        pushCrumb_def pushStack_def pushCumWidth_def len_def)
  moreover have "closeTag ?s1 t' = Some (s\<lparr>ps_ast := (ps_ast s)\<lparr>ast_Nodes :=
        ns[?n := (ns ! ?n)\<lparr>nd_Span := (nd_Span (ns ! ?n))\<lparr>sp_End := tok_Pos t + (tok_Width t + tok_Width t')\<rparr>\<rparr>]\<rparr>,
      ps_breadcrumbs := ps_breadcrumbs s,
      ps_cumWidth := rev ((x + (tok_Width t + tok_Width t')) # ws), ps_stack := ps_stack s,
      ps_openedTags := (ps_openedTags s)(tok_Trigger t := False),
      ps_maxDepth := max (ps_maxDepth s) (len (ps_stack s) + 1), ps_lastNodeIdx := int ?n,
      ps_totalTagNodes := ps_totalTagNodes s + 1\<rparr>)"
  proof -
    have "popCrumb ?s1 = Some (int ?n, ?s1\<lparr>ps_breadcrumbs := ps_breadcrumbs s\<rparr>)"
      by (rule crumbs.pop_top) simp
    moreover have "popCumWidth (tok_Width t') (?s1\<lparr>ps_breadcrumbs := ps_breadcrumbs s, ps_lastNodeIdx := int ?n\<rparr>)
      = Some (tok_Width t + tok_Width t', ?s1\<lparr>ps_breadcrumbs := ps_breadcrumbs s, ps_lastNodeIdx := int ?n,
          ps_cumWidth := rev ((x + (tok_Width t + tok_Width t')) # ws)\<rparr>)"
      by (rule popCumWidth_rev) (simp add: cw)
    ultimately show ?thesis
      using ln by (simp add: closeTag_def set_span_end_eq opened.pop_top sp)
  qed
  moreover have "(ps_openedTags s)(tok_Trigger t := False) = ps_openedTags s"
    using new by (simp add: fun_upd_idem)
  moreover have "last (ns[?n := y]) = y" for y
    using ln by (cases ns rule: rev_cases) (simp_all add: list_update_append)
  ultimately show ?thesis by (simp add: cw len_def)
qed

text \<open>A state in which the theorem applies: the initial one of a parse of the demo.\<close>

definition start_state :: "dictionary \<Rightarrow> string \<Rightarrow> parser_state" where
  "start_state d input = newParserState\<lparr>ps_ast := zero_ast\<lparr>ast_Input := input, ast_Nodes := [NewNode]\<rparr>,
     ps_limits := d_Limits d\<rparr>"

lemma demo_no_node_limit: "MaxNodes (d_Limits demo) = 0 \<and> MaxParseDepth (d_Limits demo) = 0"
  by code_simp

definition bracket :: "char \<Rightarrow> int \<Rightarrow> token" where
  "bracket c i = zero_token\<lparr>tok_Type := TokenTag, tok_Trigger := c, tok_Pos := i, tok_Width := 1\<rparr>"

theorem open_close_restores_witness:
  "returns (do { (s1, w1) \<leftarrow> processOpeningTag (start_state demo ''[]'') demo demo_log (bracket (CHR ''['') 0);
       s2 \<leftarrow> closeTag s1 (bracket (CHR '']'') 1); Some (s1, s2) })
     (\<lambda>(s1, s2). ps_breadcrumbs s2 = [0] \<and> ps_stack s1 = ''['' \<and> ps_stack s2 = [])"
proof -
  have inv: "pinv demo ''[]'' 0 0 (start_state demo ''[]'') [0] [0]"
    unfolding start_state_def using demo_wf by (intro initial_pinv) (simp add: dict_wf_def)
  show ?thesis
    by (rule returns_mono [OF open_close_restores [OF inv]])
      (use demo_no_node_limit in \<open>auto simp: start_state_def newParserState_def bracket_def zero_token_def\<close>)
qed

section \<open>Plain text\<close>

lemma tokenize_loop_plain:
  assumes "\<forall>c \<in> set input. d_actions (ac_Dictionary ac) c = None" and "0 \<le> i" "i \<le> len input"
  shows "tokenize_loop run input ac out ts i = Some (ac, out, ts)"
  using assms(2,3)
proof (induction "nat (len input - i)" arbitrary: i)
  case 0
  then show ?case by (subst tokenize_loop.simps) simp
next
  case (Suc k)
  then have "nat i < length input" "i < len input" by (auto simp: len_def)
  then have "d_actions (ac_Dictionary ac) (input ! nat i) = None" using assms(1) by auto
  moreover have "tokenize_loop run input ac out ts (i + 1) = Some (ac, out, ts)"
    using Suc by (intro Suc.hyps(1)) auto
  ultimately show ?case
    using Suc.prems \<open>i < len input\<close> by (subst tokenize_loop.simps) (simp add: go_index_def dict_Action_def)
qed

text \<open>
  An input without special symbols is plain text: its tree is the root with one text
  node, whose content is the input, and no warning is added.
\<close>

theorem plain_text_parse:
  assumes "input \<noteq> []" and "\<forall>c \<in> set input. d_actions d c = None"
    and "MaxNodes (d_Limits d) = 0 \<or> 2 \<le> MaxNodes (d_Limits d)"
  shows "returns (Parse U newParserState input d w) (\<lambda>(a, w', s').
    w' = w \<and> map nd_Type (ast_Nodes a) = [NodeRoot, NodeText] \<and> ast_TotalTextNodes a = 1
    \<and> ast_TotalTagNodes a = 0 \<and> ast_TextByteLen a = len input \<and> ast_Text a = Some input)"
proof -
  have pos: "0 < len input" using assms(1) by (simp add: len_def)
  define out where "out = flush_text 0 (len input) zero_output"
  have outs: "out_Tokens out = [text_token 0 (len input)]" "out_TextTokens out = 1"
    "out_TextByteLen out = len input" "out_TagsTotal out = 0" "out_Attributes out = 0"
    by (simp_all add: out_def flush_text_def zero_output_def)
  have tk: "Tokenize U d input w = Some (out, w)"
    using pos assms(2)
    by (simp add: Tokenize_def Tokenize_with_def tokenize_loop_plain out_def zero_state_def
        flush_text_def zero_output_def Let_def)
  obtain c where reset: "resetAST \<lparr>st_Nodes = 0, st_Attributes = 0\<rparr> input out (d_Limits d) =
      Some (zero_ast\<lparr>ast_Input := input, ast_Nodes := [NewNode]\<rparr>, c)"
    using resetAST_returns [of out "\<lparr>st_Nodes = 0, st_Attributes = 0\<rparr>" input "d_Limits d"]
    by (auto simp: returns_ex outs)
  have g: "go_slice input 0 (len input) = Some input" by (simp add: go_slice_def len_def)
  show ?thesis
    using assms(3) pos
    by (auto simp: Parse_def ParseInto_def tk reset outs processToken_def processText_def
        newParserState_def peekCrumb_def go_index_def appendStateNode_def appendNode_def go_update_def
        zero_ast_def NewNode_def incrementCumWidth_def closeRemaining.simps finishAST_def
        peekCumWidth_def ast_Text_def g Let_def)
qed

theorem plain_text_parse_witness:
  "returns (Parse demo_unicode newParserState ''hello'' demo demo_log)
     (\<lambda>(a, w', s'). ast_Text a = Some ''hello'')"
proof -
  have "\<forall>c \<in> set ''hello''. d_actions demo c = None" by code_simp
  then show ?thesis
    using demo_no_node_limit
    by (intro returns_mono [OF plain_text_parse [of "''hello''" demo]]) auto
qed

section \<open>Where the tree differs from its description\<close>

text \<open>
  The attributes of a node need not be contiguous in the arena: in \<open>[!a{x}hi!b{y}]!c{z}\<close>
  the tag has two attributes, \<open>a\<close> and \<open>c\<close>, and the text one, \<open>b\<close>; but the range of the tag
  covers \<open>a\<close> and \<open>b\<close>, and no range covers \<open>c\<close>.
\<close>

theorem attribute_ranges_overlap:
  "map_option (\<lambda>(a, _, _). (map nd_Type (ast_Nodes a),
       map (\<lambda>nd. (rg_Start (nd_Attributes nd), rg_Len (nd_Attributes nd))) (ast_Nodes a),
       map (\<lambda>x. (sp_Start (at_Name x), sp_End (at_Name x))) (ast_Attributes a)))
     (Parse demo_unicode newParserState ''[!a{x}hi!b{y}]!c{z}'' demo demo_log) =
   Some ([NodeRoot, NodeTag, NodeText], [(0, 0), (0, 2), (1, 1)], [(2, 3), (9, 10), (15, 16)])"
  by code_simp

text \<open>
  The span of a tag does not count the attributes inside it: in \<open>[a!k{v}b]\<close> the tag
  reaches from the first byte to the last, but its span is \<open>[0, 4)\<close> and does not contain
  that of its second child.
\<close>

theorem spans_ignore_attributes:
  "map_option (\<lambda>(a, _, _). map (\<lambda>nd. (nd_Type nd, sp_Start (nd_Span nd), sp_End (nd_Span nd))) (ast_Nodes a))
     (Parse demo_unicode newParserState ''[a!k{v}b]'' demo demo_log) =
   Some [(NodeRoot, 0, 4), (NodeTag, 0, 4), (NodeText, 1, 2), (NodeText, 7, 8)]"
  by code_simp

end
