(* ===== verification/Go_Strings.thy ===== *)
theory Go_Strings
  imports Utf8
begin

text \<open>
  What the program uses of the Go packages \<open>strings\<close>, \<open>net/url\<close>, \<open>html\<close> and \<open>fmt\<close>. The parts
  that rest on the tables of Unicode, on the format of an error message or on the syntax of
  a URL past its scheme are functions of the record \<open>golib\<close>, a parameter of the model; the
  rest is defined here.
\<close>

text \<open>
  \<open>gl_lower\<close> is \<open>strings.ToLower\<close> of a string that is not ASCII, \<open>gl_quote\<close> the verb \<open>%q\<close> of
  \<open>fmt\<close>, and \<open>gl_url_error\<close> the message with which \<open>url.Parse\<close> refuses a string, if it does.
\<close>

record golib =
  gl_unicode :: unicode
  gl_lower :: "string \<Rightarrow> string"
  gl_quote :: "string \<Rightarrow> string"
  gl_url_error :: "string \<Rightarrow> string option"

section \<open>strings\<close>

definition is_ascii :: "string \<Rightarrow> bool" where
  "is_ascii s \<longleftrightarrow> list_all (\<lambda>c. byte c < 128) s"

definition ascii_lower :: "char \<Rightarrow> char" where
  "ascii_lower c = (if 65 \<le> byte c \<and> byte c \<le> 90 then char_of (byte c + 32) else c)"

definition ToLower :: "golib \<Rightarrow> string \<Rightarrow> string" where
  "ToLower L s = (if is_ascii s then map ascii_lower s else gl_lower L s)"

text \<open>\<open>unicode.IsSpace\<close>: the Latin-1 spaces, and the table \<open>White_Space\<close> beyond.\<close>

definition IsSpace :: "nat \<Rightarrow> bool" where
  "IsSpace r = (if r < 256 then (9 \<le> r \<and> r \<le> 13) \<or> r = 32 \<or> r = 133 \<or> r = 160
     else r = 5760 \<or> (8192 \<le> r \<and> r \<le> 8202) \<or> r = 8232 \<or> r = 8233 \<or> r = 8239 \<or> r = 8287 \<or> r = 12288)"

function trim_left :: "string \<Rightarrow> string" where
  "trim_left s = (if s \<noteq> [] \<and> IsSpace (fst (DecodeRune s))
     then trim_left (drop (max 1 (snd (DecodeRune s))) s) else s)"
  by pat_completeness auto
termination
  by (relation "measure length") auto

function trim_right :: "string \<Rightarrow> string" where
  "trim_right s = (if s \<noteq> [] \<and> IsSpace (fst (DecodeLastRune s))
     then trim_right (take (length s - max 1 (snd (DecodeLastRune s))) s) else s)"
  by pat_completeness auto
termination
  by (relation "measure length") auto

declare trim_left.simps [simp del] trim_right.simps [simp del]

definition TrimSpace :: "string \<Rightarrow> string" where
  "TrimSpace s = trim_right (trim_left s)"

definition ContainsAny :: "string \<Rightarrow> string \<Rightarrow> bool" where
  "ContainsAny s chars \<longleftrightarrow> list_ex (\<lambda>c. c \<in> set chars) s"

definition HasPrefix :: "string \<Rightarrow> string \<Rightarrow> bool" where
  "HasPrefix s p \<longleftrightarrow> take (length p) s = p"

text \<open>\<open>strconv.Itoa\<close>\<close>

fun digits :: "nat \<Rightarrow> string" where
  "digits n = (if n < 10 then [char_of (48 + n)] else digits (n div 10) @ [char_of (48 + n mod 10)])"

declare digits.simps [simp del]

definition Itoa :: "int \<Rightarrow> string" where
  "Itoa x = (if x < 0 then CHR ''-'' # digits (nat (- x)) else digits (nat x))"

section \<open>net/url\<close>

text \<open>
  The scheme of a URL: letters, digits and \<open>+-.\<close> up to the first colon, beginning with a
  letter. \<open>url.Parse\<close> returns it in lower case.
\<close>

definition is_letter :: "char \<Rightarrow> bool" where
  "is_letter c \<longleftrightarrow> (97 \<le> byte c \<and> byte c \<le> 122) \<or> (65 \<le> byte c \<and> byte c \<le> 90)"

fun scheme_end :: "nat \<Rightarrow> string \<Rightarrow> nat option" where
  "scheme_end i [] = None"
| "scheme_end i (c # cs) =
     (if is_letter c then scheme_end (Suc i) cs
      else if (48 \<le> byte c \<and> byte c \<le> 57) \<or> c \<in> set ''+-.'' then
        (if i = 0 then None else scheme_end (Suc i) cs)
      else if c = CHR '':'' then (if i = 0 then None else Some i)
      else None)"

definition getScheme :: "string \<Rightarrow> string" where
  "getScheme s = (case scheme_end 0 s of Some i \<Rightarrow> take i s | None \<Rightarrow> [])"

definition url_Parse :: "golib \<Rightarrow> string \<Rightarrow> string + string" where
  "url_Parse L s = (case gl_url_error L s of
     Some e \<Rightarrow> Inl e | None \<Rightarrow> Inr (ToLower L (getScheme s)))"

section \<open>html\<close>

definition escape_char_html :: "char \<Rightarrow> string" where
  "escape_char_html c =
     (if c = CHR ''&'' then ''&amp;''
      else if c = CHR 0x27 then ''&#39;''
      else if c = CHR ''<'' then ''&lt;''
      else if c = CHR ''>'' then ''&gt;''
      else if c = CHR 0x22 then ''&#34;''
      else [c])"

definition EscapeString :: "string \<Rightarrow> string" where
  "EscapeString s = concat (map escape_char_html s)"

definition markup_chars :: "char set" where
  "markup_chars = {CHR ''<'', CHR ''>'', CHR 0x22, CHR 0x27}"

lemma EscapeString_plain: "set (EscapeString s) \<inter> markup_chars = {}"
proof -
  have "set (escape_char_html c) \<inter> markup_chars = {}" for c
    by (simp add: escape_char_html_def markup_chars_def)
  then show ?thesis by (induction s) (auto simp: EscapeString_def)
qed

lemma ToLower_ascii_inv:
  assumes "\<And>s c. c \<in> set s \<Longrightarrow> byte c < 128 \<Longrightarrow> ascii_lower c \<in> set (gl_lower L s)"
    and "c \<in> set s" and "byte c < 128"
  shows "ascii_lower c \<in> set (ToLower L s)"
  using assms by (auto simp: ToLower_def)

end
