(* ===== verification/Scum_SerializeWarnings.thy ===== *)
theory Scum_SerializeWarnings
  imports Scum_Demo Scum_Tokenize Go_Strings
begin

text \<open>
  Warnings for JSON (\<open>serializable_warning.go\<close>): the table of code names, the table of
  serializers that \<open>init\<close> fills, each serializer, and \<open>SerializeAll\<close>.
\<close>

record serializable_warning =
  sw_Code :: int
  sw_Codename :: string
  sw_ByteIdx :: int
  sw_SymbolIdx :: int
  sw_Description :: string

text \<open>\<open>mapIssueToCodename\<close> after \<open>init\<close>; an entry that \<open>init\<close> does not set is empty.\<close>

definition codename :: "issue \<Rightarrow> string" where
  "codename i = (case i of
     IssueAmbiguousTagType \<Rightarrow> ''AMBIGUOUS_TAG_TYPE''
   | IssueAttrKeyTooLong \<Rightarrow> ''ATTR_KEY_TOO_LONG''
   | IssueAttrPayloadTooLong \<Rightarrow> ''ATTR_PAYLOAD_TOO_LONG''
   | IssueDuplicateNestedTag \<Rightarrow> ''DUPLICATE_NESTED_TAG''
   | IssueDuplicateTagID \<Rightarrow> ''DUPLICATE_TAG_ID''
   | IssueEmptyAttrPayload \<Rightarrow> ''EMPTY_ATTR_PAYLOAD''
   | IssueInvalidAttrSymbol \<Rightarrow> ''INVALID_ATTR_SYMBOL''
   | IssueInvalidGreedLevel \<Rightarrow> ''INVALID_GREED_LEVEL''
   | IssueInvalidTagSeq \<Rightarrow> ''INVALID_TAG_SEQ''
   | IssueInvalidTagSeqLen \<Rightarrow> ''INVALID_TAG_SEQ_LEN''
   | IssueMisplacedClosingTag \<Rightarrow> ''MISPLACED_CLOSING_TAG''
   | IssueNegativeLimit \<Rightarrow> ''NEGATIVE_LIMIT''
   | IssueNegativeWarningsCap \<Rightarrow> ''NEGATIVE_WARNINGS_CAP''
   | IssueOpenCloseTagMismatch \<Rightarrow> ''OPEN_CLOSE_TAG_MISMATCH''
   | IssueRedundantEscape \<Rightarrow> ''REDUNDANT_ESCAPE''
   | IssueRuleInapplicable \<Rightarrow> ''RULE_INAPPLICABLE''
   | IssueTagKeyTooLong \<Rightarrow> ''TAG_KEY_TOO_LONG''
   | IssueTagPayloadTooLong \<Rightarrow> ''TAG_PAYLOAD_TOO_LONG''
   | IssueUnexpectedEOL \<Rightarrow> ''UNEXPECTED_EOL''
   | IssueUnexpectedSymbol \<Rightarrow> ''UNEXPECTED_SYMBOL''
   | IssueUnclosedAttrPayload \<Rightarrow> ''UNCLOSED_ATTR_PAYLOAD''
   | IssueUnclosedTag \<Rightarrow> ''UNCLOSED_TAG''
   | IssueUnprintableChar \<Rightarrow> ''UNPRINTABLE_CHAR''
   | IssueWarningsTruncated \<Rightarrow> ''WARNINGS_TRUNCATED''
   | IssueInvalidRule \<Rightarrow> ''INVALID_RULE''
   | IssueInvalidTagNameLen \<Rightarrow> ''INVALID_TAG_NAME_LEN''
   | IssueMaxNodesExceeded \<Rightarrow> ''MAX_NODES_EXCEEDED''
   | IssueMaxAttributesExceeded \<Rightarrow> ''MAX_ATTRIBUTES_EXCEEDED''
   | IssueMaxParseDepthExceeded \<Rightarrow> ''MAX_PARSE_DEPTH_EXCEEDED''
   | IssueInvalidWarningsPolicy \<Rightarrow> [])"

text \<open>
  What the serializers use of the Go library: \<open>string(b)\<close> of a byte is the UTF-8 encoding of
  the rune with that number.
\<close>

definition string_of_byte :: "char \<Rightarrow> string" where
  "string_of_byte b = (if byte b < 128 then [b]
     else [char_of (192 + byte b div 64), char_of (128 + byte b mod 64)])"

definition described :: "warning \<Rightarrow> string \<Rightarrow> serializable_warning" where
  "described w desc = \<lparr>sw_Code = issue_code (w_Issue w), sw_Codename = codename (w_Issue w),
     sw_ByteIdx = w_Pos w, sw_SymbolIdx = 0, sw_Description = desc\<rparr>"

definition name_of :: "dictionary \<Rightarrow> char \<Rightarrow> string" where
  "name_of d c = tag_Name (d_tags d c)"

definition serializeGeneric :: "warning \<Rightarrow> dictionary \<Rightarrow> serializable_warning" where
  "serializeGeneric w d = described w []"

definition serializeWarningsTruncated :: "warning \<Rightarrow> dictionary \<Rightarrow> serializable_warning" where
  "serializeWarningsTruncated w d =
     described w ''too many warnings; further warnings suppressed''"

definition serializeMaxNodesExceeded :: "warning \<Rightarrow> dictionary \<Rightarrow> serializable_warning" where
  "serializeMaxNodesExceeded w d =
     described w ''maximum AST node count reached; further nodes were omitted.''"

definition serializeMaxAttributesExceeded :: "warning \<Rightarrow> dictionary \<Rightarrow> serializable_warning" where
  "serializeMaxAttributesExceeded w d =
     described w ''maximum AST attribute count reached; further attributes were omitted.''"

definition serializeMaxParseDepthExceeded :: "warning \<Rightarrow> dictionary \<Rightarrow> serializable_warning" where
  "serializeMaxParseDepthExceeded w d =
     described w ''maximum parse depth reached; further nested tag structure was omitted.''"

definition serializeUnclosedTag :: "warning \<Rightarrow> dictionary \<Rightarrow> serializable_warning" where
  "serializeUnclosedTag w d = described w
     (''unclosed tag with name '' @ name_of d (w_TagID w)
      @ '': expected closing tag with name '' @ name_of d (w_CloseTagID w) @ ''.'')"

definition serializeTagPayloadTooLong :: "warning \<Rightarrow> dictionary \<Rightarrow> serializable_warning" where
  "serializeTagPayloadTooLong w d = described w ''tag's payload length limit reached.''"

definition serializeTagKeyTooLong :: "warning \<Rightarrow> dictionary \<Rightarrow> serializable_warning" where
  "serializeTagKeyTooLong w d =
     described w ''tag's opening/closing sequence length limit reached.''"

definition serializeUnexpectedEOL :: "warning \<Rightarrow> dictionary \<Rightarrow> serializable_warning" where
  "serializeUnexpectedEOL w d = described w
     (if w_TagID w \<noteq> NUL then
        ''opening tag with name '' @ name_of d (w_TagID w)
        @ '' was found at the very end of the input and will be treated as plain text.''
      else ''redundant escape symbol found at the very end of the input.'')"

definition serializeUnexpectedSymbol :: "warning \<Rightarrow> dictionary \<Rightarrow> serializable_warning" where
  "serializeUnexpectedSymbol w d = described w
     (''unexpected symbol while processing the tag with name '' @ name_of d (w_TagID w)
      @ '': expected to get '' @ string_of_byte (w_Expected w)
      @ '', but got '' @ string_of_byte (w_Got w) @ ''.'')"

definition serializeMisplacedClosingTag :: "warning \<Rightarrow> dictionary \<Rightarrow> serializable_warning" where
  "serializeMisplacedClosingTag w d = described w
     (if w_TagID w \<noteq> NUL then
        (if w_Expected w = NUL then
           ''closing tag with name '' @ name_of d (w_TagID w)
           @ '' found at the very start of the input and will be treated as plain text.''
         else
           ''closing tag with name '' @ name_of d (w_TagID w)
           @ '' expected to have an opening counterpart with name ''
           @ name_of d (tag_OpenID (d_tags d (w_TagID w))) @ '' which is missing in the input.'')
      else ''misplaced closing tag.'')"

definition serializeRedundantEscape :: "warning \<Rightarrow> dictionary \<Rightarrow> serializable_warning" where
  "serializeRedundantEscape w d =
     (let got = (if w_Got w \<noteq> NUL then string_of_byte (w_Got w) else ''invalid UTF-8 sequence'') in
      described w (''redundant escape symbol found at index '' @ Itoa (w_Pos w)
        @ '', before non-special '' @ got @ ''.''))"

definition serializeOpenCloseTagMismatch :: "warning \<Rightarrow> dictionary \<Rightarrow> serializable_warning" where
  "serializeOpenCloseTagMismatch w d = described w
     (''closing tag with name '' @ name_of d (w_TagID w)
      @ '' cannot match with opening tag with name '' @ name_of d (w_Expected w) @ ''.'')"

definition serializeDuplicateNestedTag :: "warning \<Rightarrow> dictionary \<Rightarrow> serializable_warning" where
  "serializeDuplicateNestedTag w d = described w
     (''tag with name '' @ name_of d (w_TagID w)
      @ '' is a descendant of the tag with the same name.'')"

text \<open>The table \<open>serializers\<close> after \<open>init\<close>; \<open>None\<close> is a nil entry.\<close>

definition serializer_of ::
  "issue \<Rightarrow> (warning \<Rightarrow> dictionary \<Rightarrow> serializable_warning) option" where
  "serializer_of i = (case i of
     IssueUnexpectedEOL \<Rightarrow> Some serializeUnexpectedEOL
   | IssueUnexpectedSymbol \<Rightarrow> Some serializeUnexpectedSymbol
   | IssueUnclosedTag \<Rightarrow> Some serializeUnclosedTag
   | IssueMisplacedClosingTag \<Rightarrow> Some serializeMisplacedClosingTag
   | IssueRedundantEscape \<Rightarrow> Some serializeRedundantEscape
   | IssueWarningsTruncated \<Rightarrow> Some serializeWarningsTruncated
   | IssueTagKeyTooLong \<Rightarrow> Some serializeTagKeyTooLong
   | IssueTagPayloadTooLong \<Rightarrow> Some serializeTagPayloadTooLong
   | IssueOpenCloseTagMismatch \<Rightarrow> Some serializeOpenCloseTagMismatch
   | IssueDuplicateNestedTag \<Rightarrow> Some serializeDuplicateNestedTag
   | IssueMaxNodesExceeded \<Rightarrow> Some serializeMaxNodesExceeded
   | IssueMaxAttributesExceeded \<Rightarrow> Some serializeMaxAttributesExceeded
   | IssueMaxParseDepthExceeded \<Rightarrow> Some serializeMaxParseDepthExceeded
   | IssueInvalidWarningsPolicy \<Rightarrow> None
   | _ \<Rightarrow> Some serializeGeneric)"

definition serialize :: "warning \<Rightarrow> dictionary \<Rightarrow> serializable_warning" where
  "serialize w d = (case serializer_of (w_Issue w) of
     Some f \<Rightarrow> f w d | None \<Rightarrow> serializeGeneric w d)"

definition WarnCount :: "warnings \<Rightarrow> int" where
  "WarnCount w = len (ws_list w)"

definition SerializeAll ::
  "warnings \<Rightarrow> serializable_warning list \<Rightarrow> dictionary \<Rightarrow> serializable_warning list" where
  "SerializeAll w target d = foldl (\<lambda>t x. t @ [serialize x d]) target (ws_list w)"

section \<open>Properties\<close>

lemmas serializer_defs = serializeGeneric_def serializeWarningsTruncated_def
  serializeMaxNodesExceeded_def serializeMaxAttributesExceeded_def
  serializeMaxParseDepthExceeded_def serializeUnclosedTag_def serializeTagPayloadTooLong_def
  serializeTagKeyTooLong_def serializeUnexpectedEOL_def serializeUnexpectedSymbol_def
  serializeMisplacedClosingTag_def serializeRedundantEscape_def
  serializeOpenCloseTagMismatch_def serializeDuplicateNestedTag_def

lemma serialize_described: "\<exists>desc. serialize w d = described w desc"
  unfolding serialize_def serializer_of_def
  by (cases "w_Issue w"; simp only: issue.case option.case serializer_defs Let_def; rule exI; rule refl)

lemma SerializeAll_map: "SerializeAll w target d = target @ map (\<lambda>x. serialize x d) (ws_list w)"
proof -
  have "foldl (\<lambda>t x. t @ [serialize x d]) target xs = target @ map (\<lambda>x. serialize x d) xs" for xs
    by (induction xs arbitrary: target) simp_all
  then show ?thesis by (simp add: SerializeAll_def)
qed

text \<open>Two issues have the same code name only if they are the same issue.\<close>

lemma codename_distinct: "distinct (map codename all_issues)"
  by code_simp

lemma codename_inj: "inj codename"
proof -
  have "set all_issues = UNIV" using issue.exhaust by (auto simp: all_issues_def)
  with codename_distinct show ?thesis by (simp add: distinct_map)
qed

text \<open>
  the serialized warnings are those of the collector, one for one and in order, after
  what the target held; each has the code, the code name and the byte position of its
  warning, and both the code and the code name tell the issues apart.
\<close>

theorem warnings_serialized:
  "\<exists>ys. SerializeAll w target d = target @ ys \<and> len ys = WarnCount w
    \<and> map sw_Code ys = map (issue_code \<circ> w_Issue) (ws_list w)
    \<and> map sw_Codename ys = map (codename \<circ> w_Issue) (ws_list w)
    \<and> map sw_ByteIdx ys = map w_Pos (ws_list w) \<and> inj codename"
proof (intro exI conjI)
  show "SerializeAll w target d = target @ map (\<lambda>x. serialize x d) (ws_list w)"
    by (rule SerializeAll_map)
  have "sw_Code (serialize x d) = issue_code (w_Issue x) \<and> sw_Codename (serialize x d) = codename (w_Issue x)
      \<and> sw_ByteIdx (serialize x d) = w_Pos x" for x
    using serialize_described [of x d] by (auto simp: described_def)
  then show "map sw_Code (map (\<lambda>x. serialize x d) (ws_list w)) = map (issue_code \<circ> w_Issue) (ws_list w)"
    "map sw_Codename (map (\<lambda>x. serialize x d) (ws_list w)) = map (codename \<circ> w_Issue) (ws_list w)"
    "map sw_ByteIdx (map (\<lambda>x. serialize x d) (ws_list w)) = map w_Pos (ws_list w)"
    by simp_all
qed (simp_all add: WarnCount_def codename_inj)

text \<open>
  The descriptions and the index of a serialized warning can mislead. The index of the
  symbol is never set. An attribute trigger at the end of the input is described as an escape
  symbol, and \<open>IssueInvalidWarningsPolicy\<close> has no code name.
\<close>

theorem warnings_misdescribed:
  "sw_SymbolIdx (serialize w d) = 0
   \<and> map_option (\<lambda>(out, w). map sw_Description (SerializeAll w [] demo))
       (Tokenize demo_unicode demo ''a!'' demo_log)
     = Some [''redundant escape symbol found at the very end of the input.'']
   \<and> codename IssueInvalidWarningsPolicy = []"
proof (intro conjI)
  show "sw_SymbolIdx (serialize w d) = 0"
    using serialize_described [of w d] by (auto simp: described_def)
  show "map_option (\<lambda>(out, w). map sw_Description (SerializeAll w [] demo))
       (Tokenize demo_unicode demo ''a!'' demo_log)
     = Some [''redundant escape symbol found at the very end of the input.'']"
    by code_simp
qed (simp add: codename_def)

end
