(* ===== verification/Sml_Issues.thy ===== *)
theory Sml_Issues
  imports Scum_SerializeWarnings
begin

text \<open>
  The issues of the post language (\<open>sml/syntax_issue.go\<close>, \<open>sml/config_error.go\<close>): the codes
  with their names, the descriptor of an issue, the wrapped warning of the parser, and the
  list they are collected in. \<open>SyntaxIssue\<close>, an interface of the code, is the sum of its two
  implementations.
\<close>

definition ReasonInternal :: string where "ReasonInternal = ''INTERNAL''"
definition ReasonInvalidParams :: string where "ReasonInvalidParams = ''INVALID_PARAMS''"

record sml_config_error =
  ce_SubjectName :: string
  ce_Reason :: string
  ce_Err :: config_error

definition sml_NewConfigError :: "string \<Rightarrow> string \<Rightarrow> config_error \<Rightarrow> sml_config_error" where
  "sml_NewConfigError name reason err =
     \<lparr>ce_SubjectName = name, ce_Reason = reason, ce_Err = err\<rparr>"

definition sml_issueCodeBase :: int where "sml_issueCodeBase = 2000"
definition IssueInternal :: int where "IssueInternal = sml_issueCodeBase"
definition IssueConfig :: int where "IssueConfig = sml_issueCodeBase + 1"
definition IssueUnknownNodeType :: int where "IssueUnknownNodeType = sml_issueCodeBase + 2"
definition IssueUnknownTag :: int where "IssueUnknownTag = sml_issueCodeBase + 3"
definition IssueAttributeNotAllowed :: int where "IssueAttributeNotAllowed = sml_issueCodeBase + 4"
definition IssueAttributeInvalidPayload :: int where
  "IssueAttributeInvalidPayload = sml_issueCodeBase + 5"
definition sml_maxIssueCode :: int where "sml_maxIssueCode = sml_issueCodeBase + 6"

lemmas sml_issue_defs = sml_issueCodeBase_def IssueInternal_def IssueConfig_def
  IssueUnknownNodeType_def IssueUnknownTag_def IssueAttributeNotAllowed_def
  IssueAttributeInvalidPayload_def sml_maxIssueCode_def

text \<open>\<open>mapIssueToStr\<close> after \<open>init\<close>, in the order of the indices.\<close>

definition mapIssueToStr :: "string list" where
  "mapIssueToStr = [''INTERNAL'', ''CONFIG'', ''UNKNOWN_NODE_TYPE'', ''UNKNOWN_TAG'',
     ''ATTRIBUTE_NOT_ALLOWED'', ''ATTRIBUTE_INVALID_PAYLOAD'']"

definition sml_issueIndex :: "int \<Rightarrow> int" where
  "sml_issueIndex i = i - sml_issueCodeBase"

record issue_descriptor =
  id_C :: int
  id_CName :: string
  id_Desc :: string

definition NewSyntaxIssueDescriptor :: "int \<Rightarrow> string \<Rightarrow> issue_descriptor" where
  "NewSyntaxIssueDescriptor code desc =
     (let code' = (if code < sml_issueCodeBase \<or> code \<ge> sml_maxIssueCode then IssueInternal else code) in
      \<lparr>id_C = code', id_CName = mapIssueToStr ! nat (sml_issueIndex code'), id_Desc = desc\<rparr>)"

datatype syntax_issue = Descriptor issue_descriptor | ParserWarning serializable_warning

definition si_Code :: "syntax_issue \<Rightarrow> int" where
  "si_Code i = (case i of Descriptor d \<Rightarrow> id_C d | ParserWarning w \<Rightarrow> sw_Code w)"

definition si_Codename :: "syntax_issue \<Rightarrow> string" where
  "si_Codename i = (case i of Descriptor d \<Rightarrow> id_CName d | ParserWarning w \<Rightarrow> sw_Codename w)"

definition si_Description :: "syntax_issue \<Rightarrow> string" where
  "si_Description i = (case i of Descriptor d \<Rightarrow> id_Desc d | ParserWarning w \<Rightarrow> sw_Description w)"

definition si_String :: "syntax_issue \<Rightarrow> string" where
  "si_String i = (case i of
     Descriptor d \<Rightarrow> ''SML: Codename - '' @ id_CName d @ ''; '' @ id_Desc d
   | ParserWarning w \<Rightarrow> ''SML - Parser: Codename - '' @ sw_Codename w @ ''; '' @ sw_Description w)"

type_synonym issues = "syntax_issue list"

definition Issues_Add :: "issues \<Rightarrow> issue_descriptor \<Rightarrow> issues" where
  "Issues_Add l d = l @ [Descriptor d]"

text \<open>\<open>make([]SyntaxIssue, 0, cap)\<close> panics on a negative capacity.\<close>

definition NewIssues :: "int \<Rightarrow> issues option" where
  "NewIssues cap = (if cap < 0 then None else Some [])"

text \<open>A descriptor always has a code of the enumeration, with its name.\<close>

lemma descriptor_named:
  "sml_issueCodeBase \<le> id_C (NewSyntaxIssueDescriptor code desc)
   \<and> id_C (NewSyntaxIssueDescriptor code desc) < sml_maxIssueCode
   \<and> id_CName (NewSyntaxIssueDescriptor code desc) =
       mapIssueToStr ! nat (sml_issueIndex (id_C (NewSyntaxIssueDescriptor code desc)))"
  by (simp add: NewSyntaxIssueDescriptor_def Let_def sml_issue_defs)

end
