(* ===== verification/Scum_Serialize.thy ===== *)
theory Scum_Serialize
  imports Scum_Parse
begin

text \<open>
  \<open>AST.Serialize\<close> (\<open>serialize.go\<close>): the tree for JSON. All children of all nodes live in one
  backing array, \<open>allChildren\<close>; the \<open>Children\<close> of a node are a window of it, so a node of
  the model holds the start and the length of its window, and the pointers of the tasks are
  references to the root or to a slot of the array. \<open>view\<close> reads the tree that these windows
  show, and \<open>reference_tree\<close> is the tree the arena represents.
\<close>

section \<open>The code\<close>

record serializable_attribute =
  sa_Name :: string
  sa_Payload :: string
  sa_IsFlag :: bool

definition type_name :: "node_type \<Rightarrow> string" where
  "type_name t = (case t of NodeRoot \<Rightarrow> ''Root'' | NodeTag \<Rightarrow> ''Tag'' | NodeText \<Rightarrow> ''Text'')"

definition serialize_attribute :: "string \<Rightarrow> attribute \<Rightarrow> serializable_attribute option" where
  "serialize_attribute input x = do {
     n \<leftarrow> go_slice input (sp_Start (at_Name x)) (sp_End (at_Name x));
     p \<leftarrow> go_slice input (sp_Start (at_Payload x)) (sp_End (at_Payload x));
     Some \<lparr>sa_Name = n, sa_Payload = p, sa_IsFlag = at_IsFlag x\<rparr>
   }"

fun append_attributes ::
  "serializable_attribute list \<Rightarrow> string \<Rightarrow> attribute list \<Rightarrow> serializable_attribute list option" where
  "append_attributes dest input [] = Some dest"
| "append_attributes dest input (x # xs) = do {
     y \<leftarrow> serialize_attribute input x;
     append_attributes (dest @ [y]) input xs
   }"

definition serializeAttributes ::
  "serializable_attribute list \<Rightarrow> ast \<Rightarrow> range \<Rightarrow> serializable_attribute list option" where
  "serializeAttributes dest a r = do {
     win \<leftarrow> go_slice (ast_Attributes a) (rg_Start r) (rg_Start r + rg_Len r);
     append_attributes dest (ast_Input a) win
   }"

text \<open>A node; \<open>sn_First\<close> and \<open>sn_Count\<close> are the window of its \<open>Children\<close>.\<close>

record serializable_node =
  sn_Name :: string
  sn_Type :: string
  sn_Attributes :: "serializable_attribute list"
  sn_Content :: string
  sn_First :: int
  sn_Count :: int
  sn_ID :: char

definition zero_node :: serializable_node where
  "zero_node = \<lparr>sn_Name = [], sn_Type = [], sn_Attributes = [], sn_Content = [],
     sn_First = 0, sn_Count = 0, sn_ID = NUL\<rparr>"

datatype node_ref = TreeRef | SlotRef int

record serialize_task =
  tk_parent :: node_ref
  tk_childIdx :: int
  tk_nodeIdx :: int

definition deref :: "serializable_node \<Rightarrow> serializable_node list \<Rightarrow> node_ref \<Rightarrow> serializable_node option" where
  "deref t all r = (case r of TreeRef \<Rightarrow> Some t | SlotRef k \<Rightarrow> go_index all k)"

text \<open>\<open>&parent.Children[childIdx]\<close>, as a slot of the backing array.\<close>

definition child_slot ::
  "serializable_node \<Rightarrow> serializable_node list \<Rightarrow> serialize_task \<Rightarrow> int option" where
  "child_slot t all k = do {
     p \<leftarrow> deref t all (tk_parent k);
     if 0 \<le> tk_childIdx k \<and> tk_childIdx k < sn_Count p
     then Some (sn_First p + tk_childIdx k) else None
   }"

text \<open>\<open>make([]SerializableAttribute, 0, n)\<close> panics when \<open>n\<close> is negative.\<close>

definition node_attributes :: "ast \<Rightarrow> node \<Rightarrow> serializable_attribute list option" where
  "node_attributes a nd =
     (if rg_Len (nd_Attributes nd) < 0 then None else serializeAttributes [] a (nd_Attributes nd))"

definition take_window :: "serializable_node list \<Rightarrow> int \<Rightarrow> int \<Rightarrow> int option" where
  "take_window all used n =
     (if 0 \<le> used \<and> used \<le> used + n \<and> used + n \<le> len all then Some (used + n) else None)"

text \<open>The tasks of the children of a node: \<open>n\<close> of them, from the \<open>i\<close>-th, at \<open>childIdx\<close>.\<close>

fun child_tasks :: "node list \<Rightarrow> node_ref \<Rightarrow> nat \<Rightarrow> int \<Rightarrow> int \<Rightarrow> serialize_task list option" where
  "child_tasks ns p 0 i childIdx = Some []"
| "child_tasks ns p (Suc n) i childIdx = do {
     nd \<leftarrow> go_index ns childIdx;
     rest \<leftarrow> child_tasks ns p n (i + 1) (nd_NextSibling nd);
     Some (\<lparr>tk_parent = p, tk_childIdx = i, tk_nodeIdx = childIdx\<rparr> # rest)
   }"

definition make_node ::
  "ast \<Rightarrow> string \<Rightarrow> node_type \<Rightarrow> node \<Rightarrow> int \<Rightarrow> serializable_node option" where
  "make_node a name ty nd used = do {
     attrs \<leftarrow> node_attributes a nd;
     content \<leftarrow> go_slice (ast_Input a) (sp_Start (nd_Span nd)) (sp_End (nd_Span nd));
     Some \<lparr>sn_Name = name, sn_Type = type_name ty, sn_Attributes = attrs, sn_Content = content,
           sn_First = used, sn_Count = nd_ChildCount nd, sn_ID = nd_TagID nd\<rparr>
   }"

definition node_name :: "dictionary \<Rightarrow> node \<Rightarrow> string" where
  "node_name d nd =
     (if nd_Type nd = NodeTag then tag_Name (d_tags d (nd_TagID nd)) else ''TEXT'')"

definition serialize_step ::
  "ast \<Rightarrow> dictionary \<Rightarrow> serializable_node \<Rightarrow> serializable_node list \<Rightarrow> int \<Rightarrow> serialize_task
     \<Rightarrow> (serializable_node list \<times> int \<times> serialize_task list) option" where
  "serialize_step a d t all used k = do {
     nd \<leftarrow> go_index (ast_Nodes a) (tk_nodeIdx k);
     used' \<leftarrow> take_window all used (nd_ChildCount nd);
     sn \<leftarrow> make_node a (node_name d nd) (nd_Type nd) nd used;
     slot \<leftarrow> child_slot t all k;
     all' \<leftarrow> go_update all slot sn;
     new \<leftarrow> child_tasks (ast_Nodes a) (SlotRef slot) (nat (nd_ChildCount nd)) 0 (nd_FirstChild nd);
     Some (all', used', new)
   }"

text \<open>The stack of tasks has its top at the end.\<close>

partial_function (option) serialize_loop ::
  "ast \<Rightarrow> dictionary \<Rightarrow> serializable_node \<Rightarrow> serializable_node list \<Rightarrow> int \<Rightarrow> serialize_task list
     \<Rightarrow> serializable_node list option" where
  "serialize_loop a d t all used stack =
     (if stack = [] then Some all
      else Option.bind (serialize_step a d t all used (last stack))
        (\<lambda>(all', used', new). serialize_loop a d t all' used' (butlast stack @ new)))"

declare serialize_loop.simps [code]

definition Serialize ::
  "ast \<Rightarrow> dictionary \<Rightarrow> (serializable_node \<times> serializable_node list) option" where
  "Serialize a d = do {
     root \<leftarrow> go_index (ast_Nodes a) 0;
     let all = replicate (length (ast_Nodes a) - 1) zero_node;
     used \<leftarrow> take_window all 0 (nd_ChildCount root);
     t \<leftarrow> make_node a ''ROOT'' NodeRoot root 0;
     stack \<leftarrow> (if ast_MaxDepth a < 0 then None
              else child_tasks (ast_Nodes a) TreeRef (nat (nd_ChildCount root)) 0 (nd_FirstChild root));
     all' \<leftarrow> serialize_loop a d t all used stack;
     Some (t, all')
   }"

section \<open>The tree it should show\<close>

datatype stree = STree (st_name: string) (st_type: string)
  (st_attributes: "serializable_attribute list") (st_content: string) (st_children: "stree list")
  (st_id: char)

text \<open>The tree below a node, read through the windows down to a depth.\<close>

fun view :: "nat \<Rightarrow> serializable_node list \<Rightarrow> serializable_node \<Rightarrow> stree" where
  "view 0 all n = STree (sn_Name n) (sn_Type n) (sn_Attributes n) (sn_Content n) [] (sn_ID n)"
| "view (Suc k) all n = STree (sn_Name n) (sn_Type n) (sn_Attributes n) (sn_Content n)
     (map (view k all) (take (nat (sn_Count n)) (drop (nat (sn_First n)) all))) (sn_ID n)"

definition piece :: "string \<Rightarrow> span \<Rightarrow> string" where
  "piece input s = take (nat (sp_End s) - nat (sp_Start s)) (drop (nat (sp_Start s)) input)"

definition attribute_view :: "string \<Rightarrow> attribute \<Rightarrow> serializable_attribute" where
  "attribute_view input x = \<lparr>sa_Name = piece input (at_Name x),
     sa_Payload = piece input (at_Payload x), sa_IsFlag = at_IsFlag x\<rparr>"

definition attributes_view :: "ast \<Rightarrow> range \<Rightarrow> serializable_attribute list" where
  "attributes_view a r = map (attribute_view (ast_Input a))
     (take (nat (rg_Len r)) (drop (nat (rg_Start r)) (ast_Attributes a)))"

text \<open>The tree of the arena from a node down, with the names of the dictionary.\<close>

function reference_tree :: "ast \<Rightarrow> dictionary \<Rightarrow> parents \<Rightarrow> nat \<Rightarrow> stree" where
  "reference_tree a d par i = (let nd = ast_Nodes a ! i in
     STree (if i = 0 then ''ROOT'' else node_name d nd) (type_name (nd_Type nd))
       (attributes_view a (nd_Attributes nd)) (piece (ast_Input a) (nd_Span nd))
       (map (reference_tree a d par) (filter (\<lambda>j. i < j) (kids par i))) (nd_TagID nd))"
  by pat_completeness auto
termination
  by (relation "measure (\<lambda>(a, d, par, i). length par - i)") (auto simp: kids_set)

declare reference_tree.simps [simp del]

section \<open>Serialize shows the tree\<close>

definition readable :: "ast \<Rightarrow> parents \<Rightarrow> bool" where
  "readable a par \<longleftrightarrow> arena (ast_Nodes a) par \<and> typed (map core_of (ast_Nodes a)) par \<and> attrs_ok a
     \<and> spans_ok (ast_Nodes a) (len (ast_Input a)) \<and> attr_spans (ast_Attributes a) (len (ast_Input a))"

lemma go_slice_piece: "span_in 0 (len input) s \<Longrightarrow> go_slice input (sp_Start s) (sp_End s) = Some (piece input s)"
  by (simp add: span_in_def go_slice_def piece_def)

lemma append_attributes_view:
  "attr_spans xs (len input) \<Longrightarrow> append_attributes dest input xs = Some (dest @ map (attribute_view input) xs)"
  by (induction dest input xs rule: append_attributes.induct)
     (simp_all add: attr_spans_def serialize_attribute_def go_slice_piece attribute_view_def)

lemma make_node_shows:
  assumes "readable a par" and i: "i < length (ast_Nodes a)"
  shows "make_node a name ty (ast_Nodes a ! i) used =
     Some \<lparr>sn_Name = name, sn_Type = type_name ty,
       sn_Attributes = attributes_view a (nd_Attributes (ast_Nodes a ! i)),
       sn_Content = piece (ast_Input a) (nd_Span (ast_Nodes a ! i)), sn_First = used,
       sn_Count = len (kids par i), sn_ID = nd_TagID (ast_Nodes a ! i)\<rparr>"
proof -
  let ?nd = "ast_Nodes a ! i" and ?r = "nd_Attributes (ast_Nodes a ! i)"
  have r: "0 \<le> rg_Start ?r" "0 \<le> rg_Len ?r" "rg_Start ?r + rg_Len ?r \<le> len (ast_Attributes a)"
    using assms(1) nth_mem [OF i] by (auto simp: readable_def attrs_ok_def Let_def)
  have win: "go_slice (ast_Attributes a) (rg_Start ?r) (rg_Start ?r + rg_Len ?r) =
      Some (take (nat (rg_Len ?r)) (drop (nat (rg_Start ?r)) (ast_Attributes a)))"
    using r by (simp add: go_slice_def nat_add_distrib)
  have "attr_spans (take (nat (rg_Len ?r)) (drop (nat (rg_Start ?r)) (ast_Attributes a))) (len (ast_Input a))"
    using assms(1) by (auto simp: readable_def attr_spans_def dest: in_set_takeD in_set_dropD)
  then have "node_attributes a ?nd = Some (attributes_view a ?r)"
    using r by (simp add: node_attributes_def serializeAttributes_def win append_attributes_view attributes_view_def)
  moreover have "span_in 0 (len (ast_Input a)) (nd_Span ?nd)"
    using assms(1) nth_mem [OF i] by (simp add: readable_def spans_ok_def)
  moreover have "nd_ChildCount ?nd = len (kids par i)"
    using assms by (simp add: readable_def arena_node)
  ultimately show ?thesis by (simp add: make_node_def go_slice_piece)
qed

text \<open>The tasks of the children, in order.\<close>

definition tasks_of :: "node_ref \<Rightarrow> int \<Rightarrow> nat list \<Rightarrow> serialize_task list" where
  "tasks_of p c ks =
     map (\<lambda>j. \<lparr>tk_parent = p, tk_childIdx = c + int j, tk_nodeIdx = int (ks ! j)\<rparr>) [0..<length ks]"

lemma tasks_of_Cons: "tasks_of p c (k # ks) =
    \<lparr>tk_parent = p, tk_childIdx = c, tk_nodeIdx = int k\<rparr> # tasks_of p (c + 1) ks"
  unfolding tasks_of_def
  by (simp add: upt_conv_Cons map_Suc_upt [symmetric] del: upt_Suc)

lemma child_tasks_chain:
  assumes "arena ns par" and "\<forall>k \<in> set ks. k < length par"
    and "ks \<noteq> [] \<Longrightarrow> later_siblings par (hd ks) = tl ks"
  shows "child_tasks ns p (length ks) c (first_or ks) = Some (tasks_of p c ks)"
  using assms(2,3)
proof (induction ks arbitrary: c)
  case Nil
  show ?case by (simp add: tasks_of_def)
next
  case (Cons k ks)
  have "k < length ns" using Cons.prems assms(1) by (simp add: arena_def)
  then have "go_index ns (int k) = Some (ns ! k)" "nd_NextSibling (ns ! k) = first_or ks"
    using Cons.prems assms(1) by (simp_all add: go_index_def len_def arena_node)
  moreover have "ks \<noteq> [] \<Longrightarrow> later_siblings par (hd ks) = tl ks"
    using Cons.prems(2) siblings_Cons [of par k "hd ks" "tl ks"] by simp
  ultimately show ?case using Cons.IH [of "c + 1"] Cons.prems(1) by (simp add: tasks_of_Cons)
qed

lemma child_tasks_kids:
  assumes "arena ns par" and "i < length ns"
  shows "child_tasks ns p (nat (nd_ChildCount (ns ! i))) 0 (nd_FirstChild (ns ! i)) =
    Some (tasks_of p 0 (kids par i))"
proof -
  have "kids par i \<noteq> [] \<Longrightarrow> later_siblings par (hd (kids par i)) = tl (kids par i)"
    by (rule kids_Cons) simp
  with child_tasks_chain [OF assms(1), of "kids par i" p 0] show ?thesis
    by (simp add: arena_node [OF assms] kids_set)
qed

text \<open>
  The slots are handed out in the order in which nodes are met: \<open>alloc\<close> lists the nodes by
  their slot. A node is shown by a stored one when the fields are its own and the window
  holds its children.
\<close>

definition shown :: "ast \<Rightarrow> dictionary \<Rightarrow> parents \<Rightarrow> nat list \<Rightarrow> nat \<Rightarrow> serializable_node \<Rightarrow> bool" where
  "shown a d par alloc i sn \<longleftrightarrow> (let nd = ast_Nodes a ! i; c = nat (sn_First sn) in
     sn_Name sn = (if i = 0 then ''ROOT'' else node_name d nd)
     \<and> sn_Type sn = type_name (nd_Type nd) \<and> sn_Attributes sn = attributes_view a (nd_Attributes nd)
     \<and> sn_Content sn = piece (ast_Input a) (nd_Span nd) \<and> sn_ID sn = nd_TagID nd
     \<and> sn_Count sn = len (kids par i) \<and> 0 \<le> sn_First sn
     \<and> c + length (kids par i) \<le> length alloc
     \<and> take (length (kids par i)) (drop c alloc) = kids par i)"

lemma shown_more: "shown a d par alloc i sn \<Longrightarrow> shown a d par (alloc @ ks) i sn"
  by (auto simp: shown_def Let_def)

lemma shown_view:
  assumes "tree par" and "\<forall>s < length alloc. shown a d par alloc (alloc ! s) (all ! s)"
    and "length alloc \<le> length all" and "shown a d par alloc i sn" and "length par - i \<le> k" and "i < length par"
  shows "view k all sn = reference_tree a d par i"
  using assms(4-6)
proof (induction k arbitrary: i sn)
  case (Suc k)
  let ?ks = "kids par i" and ?c = "nat (sn_First sn)"
  have sn: "?c + length ?ks \<le> length alloc" "take (length ?ks) (drop ?c alloc) = ?ks"
    "nat (sn_Count sn) = length ?ks"
    using Suc.prems(1) by (auto simp: shown_def Let_def)
  have at: "alloc ! (?c + j) = ?ks ! j" if "j < length ?ks" for j
    using sn that by (metis nth_drop nth_take le_add1 order_trans)
  have "map (view k all) (take (length ?ks) (drop ?c all)) = map (reference_tree a d par) ?ks"
  proof (rule nth_equalityI)
    fix j assume "j < length (map (view k all) (take (length ?ks) (drop ?c all)))"
    then have j: "j < length ?ks" by simp
    then have "?ks ! j \<in> set ?ks" by simp
    then have gt: "i < ?ks ! j \<and> ?ks ! j < length par" by (rule kids_gt [OF assms(1)])
    have "shown a d par alloc (?ks ! j) (all ! (?c + j))"
      using assms(2) at [OF j] j sn(1) by (metis add_less_cancel_left less_le_trans)
    moreover have "length par - ?ks ! j \<le> k" using gt Suc.prems(2) by arith
    ultimately have "view k all (all ! (?c + j)) = reference_tree a d par (?ks ! j)"
      using Suc.IH gt by blast
    with j sn(1) assms(3) show "map (view k all) (take (length ?ks) (drop ?c all)) ! j =
        map (reference_tree a d par) ?ks ! j" by simp
  qed (use sn(1) assms(3) in simp)
  moreover have "filter (\<lambda>j. i < j) ?ks = ?ks"
    using kids_gt [OF assms(1)] by (auto intro: filter_True)
  ultimately show ?case
    using Suc.prems(1) sn(3)
    by (subst reference_tree.simps) (simp add: shown_def Let_def)
qed simp

section \<open>The loop\<close>

text \<open>
  The invariant: the tasks of the stack are for the slots \<open>ps\<close>, which nobody has written;
  every other slot shows its node, and every node that has a slot has a parent that is shown.
\<close>

definition pending ::
  "serializable_node \<Rightarrow> serializable_node list \<Rightarrow> nat list \<Rightarrow> nat list \<Rightarrow> serialize_task \<Rightarrow> nat \<Rightarrow> bool" where
  "pending t all alloc ps k s \<longleftrightarrow> child_slot t all k = Some (int s) \<and> s < length alloc
     \<and> tk_nodeIdx k = int (alloc ! s) \<and> (\<forall>q. tk_parent k = SlotRef q \<longrightarrow> q < len alloc \<and> q \<notin> int ` set ps)"

definition loop_state ::
  "ast \<Rightarrow> dictionary \<Rightarrow> parents \<Rightarrow> serializable_node \<Rightarrow> serializable_node list \<Rightarrow> serialize_task list
     \<Rightarrow> nat list \<Rightarrow> nat list \<Rightarrow> bool" where
  "loop_state a d par t all stack alloc ps \<longleftrightarrow> length all = length par - 1 \<and> distinct alloc
     \<and> set alloc \<subseteq> {1..<length par} \<and> distinct ps \<and> list_all2 (pending t all alloc ps) stack ps
     \<and> shown a d par alloc 0 t
     \<and> (\<forall>s < length alloc. s \<notin> set ps \<longrightarrow> shown a d par alloc (alloc ! s) (all ! s))
     \<and> (\<forall>j \<in> set alloc. par ! j = 0 \<or> (\<exists>s < length alloc. s \<notin> set ps \<and> alloc ! s = par ! j))"

lemma alloc_room:
  assumes "distinct alloc" and "set alloc \<subseteq> {1..<n}"
  shows "length alloc \<le> n - 1"
proof -
  have "length alloc = card (set alloc)" using assms(1) by (simp add: distinct_card)
  also have "\<dots> \<le> card {1..<n}" using assms(2) by (intro card_mono) auto
  finally show ?thesis by simp
qed

text \<open>The children of a node that is not shown have no slots yet, so there is room for them.\<close>

lemma alloc_kids:
  assumes "tree par" and "distinct alloc" and "set alloc \<subseteq> {1..<length par}" and "s < length alloc"
    and "s \<in> set ps"
    and "\<forall>j \<in> set alloc. par ! j = 0 \<or> (\<exists>s < length alloc. s \<notin> set ps \<and> alloc ! s = par ! j)"
  shows "distinct (alloc @ kids par (alloc ! s)) \<and> set (alloc @ kids par (alloc ! s)) \<subseteq> {1..<length par}
    \<and> length alloc + length (kids par (alloc ! s)) \<le> length par - 1"
proof -
  have i: "alloc ! s \<noteq> 0" using assms(3,4) nth_mem by fastforce
  have "j \<notin> set (kids par (alloc ! s))" if j: "j \<in> set alloc" for j
  proof
    assume "j \<in> set (kids par (alloc ! s))"
    then have "par ! j = alloc ! s" by (simp add: kids_set)
    then obtain s' where "s' < length alloc" "s' \<notin> set ps" "alloc ! s' = alloc ! s"
      using assms(6) j i by auto
    with assms(2,4,5) show False by (simp add: nth_eq_iff_index_eq)
  qed
  moreover have "distinct (kids par (alloc ! s))" by (simp add: kids_def)
  ultimately have d: "distinct (alloc @ kids par (alloc ! s))"
    using assms(2) by auto
  have sub: "set (alloc @ kids par (alloc ! s)) \<subseteq> {1..<length par}"
    using assms(3) by (auto simp: kids_set)
  from d sub alloc_room [OF d sub] show ?thesis by simp
qed

lemma new_pending:
  assumes "s \<notin> set ps'" and "s < length all" and "s < length alloc"
    and "all ! s = sn" and "sn_First sn = len alloc" and "sn_Count sn = len ks"
  shows "list_all2 (pending t all (alloc @ ks) (ps' @ [length alloc..<length alloc + length ks]))
    (tasks_of (SlotRef (int s)) 0 ks) [length alloc..<length alloc + length ks]"
  using assms
  by (auto simp: list_all2_conv_all_nth tasks_of_def pending_def child_slot_def deref_def go_index_def
      len_def nth_append image_iff)

lemma serialize_step_ok:
  assumes st: "loop_state a d par t all (st @ [k]) alloc ps" and r: "readable a par"
  shows "\<exists>all' new ks ps'. serialize_step a d t all (len alloc) k = Some (all', len (alloc @ ks), new)
    \<and> loop_state a d par t all' (st @ new) (alloc @ ks) ps'
    \<and> length all' = length all \<and> length new = length ks"
proof -
  note st = st [unfolded loop_state_def]
  from st obtain ps0 s where ps: "ps = ps0 @ [s]" and pst: "list_all2 (pending t all alloc ps) st ps0"
    and pk: "pending t all alloc ps k s"
    by (auto simp: list_all2_append1 list_all2_Cons1)
  let ?i = "alloc ! s" and ?all = "length all"
  define ks where "ks = kids par ?i"
  have tr: "tree par" and ln: "length (ast_Nodes a) = length par" and ar: "arena (ast_Nodes a) par"
    using r by (auto simp: readable_def arena_def)
  have s: "s < length alloc" "s \<in> set ps" "s \<notin> set ps0"
    using pk st ps by (auto simp: pending_def)
  have room: "distinct (alloc @ ks)" "set (alloc @ ks) \<subseteq> {1..<length par}"
    "length alloc + length ks \<le> length all"
    unfolding ks_def using alloc_kids [OF tr _ _ s(1,2)] st by auto
  have i: "?i < length (ast_Nodes a)" "?i \<noteq> 0" "s < length all"
    using room s(1) subsetD [OF room(2), of ?i] ln by (auto simp: nth_append)
  define sn where "sn = \<lparr>sn_Name = node_name d (ast_Nodes a ! ?i), sn_Type = type_name (nd_Type (ast_Nodes a ! ?i)),
       sn_Attributes = attributes_view a (nd_Attributes (ast_Nodes a ! ?i)),
       sn_Content = piece (ast_Input a) (nd_Span (ast_Nodes a ! ?i)), sn_First = len alloc,
       sn_Count = len ks, sn_ID = nd_TagID (ast_Nodes a ! ?i)\<rparr>"
  have window: "sn_First sn = len alloc" "sn_Count sn = len ks" by (simp_all add: sn_def)
  let ?ps = "ps0 @ [length alloc..<length alloc + length ks]" and ?new = "tasks_of (SlotRef (int s)) 0 ks"
  have sh: "shown a d par (alloc @ ks) ?i sn"
    using i by (simp add: shown_def sn_def ks_def Let_def)
  have "serialize_step a d t all (len alloc) k = Some (all[s := sn], len (alloc @ ks), ?new)"
    using pk i room(3) make_node_shows [OF r i(1)] child_tasks_kids [OF ar i(1)] arena_node(3) [OF ar i(1)]
    by (simp add: serialize_step_def pending_def go_index_def take_window_def go_update_def len_def
        sn_def ks_def)
  moreover have "loop_state a d par t (all[s := sn]) (st @ ?new) (alloc @ ks) ?ps"
    unfolding loop_state_def
  proof (intro conjI)
    show "list_all2 (pending t (all[s := sn]) (alloc @ ks) ?ps) (st @ ?new) ?ps"
    proof (rule list_all2_appendI)
      have "pending t (all[s := sn]) (alloc @ ks) ?ps k' s'" if "pending t all alloc ps k' s'" for k' s'
      proof -
        from that have q: "\<forall>q. tk_parent k' = SlotRef q \<longrightarrow> q < len alloc \<and> q \<noteq> int s \<and> q \<notin> int ` set ps0"
          by (auto simp: pending_def ps)
        from that q have "child_slot t (all[s := sn]) k' = child_slot t all k'"
          by (auto simp: child_slot_def deref_def go_index_def split: node_ref.split)
        with that q show ?thesis by (auto simp: pending_def nth_append len_def)
      qed
      with pst show "list_all2 (pending t (all[s := sn]) (alloc @ ks) ?ps) st ps0"
        by (blast intro: list_all2_mono)
    next
      show "list_all2 (pending t (all[s := sn]) (alloc @ ks) ?ps) ?new [length alloc..<length alloc + length ks]"
        using s i window by (intro new_pending) simp_all
    qed
  next
    have "\<forall>x \<in> set ps. x < length alloc"
      using st by (auto simp: pending_def list_all2_conv_all_nth in_set_conv_nth)
    then show "distinct ?ps" using st by (auto simp: ps)
  next
    show "shown a d par (alloc @ ks) 0 t" using st by (simp add: shown_more)
  next
    show "\<forall>s' < length (alloc @ ks). s' \<notin> set ?ps \<longrightarrow>
        shown a d par (alloc @ ks) ((alloc @ ks) ! s') (all[s := sn] ! s')"
    proof (intro allI impI)
      fix s' assume s': "s' < length (alloc @ ks)" "s' \<notin> set ?ps"
      then have l: "s' < length alloc" by auto
      show "shown a d par (alloc @ ks) ((alloc @ ks) ! s') (all[s := sn] ! s')"
      proof (cases "s' = s")
        case False
        with s' st l show ?thesis by (simp add: ps nth_append shown_more)
      qed (use sh s i in \<open>simp add: nth_append\<close>)
    qed
  next
    show "\<forall>j \<in> set (alloc @ ks). par ! j = 0 \<or>
        (\<exists>s' < length (alloc @ ks). s' \<notin> set ?ps \<and> (alloc @ ks) ! s' = par ! j)"
    proof
      fix j assume "j \<in> set (alloc @ ks)"
      then have "j \<in> set alloc \<or> par ! j = ?i" by (auto simp: ks_def kids_set)
      moreover have "\<forall>j \<in> set alloc. par ! j = 0 \<or>
          (\<exists>s' < length alloc. s' \<notin> set ps \<and> alloc ! s' = par ! j)"
        using st by (elim conjE)
      ultimately consider "par ! j = 0" | "\<exists>s' < length alloc. s' \<notin> set ps \<and> alloc ! s' = par ! j" | "par ! j = ?i"
        by metis
      then show "par ! j = 0 \<or> (\<exists>s' < length (alloc @ ks). s' \<notin> set ?ps \<and> (alloc @ ks) ! s' = par ! j)"
      proof cases
        case 2
        then obtain s' where "s' < length alloc" "s' \<notin> set ps" "alloc ! s' = par ! j" by blast
        then have "s' < length (alloc @ ks)" "s' \<notin> set ?ps" "(alloc @ ks) ! s' = par ! j"
          by (auto simp: ps nth_append)
        then show ?thesis by blast
      next
        case 3
        then have "s < length (alloc @ ks)" "s \<notin> set ?ps" "(alloc @ ks) ! s = par ! j"
          using s by (auto simp: nth_append)
        then show ?thesis by blast
      qed blast
    qed
  qed (use st room in \<open>simp_all add: ps\<close>)
  ultimately show ?thesis by (intro exI [of _ "all[s := sn]"] exI [of _ ?new] exI [of _ ks] exI [of _ ?ps])
    (simp add: tasks_of_def)
qed

text \<open>Every step serves one task, so the loop ends; at the end every slot is shown.\<close>

lemma serialize_loop_ok:
  assumes "loop_state a d par t all stack alloc ps" and "readable a par"
  shows "returns (serialize_loop a d t all (len alloc) stack) (\<lambda>all'. length all' = length all \<and>
    (\<exists>alloc'. loop_state a d par t all' [] alloc' []))"
  using assms(1)
proof (induction "length all + length stack - length alloc" arbitrary: all stack alloc ps rule: less_induct)
  case less
  show ?case
  proof (cases stack rule: rev_cases)
    case Nil
    with less.prems have "ps = []" by (simp add: loop_state_def)
    with less.prems Nil show ?thesis by (subst serialize_loop.simps) auto
  next
    case (snoc st k)
    obtain all' new ks ps' where step: "serialize_step a d t all (len alloc) k = Some (all', len (alloc @ ks), new)"
      and inv: "loop_state a d par t all' (st @ new) (alloc @ ks) ps'" and l: "length all' = length all"
      and new: "length new = length ks"
      using serialize_step_ok [OF less.prems [unfolded snoc] assms(2)] by blast
    have "length (alloc @ ks) \<le> length all'"
      using inv alloc_room [of "alloc @ ks" "length par"] by (simp add: loop_state_def)
    with new l snoc
    have "length all' + length (st @ new) - length (alloc @ ks) < length all + length stack - length alloc"
      by simp
    from less.hyps [OF this inv] step snoc l show ?thesis
      by (subst serialize_loop.simps) simp
  qed
qed

lemma ast_wf_readable: "ast_wf d input a \<Longrightarrow> \<exists>par. readable a par"
  by (auto simp: ast_wf_def readable_def Let_def)

text \<open>The state before the loop: the root is shown and its children have the first slots.\<close>

lemma loop_state_start:
  assumes "readable a par" and t: "shown a d par (kids par 0) 0 t" "sn_First t = 0"
  shows "loop_state a d par t (replicate (length par - 1) zero_node) (tasks_of TreeRef 0 (kids par 0))
    (kids par 0) [0..<length (kids par 0)]"
proof -
  have tr: "tree par" using assms(1) by (simp add: readable_def arena_def)
  have "sn_Count t = len (kids par 0)" using t by (simp add: shown_def Let_def)
  then have "list_all2 (pending t (replicate (length par - 1) zero_node) (kids par 0) [0..<length (kids par 0)])
      (tasks_of TreeRef 0 (kids par 0)) [0..<length (kids par 0)]"
    using t(2) by (auto simp: list_all2_conv_all_nth tasks_of_def pending_def child_slot_def deref_def len_def)
  moreover have "distinct (kids par 0)" by (simp add: kids_def)
  moreover have "set (kids par 0) \<subseteq> {1..<length par}" by (auto simp: kids_set)
  ultimately show ?thesis using t(1) by (auto simp: loop_state_def kids_set)
qed

lemma Serialize_ok:
  assumes r: "readable a par" and "0 \<le> ast_MaxDepth a"
  shows "returns (Serialize a d) (\<lambda>(t, all). length all = length (ast_Nodes a) - 1
    \<and> (\<forall>k \<ge> length (ast_Nodes a). view k all t = reference_tree a d par 0))"
proof -
  have tr: "tree par" and ln: "length (ast_Nodes a) = length par" and ar: "arena (ast_Nodes a) par"
    using r by (auto simp: readable_def arena_def)
  have n: "0 < length (ast_Nodes a)" using tr ln by (simp add: tree_def)
  let ?ks = "kids par 0" and ?all = "replicate (length par - 1) zero_node" and ?root = "ast_Nodes a ! 0"
  have ty: "nd_Type ?root = NodeRoot"
    using r n by (auto simp: readable_def typed_def core_of_def)
  define t where "t = \<lparr>sn_Name = ''ROOT'', sn_Type = type_name NodeRoot,
       sn_Attributes = attributes_view a (nd_Attributes ?root), sn_Content = piece (ast_Input a) (nd_Span ?root),
       sn_First = 0, sn_Count = len ?ks, sn_ID = nd_TagID ?root\<rparr>"
  have sh: "shown a d par ?ks 0 t" "sn_First t = 0" by (simp_all add: shown_def t_def ty Let_def)
  have "length ?ks \<le> length par - 1"
    by (rule alloc_room) (auto simp: kids_def)
  then have w: "take_window ?all 0 (len ?ks) = Some (len ?ks)" by (simp add: take_window_def len_def)
  obtain all' alloc where run: "serialize_loop a d t ?all (len ?ks) (tasks_of TreeRef 0 ?ks) = Some all'"
    and l: "length all' = length par - 1" and inv: "loop_state a d par t all' [] alloc []"
    using serialize_loop_ok [OF loop_state_start [OF r sh] r] by (auto simp: returns_ex)
  have "view k all' t = reference_tree a d par 0" if "length (ast_Nodes a) \<le> k" for k
  proof (rule shown_view [OF tr])
    show "length alloc \<le> length all'" using inv alloc_room [of alloc "length par"] l by (auto simp: loop_state_def)
  qed (use inv that ln n in \<open>auto simp: loop_state_def\<close>)
  moreover have "Serialize a d = Some (t, all')"
    using run w n assms(2) make_node_shows [OF r n] child_tasks_kids [OF ar n] arena_node(3) [OF ar n] ln
    by (simp add: Serialize_def go_index_def len_def t_def)
  ultimately show ?thesis using l ln by simp
qed

section \<open>Properties\<close>

text \<open>
  C23: \<open>Serialize\<close> of a parsed tree returns without a panic, and the windows of its shared
  backing array show exactly the tree of the arena: every node once, its children in source
  order, with its name, type, content and attributes.
\<close>

theorem serialize_shows_tree:
  assumes "dict_wf d" and "small (len input)"
  shows "returns (Parse U newParserState input d w) (\<lambda>(a, w', s'). \<exists>par. arena (ast_Nodes a) par \<and>
    returns (Serialize a d) (\<lambda>(t, all). length all = length (ast_Nodes a) - 1
      \<and> (\<forall>k \<ge> length (ast_Nodes a). view k all t = reference_tree a d par 0)))"
proof (rule returns_mono [OF Parse_ok [OF assms, of U w]], clarify)
  fix a w' s' assume a: "ast_wf d input a"
  then obtain par where r: "readable a par" using ast_wf_readable by blast
  moreover have "0 \<le> ast_MaxDepth a" using a by (simp add: ast_wf_def Let_def)
  ultimately show "\<exists>par. arena (ast_Nodes a) par \<and>
    returns (Serialize a d) (\<lambda>(t, all). length all = length (ast_Nodes a) - 1
      \<and> (\<forall>k \<ge> length (ast_Nodes a). view k all t = reference_tree a d par 0))"
    using Serialize_ok [of a par d] by (auto simp: readable_def)
qed

theorem serialize_shows_tree_witness:
  "returns (Parse demo_unicode newParserState demo_input demo demo_log) (\<lambda>(a, w', s'). \<exists>par. arena (ast_Nodes a) par \<and>
    returns (Serialize a demo) (\<lambda>(t, all). length all = length (ast_Nodes a) - 1
      \<and> (\<forall>k \<ge> length (ast_Nodes a). view k all t = reference_tree a demo par 0)))"
  by (rule serialize_shows_tree [OF demo_wf demo_input_small])

end
