(* ===== verification/Sml_Normalize.thy ===== *)
theory Sml_Normalize
  imports Sml_Issues Scum_Serialize
begin

text \<open>
  Normalisation of the serialized tree (\<open>sml/normalize_render_tree.go\<close>, \<open>sml/link.go\<close>): text
  and simple tags lose their attributes, each with an issue, and a link keeps the first valid
  \<open>href\<close>, \<open>target\<close> and \<open>title\<close>.

  The windows of \<open>Serialize\<close> are disjoint, so the in-place changes of the code are those of a
  tree. The attributes of one node are a slice whose backing array is exactly as long as
  the slice (\<open>make\<close> with that capacity), and \<open>normalizeLink\<close> appends to \<open>n.Attributes[:0]\<close>:
  it writes into the array that it reads. \<open>slice\<close> keeps that sharing.
\<close>

section \<open>Tag names\<close>

definition Bold :: string where "Bold = ''BOLD''"
definition Italic :: string where "Italic = ''ITALIC''"
definition Underline :: string where "Underline = ''UNDERLINE''"
definition Link :: string where "Link = ''LINK''"

lemmas name_defs = Bold_def Italic_def Underline_def Link_def

definition MaxTitleLength :: int where "MaxTitleLength = 65"

section \<open>Links\<close>

definition attrName :: "golib \<Rightarrow> serializable_attribute \<Rightarrow> string" where
  "attrName L a = (if sa_IsFlag a then ToLower L (sa_Payload a) else ToLower L (sa_Name a))"

definition invalid_payload :: "issues \<Rightarrow> string \<Rightarrow> issues" where
  "invalid_payload i desc = Issues_Add i (NewSyntaxIssueDescriptor IssueAttributeInvalidPayload desc)"

text \<open>The result is the trimmed payload, when it is one, and the issues.\<close>

definition basicLinkCheck ::
  "issues \<Rightarrow> serializable_attribute \<Rightarrow> string \<Rightarrow> string option \<times> issues" where
  "basicLinkCheck i a name =
     (if sa_IsFlag a then
        (None, invalid_payload i (''attribute '' @ name @ '' must have a value''))
      else
        let payload = TrimSpace (sa_Payload a) in
        if payload = [] then
          (None, invalid_payload i (''attribute '' @ name @ '' must not be empty''))
        else if ContainsAny payload [CHR 0x00, CHR 0x0D, CHR 0x0A, CHR 0x09] then
          (None, invalid_payload i (''attribute '' @ name @ '' contains forbidden control characters''))
        else (Some payload, i))"

definition validateHref :: "golib \<Rightarrow> issues \<Rightarrow> serializable_attribute \<Rightarrow> bool \<times> issues" where
  "validateHref L i a =
     (case basicLinkCheck i a ''href'' of
        (None, i) \<Rightarrow> (False, i)
      | (Some payload, i) \<Rightarrow>
          (case url_Parse L payload of
             Inl err \<Rightarrow> (False, invalid_payload i (''attribute href is invalid: '' @ err))
           | Inr scheme \<Rightarrow>
               let s = ToLower L scheme in
               if s = [] then
                 (if HasPrefix payload ''//''
                  then (False, invalid_payload i ''attribute href must not be protocol-relative'')
                  else (True, i))
               else if s = ''http'' \<or> s = ''https'' \<or> s = ''mailto'' then (True, i)
               else (False, invalid_payload i
                       (''attribute href scheme '' @ gl_quote L scheme @ '' is not allowed''))))"

definition zero_attribute :: serializable_attribute where
  "zero_attribute = \<lparr>sa_Name = [], sa_Payload = [], sa_IsFlag = False\<rparr>"

definition rel_attribute :: serializable_attribute where
  "rel_attribute = \<lparr>sa_Name = ''rel'', sa_Payload = ''noopener noreferrer'', sa_IsFlag = False\<rparr>"

definition validateTarget ::
  "issues \<Rightarrow> serializable_attribute \<Rightarrow> serializable_attribute option \<times> issues" where
  "validateTarget i a =
     (case basicLinkCheck i a ''target'' of
        (None, i) \<Rightarrow> (None, i)
      | (Some payload, i) \<Rightarrow>
          if payload \<noteq> ''_blank'' \<and> payload \<noteq> ''_self'' then
            (None, invalid_payload i
              (''attribute target must be one of '' @ [CHR 0x22] @ ''_blank'' @ [CHR 0x22] @ '' or ''
               @ [CHR 0x22] @ ''_self'' @ [CHR 0x22]))
          else (Some (if payload = ''_blank'' then rel_attribute else zero_attribute), i))"

definition validateTitle :: "issues \<Rightarrow> serializable_attribute \<Rightarrow> bool \<times> issues" where
  "validateTitle i a =
     (case basicLinkCheck i a ''title'' of
        (None, i) \<Rightarrow> (False, i)
      | (Some payload, i) \<Rightarrow>
          if int (RuneCount payload) > MaxTitleLength then
            (False, invalid_payload i
              (''attribute title must be at most '' @ Itoa MaxTitleLength @ '' characters long''))
          else (True, i))"

text \<open>
  A slice that starts as \<open>n.Attributes[:0]\<close>: a prefix of the array it shares with
  \<open>n.Attributes\<close>, or, once an \<open>append\<close> went past the capacity, an array of its own.
\<close>

datatype slice = Shared nat | Own "serializable_attribute list"

definition slice_append ::
  "serializable_attribute list \<Rightarrow> slice \<Rightarrow> serializable_attribute
     \<Rightarrow> serializable_attribute list \<times> slice" where
  "slice_append arr sl x = (case sl of
     Shared n \<Rightarrow> if n < length arr then (arr[n := x], Shared (Suc n))
                 else (arr, Own (take n arr @ [x]))
   | Own xs \<Rightarrow> (arr, Own (xs @ [x])))"

definition slice_value :: "serializable_attribute list \<Rightarrow> slice \<Rightarrow> serializable_attribute list" where
  "slice_value arr sl = (case sl of Shared n \<Rightarrow> take n arr | Own xs \<Rightarrow> xs)"

record link_state =
  lk_arr :: "serializable_attribute list"
  lk_allowed :: slice
  lk_href :: bool
  lk_target :: bool
  lk_title :: bool
  lk_count :: int
  lk_issues :: issues

definition lk_append :: "link_state \<Rightarrow> serializable_attribute \<Rightarrow> link_state" where
  "lk_append s x = (let (arr, sl) = slice_append (lk_arr s) (lk_allowed s) x
     in s\<lparr>lk_arr := arr, lk_allowed := sl\<rparr>)"

definition link_step :: "golib \<Rightarrow> link_state \<Rightarrow> nat \<Rightarrow> link_state" where
  "link_step L s i =
     (let a = lk_arr s ! i; name = attrName L a in
      if name = ''href'' then
        (if lk_href s then s
         else case validateHref L (lk_issues s) a of
           (False, is) \<Rightarrow> s\<lparr>lk_issues := is\<rparr>
         | (True, is) \<Rightarrow>
             (lk_append (s\<lparr>lk_issues := is\<rparr>) a)\<lparr>lk_href := True, lk_count := lk_count s - 1\<rparr>)
      else if name = ''target'' then
        (if lk_target s then s
         else case validateTarget (lk_issues s) a of
           (None, is) \<Rightarrow> s\<lparr>lk_issues := is\<rparr>
         | (Some rel, is) \<Rightarrow>
             let s1 = lk_append (s\<lparr>lk_issues := is\<rparr>) a;
                 s2 = (if sa_Name rel \<noteq> [] then lk_append s1 rel else s1)
             in s2\<lparr>lk_target := True, lk_count := lk_count s - 1\<rparr>)
      else if name = ''title'' then
        (if lk_title s then s
         else case validateTitle (lk_issues s) a of
           (False, is) \<Rightarrow> s\<lparr>lk_issues := is\<rparr>
         | (True, is) \<Rightarrow>
             (lk_append (s\<lparr>lk_issues := is\<rparr>) a)\<lparr>lk_title := True, lk_count := lk_count s - 1\<rparr>)
      else s)"

text \<open>\<open>for i := 0; i < len(n.Attributes) && count > 0; i++\<close>, over the indices.\<close>

fun link_loop :: "golib \<Rightarrow> link_state \<Rightarrow> nat list \<Rightarrow> link_state" where
  "link_loop L s [] = s"
| "link_loop L s (i # is) = (if lk_count s > 0 then link_loop L (link_step L s i) is else s)"

definition link_start :: "serializable_attribute list \<Rightarrow> issues \<Rightarrow> link_state" where
  "link_start attrs is = \<lparr>lk_arr = attrs, lk_allowed = Shared 0, lk_href = False,
     lk_target = False, lk_title = False, lk_count = 3, lk_issues = is\<rparr>"

definition link_attributes ::
  "golib \<Rightarrow> serializable_attribute list \<Rightarrow> issues \<Rightarrow> serializable_attribute list \<times> issues" where
  "link_attributes L attrs is =
     (let s = link_loop L (link_start attrs is) [0..<length attrs]
      in (slice_value (lk_arr s) (lk_allowed s), lk_issues s))"

section \<open>The tree\<close>

definition not_allowed :: "golib \<Rightarrow> string \<Rightarrow> issues \<Rightarrow> serializable_attribute list \<Rightarrow> issues" where
  "not_allowed L subject is attrs = foldl (\<lambda>i a. Issues_Add i
     (NewSyntaxIssueDescriptor IssueAttributeNotAllowed
       (''unknown attribute '' @ gl_quote L (sa_Name a) @ '' for the '' @ subject))) is attrs"

text \<open>
  \<open>normalizeNode\<close> with the functions it dispatches to: \<open>None\<close> is the panic on an unknown type
  or tag. The children are normalised after the node, from the first to the last.
\<close>

fun normalizeNode :: "golib \<Rightarrow> stree \<Rightarrow> issues \<Rightarrow> (stree \<times> issues) option"
  and normalizeNodes :: "golib \<Rightarrow> stree list \<Rightarrow> issues \<Rightarrow> (stree list \<times> issues) option" where
  "normalizeNode L (STree name ty attrs content children tid) is =
     (if ty = ''Text'' then
        Some (STree name ty [] content children tid, not_allowed L ''text node'' is attrs)
      else if ty = ''Tag'' then
        (if name = Bold \<or> name = Italic \<or> name = Underline then do {
           (children', is') \<leftarrow> normalizeNodes L children
              (not_allowed L (''tag '' @ gl_quote L name) is attrs);
           Some (STree name ty [] content children' tid, is')
         } else if name = Link then do {
           let (attrs', is1) = link_attributes L attrs is;
           (children', is') \<leftarrow> normalizeNodes L children is1;
           Some (STree name ty attrs' content children' tid, is')
         } else None)
      else None)"
| "normalizeNodes L [] is = Some ([], is)"
| "normalizeNodes L (t # ts) is = do {
     (t', is1) \<leftarrow> normalizeNode L t is;
     (ts', is2) \<leftarrow> normalizeNodes L ts is1;
     Some (t' # ts', is2)
   }"

definition normalizeRenderTree :: "golib \<Rightarrow> stree \<Rightarrow> issues \<Rightarrow> (stree \<times> issues) option" where
  "normalizeRenderTree L t is = do {
     (children', is') \<leftarrow> normalizeNodes L (st_children t) is;
     Some (STree (st_name t) (st_type t) (st_attributes t) (st_content t) children' (st_id t), is')
   }"

end
