(* ===== verification/Sml_Eater.thy ===== *)
theory Sml_Eater
  imports Sml_Normalize
begin

text \<open>
  The parser object of the post language and its result (\<open>sml/eater.go\<close>), and the rendering
  to HTML (\<open>sml/html.go\<close>).
\<close>

section \<open>Rendering\<close>

definition attribute_text :: "serializable_attribute \<Rightarrow> string" where
  "attribute_text a =
     '' '' @ sa_Name a @ ''='' @ [CHR 0x22] @ EscapeString (sa_Payload a) @ [CHR 0x22]"

definition tag_text :: "string \<Rightarrow> string \<Rightarrow> string \<Rightarrow> string" where
  "tag_text start fin body = ''<'' @ start @ ''>'' @ body @ ''</'' @ fin @ ''>''"

definition link_text :: "serializable_attribute list \<Rightarrow> string \<Rightarrow> string" where
  "link_text attrs body = ''<a'' @ concat (map attribute_text attrs) @ ''>'' @ body @ ''</a>''"

definition underline_start :: string where
  "underline_start = ''span class='' @ [CHR 0x22] @ ''sml-internal-underline'' @ [CHR 0x22]"

text \<open>
  \<open>renderNode\<close> with the functions it dispatches to, as the text they write; \<open>None\<close> is the
  panic on an unknown type or tag.
\<close>

fun renderNode :: "stree \<Rightarrow> string option"
  and renderNodes :: "stree list \<Rightarrow> string option" where
  "renderNode (STree name ty attrs content children tid) =
     (if ty = ''Tag'' then
        (if name = Bold then map_option (tag_text ''strong'' ''strong'') (renderNodes children)
         else if name = Italic then map_option (tag_text ''em'' ''em'') (renderNodes children)
         else if name = Underline then map_option (tag_text underline_start ''span'') (renderNodes children)
         else if name = Link then map_option (link_text attrs) (renderNodes children)
         else None)
      else if ty = ''Text'' then Some (EscapeString content)
      else None)"
| "renderNodes [] = Some []"
| "renderNodes (t # ts) = do { x \<leftarrow> renderNode t; y \<leftarrow> renderNodes ts; Some (x @ y) }"

section \<open>The eater\<close>

record poop =
  pp_Input :: string
  pp_AST :: ast
  pp_Tree :: stree

definition Poop_Text :: "poop \<Rightarrow> string option" where
  "Poop_Text p = ast_Text (pp_AST p)"

definition Poop_TextByteLen :: "poop \<Rightarrow> int" where
  "Poop_TextByteLen p = ast_TextByteLen (pp_AST p)"

definition Poop_HTML :: "poop \<Rightarrow> string option" where
  "Poop_HTML p = renderNodes (st_children (pp_Tree p))"

record eater =
  ea_dict :: dictionary
  ea_policy :: int
  ea_cap :: int

text \<open>\<open>scum.Warnings{}\<close>, what \<open>NewWarnings\<close> returns beside an error, which \<open>Munch\<close> ignores.\<close>

definition zero_warnings :: warnings where
  "zero_warnings = \<lparr>ws_policy = 0, ws_list = [], ws_maxWarnings = 0, ws_overflowed = False,
     ws_droppedCount = 0, ws_firstDropPos = 0\<rparr>"

text \<open>
  \<open>Munch\<close>. The state of the parser comes from its pool, where it equals a new one; the tree
  is what the windows of the serialized nodes show.
\<close>

definition Munch :: "golib \<Rightarrow> eater \<Rightarrow> string \<Rightarrow> (poop \<times> issues) option" where
  "Munch L e input = do {
     let w = (case NewWarnings (ea_policy e) (ea_cap e) of Inl _ \<Rightarrow> zero_warnings | Inr w \<Rightarrow> w);
     (a, w1, _) \<leftarrow> Parse (gl_unicode L) newParserState input (ea_dict e) w;
     (root, all) \<leftarrow> Serialize a (ea_dict e);
     issues0 \<leftarrow> NewIssues (len input div 10);
     (t, issues) \<leftarrow> normalizeRenderTree L (view (length (ast_Nodes a)) all root) issues0;
     let warns = map ParserWarning (SerializeAll w1 [] (ea_dict e));
     Some (\<lparr>pp_Input = input, pp_AST = a, pp_Tree = t\<rparr>, warns @ issues)
   }"

text \<open>An error of a registration is a panic of \<open>NewEater\<close>: it "should not happen".\<close>

definition must :: "(config_error + dictionary) option \<Rightarrow> dictionary option" where
  "must r = (case r of Some (Inr d) \<Rightarrow> Some d | _ \<Rightarrow> None)"

definition register_sml :: "dictionary option" where
  "register_sml = do {
     d0 \<leftarrow> must (Some (NewDictionary no_limits));
     d1 \<leftarrow> must (AddUniversalTag d0 Bold ''$'' NonGreedy RuleNA);
     d2 \<leftarrow> must (AddUniversalTag d1 Italic ''*'' NonGreedy RuleNA);
     d3 \<leftarrow> must (AddUniversalTag d2 Underline ''_'' NonGreedy RuleInfraWord);
     d4 \<leftarrow> must (AddTag d3 Link ''['' NonGreedy RuleNA NUL (CHR '']''));
     d5 \<leftarrow> must (AddTag d4 Link '']'' NonGreedy RuleNA (CHR ''['') NUL);
     d6 \<leftarrow> must (Some (SetAttributeSignature d5 (CHR ''!'') (CHR ''{'') (CHR ''}'')));
     must (Some (SetEscapeTrigger d6 (CHR 0x5C)))
   }"

definition NewEater :: "int \<Rightarrow> int \<Rightarrow> (sml_config_error + eater) option" where
  "NewEater warnPol warnCap =
     (case NewWarnings warnPol warnCap of
        Inl err \<Rightarrow>
          (case NewDictionary no_limits of
             Inl _ \<Rightarrow> None
           | Inr _ \<Rightarrow> Some (Inl (sml_NewConfigError ''SML Parser'' ReasonInvalidParams err)))
      | Inr _ \<Rightarrow> do {
          d \<leftarrow> register_sml;
          Some (Inr \<lparr>ea_dict = d, ea_policy = warnPol, ea_cap = warnCap\<rparr>)
        })"

section \<open>The dictionary of the language\<close>

lemma register_sml_returns: "register_sml \<noteq> None"
  by code_simp

lemma must_Some: "must r = Some d \<longleftrightarrow> r = Some (Inr d)"
  by (auto simp: must_def split: option.splits sum.splits)

definition sml_names :: "string set" where
  "sml_names = {Bold, Italic, Underline, Link}"

definition names_known :: "dictionary \<Rightarrow> bool" where
  "names_known d \<longleftrightarrow> (\<forall>c. has_plan d c \<longrightarrow> tag_Name (d_tags d c) \<in> sml_names)"

lemma AddTag_names:
  assumes "AddTag d name sq greed rule openID closeID = Some (Inr d')" and "names_known d"
    and "name \<in> sml_names"
  shows "names_known d'"
proof -
  from assms(1) obtain c t where "d' = d\<lparr>d_tags := (d_tags d)(c := t),
      d_actions := (d_actions d)(c := Some (CreateAction t))\<rparr>" "tag_Name t = name"
    by (auto simp: AddTag_def Let_def bind_eq_Some_conv split: option.splits sum.splits if_splits)
  with assms(2,3) show ?thesis by (auto simp: names_known_def has_plan_def)
qed

lemma AddUniversalTag_names:
  "AddUniversalTag d name sq greed rule = Some (Inr d') \<Longrightarrow> names_known d \<Longrightarrow> name \<in> sml_names \<Longrightarrow>
     names_known d'"
  by (auto simp: AddUniversalTag_def bind_eq_Some_conv intro: AddTag_names)

lemma SetEscapeTrigger_names:
  "SetEscapeTrigger d c = Inr d' \<Longrightarrow> names_known d \<Longrightarrow> names_known d'"
  by (auto simp: SetEscapeTrigger_def names_known_def has_plan_def split: if_splits)

lemma SetAttributeSignature_names:
  "SetAttributeSignature d a b c = Inr d' \<Longrightarrow> names_known d \<Longrightarrow> names_known d'"
  by (auto simp: SetAttributeSignature_def names_known_def has_plan_def split: if_splits option.splits)

lemma sml_dictionary:
  assumes "register_sml = Some d"
  shows "dict_wf d \<and> names_known d"
proof -
  from assms obtain d0 d1 d2 d3 d4 d5 d6 where r:
    "NewDictionary no_limits = Inr d0"
    "AddUniversalTag d0 Bold ''$'' NonGreedy RuleNA = Some (Inr d1)"
    "AddUniversalTag d1 Italic ''*'' NonGreedy RuleNA = Some (Inr d2)"
    "AddUniversalTag d2 Underline ''_'' NonGreedy RuleInfraWord = Some (Inr d3)"
    "AddTag d3 Link ''['' NonGreedy RuleNA NUL (CHR '']'') = Some (Inr d4)"
    "AddTag d4 Link '']'' NonGreedy RuleNA (CHR ''['') NUL = Some (Inr d5)"
    "SetAttributeSignature d5 (CHR ''!'') (CHR ''{'') (CHR ''}'') = Inr d6"
    "SetEscapeTrigger d6 (CHR 0x5C) = Inr d"
    unfolding register_sml_def bind_eq_Some_conv must_Some by blast
  have sm: "small (MaxAttrKeyLen no_limits)" "small (MaxAttrPayloadLen no_limits)"
    "small (MaxPayloadLen no_limits)" "small (MaxKeyLen no_limits)"
    by (simp_all add: no_limits_def small_def)
  have n: "Bold \<in> sml_names" "Italic \<in> sml_names" "Underline \<in> sml_names" "Link \<in> sml_names"
    by (simp_all add: sml_names_def)
  have n0: "names_known d0"
    using r(1) by (auto simp: NewDictionary_def names_known_def has_plan_def Let_def split: option.splits)
  have "dict_wf d"
    by (rule SetEscapeTrigger_wf [OF SetAttributeSignature_wf [OF AddTag_wf [OF AddTag_wf
      [OF AddUniversalTag_wf [OF AddUniversalTag_wf [OF AddUniversalTag_wf
        [OF NewDictionary_wf [OF r(1) sm] r(2)] r(3)] r(4)] r(5)] r(6)] r(7)] r(8)])
  moreover have "names_known d"
    by (rule SetEscapeTrigger_names [OF r(8) SetAttributeSignature_names [OF r(7)
      AddTag_names [OF r(6) AddTag_names [OF r(5) AddUniversalTag_names [OF r(4)
        AddUniversalTag_names [OF r(3) AddUniversalTag_names [OF r(2) n0 n(1)] n(2)] n(3)] n(4)] n(4)]]])
  ultimately show ?thesis ..
qed

end
