(* ===== verification/Sml_Safety.thy ===== *)
theory Sml_Safety
  imports Sml_Eater
begin

text \<open>
  What the language guarantees: every input is parsed and rendered without a panic, and the
  HTML is made of the tags of the language, escaped text and validated attributes only.
\<close>

section \<open>Schemes\<close>

definition scheme_char :: "char \<Rightarrow> bool" where
  "scheme_char c \<longleftrightarrow> is_letter c \<or> (48 \<le> byte c \<and> byte c \<le> 57) \<or> c \<in> set ''+-.''"

lemma scheme_end_chars:
  "scheme_end i s = Some j \<Longrightarrow> i \<le> j \<and> list_all scheme_char (take (j - i) s)"
proof (induction i s rule: scheme_end.induct)
  case (2 i c cs)
  show ?case
  proof (cases "is_letter c \<or> ((48 \<le> byte c \<and> byte c \<le> 57) \<or> c \<in> set ''+-.'') \<and> i \<noteq> 0")
    case True
    then have "scheme_char c" by (auto simp: scheme_char_def)
    moreover have "scheme_end (Suc i) cs = Some j" using True 2 by (auto split: if_splits)
    then have "Suc i \<le> j \<and> list_all scheme_char (take (j - Suc i) cs)"
      using True 2 by (auto split: if_splits)
    moreover from this have "j - i = Suc (j - Suc i)" by arith
    ultimately show ?thesis by simp
  next
    case False
    with 2 show ?thesis by (auto split: if_splits)
  qed
qed simp

lemma scheme_char_ascii: "scheme_char c \<Longrightarrow> byte c < 128"
  by (auto simp: scheme_char_def is_letter_def byte_def)

lemma getScheme_ascii: "is_ascii (getScheme s)"
  using scheme_end_chars [of 0 s]
  by (cases "scheme_end 0 s") (auto simp: getScheme_def is_ascii_def list_all_iff scheme_char_ascii)

lemma byte_char_of: "n < 256 \<Longrightarrow> byte (char_of n) = n"
  by (simp add: byte_def)

lemma ascii_lower_small: "byte c < 128 \<Longrightarrow> byte (ascii_lower c) < 128"
  by (auto simp: ascii_lower_def byte_char_of)

lemma ascii_lower_idem [simp]: "ascii_lower (ascii_lower c) = ascii_lower c"
  by (auto simp: ascii_lower_def byte_char_of)

text \<open>The scheme of a string that \<open>url.Parse\<close> accepts, in lower case.\<close>

definition scheme_of :: "string \<Rightarrow> string" where
  "scheme_of s = map ascii_lower (getScheme s)"

lemma url_Parse_scheme: "url_Parse L s = Inr sch \<Longrightarrow> ToLower L sch = scheme_of s \<and> sch = scheme_of s"
  using getScheme_ascii [of s]
  by (auto simp: url_Parse_def scheme_of_def ToLower_def is_ascii_def list_all_iff ascii_lower_small
      split: option.splits)

section \<open>The attributes of a link\<close>

definition href_ok :: "string \<Rightarrow> bool" where
  "href_ok p \<longleftrightarrow> scheme_of p \<in> {[], ''http'', ''https'', ''mailto''}
     \<and> (scheme_of p = [] \<longrightarrow> \<not> HasPrefix p ''//'')"

definition allowed_attribute :: "golib \<Rightarrow> serializable_attribute \<Rightarrow> bool" where
  "allowed_attribute L a \<longleftrightarrow> a = rel_attribute \<or>
     (let p = TrimSpace (sa_Payload a) in
        \<not> sa_IsFlag a \<and> p \<noteq> [] \<and> \<not> ContainsAny p [CHR 0x00, CHR 0x0D, CHR 0x0A, CHR 0x09]
        \<and> ((attrName L a = ''href'' \<and> href_ok p)
           \<or> (attrName L a = ''target'' \<and> (p = ''_blank'' \<or> p = ''_self''))
           \<or> (attrName L a = ''title'' \<and> int (RuneCount p) \<le> MaxTitleLength)))"

lemma rel_name [simp]: "attrName L rel_attribute = ''rel''"
  by (simp add: attrName_def rel_attribute_def ToLower_def is_ascii_def byte_def ascii_lower_def)

lemma validateHref_ok:
  "validateHref L is a = (True, is') \<Longrightarrow> attrName L a = ''href'' \<Longrightarrow> allowed_attribute L a"
  by (auto simp: validateHref_def basicLinkCheck_def allowed_attribute_def href_ok_def Let_def
      dest: url_Parse_scheme split: if_splits sum.splits)

lemma validateTarget_ok:
  "validateTarget is a = (Some rel, is') \<Longrightarrow> attrName L a = ''target'' \<Longrightarrow>
     allowed_attribute L a \<and> (rel = rel_attribute \<or> rel = zero_attribute)"
  by (auto simp: validateTarget_def basicLinkCheck_def allowed_attribute_def Let_def split: if_splits)

lemma validateTitle_ok:
  "validateTitle is a = (True, is') \<Longrightarrow> attrName L a = ''title'' \<Longrightarrow> allowed_attribute L a"
  by (auto simp: validateTitle_def basicLinkCheck_def allowed_attribute_def Let_def split: if_splits)

text \<open>Every attribute that was put into the slice is allowed, and no two have the same name.\<close>

definition link_clean :: "golib \<Rightarrow> serializable_attribute list \<Rightarrow> bool" where
  "link_clean L as \<longleftrightarrow> (\<forall>a \<in> set as. allowed_attribute L a) \<and> distinct (map (attrName L) as)"

definition slice_wf :: "serializable_attribute list \<Rightarrow> slice \<Rightarrow> bool" where
  "slice_wf arr sl \<longleftrightarrow> (case sl of Shared n \<Rightarrow> n \<le> length arr | Own _ \<Rightarrow> True)"

lemma slice_append_value:
  "slice_wf arr sl \<Longrightarrow> slice_append arr sl x = (arr', sl') \<Longrightarrow>
     slice_wf arr' sl' \<and> length arr' = length arr \<and> slice_value arr' sl' = slice_value arr sl @ [x]"
  by (auto simp: slice_wf_def slice_append_def slice_value_def take_Suc_conv_app_nth
      split: slice.splits if_splits)

definition lk_value :: "link_state \<Rightarrow> serializable_attribute list" where
  "lk_value s = slice_value (lk_arr s) (lk_allowed s)"

text \<open>The flag that keeps a second attribute of a name out.\<close>

definition lk_flag :: "link_state \<Rightarrow> string \<Rightarrow> bool" where
  "lk_flag s n = (if n = ''href'' then lk_href s
     else if n = ''target'' \<or> n = ''rel'' then lk_target s
     else if n = ''title'' then lk_title s else False)"

lemma lk_flag_simps [simp]:
  "lk_flag s ''href'' = lk_href s" "lk_flag s ''target'' = lk_target s"
  "lk_flag s ''rel'' = lk_target s" "lk_flag s ''title'' = lk_title s"
  by (simp_all add: lk_flag_def)

lemma lk_flag_mono:
  "(lk_href s \<longrightarrow> lk_href s') \<Longrightarrow> (lk_target s \<longrightarrow> lk_target s') \<Longrightarrow> (lk_title s \<longrightarrow> lk_title s') \<Longrightarrow>
     lk_flag s n \<Longrightarrow> lk_flag s' n"
  by (simp add: lk_flag_def split: if_splits)

definition link_inv :: "golib \<Rightarrow> link_state \<Rightarrow> bool" where
  "link_inv L s \<longleftrightarrow> slice_wf (lk_arr s) (lk_allowed s) \<and> link_clean L (lk_value s)
     \<and> (\<forall>a \<in> set (lk_value s). lk_flag s (attrName L a))"

lemma lk_flag_update [simp]: "lk_flag (s\<lparr>lk_issues := is\<rparr>) n = lk_flag s n"
  by (simp add: lk_flag_def)

lemma link_inv_same:
  "link_inv L s \<Longrightarrow> link_inv L (s\<lparr>lk_issues := is\<rparr>)"
  by (simp add: link_inv_def lk_value_def)

text \<open>Allowed attributes under flags that were not set, and are set now.\<close>

lemma link_inv_add:
  assumes "link_inv L s" and "lk_value s' = lk_value s @ as"
    and "\<forall>a \<in> set as. allowed_attribute L a \<and> \<not> lk_flag s (attrName L a) \<and> lk_flag s' (attrName L a)"
    and "distinct (map (attrName L) as)"
    and "slice_wf (lk_arr s') (lk_allowed s')"
    and "\<And>n. lk_flag s n \<Longrightarrow> lk_flag s' n"
  shows "link_inv L s'"
  using assms by (auto simp: link_inv_def link_clean_def)

lemma lk_append_fields:
  assumes "slice_wf (lk_arr s) (lk_allowed s)"
  shows "slice_wf (lk_arr (lk_append s x)) (lk_allowed (lk_append s x))"
    "lk_value (lk_append s x) = lk_value s @ [x]"
    "lk_href (lk_append s x) = lk_href s" "lk_target (lk_append s x) = lk_target s"
    "lk_title (lk_append s x) = lk_title s" "lk_count (lk_append s x) = lk_count s"
    "lk_issues (lk_append s x) = lk_issues s" "length (lk_arr (lk_append s x)) = length (lk_arr s)"
  using slice_append_value [OF assms]
  by (auto simp: lk_append_def lk_value_def Let_def split: prod.splits)

lemma lk_value_update [simp]:
  "lk_value (s\<lparr>lk_issues := i\<rparr>) = lk_value s" "lk_value (s\<lparr>lk_count := c\<rparr>) = lk_value s"
  "lk_value (s\<lparr>lk_href := b\<rparr>) = lk_value s" "lk_value (s\<lparr>lk_target := b\<rparr>) = lk_value s"
  "lk_value (s\<lparr>lk_title := b\<rparr>) = lk_value s"
  by (simp_all add: lk_value_def)

lemma link_step_inv:
  assumes inv: "link_inv L s"
  shows "link_inv L (link_step L s i)"
proof -
  let ?a = "lk_arr s ! i"
  have wf: "slice_wf (lk_arr (s\<lparr>lk_issues := is\<rparr>)) (lk_allowed (s\<lparr>lk_issues := is\<rparr>))" for "is"
    using inv by (simp add: link_inv_def)
  note app = lk_append_fields [OF wf, of _ ?a]
  consider (href) "attrName L ?a = ''href''" | (target) "attrName L ?a = ''target''"
    | (title) "attrName L ?a = ''title''"
    | (none) "attrName L ?a \<noteq> ''href''" "attrName L ?a \<noteq> ''target''" "attrName L ?a \<noteq> ''title''"
    by blast
  then show ?thesis
  proof cases
    case href
    obtain b "is" where v: "validateHref L (lk_issues s) ?a = (b, is)" by force
    have "link_inv L ((lk_append (s\<lparr>lk_issues := is\<rparr>) ?a)\<lparr>lk_href := True, lk_count := lk_count s - 1\<rparr>)"
      if "b" "\<not> lk_href s"
      using v that href validateHref_ok [of L "lk_issues s" ?a "is"] app
      by (intro link_inv_add [OF inv, where as = "[?a]"]) (auto intro: lk_flag_mono [rotated 3])
    with href v inv show ?thesis
      by (cases b) (simp_all add: link_step_def Let_def link_inv_same)
  next
    case target
    obtain r "is" where v: "validateTarget (lk_issues s) ?a = (r, is)" by force
    let ?s1 = "lk_append (s\<lparr>lk_issues := is\<rparr>) ?a"
    have "link_inv L ((if sa_Name rel \<noteq> [] then lk_append ?s1 rel else ?s1)
        \<lparr>lk_target := True, lk_count := lk_count s - 1\<rparr>)" if r: "r = Some rel" and t: "\<not> lk_target s" for rel
    proof -
      have ok: "allowed_attribute L ?a" "rel = rel_attribute \<or> rel = zero_attribute"
        using validateTarget_ok [of "lk_issues s" ?a rel "is" L] v r target by auto
      have one: "link_inv L (?s1\<lparr>lk_target := True, lk_count := lk_count s - 1\<rparr>)"
        using ok(1) t target app by (intro link_inv_add [OF inv, where as = "[?a]"]) (auto intro: lk_flag_mono [rotated 3])
      have rel: "allowed_attribute L rel_attribute" by (simp add: allowed_attribute_def)
      note app2 = lk_append_fields [OF app(1) [of "is"], of rel_attribute]
      have "link_inv L ((lk_append ?s1 rel_attribute)\<lparr>lk_target := True, lk_count := lk_count s - 1\<rparr>)"
        using rel app2 app t ok(1) target
        by (intro link_inv_add [OF inv, where as = "[?a, rel_attribute]"]) (auto intro: lk_flag_mono [rotated 3])
      with one ok(2) show ?thesis by (auto simp: rel_attribute_def zero_attribute_def)
    qed
    with target v inv show ?thesis
      by (cases r) (simp_all add: link_step_def Let_def link_inv_same)
  next
    case title
    obtain b "is" where v: "validateTitle (lk_issues s) ?a = (b, is)" by force
    have "link_inv L ((lk_append (s\<lparr>lk_issues := is\<rparr>) ?a)\<lparr>lk_title := True, lk_count := lk_count s - 1\<rparr>)"
      if "b" "\<not> lk_title s"
      using v that title validateTitle_ok [of "lk_issues s" ?a "is" L] app
      by (intro link_inv_add [OF inv, where as = "[?a]"]) (auto intro: lk_flag_mono [rotated 3])
    with title v inv show ?thesis
      by (cases b) (simp_all add: link_step_def Let_def link_inv_same)
  qed (use inv in \<open>simp add: link_step_def Let_def\<close>)
qed

lemma link_loop_inv: "link_inv L s \<Longrightarrow> link_inv L (link_loop L s is)"
  by (induction L s "is" rule: link_loop.induct) (simp_all add: link_step_inv)

lemma link_attributes_clean: "link_attributes L as is = (as', is') \<Longrightarrow> link_clean L as'"
proof -
  have "link_inv L (link_start as is)"
    by (simp add: link_inv_def link_start_def slice_wf_def lk_value_def slice_value_def link_clean_def)
  from link_loop_inv [OF this, of "[0..<length as]"]
  show "link_attributes L as is = (as', is') \<Longrightarrow> link_clean L as'"
    by (auto simp: link_attributes_def Let_def link_inv_def lk_value_def)
qed

section \<open>Safe HTML\<close>

definition safe_name :: "string \<Rightarrow> bool" where
  "safe_name s \<longleftrightarrow> (\<forall>c \<in> set s. 128 \<le> byte c \<or> is_letter c)"

text \<open>
  The HTML the language may produce: escaped text, its four elements around safe HTML, and
  attributes on links only, each allowed, with names that cannot end the attribute.
\<close>

inductive safe_html :: "golib \<Rightarrow> string \<Rightarrow> bool" for L where
  Empty: "safe_html L []"
| Text: "safe_html L (EscapeString s)"
| Append: "safe_html L x \<Longrightarrow> safe_html L y \<Longrightarrow> safe_html L (x @ y)"
| Strong: "safe_html L x \<Longrightarrow> safe_html L (tag_text ''strong'' ''strong'' x)"
| Em: "safe_html L x \<Longrightarrow> safe_html L (tag_text ''em'' ''em'' x)"
| Underlined: "safe_html L x \<Longrightarrow> safe_html L (tag_text underline_start ''span'' x)"
| Anchor: "safe_html L x \<Longrightarrow> link_clean L as \<Longrightarrow> \<forall>a \<in> set as. safe_name (sa_Name a) \<Longrightarrow>
     safe_html L (link_text as x)"

text \<open>
  \<open>strings.ToLower\<close> of a string that is not ASCII maps it rune by rune, so an ASCII byte of the
  string appears, in lower case, in the result.
\<close>

definition lower_keeps_ascii :: "golib \<Rightarrow> bool" where
  "lower_keeps_ascii L \<longleftrightarrow>
     (\<forall>s. \<forall>c \<in> set s. byte c < 128 \<longrightarrow> ascii_lower c \<in> set (gl_lower L s))"

lemma letter_lower: "is_letter (ascii_lower c) \<Longrightarrow> is_letter c"
  by (auto simp: is_letter_def ascii_lower_def byte_char_of split: if_splits)

lemma allowed_name_safe:
  assumes "lower_keeps_ascii L" and "allowed_attribute L a"
  shows "safe_name (sa_Name a)"
proof (cases "a = rel_attribute")
  case True
  then show ?thesis by (simp add: safe_name_def rel_attribute_def is_letter_def byte_def)
next
  case False
  with assms(2) have n: "ToLower L (sa_Name a) \<in> {''href'', ''target'', ''title''}"
    by (auto simp: allowed_attribute_def attrName_def Let_def)
  have letters: "\<forall>c \<in> set s. is_letter c" if "s \<in> {''href'', ''target'', ''title''}" for s
    using that by (auto simp: is_letter_def byte_def)
  show ?thesis
    unfolding safe_name_def
  proof
    fix c assume c: "c \<in> set (sa_Name a)"
    show "128 \<le> byte c \<or> is_letter c"
    proof (rule disjCI)
      assume "\<not> is_letter c"
      show "128 \<le> byte c"
      proof (rule ccontr)
        assume "\<not> 128 \<le> byte c"
        then have "ascii_lower c \<in> set (ToLower L (sa_Name a))"
          using assms(1) c by (intro ToLower_ascii_inv) (auto simp: lower_keeps_ascii_def)
        with letters n have "is_letter (ascii_lower c)" by blast
        with letter_lower \<open>\<not> is_letter c\<close> show False by blast
      qed
    qed
  qed
qed

section \<open>Trees\<close>

text \<open>A tree of the language, and a normalised one.\<close>

fun well_named :: "stree \<Rightarrow> bool" where
  "well_named (STree name ty attrs content children tid) \<longleftrightarrow>
     (ty = ''Text'' \<or> ty = ''Tag'' \<and> name \<in> sml_names) \<and> list_all well_named children"

fun clean :: "golib \<Rightarrow> stree \<Rightarrow> bool" where
  "clean L (STree name ty attrs content children tid) \<longleftrightarrow>
     (if ty = ''Text'' then attrs = []
      else ty = ''Tag'' \<and> list_all (clean L) children
        \<and> (if name = Link then link_clean L attrs
           else name \<in> {Bold, Italic, Underline} \<and> attrs = []))"

lemma names_distinct [simp]:
  "Bold \<noteq> Italic" "Italic \<noteq> Bold" "Bold \<noteq> Underline" "Underline \<noteq> Bold"
  "Bold \<noteq> Link" "Link \<noteq> Bold" "Italic \<noteq> Underline" "Underline \<noteq> Italic"
  "Italic \<noteq> Link" "Link \<noteq> Italic" "Underline \<noteq> Link" "Link \<noteq> Underline"
  by (simp_all add: name_defs)

lemma normalize_cleans:
  "well_named t \<Longrightarrow> returns (normalizeNode L t is) (\<lambda>(t', is'). clean L t')"
  "list_all well_named ts \<Longrightarrow> returns (normalizeNodes L ts is) (\<lambda>(ts', is'). list_all (clean L) ts')"
proof (induction L t "is" and L ts "is" rule: normalizeNode_normalizeNodes.induct)
  case (1 L name ty attrs content children tid "is")
  consider "ty = ''Text''" | "ty \<noteq> ''Text''" "name = Link" | "ty \<noteq> ''Text''" "name \<in> {Bold, Italic, Underline}" "name \<noteq> Link"
    using 1(3) by (auto simp: sml_names_def)
  then show ?case
  proof cases
    case 1
    then show ?thesis by simp
  next
    case 2
    obtain attrs' is1 where la: "link_attributes L attrs is = (attrs', is1)" by force
    have "returns (normalizeNodes L children is1) (\<lambda>(ts', is'). list_all (clean L) ts')"
      using 2 la 1(3) by (intro 1(2)) auto
    then obtain ch' is2 where "normalizeNodes L children is1 = Some (ch', is2)" "list_all (clean L) ch'"
      by (auto simp: returns_ex)
    with 2 1(3) la link_attributes_clean [OF la] show ?thesis by simp
  next
    case 3
    then show ?thesis
      using 1(1,3) by (auto simp: returns_ex)
  qed
next
  case (3 L t ts "is")
  then obtain t' is1 where t: "normalizeNode L t is = Some (t', is1)" "clean L t'"
    by (auto simp: returns_ex)
  have "returns (normalizeNodes L ts is1) (\<lambda>(ts', is'). list_all (clean L) ts')"
    using t 3(3) by (intro 3(2)) auto
  then obtain ts' is2 where "normalizeNodes L ts is1 = Some (ts', is2)" "list_all (clean L) ts'"
    by (auto simp: returns_ex)
  with t show ?case by simp
qed simp

lemma render_safe:
  "clean L t \<Longrightarrow> lower_keeps_ascii L \<Longrightarrow> returns (renderNode t) (safe_html L)"
  "list_all (clean L) ts \<Longrightarrow> lower_keeps_ascii L \<Longrightarrow> returns (renderNodes ts) (safe_html L)"
proof (induction t and ts rule: renderNode_renderNodes.induct)
  case (1 name ty attrs content children tid)
  show ?case
  proof (cases "ty = ''Text''")
    case True
    then show ?thesis by (simp add: safe_html.Text)
  next
    case False
    with 1 have c: "ty = ''Tag''" "list_all (clean L) children"
      "if name = Link then link_clean L attrs else name \<in> {Bold, Italic, Underline}"
      by (auto split: if_splits)
    then obtain x where x: "renderNodes children = Some x" "safe_html L x"
      using 1 by (auto simp: returns_ex split: if_splits)
    have "link_clean L attrs \<Longrightarrow> safe_html L (link_text attrs x)"
      using 1(6) x(2) by (intro safe_html.Anchor) (auto simp: link_clean_def intro: allowed_name_safe)
    with c(3) have link: "name = Link \<Longrightarrow> safe_html L (link_text attrs x)" by simp
    from c(3) consider "name = Bold" | "name = Italic" | "name = Underline" | "name = Link"
      by (auto split: if_splits)
    then show ?thesis
      by cases (use c(1) x link in \<open>simp_all add: safe_html.Strong safe_html.Em safe_html.Underlined\<close>)
  qed
next
  case (3 t ts)
  then show ?case by (auto simp: returns_ex safe_html.Append)
qed (simp add: safe_html.Empty)

text \<open>The nodes of a parsed tree have names of the language.\<close>

lemma reference_well_named:
  assumes "typed (map core_of (ast_Nodes a)) par" and "tags_known d (map core_of (ast_Nodes a))"
    and "names_known d" and "length (ast_Nodes a) = length par" and "1 \<le> i" "i < length par"
  shows "well_named (reference_tree a d par i)"
  using assms(5,6)
proof (induction "length par - i" arbitrary: i rule: less_induct)
  case less
  let ?nd = "ast_Nodes a ! i"
  have ty: "nd_Type ?nd \<noteq> NodeRoot"
    using assms(1,4) less.prems by (auto simp: typed_def core_of_def)
  have "core_of ?nd \<in> set (map core_of (ast_Nodes a))" using less.prems assms(4) by simp
  then have "nd_Type ?nd = NodeTag \<Longrightarrow> node_name d ?nd \<in> sml_names"
    using assms(2,3) by (fastforce simp: tags_known_def core_of_def names_known_def node_name_def)
  moreover have "type_name (nd_Type ?nd) = (if nd_Type ?nd = NodeTag then ''Tag'' else ''Text'')"
    using ty by (cases "nd_Type ?nd") (simp_all add: type_name_def)
  moreover have "list_all well_named (map (reference_tree a d par) (filter (\<lambda>j. i < j) (kids par i)))"
    using less by (auto simp: list_all_iff kids_set)
  moreover have "i \<noteq> 0" using less.prems by simp
  ultimately show ?case
    by (subst reference_tree.simps) (simp add: Let_def)
qed

lemma reference_children:
  "st_children (reference_tree a d par 0) = map (reference_tree a d par) (filter (\<lambda>j. 0 < j) (kids par 0))"
  by (subst reference_tree.simps) (simp add: Let_def)

section \<open>Munch\<close>

lemma NewEater_fields:
  "NewEater p c = Some (Inr e) \<Longrightarrow> register_sml = Some (ea_dict e) \<and> (\<exists>w. NewWarnings (ea_policy e) (ea_cap e) = Inr w)"
  by (auto simp: NewEater_def bind_eq_Some_conv split: sum.splits)

lemma reference_root_cleans:
  assumes "ast_wf d input a" and "names_known d" and "arena (ast_Nodes a) par"
    and "typed (map core_of (ast_Nodes a)) par"
  shows "returns (normalizeRenderTree L (reference_tree a d par 0) is)
    (\<lambda>(t, is'). list_all (clean L) (st_children t))"
proof -
  have "tags_known d (map core_of (ast_Nodes a))" using assms(1) by (simp add: ast_wf_def Let_def)
  moreover have "length (ast_Nodes a) = length par" using assms(3) by (simp add: arena_def)
  ultimately have "list_all well_named (st_children (reference_tree a d par 0))"
    using reference_well_named [OF assms(4) _ assms(2)]
    by (auto simp: reference_children list_all_iff kids_set)
  from normalize_cleans(2) [OF this, of L "is"] show ?thesis
    by (auto simp: normalizeRenderTree_def returns_ex)
qed

lemma munch_ok:
  assumes "NewEater p c = Some (Inr e)" and "small (len input)" and "lower_keeps_ascii L"
  shows "returns (Munch L e input) (\<lambda>(r, issues).
    returns (Poop_HTML r) (safe_html L) \<and> returns (Poop_Text r) (\<lambda>_. True))"
proof -
  let ?d = "ea_dict e"
  have d: "dict_wf ?d" "names_known ?d"
    using NewEater_fields [OF assms(1)] sml_dictionary by blast+
  define w where "w = (case NewWarnings (ea_policy e) (ea_cap e) of Inl _ \<Rightarrow> zero_warnings | Inr w \<Rightarrow> w)"
  obtain a w1 s1 where pr: "Parse (gl_unicode L) newParserState input ?d w = Some (a, w1, s1)"
    and a: "ast_wf ?d input a"
    using Parse_ok [OF d(1) assms(2), of "gl_unicode L" w] by (auto simp: returns_ex)
  obtain par where r: "readable a par" using ast_wf_readable [OF a] by blast
  have "0 \<le> ast_MaxDepth a" using a by (simp add: ast_wf_def Let_def)
  from Serialize_ok [OF r this, of ?d] obtain root all where sr: "Serialize a ?d = Some (root, all)"
    and v: "view (length (ast_Nodes a)) all root = reference_tree a ?d par 0"
    by (auto simp: returns_ex)
  obtain t "is" where n: "normalizeRenderTree L (reference_tree a ?d par 0) [] = Some (t, is)"
    and cl: "list_all (clean L) (st_children t)"
    using reference_root_cleans [OF a d(2), of par L "[]"] r by (auto simp: returns_ex readable_def)
  have "0 \<le> len input div 10" by (simp add: len_def)
  then have "Munch L e input = Some (\<lparr>pp_Input = input, pp_AST = a, pp_Tree = t\<rparr>,
      map ParserWarning (SerializeAll w1 [] ?d) @ is)"
    using pr sr v n by (simp add: Munch_def w_def [symmetric] NewIssues_def)
  moreover have "returns (Poop_HTML \<lparr>pp_Input = input, pp_AST = a, pp_Tree = t\<rparr>) (safe_html L)"
    using render_safe(2) [OF cl assms(3)] by (simp add: Poop_HTML_def)
  moreover have "returns (Poop_Text \<lparr>pp_Input = input, pp_AST = a, pp_Tree = t\<rparr>) (\<lambda>_. True)"
    using ast_Text_ok [OF a] by (simp add: Poop_Text_def)
  ultimately show ?thesis by simp
qed

text \<open>
  C8: \<open>Munch\<close> returns for every input, and its result renders without a panic: the text is
  there, and the HTML consists of the elements of the language, escaped text and links whose
  attributes are allowed: at most one of each name, an \<open>href\<close> with no scheme or a permitted
  one, no protocol-relative \<open>href\<close>, a known \<open>target\<close>, and names that cannot break out.
\<close>

theorem munch_safe:
  assumes "NewEater p c = Some (Inr e)" and "small (len input)" and "lower_keeps_ascii L"
  shows "returns (Munch L e input) (\<lambda>(r, issues).
    returns (Poop_HTML r) (safe_html L) \<and> returns (Poop_Text r) (\<lambda>_. True))"
  using assms by (rule munch_ok)

text \<open>A library whose tables are those of ASCII, for the evaluations.\<close>

definition demo_golib :: golib where
  "demo_golib = \<lparr>gl_unicode = demo_unicode, gl_lower = map ascii_lower,
     gl_quote = (\<lambda>s. [CHR 0x22] @ s @ [CHR 0x22]), gl_url_error = (\<lambda>_. None)\<rparr>"

lemma demo_golib_lower: "lower_keeps_ascii demo_golib"
  by (simp add: lower_keeps_ascii_def demo_golib_def)

lemma demo_eater: "\<exists>e. NewEater 0 0 = Some (Inr e)"
proof -
  obtain d where d: "register_sml = Some d" using register_sml_returns by blast
  have "\<exists>w. NewWarnings 0 0 = Inr w" by (simp add: NewWarnings_def policy_defs)
  with d show ?thesis unfolding NewEater_def d by (auto simp: d)
qed

theorem munch_safe_witness:
  "\<exists>e. NewEater 0 0 = Some (Inr e) \<and> returns (Munch demo_golib e demo_input) (\<lambda>(r, issues).
    returns (Poop_HTML r) (safe_html demo_golib) \<and> returns (Poop_Text r) (\<lambda>_. True))"
  using munch_safe [OF _ demo_input_small demo_golib_lower] demo_eater by blast

section \<open>Which attributes a link keeps\<close>

text \<open>The first valid attribute of each name, in the order of the source.\<close>

definition valid_link_attribute :: "golib \<Rightarrow> serializable_attribute \<Rightarrow> bool" where
  "valid_link_attribute L a \<longleftrightarrow>
     (attrName L a = ''href'' \<and> fst (validateHref L [] a))
     \<or> (attrName L a = ''target'' \<and> fst (validateTarget [] a) \<noteq> None)
     \<or> (attrName L a = ''title'' \<and> fst (validateTitle [] a))"

fun first_valid :: "golib \<Rightarrow> string set \<Rightarrow> serializable_attribute list \<Rightarrow> serializable_attribute list" where
  "first_valid L seen [] = []"
| "first_valid L seen (a # as) =
     (if valid_link_attribute L a \<and> attrName L a \<notin> seen
      then a # first_valid L (insert (attrName L a) seen) as else first_valid L seen as)"

lemma validate_issues:
  "fst (validateHref L is a) = fst (validateHref L [] a)"
  "fst (validateTarget is a) = fst (validateTarget [] a)"
  "fst (validateTitle is a) = fst (validateTitle [] a)"
  by (simp_all add: validateHref_def validateTarget_def validateTitle_def basicLinkCheck_def Let_def
      split: sum.split)

definition opens_blank :: "golib \<Rightarrow> serializable_attribute \<Rightarrow> bool" where
  "opens_blank L a \<longleftrightarrow> attrName L a = ''target'' \<and> TrimSpace (sa_Payload a) = ''_blank''"

definition lk_seen :: "link_state \<Rightarrow> string set" where
  "lk_seen s = (if lk_href s then {''href''} else {}) \<union> (if lk_target s then {''target''} else {})
     \<union> (if lk_title s then {''title''} else {})"

definition lk_unread :: "serializable_attribute list \<Rightarrow> nat \<Rightarrow> link_state \<Rightarrow> bool" where
  "lk_unread as i s \<longleftrightarrow> (\<exists>n. lk_allowed s = Shared n \<and> n \<le> i) \<and> length (lk_arr s) = length as
     \<and> drop i (lk_arr s) = drop i as \<and> lk_count s = 3 - int (card (lk_seen s))"

lemma lk_append_shared:
  "lk_allowed s = Shared n \<Longrightarrow> n < length (lk_arr s) \<Longrightarrow>
     lk_append s x = s\<lparr>lk_arr := (lk_arr s)[n := x], lk_allowed := Shared (Suc n)\<rparr>"
  by (simp add: lk_append_def slice_append_def)

lemma lk_seen_mem [simp]:
  "''href'' \<in> lk_seen s \<longleftrightarrow> lk_href s" "''target'' \<in> lk_seen s \<longleftrightarrow> lk_target s"
  "''title'' \<in> lk_seen s \<longleftrightarrow> lk_title s" "finite (lk_seen s)"
  by (simp_all add: lk_seen_def)

lemma lk_seen_update [simp]:
  "lk_seen (s\<lparr>lk_href := True\<rparr>) = insert ''href'' (lk_seen s)"
  "lk_seen (s\<lparr>lk_target := True\<rparr>) = insert ''target'' (lk_seen s)"
  "lk_seen (s\<lparr>lk_title := True\<rparr>) = insert ''title'' (lk_seen s)"
  "lk_seen (s\<lparr>lk_count := c\<rparr>) = lk_seen s" "lk_seen (lk_append s x) = lk_seen s"
  by (auto simp: lk_seen_def lk_append_def split: prod.split)

text \<open>An attribute that is kept is written at or before the place it was read from.\<close>

lemma link_keep:
  assumes u: "lk_unread as i s" and i: "i < length as" and n: "nm \<notin> lk_seen s"
    and s': "lk_arr s' = lk_arr (lk_append s (as ! i))" "lk_allowed s' = lk_allowed (lk_append s (as ! i))"
      "lk_seen s' = insert nm (lk_seen s)" "lk_count s' = lk_count s - 1"
  shows "lk_unread as (Suc i) s' \<and> lk_value s' = lk_value s @ [as ! i]"
proof -
  obtain n where sh: "lk_allowed s = Shared n" "n \<le> i" and l: "length (lk_arr s) = length as"
    and dr: "drop i (lk_arr s) = drop i as" and c: "lk_count s = 3 - int (card (lk_seen s))"
    using u by (auto simp: lk_unread_def)
  have n': "n < length (lk_arr s)" using sh l i by simp
  have "drop (Suc i) (lk_arr s) = drop (Suc i) as"
    using arg_cong [OF dr, of "drop 1"] by simp
  moreover have "card (lk_seen s') = Suc (card (lk_seen s))" using n by (simp add: s'(3))
  ultimately show ?thesis
    using sh n' l c s' by (auto simp: lk_unread_def lk_append_shared [OF sh(1) n'] lk_value_def
        slice_value_def take_Suc_conv_app_nth)
qed

lemma drop_next: "drop i xs = drop i ys \<Longrightarrow> drop (Suc i) xs = drop (Suc i) ys"
  by (metis drop_drop plus_1_eq_Suc)

lemma link_skip: "lk_unread as i s \<Longrightarrow> lk_unread as (Suc i) s"
  by (auto simp: lk_unread_def intro: drop_next)

lemma lk_unread_issues [simp]:
  "lk_unread as i (s\<lparr>lk_issues := is\<rparr>) = lk_unread as i s" "lk_seen (s\<lparr>lk_issues := is\<rparr>) = lk_seen s"
  by (simp_all add: lk_unread_def lk_seen_def)

text \<open>
  One step, when the attribute is not a target \<open>_blank\<close>: the unread part stays as it is, and the
  attribute is appended exactly if it is the first valid one of its name.
\<close>

definition link_stepped ::
  "golib \<Rightarrow> serializable_attribute list \<Rightarrow> nat \<Rightarrow> link_state \<Rightarrow> link_state \<Rightarrow> bool" where
  "link_stepped L as i s s' \<longleftrightarrow> lk_unread as (Suc i) s'
    \<and> (if valid_link_attribute L (as ! i) \<and> attrName L (as ! i) \<notin> lk_seen s
       then lk_value s' = lk_value s @ [as ! i] \<and> lk_seen s' = insert (attrName L (as ! i)) (lk_seen s)
       else lk_value s' = lk_value s \<and> lk_seen s' = lk_seen s)"

lemma link_stepped_keep:
  assumes "lk_unread as i s" and "i < length as" and "valid_link_attribute L (as ! i)"
    and "attrName L (as ! i) \<notin> lk_seen s"
    and "lk_arr s' = lk_arr (lk_append s (as ! i))" "lk_allowed s' = lk_allowed (lk_append s (as ! i))"
      "lk_seen s' = insert (attrName L (as ! i)) (lk_seen s)" "lk_count s' = lk_count s - 1"
  shows "link_stepped L as i s s'"
  using link_keep [OF assms(1,2,4-8)] assms by (simp add: link_stepped_def)

lemma link_stepped_skip:
  assumes "lk_unread as i s" and "\<not> (valid_link_attribute L (as ! i) \<and> attrName L (as ! i) \<notin> lk_seen s)"
  shows "link_stepped L as i s s" "link_stepped L as i s (s\<lparr>lk_issues := is\<rparr>)"
  using link_skip [OF assms(1)] assms(2) by (auto simp: link_stepped_def)

lemma lk_append_issues: "lk_append (s\<lparr>lk_issues := is\<rparr>) x = (lk_append s x)\<lparr>lk_issues := is\<rparr>"
  by (simp add: lk_append_def split: prod.split)

lemma lk_append_flags [simp]:
  "lk_href (lk_append s x) = lk_href s" "lk_target (lk_append s x) = lk_target s"
  "lk_title (lk_append s x) = lk_title s" "lk_count (lk_append s x) = lk_count s"
  by (simp_all add: lk_append_def split: prod.split)

lemma link_step_first:
  assumes u: "lk_unread as i s" and i: "i < length as" and b: "\<not> opens_blank L (as ! i)"
  shows "link_stepped L as i s (link_step L s i)"
proof -
  let ?a = "as ! i"
  have a: "lk_arr s ! i = ?a"
    using u i by (metis hd_drop_conv_nth lk_unread_def)
  note keep = link_stepped_keep [OF u i] and skip = link_stepped_skip [OF u]
  consider (href) "attrName L ?a = ''href''" | (target) "attrName L ?a = ''target''"
    | (title) "attrName L ?a = ''title''"
    | (none) "attrName L ?a \<noteq> ''href''" "attrName L ?a \<noteq> ''target''" "attrName L ?a \<noteq> ''title''"
    by blast
  then show ?thesis
  proof cases
    case href
    obtain v "is" where v: "validateHref L (lk_issues s) ?a = (v, is)" by force
    then have "valid_link_attribute L ?a = v"
      using href validate_issues(1) [of L "lk_issues s" ?a] by (simp add: valid_link_attribute_def)
    with v href a show ?thesis
      by (cases v; cases "lk_href s")
        (auto simp: link_step_def lk_append_issues Let_def intro!: keep skip)
  next
    case target
    obtain v "is" where v: "validateTarget (lk_issues s) ?a = (v, is)" by force
    then have v1: "valid_link_attribute L ?a = (v \<noteq> None)"
      using target validate_issues(2) [of "lk_issues s" ?a] by (simp add: valid_link_attribute_def)
    have v2: "v = None \<or> v = Some zero_attribute"
      using v b target by (auto simp: validateTarget_def basicLinkCheck_def opens_blank_def Let_def split: if_splits)
    show ?thesis
    proof (cases v)
      case None
      with v v1 target a show ?thesis by (simp add: link_step_def Let_def skip)
    next
      case (Some r)
      with v2 have r: "r = zero_attribute" by simp
      from v v1 Some target a show ?thesis unfolding r
        by (cases "lk_target s")
          (auto simp: link_step_def lk_append_issues Let_def zero_attribute_def intro!: keep skip)
    qed
  next
    case title
    obtain v "is" where v: "validateTitle (lk_issues s) ?a = (v, is)" by force
    then have "valid_link_attribute L ?a = v"
      using title validate_issues(3) [of "lk_issues s" ?a] by (simp add: valid_link_attribute_def)
    with v title a show ?thesis
      by (cases v; cases "lk_title s")
        (auto simp: link_step_def lk_append_issues Let_def intro!: keep skip)
  next
    case none
    then have "\<not> valid_link_attribute L ?a" by (simp add: valid_link_attribute_def)
    with none a show ?thesis by (simp add: link_step_def Let_def skip)
  qed
qed

text \<open>Once all three names are seen nothing more is kept, which is why the loop may stop.\<close>

lemma valid_names: "valid_link_attribute L a \<Longrightarrow> attrName L a \<in> {''href'', ''target'', ''title''}"
  by (auto simp: valid_link_attribute_def)

lemma first_valid_full:
  "{''href'', ''target'', ''title''} \<subseteq> seen \<Longrightarrow> first_valid L seen as = []"
proof (induction as arbitrary: seen)
  case (Cons a as)
  have "attrName L a \<in> seen" if "valid_link_attribute L a"
    using subsetD [OF Cons.prems valid_names [OF that]] .
  with Cons show ?case by simp
qed simp

lemma seen_full: "card (lk_seen s) \<ge> 3 \<Longrightarrow> {''href'', ''target'', ''title''} \<subseteq> lk_seen s"
  by (cases "lk_href s"; cases "lk_target s"; cases "lk_title s") (simp_all add: lk_seen_def)

lemma link_loop_first:
  assumes "lk_unread as i s" and "i \<le> length as" and "\<forall>a \<in> set (drop i as). \<not> opens_blank L a"
  shows "lk_value (link_loop L s [i..<length as]) = lk_value s @ first_valid L (lk_seen s) (drop i as)"
  using assms
proof (induction "length as - i" arbitrary: i s)
  case 0
  then show ?case by simp
next
  case (Suc k)
  then have i: "i < length as" by simp
  have dr: "drop i as = as ! i # drop (Suc i) as" using i by (rule Cons_nth_drop_Suc [symmetric])
  have up: "[i..<length as] = i # [Suc i..<length as]" using i by (rule upt_conv_Cons)
  show ?case
  proof (cases "lk_count s > 0")
    case True
    have "link_stepped L as i s (link_step L s i)"
      using Suc.prems i dr by (intro link_step_first) auto
    moreover from this have "lk_value (link_loop L (link_step L s i) [Suc i..<length as]) =
        lk_value (link_step L s i) @ first_valid L (lk_seen (link_step L s i)) (drop (Suc i) as)"
      using Suc i dr by (intro Suc.hyps(1)) (auto simp: link_stepped_def)
    ultimately show ?thesis
      using True by (simp add: up dr link_stepped_def del: upt_Suc split: if_splits)
  next
    case False
    then have "card (lk_seen s) \<ge> 3" using Suc.prems(1) by (auto simp: lk_unread_def)
    with seen_full have "first_valid L (lk_seen s) (drop i as) = []" by (intro first_valid_full)
    with False show ?thesis by (simp add: up del: upt_Suc)
  qed
qed

text \<open>
  C34: unless a target \<open>_blank\<close> is among them, a link keeps exactly the first valid \<open>href\<close>,
  \<open>target\<close> and \<open>title\<close> of its attributes, in the order of the source, although the slice it
  builds shares the array it reads.
\<close>

theorem link_keeps_first_valid:
  assumes "\<forall>a \<in> set as. \<not> opens_blank L a"
  shows "fst (link_attributes L as is) = first_valid L {} as"
proof -
  let ?s = "link_start as is"
  have "lk_unread as 0 ?s" "lk_value ?s = []" "lk_seen ?s = {}"
    by (simp_all add: link_start_def lk_unread_def lk_seen_def lk_value_def slice_value_def)
  with link_loop_first [of as 0 ?s L] assms show ?thesis
    by (simp add: link_attributes_def Let_def lk_value_def)
qed

definition attribute_of :: "string \<Rightarrow> string \<Rightarrow> serializable_attribute" where
  "attribute_of name payload = \<lparr>sa_Name = name, sa_Payload = payload, sa_IsFlag = False\<rparr>"

theorem link_keeps_first_valid_witness:
  "fst (link_attributes demo_golib [attribute_of ''href'' ''javascript:x'', attribute_of ''HREF'' '' /a'',
      attribute_of ''href'' ''/b'', attribute_of ''target'' ''_self''] [])
   = [attribute_of ''HREF'' '' /a'', attribute_of ''target'' ''_self'']"
proof -
  let ?as = "[attribute_of ''href'' ''javascript:x'', attribute_of ''HREF'' '' /a'',
      attribute_of ''href'' ''/b'', attribute_of ''target'' ''_self'']"
  have "list_all (\<lambda>a. \<not> opens_blank demo_golib a) ?as" by code_simp
  then have "fst (link_attributes demo_golib ?as []) = first_valid demo_golib {} ?as"
    by (intro link_keeps_first_valid) (simp add: list_all_iff)
  also have "\<dots> = [attribute_of ''HREF'' '' /a'', attribute_of ''target'' ''_self'']"
    by code_simp
  finally show ?thesis .
qed

text \<open>
  A target \<open>_blank\<close> can push the next attribute out of a link: its \<open>rel\<close> is written over the
  attribute that is read next. The link of the documentation, with \<open>href\<close>, \<open>target\<close> and \<open>title\<close>,
  loses its title, and one whose \<open>href\<close> follows its target loses the \<open>href\<close>.
\<close>

theorem link_blank_loses_next:
  "fst (link_attributes demo_golib [attribute_of ''href'' ''https://address.com'',
      attribute_of ''target'' ''_blank'', attribute_of ''title'' ''this is a link''] [])
     = [attribute_of ''href'' ''https://address.com'', attribute_of ''target'' ''_blank'', rel_attribute]
   \<and> fst (link_attributes demo_golib [attribute_of ''target'' ''_blank'',
      attribute_of ''href'' ''https://address.com''] [])
     = [attribute_of ''target'' ''_blank'', rel_attribute]"
  by (intro conjI; code_simp)

text \<open>
  \<open>NewEater\<close> never panics: all its registrations succeed. It returns an eater with the
  given policy and cap when \<open>NewWarnings\<close> accepts them, so the error that \<open>Munch\<close> ignores
  cannot occur, and otherwise the error \<open>INVALID_PARAMS\<close> with that of \<open>NewWarnings\<close>.
\<close>

theorem new_eater_validates:
  "if 0 \<le> p \<and> p < numPolicies \<and> 0 \<le> c
   then \<exists>d. dict_wf d \<and> NewEater p c = Some (Inr \<lparr>ea_dict = d, ea_policy = p, ea_cap = c\<rparr>)
   else \<exists>err. NewWarnings p c = Inl err \<and>
     NewEater p c = Some (Inl (sml_NewConfigError ''SML Parser'' ReasonInvalidParams err))"
proof -
  obtain d where d: "register_sml = Some d" using register_sml_returns by blast
  have nd: "\<exists>d0. NewDictionary no_limits = Inr d0"
    using d unfolding register_sml_def bind_eq_Some_conv must_Some by blast
  show ?thesis
  proof (cases "0 \<le> p \<and> p < numPolicies \<and> 0 \<le> c")
    case True
    then have "\<exists>w. NewWarnings p c = Inr w" by (auto simp: NewWarnings_def)
    with True sml_dictionary [OF d] show ?thesis unfolding NewEater_def d by auto
  next
    case False
    then have "\<exists>err. NewWarnings p c = Inl err" by (auto simp: NewWarnings_def)
    with False nd show ?thesis unfolding NewEater_def by (auto simp del: NewWarnings_def)
  qed
qed

end
