(* ===== verification/Db_Error.thy ===== *)
theory Db_Error
  imports Go_Strings
begin

text \<open>
  The errors of the database layer (\<open>db/sqlc/error.go\<close>): the kinds, the classified error
  \<open>OpError\<close> with its optional parts, and \<open>sqlError\<close>, which reads the code and the constraint
  of an error of PostgreSQL.

  An \<open>error\<close> is a value of Go's interface of that name: the two errors of the driver the code
  tests for, an \<open>OpError\<close>, and \<open>Errorf\<close> for \<open>errors.New\<close> and \<open>fmt.Errorf\<close>, whose optional
  component is the error wrapped by \<open>%w\<close> at the end of the text. \<open>errors.Is\<close> and \<open>errors.As\<close>
  follow \<open>Unwrap\<close>.
\<close>

section \<open>Kinds\<close>

text \<open>\<open>Kind\<close> is a Go \<open>int\<close>; \<open>KindOther\<close> stands for a value that has no name.\<close>

datatype kind = KindInternal | KindNotFound | KindInvalid | KindPermission | KindRelation
  | KindConflict | KindDeleted | KindCorrupted | KindConstraint | KindSecurity | KindOther int

fun kind_String :: "kind \<Rightarrow> string" where
  "kind_String KindInternal = ''internal''"
| "kind_String KindNotFound = ''not_found''"
| "kind_String KindInvalid = ''invalid''"
| "kind_String KindPermission = ''permission''"
| "kind_String KindRelation = ''relation''"
| "kind_String KindConflict = ''conflict''"
| "kind_String KindDeleted = ''deleted''"
| "kind_String KindCorrupted = ''corrupted''"
| "kind_String KindConstraint = ''constraint''"
| "kind_String KindSecurity = ''security''"
| "kind_String (KindOther k) = ''unknown''"

definition entPost :: string where "entPost = ''post''"
definition entPostVote :: string where "entPostVote = ''post-vote''"
definition entComment :: string where "entComment = ''comment''"
definition entCommentVote :: string where "entCommentVote = ''comment-vote''"
definition entUser :: string where "entUser = ''user''"
definition entWauthnCred :: string where "entWauthnCred = ''webauthn-credential''"
definition entSession :: string where "entSession = ''session''"

section \<open>Errors\<close>

text \<open>What \<open>sqlError\<close> reads of a \<open>pgconn.PgError\<close>; \<open>pg_Text\<close> is what its method \<open>Error\<close> returns.\<close>

record pg_error =
  pg_Code :: string
  pg_ConstraintName :: string
  pg_Text :: string

datatype go_error =
    ErrNoRows
  | PgError pg_error
  | OpError (oe_Op: string) (oe_Kind: kind) (oe_Entity: string) (oe_EntityID: string)
      (oe_RelatedEntity: string) (oe_RelatedEntityID: string) (oe_FailingField: string)
      (oe_UserID: string) (oe_Err: "go_error option")
  | Errorf string "go_error option"

fun errors_As_PgError :: "go_error \<Rightarrow> pg_error option" where
  "errors_As_PgError (PgError e) = Some e"
| "errors_As_PgError (OpError _ _ _ _ _ _ _ _ (Some e)) = errors_As_PgError e"
| "errors_As_PgError (Errorf _ (Some e)) = errors_As_PgError e"
| "errors_As_PgError _ = None"

text \<open>\<open>errors.As(err, &opErr)\<close>: the first \<open>OpError\<close> of the chain.\<close>

fun errors_As_OpError :: "go_error \<Rightarrow> go_error option" where
  "errors_As_OpError (OpError a b c d e f g h i) = Some (OpError a b c d e f g h i)"
| "errors_As_OpError (Errorf _ (Some e)) = errors_As_OpError e"
| "errors_As_OpError _ = None"

fun errors_Is_NoRows :: "go_error \<Rightarrow> bool" where
  "errors_Is_NoRows ErrNoRows = True"
| "errors_Is_NoRows (OpError _ _ _ _ _ _ _ _ (Some e)) = errors_Is_NoRows e"
| "errors_Is_NoRows (Errorf _ (Some e)) = errors_Is_NoRows e"
| "errors_Is_NoRows _ = False"

text \<open>\<open>strings.Join\<close>\<close>

fun strings_Join :: "string list \<Rightarrow> string \<Rightarrow> string" where
  "strings_Join [] sep = []"
| "strings_Join [s] sep = s"
| "strings_Join (s # t # ss) sep = s @ sep @ strings_Join (t # ss) sep"

definition optional_part :: "string \<Rightarrow> string \<Rightarrow> string list" where
  "optional_part label s = (if s \<noteq> [] then [label @ s] else [])"

fun Error_text :: "go_error \<Rightarrow> string" where
  "Error_text ErrNoRows = ''no rows in result set''"
| "Error_text (PgError e) = pg_Text e"
| "Error_text (Errorf s None) = s"
| "Error_text (Errorf s (Some e)) = s @ Error_text e"
| "Error_text (OpError op k ent eid rel rid field uid None) =
     strings_Join ([op @ '':'', ''kind='' @ kind_String k, ''entity='' @ ent]
       @ optional_part ''entity_id='' eid @ optional_part ''related_entity='' rel
       @ optional_part ''related_entity_id='' rid @ optional_part ''field='' field
       @ optional_part ''user_id='' uid) '' ''"
| "Error_text (OpError op k ent eid rel rid field uid (Some e)) =
     strings_Join ([op @ '':'', ''kind='' @ kind_String k, ''entity='' @ ent]
       @ optional_part ''entity_id='' eid @ optional_part ''related_entity='' rel
       @ optional_part ''related_entity_id='' rid @ optional_part ''field='' field
       @ optional_part ''user_id='' uid @ [''err='' @ Error_text e]) '' ''"

section \<open>Building an OpError\<close>

type_synonym err_decorator = "go_error \<Rightarrow> go_error"

definition newOpError ::
  "string \<Rightarrow> kind \<Rightarrow> string \<Rightarrow> go_error \<Rightarrow> err_decorator list \<Rightarrow> go_error" where
  "newOpError op k ent err opts =
     fold (\<lambda>dec be. dec be) opts (OpError op k ent [] [] [] [] [] (Some err))"

fun withEntityID :: "string \<Rightarrow> err_decorator" where
  "withEntityID x (OpError op k ent eid rel rid field uid e) = OpError op k ent x rel rid field uid e"
| "withEntityID x e = e"

fun withUser :: "string \<Rightarrow> err_decorator" where
  "withUser x (OpError op k ent eid rel rid field uid e) = OpError op k ent eid rel rid field x e"
| "withUser x e = e"

fun withRelated :: "string \<Rightarrow> string \<Rightarrow> err_decorator" where
  "withRelated x y (OpError op k ent eid rel rid field uid e) = OpError op k ent eid x y field uid e"
| "withRelated x y e = e"

fun withField :: "string \<Rightarrow> err_decorator" where
  "withField x (OpError op k ent eid rel rid field uid e) = OpError op k ent eid rel rid x uid e"
| "withField x e = e"

definition notFoundError :: "string \<Rightarrow> string \<Rightarrow> string \<Rightarrow> go_error" where
  "notFoundError op ent eid =
     newOpError op KindNotFound ent
       (Errorf (ent @ '' with id '' @ eid @ '' not found'') None) [withEntityID eid]"

section \<open>Errors of PostgreSQL\<close>

record op_details =
  det_entityID :: string
  det_userID :: string
  det_postID :: string
  det_commentID :: string
  det_input :: string
  det_entity :: string

definition no_details :: op_details where
  "no_details = \<lparr>det_entityID = [], det_userID = [], det_postID = [], det_commentID = [],
     det_input = [], det_entity = []\<rparr>"

definition decorators :: "op_details \<Rightarrow> err_decorator list" where
  "decorators d =
     (if det_entityID d \<noteq> [] then [withEntityID (det_entityID d)] else [])
     @ (if det_userID d \<noteq> [] then [withUser (det_userID d)] else [])"

definition sqlError :: "string \<Rightarrow> op_details \<Rightarrow> go_error \<Rightarrow> go_error" where
  "sqlError op det err =
     (let internal = newOpError op KindInternal (det_entity det) err (decorators det)
      in case errors_As_PgError err of
        None \<Rightarrow> internal
      | Some pg \<Rightarrow>
          if pg_Code pg = ''23503'' then
            (if pg_ConstraintName pg = ''comments_post_id_fkey'' then
               newOpError op KindRelation entComment
                 (Errorf (''attempt to create comment for a non-existent post with id [''
                    @ det_postID det @ '']: '') (Some (PgError pg)))
                 [withRelated entPost (det_postID det)]
             else if pg_ConstraintName pg = ''comment_votes_comment_id_fkey'' then
               newOpError op KindRelation entCommentVote
                 (Errorf (''attempt to vote for a non-existent comment with id [''
                    @ det_commentID det @ '']: '') (Some (PgError pg)))
                 [withRelated entComment (det_commentID det)]
             else if pg_ConstraintName pg = ''comment_votes_user_id_fkey'' then
               newOpError op KindRelation entCommentVote
                 (Errorf (''attempt to vote as a non-existent user with id [''
                    @ det_userID det @ '']: '') (Some (PgError pg)))
                 [withRelated entUser (det_userID det)]
             else newOpError op KindRelation (det_entity det) (PgError pg) (decorators det))
          else if pg_Code pg = ''23505'' then
            (if pg_ConstraintName pg = ''uniq_users_username_active'' then
               newOpError op KindConflict entUser
                 (Errorf (''user with username '' @ [CHR 0x27] @ det_input det @ [CHR 0x27]
                    @ '' exists: '') (Some (PgError pg)))
                 (decorators det @ [withField ''username''])
             else if pg_ConstraintName pg = ''uniq_users_email_active'' then
               newOpError op KindConflict entUser
                 (Errorf (''user with email '' @ [CHR 0x27] @ det_input det @ [CHR 0x27]
                    @ '' exists: '') (Some (PgError pg)))
                 (decorators det @ [withField ''email''])
             else newOpError op KindConflict (det_entity det) (PgError pg) (decorators det))
          else internal)"

section \<open>What the decorators keep\<close>

definition is_op_error :: "string \<Rightarrow> kind \<Rightarrow> go_error \<Rightarrow> bool" where
  "is_op_error op k e = (case e of OpError op' k' _ _ _ _ _ _ err \<Rightarrow> op' = op \<and> k' = k \<and> err \<noteq> None
     | _ \<Rightarrow> False)"

text \<open>A decorator leaves the operation, the kind and the presence of a cause alone.\<close>

definition decorates :: "err_decorator \<Rightarrow> bool" where
  "decorates f \<longleftrightarrow> (\<forall>op k e. is_op_error op k (f e) = is_op_error op k e)"

lemma decorates_with [simp]:
  "decorates (withEntityID x)" "decorates (withUser x)" "decorates (withRelated x y)"
  "decorates (withField x)"
  unfolding decorates_def is_op_error_def by (auto split: go_error.splits elim!: withEntityID.elims
      withUser.elims withRelated.elims withField.elims)

lemma decorates_details [simp]: "list_all decorates (decorators det)"
  by (simp add: decorators_def)

lemma is_op_error_new [simp]:
  assumes "list_all decorates opts"
  shows "is_op_error op k (newOpError op' k' ent err opts) \<longleftrightarrow> op = op' \<and> k = k'"
proof -
  have "is_op_error op k (fold (\<lambda>dec be. dec be) opts e) = is_op_error op k e" for e
    using assms by (induction opts arbitrary: e) (simp_all add: decorates_def)
  then show ?thesis by (auto simp: newOpError_def is_op_error_def)
qed

lemma is_op_error_notFound [simp]:
  "is_op_error op k (notFoundError op' ent eid) \<longleftrightarrow> op = op' \<and> k = KindNotFound"
  by (simp add: notFoundError_def)

text \<open>The kind \<open>sqlError\<close> gives an error of the driver.\<close>

definition sql_kind :: "go_error \<Rightarrow> kind" where
  "sql_kind err = (case errors_As_PgError err of
      Some pg \<Rightarrow> if pg_Code pg = ''23503'' then KindRelation
                 else if pg_Code pg = ''23505'' then KindConflict else KindInternal
    | None \<Rightarrow> KindInternal)"

lemma is_op_error_sql [simp]:
  "is_op_error op k (sqlError op' det err) \<longleftrightarrow> op = op' \<and> k = sql_kind err"
  by (cases "errors_As_PgError err") (simp_all add: sqlError_def sql_kind_def)

end
