(* ===== verification/Db_Store.thy ===== *)
theory Db_Store
  imports Db_Error
begin

text \<open>
  The tables of the database and what they store (\<open>db/sqlc/models.go\<close> and the migrations under
  \<open>db/migration\<close>), with the rows of \<open>comments\<close> and \<open>comment_votes\<close> and the statements over
  them (\<open>comment.sql.go\<close>, \<open>comment_vote.sql.go\<close>).

  A table is a list of rows in the order of insertion; an identifier of the sequence of a table
  is an unbounded \<open>int\<close>; a time is an \<open>int\<close>, and 0 is Go's zero time, which the migrations
  store for \<open>never\<close>. A statement is a function of the environment and the database that
  returns an error or its rows, and the database after it. \<open>env_query\<close> names the failures that
  do not come from the data: a lost connection, a cancelled context, a value the server refuses
  to read. A statement that fails changes nothing but the sequences.
\<close>

section \<open>Rows\<close>

record pg_int8 =
  i8_Int64 :: int
  i8_Valid :: bool

record pg_text =
  tx_String :: string
  tx_Valid :: bool

definition null_int8 :: pg_int8 where "null_int8 = \<lparr>i8_Int64 = 0, i8_Valid = False\<rparr>"
definition null_text :: pg_text where "null_text = \<lparr>tx_String = [], tx_Valid = False\<rparr>"

text \<open>What a column holds after a value was written to it: NULL is read back as the zero value.\<close>

definition stored_int8 :: "pg_int8 \<Rightarrow> pg_int8" where
  "stored_int8 v = (if i8_Valid v then v else null_int8)"

definition stored_text :: "pg_text \<Rightarrow> pg_text" where
  "stored_text v = (if tx_Valid v then v else null_text)"

record Comment =
  c_ID :: int
  c_UserID :: int
  c_PostID :: int
  c_ParentID :: pg_int8
  c_Depth :: int
  c_Upvotes :: int
  c_Downvotes :: int
  c_Body :: string
  c_CreatedAt :: int
  c_LastModifiedAt :: int
  c_IsDeleted :: bool
  c_DeletedAt :: int
  c_Popularity :: pg_int8

record CommentVote =
  cv_ID :: int
  cv_UserID :: int
  cv_CommentID :: int
  cv_Vote :: int
  cv_CreatedAt :: int
  cv_LastModifiedAt :: int

record User =
  u_ID :: int
  u_Username :: string
  u_WebauthnUserHandle :: string
  u_ProfileImgUrl :: pg_text
  u_Email :: string
  u_CreatedAt :: int
  u_IsDeleted :: bool
  u_DeletedAt :: int
  u_DisplayName :: string
  u_ArchivedUsername :: string
  u_ArchivedEmail :: string
  u_LastModifiedAt :: int

record Session =
  s_ID :: string
  s_UserID :: int
  s_RefreshToken :: string
  s_UserAgent :: string
  s_ClientIp :: string
  s_IsBlocked :: bool
  s_ExpiresAt :: int
  s_CreatedAt :: int

record WebauthnCredential =
  k_ID :: string
  k_UserID :: int
  k_PublicKey :: string
  k_AttestationType :: pg_text
  k_Transports :: string
  k_UserPresent :: bool
  k_UserVerified :: bool
  k_BackupEligible :: bool
  k_BackupState :: bool
  k_Aaguid :: string
  k_SignCount :: int
  k_CloneWarning :: bool
  k_AuthenticatorAttachment :: string
  k_AuthenticatorData :: string
  k_PublicKeyAlgorithm :: int
  k_CreatedAt :: int
  k_LastUsedAt :: "int option"

section \<open>The database\<close>

text \<open>The values the sequences of the tables give next; no rollback takes them back.\<close>

record sequences =
  sq_users :: int
  sq_comments :: int
  sq_votes :: int

text \<open>Of a post only its identifier matters here. \<open>db_now\<close> is what \<open>NOW()\<close> returns.\<close>

record db =
  db_users :: "User list"
  db_posts :: "int list"
  db_comments :: "Comment list"
  db_votes :: "CommentVote list"
  db_sessions :: "Session list"
  db_credentials :: "WebauthnCredential list"
  db_seqs :: sequences
  db_now :: int

text \<open>
  \<open>env_query name\<close> is the failure of the statement of that name, \<open>env_text code constraint\<close>
  the text of an error of the server, \<open>env_pick\<close> the row the server returns first when
  several match and the statement gives no order. The other three belong to transactions.
\<close>

record env =
  env_query :: "string \<Rightarrow> go_error option"
  env_text :: "string \<Rightarrow> string \<Rightarrow> string"
  env_pick :: nat
  env_begin :: "go_error option"
  env_rollback :: "go_error option"
  env_commit :: "(go_error \<times> bool) option"

type_synonym 'a result = "(go_error + 'a) \<times> db"

definition pg_error_of :: "env \<Rightarrow> string \<Rightarrow> string \<Rightarrow> go_error" where
  "pg_error_of E code con =
     PgError \<lparr>pg_Code = code, pg_ConstraintName = con, pg_Text = env_text E code con\<rparr>"

definition fk_violation :: "env \<Rightarrow> string \<Rightarrow> go_error" where
  "fk_violation E con = pg_error_of E ''23503'' con"

definition unique_violation :: "env \<Rightarrow> string \<Rightarrow> go_error" where
  "unique_violation E con = pg_error_of E ''23505'' con"

definition out_of_range :: "env \<Rightarrow> go_error" where
  "out_of_range E = pg_error_of E ''22003'' []"

text \<open>A statement runs on the data unless the environment makes it fail.\<close>

definition query :: "string \<Rightarrow> env \<Rightarrow> (db \<Rightarrow> 'a result) \<Rightarrow> db \<Rightarrow> 'a result" where
  "query name E f d = (case env_query E name of Some e \<Rightarrow> (Inl e, d) | None \<Rightarrow> f d)"

definition one_row :: "'a option \<Rightarrow> go_error + 'a" where
  "one_row r = (case r of None \<Rightarrow> Inl ErrNoRows | Some x \<Rightarrow> Inr x)"

definition in_bigint :: "int \<Rightarrow> bool" where
  "in_bigint x \<longleftrightarrow> - (2 ^ 63) \<le> x \<and> x < 2 ^ 63"

definition user_exists :: "db \<Rightarrow> int \<Rightarrow> bool" where
  "user_exists d i \<longleftrightarrow> i \<in> set (map u_ID (db_users d))"

definition comment_of :: "db \<Rightarrow> int \<Rightarrow> Comment option" where
  "comment_of d i = find (\<lambda>c. c_ID c = i) (db_comments d)"

definition vote_of :: "db \<Rightarrow> int \<Rightarrow> int \<Rightarrow> CommentVote option" where
  "vote_of d u c = find (\<lambda>v. cv_UserID v = u \<and> cv_CommentID v = c) (db_votes d)"

text \<open>\<open>UPDATE comments SET ... WHERE id = i\<close>, with the generated column \<open>popularity\<close>.\<close>

definition with_popularity :: "Comment \<Rightarrow> Comment" where
  "with_popularity c =
     c\<lparr>c_Popularity := \<lparr>i8_Int64 = c_Upvotes c - c_Downvotes c, i8_Valid = True\<rparr>\<rparr>"

definition set_comment :: "db \<Rightarrow> Comment \<Rightarrow> db" where
  "set_comment d c = d\<lparr>db_comments := map (\<lambda>x. if c_ID x = c_ID c then c else x) (db_comments d)\<rparr>"

section \<open>Statements over comments\<close>

record createCommentParams =
  cc_UserID :: int
  cc_PostID :: int
  cc_Body :: string
  cc_ParentID :: pg_int8
  cc_Depth :: int
  cc_Upvotes :: int
  cc_Downvotes :: int

text \<open>
  \<open>INSERT INTO comments\<close>: the generated column, the partial unique index
  \<open>uniq_reply_per_user_parent\<close>, then the foreign keys in the order the migration adds them.
\<close>

definition createComment :: "env \<Rightarrow> createCommentParams \<Rightarrow> db \<Rightarrow> Comment result" where
  "createComment E arg = query ''createComment'' E (\<lambda>d.
     let i = sq_comments (db_seqs d);
         d1 = d\<lparr>db_seqs := (db_seqs d)\<lparr>sq_comments := i + 1\<rparr>\<rparr>;
         p = stored_int8 (cc_ParentID arg);
         c = with_popularity \<lparr>c_ID = i, c_UserID = cc_UserID arg, c_PostID = cc_PostID arg,
               c_ParentID = p, c_Depth = cc_Depth arg, c_Upvotes = cc_Upvotes arg,
               c_Downvotes = cc_Downvotes arg, c_Body = cc_Body arg, c_CreatedAt = db_now d,
               c_LastModifiedAt = db_now d, c_IsDeleted = False, c_DeletedAt = 0,
               c_Popularity = null_int8\<rparr>
     in if \<not> in_bigint (cc_Upvotes arg - cc_Downvotes arg) then (Inl (out_of_range E), d1)
        else if i8_Valid p \<and> (\<exists>x\<in>set (db_comments d). c_UserID x = cc_UserID arg
                \<and> c_ParentID x = p \<and> \<not> c_IsDeleted x) then
          (Inl (unique_violation E ''uniq_reply_per_user_parent''), d1)
        else if \<not> user_exists d (cc_UserID arg) then
          (Inl (fk_violation E ''comments_user_id_fkey''), d1)
        else if cc_PostID arg \<notin> set (db_posts d) then
          (Inl (fk_violation E ''comments_post_id_fkey''), d1)
        else if i8_Valid p \<and> comment_of d (i8_Int64 p) = None then
          (Inl (fk_violation E ''comments_parent_id_fkey''), d1)
        else (Inr c, d1\<lparr>db_comments := db_comments d1 @ [c]\<rparr>))"

definition getCommentWithLock :: "env \<Rightarrow> int \<Rightarrow> db \<Rightarrow> Comment result" where
  "getCommentWithLock E i = query ''getCommentWithLock'' E (\<lambda>d. (one_row (comment_of d i), d))"

definition getRootCommentCountForUser :: "env \<Rightarrow> int \<Rightarrow> int \<Rightarrow> db \<Rightarrow> int result" where
  "getRootCommentCountForUser E post user = query ''getRootCommentCountForUser'' E (\<lambda>d.
     (Inr (len [c \<leftarrow> db_comments d. c_PostID c = post \<and> c_UserID c = user
                   \<and> \<not> i8_Valid (c_ParentID c)]), d))"

definition softDeleteComment :: "env \<Rightarrow> int \<Rightarrow> db \<Rightarrow> Comment result" where
  "softDeleteComment E i = query ''softDeleteComment'' E (\<lambda>d.
     case comment_of d i of
       None \<Rightarrow> (Inl ErrNoRows, d)
     | Some c \<Rightarrow>
         let c' = c\<lparr>c_Body := ''[deleted]'', c_IsDeleted := True, c_DeletedAt := db_now d,
                    c_LastModifiedAt := db_now d\<rparr>
         in (Inr c', set_comment d c'))"

definition updateCommentPopularity :: "env \<Rightarrow> int \<Rightarrow> int \<Rightarrow> int \<Rightarrow> db \<Rightarrow> Comment result" where
  "updateCommentPopularity E i up down = query ''updateCommentPopularity'' E (\<lambda>d.
     case comment_of d i of
       None \<Rightarrow> (Inl ErrNoRows, d)
     | Some c \<Rightarrow>
         if c_IsDeleted c then (Inl ErrNoRows, d)
         else
           let c' = with_popularity (c\<lparr>c_Upvotes := c_Upvotes c + up,
                      c_Downvotes := c_Downvotes c + down, c_LastModifiedAt := db_now d\<rparr>)
           in if in_bigint (c_Upvotes c') \<and> in_bigint (c_Downvotes c')
                 \<and> in_bigint (i8_Int64 (c_Popularity c'))
              then (Inr c', set_comment d c') else (Inl (out_of_range E), d))"

text \<open>\<open>delete_comment_leaf\<close>; the foreign key of the votes is \<open>ON DELETE CASCADE\<close>.\<close>

record deleteCommentIfLeafRow =
  dl_ID :: int
  dl_UserID :: int
  dl_PostID :: int
  dl_IsDeleted :: bool
  dl_DeletedAt :: int
  dl_HasChildren :: bool
  dl_DeletedOk :: bool

definition has_children :: "db \<Rightarrow> int \<Rightarrow> bool" where
  "has_children d i \<longleftrightarrow> (\<exists>x\<in>set (db_comments d). c_ParentID x = \<lparr>i8_Int64 = i, i8_Valid = True\<rparr>)"

definition remove_comment :: "db \<Rightarrow> int \<Rightarrow> db" where
  "remove_comment d i = d\<lparr>db_comments := [c \<leftarrow> db_comments d. c_ID c \<noteq> i],
     db_votes := [v \<leftarrow> db_votes d. cv_CommentID v \<noteq> i]\<rparr>"

definition deleteCommentIfLeaf ::
  "env \<Rightarrow> int \<Rightarrow> int \<Rightarrow> int \<Rightarrow> db \<Rightarrow> deleteCommentIfLeafRow result" where
  "deleteCommentIfLeaf E i user post = query ''deleteCommentIfLeaf'' E (\<lambda>d.
     case comment_of d i of
       None \<Rightarrow> (Inl ErrNoRows, d)
     | Some c \<Rightarrow>
         let children = has_children d i;
             deleted = (c_UserID c = user \<and> c_PostID c = post \<and> \<not> c_IsDeleted c \<and> \<not> children);
             row = \<lparr>dl_ID = c_ID c, dl_UserID = c_UserID c, dl_PostID = c_PostID c,
                    dl_IsDeleted = c_IsDeleted c, dl_DeletedAt = c_DeletedAt c,
                    dl_HasChildren = children, dl_DeletedOk = deleted\<rparr>
         in (Inr row, if deleted then remove_comment d i else d))"

text \<open>\<open>update_comment\<close>\<close>

record updateCommentRow =
  uc_ID :: int
  uc_UserID :: int
  uc_PostID :: int
  uc_IsDeleted :: bool
  uc_Body :: string
  uc_LastModifiedAt :: int
  uc_Updated :: bool

definition updateComment ::
  "env \<Rightarrow> int \<Rightarrow> int \<Rightarrow> int \<Rightarrow> string \<Rightarrow> db \<Rightarrow> updateCommentRow result" where
  "updateComment E i user post body = query ''updateComment'' E (\<lambda>d.
     case comment_of d i of
       None \<Rightarrow> (Inl ErrNoRows, d)
     | Some c \<Rightarrow>
         let updated = (c_UserID c = user \<and> c_PostID c = post \<and> \<not> c_IsDeleted c);
             c' = (if updated then c\<lparr>c_Body := body, c_LastModifiedAt := db_now d\<rparr> else c)
         in (Inr \<lparr>uc_ID = c_ID c', uc_UserID = c_UserID c', uc_PostID = c_PostID c',
                  uc_IsDeleted = c_IsDeleted c', uc_Body = c_Body c',
                  uc_LastModifiedAt = c_LastModifiedAt c', uc_Updated = updated\<rparr>,
             if updated then set_comment d c' else d))"

section \<open>Statements over votes\<close>

record upsertCommentVoteRow =
  uv_ID :: int
  uv_UserID :: int
  uv_CommentID :: int
  uv_Vote :: int
  uv_CreatedAt :: int
  uv_LastModifiedAt :: int
  uv_OriginalVote :: int

definition vote_row :: "CommentVote \<Rightarrow> int \<Rightarrow> upsertCommentVoteRow" where
  "vote_row v orig = \<lparr>uv_ID = cv_ID v, uv_UserID = cv_UserID v, uv_CommentID = cv_CommentID v,
     uv_Vote = cv_Vote v, uv_CreatedAt = cv_CreatedAt v,
     uv_LastModifiedAt = cv_LastModifiedAt v, uv_OriginalVote = orig\<rparr>"

text \<open>
  \<open>upsert_comment_vote\<close>: \<open>INSERT ... ON CONFLICT (user_id, comment_id) DO UPDATE\<close>; the default
  of the column \<open>id\<close> is evaluated on both paths.
\<close>

definition upsertCommentVote ::
  "env \<Rightarrow> int \<Rightarrow> int \<Rightarrow> int \<Rightarrow> db \<Rightarrow> upsertCommentVoteRow result" where
  "upsertCommentVote E user comment vote = query ''upsertCommentVote'' E (\<lambda>d.
     let i = sq_votes (db_seqs d);
         d1 = d\<lparr>db_seqs := (db_seqs d)\<lparr>sq_votes := i + 1\<rparr>\<rparr>
     in case vote_of d user comment of
          Some v \<Rightarrow>
            let v' = v\<lparr>cv_Vote := vote, cv_LastModifiedAt := db_now d\<rparr>
            in (Inr (vote_row v' (cv_Vote v)),
                d1\<lparr>db_votes := map (\<lambda>x. if cv_UserID x = user \<and> cv_CommentID x = comment
                                       then v' else x) (db_votes d)\<rparr>)
        | None \<Rightarrow>
            let v = \<lparr>cv_ID = i, cv_UserID = user, cv_CommentID = comment, cv_Vote = vote,
                     cv_CreatedAt = db_now d, cv_LastModifiedAt = db_now d\<rparr>
            in if \<not> user_exists d user then (Inl (fk_violation E ''comment_votes_user_id_fkey''), d1)
               else if comment_of d comment = None then
                 (Inl (fk_violation E ''comment_votes_comment_id_fkey''), d1)
               else (Inr (vote_row v 0), d1\<lparr>db_votes := db_votes d @ [v]\<rparr>))"

end
