(* ===== verification/Db_Comments.thy ===== *)
theory Db_Comments
  imports Db_Store
begin

text \<open>
  Transactions (\<open>exec_tx.go\<close>) and the operations of the store on comments:
  \<open>InsertCommentTx\<close>, \<open>DeleteCommentTx\<close>, \<open>VoteCommentTx\<close> and \<open>UpdateComment\<close>. A Go function
  that returns a value and an error is a function into \<open>go_error + 'a\<close>: the value that
  accompanies an error is dropped, as every caller does.

  A transaction is one step: the statements of two transactions do not interleave, which is
  what the row locks of the statements are for.
\<close>

section \<open>Transactions\<close>

definition rolled_back :: "db \<Rightarrow> db \<Rightarrow> db" where
  "rolled_back d d1 = d\<lparr>db_seqs := db_seqs d1\<rparr>"

definition execTx :: "env \<Rightarrow> (env \<Rightarrow> db \<Rightarrow> 'a result) \<Rightarrow> db \<Rightarrow> 'a result" where
  "execTx E fn d =
     (case env_begin E of Some err \<Rightarrow> (Inl err, d)
      | None \<Rightarrow>
        (case fn E d of
           (Inl err, d1) \<Rightarrow>
             (case env_rollback E of
                Some rb \<Rightarrow> (Inl (Errorf (''tx err: '' @ Error_text err @ '', rb err: ''
                                  @ Error_text rb) None), rolled_back d d1)
              | None \<Rightarrow> (Inl err, rolled_back d d1))
         | (Inr x, d1) \<Rightarrow>
             (case env_commit E of
                None \<Rightarrow> (Inr x, d1)
              | Some (err, applied) \<Rightarrow> (Inl err, if applied then d1 else rolled_back d d1))))"

text \<open>The fields of \<open>util.Config\<close> the store reads, and the wrap-around of \<open>int32\<close>.\<close>

record store_config =
  CommentMaxNestingDepth :: int
  CommentMaxRootCountPerUser :: int

definition wrap32 :: "int \<Rightarrow> int" where
  "wrap32 x = (x + 2 ^ 31) mod 2 ^ 32 - 2 ^ 31"

section \<open>InsertCommentTx\<close>

definition opInsertComment :: string where "opInsertComment = ''insert-comment''"

record InsertCommentTxParams =
  ic_UserID :: int
  ic_PostID :: int
  ic_Body :: string
  ic_ParentID :: pg_int8
  ic_Upvotes :: int
  ic_Downvotes :: int

definition insert_error :: "kind \<Rightarrow> string \<Rightarrow> err_decorator list \<Rightarrow> go_error" where
  "insert_error k msg ds = newOpError opInsertComment k entComment (Errorf msg None) ds"

definition insert_details :: "InsertCommentTxParams \<Rightarrow> op_details" where
  "insert_details arg = no_details\<lparr>det_userID := Itoa (ic_UserID arg),
     det_postID := Itoa (ic_PostID arg), det_entity := entComment\<rparr>"

definition missing_parent :: "InsertCommentTxParams \<Rightarrow> go_error" where
  "missing_parent arg =
     (let pid = Itoa (i8_Int64 (ic_ParentID arg)) in
      insert_error KindNotFound
        (''cannot reply to the comment with id ['' @ pid @ '']: the comment doesn''
          @ [CHR 0x27] @ ''t exist'') [withRelated entComment pid])"

definition parent_of_other_post :: "InsertCommentTxParams \<Rightarrow> Comment \<Rightarrow> go_error" where
  "parent_of_other_post arg parent =
     (let pid = Itoa (i8_Int64 (ic_ParentID arg)) in
      insert_error KindRelation
        (''cannot reply to comment with ID ['' @ pid @ ''] for post with ID [''
          @ Itoa (ic_PostID arg) @ '']: parent comment belongs to post with ID [''
          @ Itoa (c_PostID parent) @ '']'')
        [withRelated entComment pid, withField ''post_id''])"

definition parent_deleted :: "Comment \<Rightarrow> go_error" where
  "parent_deleted parent =
     (let pid = Itoa (c_ID parent) in
      insert_error KindDeleted (''cannot reply to the deleted comment with id ['' @ pid @ '']'')
        [withEntityID pid])"

definition parent_too_deep :: "Comment \<Rightarrow> go_error" where
  "parent_too_deep parent =
     (let pid = Itoa (c_ID parent) in
      insert_error KindConstraint
        (''cannot reply to the comment with id ['' @ pid @ '']: maximum comment depth reached'')
        [withEntityID pid])"

definition own_parent :: "InsertCommentTxParams \<Rightarrow> Comment \<Rightarrow> go_error" where
  "own_parent arg parent =
     (let uid = Itoa (ic_UserID arg) in
      insert_error KindConstraint
        (''user with ID ['' @ uid @ ''] cannot reply to his own comment with ID [''
          @ Itoa (c_ID parent) @ '']'') [withUser uid])"

definition too_many_roots :: "InsertCommentTxParams \<Rightarrow> go_error" where
  "too_many_roots arg =
     (let uid = Itoa (ic_UserID arg); pid = Itoa (ic_PostID arg) in
      insert_error KindConstraint
        (''user with ID ['' @ uid @ ''] cannot add anymore new root comments to the post with ID [''
          @ pid @ '']'') [withUser uid, withRelated entPost pid])"

text \<open>The checks on the parent of a reply; the result is the depth of the reply.\<close>

definition reply_depth ::
  "store_config \<Rightarrow> InsertCommentTxParams \<Rightarrow> Comment \<Rightarrow> go_error + int" where
  "reply_depth cfg arg parent =
     (if c_PostID parent \<noteq> ic_PostID arg then Inl (parent_of_other_post arg parent)
      else if c_IsDeleted parent then Inl (parent_deleted parent)
      else if wrap32 (c_Depth parent + 1) \<ge> CommentMaxNestingDepth cfg then Inl (parent_too_deep parent)
      else if c_UserID parent = ic_UserID arg then Inl (own_parent arg parent)
      else Inr (wrap32 (c_Depth parent + 1)))"

definition insert_depth ::
  "store_config \<Rightarrow> InsertCommentTxParams \<Rightarrow> env \<Rightarrow> db \<Rightarrow> int result" where
  "insert_depth cfg arg E d =
     (if i8_Valid (ic_ParentID arg) then
        let parentID = i8_Int64 (ic_ParentID arg) in
        (case getCommentWithLock E parentID d of
           (Inl err, d1) \<Rightarrow>
             if err = ErrNoRows then (Inl (missing_parent arg), d1)
             else (Inl (sqlError opInsertComment
                     ((insert_details arg)\<lparr>det_commentID := Itoa parentID\<rparr>) err), d1)
         | (Inr parent, d1) \<Rightarrow> (reply_depth cfg arg parent, d1))
      else
        (case getRootCommentCountForUser E (ic_PostID arg) (ic_UserID arg) d of
           (Inl err, d1) \<Rightarrow> (Inl (sqlError opInsertComment (insert_details arg) err), d1)
         | (Inr n, d1) \<Rightarrow>
             if n \<ge> CommentMaxRootCountPerUser cfg then (Inl (too_many_roots arg), d1)
             else (Inr 0, d1)))"

definition insert_body ::
  "store_config \<Rightarrow> InsertCommentTxParams \<Rightarrow> env \<Rightarrow> db \<Rightarrow> Comment result" where
  "insert_body cfg arg E d =
     (case insert_depth cfg arg E d of
        (Inl err, d1) \<Rightarrow> (Inl err, d1)
      | (Inr depth, d1) \<Rightarrow>
          (case createComment E \<lparr>cc_UserID = ic_UserID arg, cc_PostID = ic_PostID arg,
               cc_Body = ic_Body arg, cc_ParentID = ic_ParentID arg, cc_Depth = depth,
               cc_Upvotes = ic_Upvotes arg, cc_Downvotes = ic_Downvotes arg\<rparr> d1 of
             (Inl err, d2) \<Rightarrow>
               (Inl (sqlError opInsertComment
                  ((insert_details arg)\<lparr>det_commentID := Itoa (i8_Int64 (ic_ParentID arg))\<rparr>)
                  err), d2)
           | (Inr comment, d2) \<Rightarrow> (Inr comment, d2)))"

definition InsertCommentTx ::
  "store_config \<Rightarrow> env \<Rightarrow> InsertCommentTxParams \<Rightarrow> db \<Rightarrow> Comment result" where
  "InsertCommentTx cfg E arg = execTx E (insert_body cfg arg)"

section \<open>DeleteCommentTx\<close>

definition opDeleteComment :: string where "opDeleteComment = ''delete-comment''"

record DeleteCommentTxParams =
  dc_CommentID :: int
  dc_UserID :: int
  dc_PostID :: int

record DeleteCommentTxResult =
  dr_ID :: int
  dr_UserID :: int
  dr_PostID :: int
  dr_IsDeleted :: bool
  dr_DeletedAt :: int
  dr_HasChildren :: bool
  dr_DeletedOk :: bool
  dr_Success :: bool

definition delete_details :: "DeleteCommentTxParams \<Rightarrow> op_details" where
  "delete_details arg = no_details\<lparr>det_userID := Itoa (dc_UserID arg),
     det_postID := Itoa (dc_PostID arg), det_commentID := Itoa (dc_CommentID arg),
     det_entity := entComment\<rparr>"

definition delete_foreign_user :: "DeleteCommentTxParams \<Rightarrow> go_error" where
  "delete_foreign_user arg =
     (let cid = Itoa (dc_CommentID arg); uid = Itoa (dc_UserID arg) in
      newOpError opDeleteComment KindPermission entComment
        (Errorf (''comment with id '' @ cid @ '' does not belong to user with id '' @ uid) None)
        [withRelated entUser uid, withUser uid, withEntityID cid, withField ''user_id''])"

definition delete_foreign_post :: "DeleteCommentTxParams \<Rightarrow> go_error" where
  "delete_foreign_post arg =
     (let cid = Itoa (dc_CommentID arg); pid = Itoa (dc_PostID arg) in
      newOpError opDeleteComment KindRelation entComment
        (Errorf (''comment with id '' @ cid @ '' does not belong to post with id '' @ pid) None)
        [withRelated entPost pid, withEntityID cid, withField ''post_id''])"

definition delete_corrupted :: "DeleteCommentTxParams \<Rightarrow> go_error" where
  "delete_corrupted arg = newOpError opDeleteComment KindCorrupted entComment
     (Errorf (''cannot delete comment with id '' @ Itoa (dc_CommentID arg)) None) []"

definition delete_body ::
  "DeleteCommentTxParams \<Rightarrow> env \<Rightarrow> db \<Rightarrow> deleteCommentIfLeafRow result" where
  "delete_body arg E d =
     (case deleteCommentIfLeaf E (dc_CommentID arg) (dc_UserID arg) (dc_PostID arg) d of
        (Inl err, d1) \<Rightarrow>
          if errors_Is_NoRows err
          then (Inl (notFoundError opDeleteComment entComment (Itoa (dc_CommentID arg))), d1)
          else (Inl (sqlError opDeleteComment (delete_details arg) err), d1)
      | (Inr deleted, d1) \<Rightarrow>
          if dl_UserID deleted \<noteq> dc_UserID arg then (Inl (delete_foreign_user arg), d1)
          else if dl_PostID deleted \<noteq> dc_PostID arg then (Inl (delete_foreign_post arg), d1)
          else if dl_DeletedOk deleted \<or> dl_IsDeleted deleted then (Inr deleted, d1)
          else if dl_HasChildren deleted then
            (case softDeleteComment E (dc_CommentID arg) d1 of
               (Inl err, d2) \<Rightarrow> (Inl (sqlError opDeleteComment (delete_details arg) err), d2)
             | (Inr comment, d2) \<Rightarrow>
                 (Inr \<lparr>dl_ID = c_ID comment, dl_UserID = c_UserID comment,
                       dl_PostID = c_PostID comment, dl_IsDeleted = c_IsDeleted comment,
                       dl_DeletedAt = c_DeletedAt comment, dl_HasChildren = True,
                       dl_DeletedOk = True\<rparr>, d2))
          else (Inl (delete_corrupted arg), d1))"

definition DeleteCommentTx ::
  "env \<Rightarrow> DeleteCommentTxParams \<Rightarrow> db \<Rightarrow> DeleteCommentTxResult result" where
  "DeleteCommentTx E arg d =
     (case execTx E (delete_body arg) d of
        (Inl err, d1) \<Rightarrow> (Inl err, d1)
      | (Inr row, d1) \<Rightarrow>
          (Inr \<lparr>dr_ID = dl_ID row, dr_UserID = dl_UserID row, dr_PostID = dl_PostID row,
                dr_IsDeleted = dl_IsDeleted row, dr_DeletedAt = dl_DeletedAt row,
                dr_HasChildren = dl_HasChildren row, dr_DeletedOk = dl_DeletedOk row,
                dr_Success = (dl_DeletedOk row \<or> dl_IsDeleted row)\<rparr>, d1))"

section \<open>VoteCommentTx\<close>

definition opVoteComment :: string where "opVoteComment = ''vote-comment''"

record VoteCommentTxParams =
  vc_UserID :: int
  vc_CommentID :: int
  vc_Vote :: int

definition vote_details :: "VoteCommentTxParams \<Rightarrow> op_details" where
  "vote_details arg = no_details\<lparr>det_userID := Itoa (vc_UserID arg),
     det_commentID := Itoa (vc_CommentID arg), det_input := Itoa (vc_Vote arg),
     det_entity := entCommentVote\<rparr>"

text \<open>The change of a counter: the new vote counts, the old one does so no longer.\<close>

definition vote_delta :: "int \<Rightarrow> int \<Rightarrow> int \<Rightarrow> int" where
  "vote_delta side newVote oldVote =
     (if newVote = side then 1 else 0) - (if oldVote = side then 1 else 0)"

definition vote_invalid :: "VoteCommentTxParams \<Rightarrow> go_error" where
  "vote_invalid arg = newOpError opVoteComment KindInvalid entCommentVote
     (Errorf (''voting value is invalid: '' @ Itoa (vc_Vote arg) @ ''. must be either 1 or -1'') None)
     [withField ''vote'']"

definition vote_repeated :: "VoteCommentTxParams \<Rightarrow> upsertCommentVoteRow \<Rightarrow> go_error" where
  "vote_repeated arg row = newOpError opVoteComment KindConflict entCommentVote
     (Errorf (''repeated voting value: '' @ Itoa (vc_Vote arg)) None)
     [withField ''vote'', withEntityID (Itoa (uv_ID row))]"

definition vote_on_deleted :: "VoteCommentTxParams \<Rightarrow> go_error" where
  "vote_on_deleted arg =
     (let cid = Itoa (vc_CommentID arg) in
      newOpError opVoteComment KindDeleted entComment
        (Errorf (''comment with id '' @ cid @ '' is deleted and cannot be voted'') None)
        [withEntityID cid])"

definition vote_body :: "VoteCommentTxParams \<Rightarrow> env \<Rightarrow> db \<Rightarrow> Comment result" where
  "vote_body arg E d =
     (let newVote = vc_Vote arg in
      if newVote \<noteq> -1 \<and> newVote \<noteq> 1 then (Inl (vote_invalid arg), d)
      else case upsertCommentVote E (vc_UserID arg) (vc_CommentID arg) newVote d of
        (Inl err, d1) \<Rightarrow> (Inl (sqlError opVoteComment (vote_details arg) err), d1)
      | (Inr row, d1) \<Rightarrow>
          let oldVote = uv_OriginalVote row in
          if oldVote = newVote then (Inl (vote_repeated arg row), d1)
          else
            (case updateCommentPopularity E (vc_CommentID arg) (vote_delta 1 newVote oldVote)
                    (vote_delta (-1) newVote oldVote) d1 of
               (Inl err, d2) \<Rightarrow>
                 if errors_Is_NoRows err then (Inl (vote_on_deleted arg), d2)
                 else (Inl (sqlError opVoteComment (vote_details arg) err), d2)
             | (Inr comment, d2) \<Rightarrow> (Inr comment, d2)))"

definition VoteCommentTx :: "env \<Rightarrow> VoteCommentTxParams \<Rightarrow> db \<Rightarrow> Comment result" where
  "VoteCommentTx E arg = execTx E (vote_body arg)"

section \<open>UpdateComment\<close>

definition opUpdateComment :: string where "opUpdateComment = ''update-comment''"

record UpdateCommentParams =
  up_UserID :: int
  up_PostID :: int
  up_CommentID :: int
  up_Body :: string

record UpdateCommentResult =
  ur_ID :: int
  ur_Body :: string
  ur_LastModifiedAt :: int

definition update_foreign_user :: "UpdateCommentParams \<Rightarrow> go_error" where
  "update_foreign_user arg =
     (let cid = Itoa (up_CommentID arg); uid = Itoa (up_UserID arg) in
      newOpError opUpdateComment KindPermission entComment
        (Errorf (''comment with id '' @ cid @ '' does not belong to user with id '' @ uid) None)
        [withEntityID cid, withUser uid])"

definition update_deleted :: "UpdateCommentParams \<Rightarrow> go_error" where
  "update_deleted arg =
     (let cid = Itoa (up_CommentID arg) in
      newOpError opUpdateComment KindDeleted entComment
        (Errorf (''comment with id '' @ cid @ '' is deleted and cannot be updated'') None)
        [withEntityID cid])"

definition update_foreign_post :: "UpdateCommentParams \<Rightarrow> go_error" where
  "update_foreign_post arg =
     (let cid = Itoa (up_CommentID arg); pid = Itoa (up_PostID arg) in
      newOpError opUpdateComment KindRelation entComment
        (Errorf (''comment with id '' @ cid @ '' does not belong to post with id '' @ pid) None)
        [withEntityID cid, withRelated entPost pid])"

definition update_unexplained :: "UpdateCommentParams \<Rightarrow> go_error" where
  "update_unexplained arg =
     (let cid = Itoa (up_CommentID arg) in
      newOpError opUpdateComment KindInternal entComment
        (Errorf (''comment update failed for unknown reason (comment_id='' @ cid @ '', user_id=''
           @ Itoa (up_UserID arg) @ '', post_id='' @ Itoa (up_PostID arg) @ '')'') None)
        [withEntityID cid])"

definition UpdateComment ::
  "env \<Rightarrow> UpdateCommentParams \<Rightarrow> db \<Rightarrow> UpdateCommentResult result" where
  "UpdateComment E arg d =
     (case updateComment E (up_CommentID arg) (up_UserID arg) (up_PostID arg) (up_Body arg) d of
        (Inl err, d1) \<Rightarrow>
          if errors_Is_NoRows err
          then (Inl (notFoundError opUpdateComment entComment (Itoa (up_CommentID arg))), d1)
          else (Inl (sqlError opUpdateComment (no_details\<lparr>det_userID := Itoa (up_UserID arg),
                  det_postID := Itoa (up_PostID arg), det_commentID := Itoa (up_CommentID arg),
                  det_entity := entComment\<rparr>) err), d1)
      | (Inr row, d1) \<Rightarrow>
          if uc_Updated row then
            (Inr \<lparr>ur_ID = uc_ID row, ur_Body = uc_Body row,
                  ur_LastModifiedAt = uc_LastModifiedAt row\<rparr>, d1)
          else if uc_UserID row \<noteq> up_UserID arg then (Inl (update_foreign_user arg), d1)
          else if uc_IsDeleted row then (Inl (update_deleted arg), d1)
          else if uc_PostID row \<noteq> up_PostID arg then (Inl (update_foreign_post arg), d1)
          else (Inl (update_unexplained arg), d1))"

end
