(* ===== verification/Db_Inv.thy ===== *)
theory Db_Inv
  imports Db_Comments
begin

text \<open>
  The invariant of the comments and their votes, and that the operations of the store keep
  it. The locale \<open>transaction\<close> is the contract of a body that \<open>execTx\<close> runs: what it commits
  satisfies the invariant, and the identifiers it consumed may stay consumed. A comment may be
  inserted with counters above 0, so the invariant carries what each comment was given.
\<close>

section \<open>The invariant\<close>

text \<open>A root has depth 0; a reply lies below an older comment of the same post.\<close>

definition placed :: "Comment list \<Rightarrow> Comment \<Rightarrow> bool" where
  "placed cs c \<longleftrightarrow>
     (if i8_Valid (c_ParentID c)
      then \<exists>p\<in>set cs. c_ID p = i8_Int64 (c_ParentID c) \<and> c_PostID p = c_PostID c
             \<and> c_Depth c = c_Depth p + 1 \<and> c_ID p < c_ID c
      else c_ParentID c = null_int8 \<and> c_Depth c = 0)"

definition comment_ok :: "store_config \<Rightarrow> int set \<Rightarrow> int set \<Rightarrow> int \<Rightarrow> Comment \<Rightarrow> bool" where
  "comment_ok cfg us ps n c \<longleftrightarrow> c_ID c < n \<and> c_UserID c \<in> us \<and> c_PostID c \<in> ps \<and> 0 \<le> c_Depth c
     \<and> (c_Depth c = 0 \<or> c_Depth c < CommentMaxNestingDepth cfg)
     \<and> c_Popularity c = \<lparr>i8_Int64 = c_Upvotes c - c_Downvotes c, i8_Valid = True\<rparr>"

text \<open>One user has at most one live reply to a comment.\<close>

definition live_reply :: "Comment \<Rightarrow> bool" where
  "live_reply c \<longleftrightarrow> i8_Valid (c_ParentID c) \<and> \<not> c_IsDeleted c"

definition replies_unique :: "Comment list \<Rightarrow> bool" where
  "replies_unique cs \<longleftrightarrow> (\<forall>c\<in>set cs. \<forall>c'\<in>set cs. live_reply c \<and> live_reply c'
     \<and> c_UserID c = c_UserID c' \<and> c_ParentID c = c_ParentID c' \<longrightarrow> c_ID c = c_ID c')"

definition comments_wf ::
  "store_config \<Rightarrow> int set \<Rightarrow> int set \<Rightarrow> int \<Rightarrow> Comment list \<Rightarrow> bool" where
  "comments_wf cfg us ps n cs \<longleftrightarrow> distinct (map c_ID cs)
     \<and> (\<forall>c\<in>set cs. comment_ok cfg us ps n c) \<and> (\<forall>c\<in>set cs. placed cs c) \<and> replies_unique cs"

text \<open>The votes for one side on a comment, and the counters of the comments.\<close>

definition tally :: "CommentVote list \<Rightarrow> int \<Rightarrow> int \<Rightarrow> int" where
  "tally vs i side = len [v \<leftarrow> vs. cv_CommentID v = i \<and> cv_Vote v = side]"

text \<open>
  \<open>InsertCommentTx\<close> stores the counters its caller passes. \<open>g\<close> is what the comment with each
  identifier was given then; a counter is that and the votes stored for the comment.
\<close>

type_synonym given = "int \<Rightarrow> int \<times> int"

abbreviation nothing :: given where
  "nothing \<equiv> (\<lambda>i. (0, 0))"

definition counted :: "given \<Rightarrow> CommentVote list \<Rightarrow> Comment \<Rightarrow> bool" where
  "counted g vs c \<longleftrightarrow> c_Upvotes c = fst (g (c_ID c)) + tally vs (c_ID c) 1
     \<and> c_Downvotes c = snd (g (c_ID c)) + tally vs (c_ID c) (-1)"

definition vote_key :: "CommentVote \<Rightarrow> int \<times> int" where
  "vote_key v = (cv_UserID v, cv_CommentID v)"

definition votes_wf :: "given \<Rightarrow> int set \<Rightarrow> Comment list \<Rightarrow> CommentVote list \<Rightarrow> bool" where
  "votes_wf g us cs vs \<longleftrightarrow> distinct (map vote_key vs)
     \<and> (\<forall>v\<in>set vs. cv_Vote v \<in> {1, -1} \<and> cv_UserID v \<in> us \<and> cv_CommentID v \<in> c_ID ` set cs)
     \<and> (\<forall>c\<in>set cs. counted g vs c)"

definition user_ids :: "db \<Rightarrow> int set" where
  "user_ids d = u_ID ` set (db_users d)"

definition store_wf :: "given \<Rightarrow> store_config \<Rightarrow> db \<Rightarrow> bool" where
  "store_wf g cfg d \<longleftrightarrow>
     comments_wf cfg (user_ids d) (set (db_posts d)) (sq_comments (db_seqs d)) (db_comments d)
     \<and> votes_wf g (user_ids d) (db_comments d) (db_votes d)"

text \<open>\<open>CommentMaxNestingDepth\<close> is an \<open>int32\<close>.\<close>

definition config_ok :: "store_config \<Rightarrow> bool" where
  "config_ok cfg \<longleftrightarrow> CommentMaxNestingDepth cfg < 2 ^ 31"

section \<open>Looking rows up\<close>

lemma find_in: "find P xs = Some x \<Longrightarrow> x \<in> set xs \<and> P x"
  by (induction xs) (auto split: if_splits)

lemma find_none: "find P xs = None \<longleftrightarrow> (\<forall>x\<in>set xs. \<not> P x)"
  by (induction xs) auto

lemma comment_of_Some: "comment_of d i = Some c \<Longrightarrow> c \<in> set (db_comments d) \<and> c_ID c = i"
  unfolding comment_of_def by (drule find_in) simp

lemma comment_of_None: "comment_of d i = None \<longleftrightarrow> i \<notin> c_ID ` set (db_comments d)"
  by (auto simp: comment_of_def find_none)

lemma vote_of_Some:
  "vote_of d u i = Some v \<Longrightarrow> v \<in> set (db_votes d) \<and> vote_key v = (u, i)"
  unfolding vote_of_def vote_key_def by (drule find_in) simp

lemma vote_of_None: "vote_of d u i = None \<longleftrightarrow> (u, i) \<notin> vote_key ` set (db_votes d)"
  by (auto simp: vote_of_def vote_key_def find_none)

lemma same_id:
  assumes "distinct (map c_ID cs)" and "c \<in> set cs" and "c' \<in> set cs" and "c_ID c = c_ID c'"
  shows "c = c'"
  using assms by (auto simp: distinct_map inj_on_def)

section \<open>Three ways to change the comments\<close>

lemma comment_ok_seq: "comment_ok cfg us ps n c \<Longrightarrow> n \<le> m \<Longrightarrow> comment_ok cfg us ps m c"
  by (auto simp: comment_ok_def)

lemma placed_mono: "placed cs c \<Longrightarrow> set cs \<subseteq> set cs' \<Longrightarrow> placed cs' c"
  unfolding placed_def by (metis subsetD)

lemma comments_wf_seq: "comments_wf cfg us ps n cs \<Longrightarrow> n \<le> m \<Longrightarrow> comments_wf cfg us ps m cs"
  unfolding comments_wf_def using comment_ok_seq by blast

lemma comments_wf_snoc:
  assumes "comments_wf cfg us ps n cs" and "c_ID c = n" and "comment_ok cfg us ps (n + 1) c"
    and "placed cs c"
    and fresh: "\<And>x. x \<in> set cs \<Longrightarrow> live_reply c \<Longrightarrow> live_reply x \<Longrightarrow> c_UserID x = c_UserID c
           \<Longrightarrow> c_ParentID x \<noteq> c_ParentID c"
  shows "comments_wf cfg us ps (n + 1) (cs @ [c])"
proof -
  have old: "c_ID x < n" if "x \<in> set cs" for x
    using assms(1) that by (auto simp: comments_wf_def comment_ok_def)
  have "distinct (map c_ID (cs @ [c]))"
    using assms(1,2) old by (fastforce simp: comments_wf_def)
  moreover have "\<forall>x\<in>set (cs @ [c]). comment_ok cfg us ps (n + 1) x"
    using assms(1,3) comment_ok_seq[of cfg us ps n _ "n + 1"] by (simp add: comments_wf_def)
  moreover have "\<forall>x\<in>set (cs @ [c]). placed (cs @ [c]) x"
    using assms(1,4) placed_mono[of cs _ "cs @ [c]"] by (auto simp: comments_wf_def)
  moreover have "replies_unique (cs @ [c])"
    using assms(1) fresh unfolding comments_wf_def replies_unique_def by fastforce
  ultimately show ?thesis by (simp add: comments_wf_def)
qed

text \<open>An update that leaves identity, author, post, parent and depth alone.\<close>

definition same_place :: "Comment \<Rightarrow> Comment \<Rightarrow> bool" where
  "same_place c c' \<longleftrightarrow> c_ID c' = c_ID c \<and> c_UserID c' = c_UserID c \<and> c_PostID c' = c_PostID c
     \<and> c_ParentID c' = c_ParentID c \<and> c_Depth c' = c_Depth c"

definition replaced :: "Comment list \<Rightarrow> Comment \<Rightarrow> Comment list" where
  "replaced cs c = map (\<lambda>x. if c_ID x = c_ID c then c else x) cs"

lemma set_comment_replaced: "set_comment d c = d\<lparr>db_comments := replaced (db_comments d) c\<rparr>"
  by (simp add: set_comment_def replaced_def)

lemma replaced_ids: "map c_ID (replaced cs c) = map c_ID cs"
  by (simp add: replaced_def)

lemma replaced_mem:
  assumes "distinct (map c_ID cs)" and "c \<in> set cs" and "same_place c c'"
    and "x' \<in> set (replaced cs c')"
  obtains x where "x \<in> set cs" and "same_place x x'" and "x' = x \<or> (x = c \<and> x' = c')"
proof -
  obtain x where x: "x \<in> set cs" "x' = (if c_ID x = c_ID c' then c' else x)"
    using assms(4) by (auto simp: replaced_def)
  show ?thesis
  proof (cases "c_ID x = c_ID c'")
    case True
    then have "x = c" using assms x(1) by (auto intro: same_id simp: same_place_def)
    then show ?thesis using True x assms that by auto
  next
    case False
    then show ?thesis using x that by (auto simp: same_place_def)
  qed
qed

lemma placed_replaced:
  assumes "distinct (map c_ID cs)" and "c \<in> set cs" and "same_place c c'"
    and "placed cs x" and "same_place x x'"
  shows "placed (replaced cs c') x'"
proof (cases "i8_Valid (c_ParentID x)")
  case True
  then obtain p where p: "p \<in> set cs" "c_ID p = i8_Int64 (c_ParentID x)" "c_PostID p = c_PostID x"
      "c_Depth x = c_Depth p + 1" "c_ID p < c_ID x"
    using assms(4) by (auto simp: placed_def)
  obtain q where q: "q \<in> set (replaced cs c')" "same_place p q"
  proof (rule that)
    show "(if c_ID p = c_ID c' then c' else p) \<in> set (replaced cs c')"
      using p(1) by (auto simp: replaced_def)
    show "same_place p (if c_ID p = c_ID c' then c' else p)"
      using same_id[OF assms(1) p(1) assms(2)] assms(3) by (auto simp: same_place_def)
  qed
  then show ?thesis
    using True p assms(5) by (auto simp: placed_def same_place_def intro!: bexI[of _ q])
next
  case False
  then show ?thesis using assms(4,5) by (simp add: placed_def same_place_def)
qed

lemma comments_wf_replaced:
  assumes wf: "comments_wf cfg us ps n cs" and c: "c \<in> set cs" "same_place c c'"
    and del: "c_IsDeleted c \<Longrightarrow> c_IsDeleted c'"
    and pop: "c_Popularity c' = \<lparr>i8_Int64 = c_Upvotes c' - c_Downvotes c', i8_Valid = True\<rparr>"
  shows "comments_wf cfg us ps n (replaced cs c')"
proof -
  have d: "distinct (map c_ID cs)" and ok: "\<And>x. x \<in> set cs \<Longrightarrow> comment_ok cfg us ps n x"
    and pl: "\<And>x. x \<in> set cs \<Longrightarrow> placed cs x" and un: "replies_unique cs"
    using wf unfolding comments_wf_def by blast+
  note mem = replaced_mem[OF d c]
  have "comment_ok cfg us ps n x'" if h: "x' \<in> set (replaced cs c')" for x'
  proof (rule mem[OF h])
    fix x assume x: "x \<in> set cs" "same_place x x'" "x' = x \<or> (x = c \<and> x' = c')"
    show ?thesis
    proof (cases "x' = x")
      case False
      then show ?thesis
        using ok[OF x(1)] x pop unfolding comment_ok_def same_place_def by simp
    qed (use ok[OF x(1)] in simp)
  qed
  moreover have "placed (replaced cs c') x'" if h: "x' \<in> set (replaced cs c')" for x'
    by (rule mem[OF h]) (rule placed_replaced[OF d c pl])
  moreover have "c_ID x' = c_ID y'" if h: "x' \<in> set (replaced cs c')" "y' \<in> set (replaced cs c')"
      "live_reply x'" "live_reply y'" "c_UserID x' = c_UserID y'" "c_ParentID x' = c_ParentID y'"
    for x' y'
  proof -
    have live: "live_reply z" if "live_reply z'" "same_place z z'" "z' = z \<or> (z = c \<and> z' = c')" for z z'
      using that del unfolding live_reply_def same_place_def by metis
    obtain x where x: "x \<in> set cs" "same_place x x'" "live_reply x"
      by (rule mem[OF h(1)]) (rule that; (assumption | rule live[OF h(3)]))
    obtain y where y: "y \<in> set cs" "same_place y y'" "live_reply y"
      by (rule mem[OF h(2)]) (rule that; (assumption | rule live[OF h(4)]))
    have "c_ID x = c_ID y"
      using un x y h(5,6) unfolding replies_unique_def same_place_def by metis
    then show ?thesis using x(2) y(2) by (simp add: same_place_def)
  qed
  ultimately show ?thesis
    using d unfolding comments_wf_def replies_unique_def replaced_ids by blast
qed

lemma comments_wf_remove:
  assumes wf: "comments_wf cfg us ps n cs"
    and leaf: "\<forall>x\<in>set cs. c_ParentID x \<noteq> \<lparr>i8_Int64 = i, i8_Valid = True\<rparr>"
  shows "comments_wf cfg us ps n [c \<leftarrow> cs. c_ID c \<noteq> i]"
proof -
  have "placed [c \<leftarrow> cs. c_ID c \<noteq> i] x" if "x \<in> set cs" for x
  proof -
    have "c_ParentID x = \<lparr>i8_Int64 = i, i8_Valid = True\<rparr>"
      if "i8_Valid (c_ParentID x)" "i8_Int64 (c_ParentID x) = i" using that by simp
    then show ?thesis using wf leaf that unfolding comments_wf_def placed_def by fastforce
  qed
  then show ?thesis
    using wf by (auto simp: comments_wf_def replies_unique_def distinct_map_filter)
qed

end
