(* ===== verification/Db_Ops.thy ===== *)
theory Db_Ops
  imports Db_Inv
begin

text \<open>
  The operations on comments keep the invariant. What all transactions share, the invariant
  over commit and rollback, is proved once in the locale \<open>transaction\<close> and interpreted on the
  bodies of \<open>InsertCommentTx\<close>, \<open>DeleteCommentTx\<close> and \<open>VoteCommentTx\<close>.
\<close>

section \<open>Transactions\<close>

locale transaction =
  fixes inv :: "db \<Rightarrow> bool" and body :: "env \<Rightarrow> db \<Rightarrow> 'a result"
  assumes inv_rollback: "inv d \<Longrightarrow> inv (rolled_back d (snd (body E d)))"
    and inv_commit: "inv d \<Longrightarrow> body E d = (Inr x, d1) \<Longrightarrow> inv d1"
begin

lemma keeps: "inv d \<Longrightarrow> inv (snd (execTx E body d))"
  using inv_rollback[of d E] inv_commit[of d E]
  by (auto simp: execTx_def split: option.splits prod.splits sum.splits)

lemma keeps_result: "inv d \<Longrightarrow> execTx E body d = (r, d1) \<Longrightarrow> inv d1"
  using keeps[of d E] by simp

end

text \<open>Unless the server applied a commit it reported as failed, an error changes no table.\<close>

definition commit_known :: "env \<Rightarrow> bool" where
  "commit_known E = (case env_commit E of Some (err, applied) \<Rightarrow> \<not> applied | None \<Rightarrow> True)"

definition same_tables :: "db \<Rightarrow> db \<Rightarrow> bool" where
  "same_tables d d1 \<longleftrightarrow> rolled_back d1 d = d"

lemma same_tables_refl [simp]: "same_tables d d"
  by (simp add: same_tables_def rolled_back_def)

lemma same_tables_rolled_back [simp]: "same_tables d (rolled_back d d1)"
  by (simp add: same_tables_def rolled_back_def)

lemma execTx_atomic:
  assumes "execTx E body d = (Inl err, d1)" and "commit_known E"
  shows "same_tables d d1"
  using assms by (auto simp: execTx_def commit_known_def split: option.splits prod.splits sum.splits)

lemma execTx_committed:
  assumes "execTx E body d = (Inr x, d1)"
  shows "body E d = (Inr x, d1)"
  using assms by (auto simp: execTx_def split: option.splits prod.splits sum.splits)

section \<open>Counting votes\<close>

lemma tally_append [simp]: "tally (vs @ ws) i side = tally vs i side + tally ws i side"
  by (simp add: tally_def len_def)

lemma tally_Nil [simp]: "tally [] i side = 0"
  by (simp add: tally_def len_def)

lemma tally_Cons [simp]:
  "tally (v # vs) i side = tally vs i side + (if cv_CommentID v = i \<and> cv_Vote v = side then 1 else 0)"
  by (simp add: tally_def len_def)

lemma tally_none: "i \<notin> cv_CommentID ` set vs \<Longrightarrow> tally vs i side = 0"
  by (auto simp: tally_def len_def filter_empty_conv)

lemma tally_other:
  "j \<noteq> i \<Longrightarrow> tally [v \<leftarrow> vs. cv_CommentID v \<noteq> i] j side = tally vs j side"
  by (induction vs) simp_all

definition revoted :: "CommentVote list \<Rightarrow> CommentVote \<Rightarrow> CommentVote list" where
  "revoted vs v' = map (\<lambda>x. if vote_key x = vote_key v' then v' else x) vs"

lemma revoted_keys: "map vote_key (revoted vs v') = map vote_key vs"
  by (simp add: revoted_def)

lemma revoted_none: "vote_key v' \<notin> vote_key ` set vs \<Longrightarrow> revoted vs v' = vs"
  by (induction vs) (auto simp: revoted_def)

lemma tally_revoted:
  assumes "distinct (map vote_key vs)" and "v \<in> set vs" and "vote_key v' = vote_key v"
  shows "tally (revoted vs v') i side = tally vs i side
    + (if i = cv_CommentID v then vote_delta side (cv_Vote v') (cv_Vote v) else 0)"
  using assms
proof (induction vs)
  case (Cons x vs)
  show ?case
  proof (cases "x = v")
    case True
    then have "revoted vs v' = vs" using Cons.prems by (intro revoted_none) simp
    then show ?thesis
      using True Cons.prems by (auto simp: revoted_def vote_delta_def vote_key_def)
  next
    case False
    then have "v \<in> set vs" "vote_key x \<noteq> vote_key v'" using Cons.prems by force+
    then show ?thesis using Cons by (simp add: revoted_def)
  qed
qed simp

lemma votes_wf_change:
  assumes wf: "votes_wf g us cs vs" and ids: "distinct (map c_ID cs)" and c: "c \<in> set cs" "same_place c c'"
    and keys: "distinct (map vote_key vs')"
    and ok: "\<And>v. v \<in> set vs' \<Longrightarrow> cv_Vote v \<in> {1, -1} \<and> cv_UserID v \<in> us \<and> cv_CommentID v \<in> c_ID ` set cs"
    and others: "\<And>j side. j \<noteq> c_ID c \<Longrightarrow> tally vs' j side = tally vs j side"
    and voted: "counted g vs' c'"
  shows "votes_wf g us (replaced cs c') vs'"
proof -
  have "counted g vs' x'" if h: "x' \<in> set (replaced cs c')" for x'
  proof (rule replaced_mem[OF ids c h])
    fix x assume x: "x \<in> set cs" "same_place x x'" "x' = x \<or> (x = c \<and> x' = c')"
    show ?thesis
    proof (cases "x' = c'")
      case False
      then have "x' = x" "c_ID x \<noteq> c_ID c"
        using x h c(2) same_id[OF ids x(1) c(1)] by (auto simp: replaced_def same_place_def)
      then show ?thesis using wf x(1) others by (simp add: votes_wf_def counted_def)
    qed (use voted in simp)
  qed
  moreover have "c_ID ` set (replaced cs c') = c_ID ` set cs"
    by (metis replaced_ids list.set_map)
  ultimately show ?thesis using keys ok by (simp add: votes_wf_def)
qed

section \<open>Statements keep the invariant\<close>

definition store_inv_from :: "given \<Rightarrow> store_config \<Rightarrow> db \<Rightarrow> bool" where
  "store_inv_from g cfg d \<longleftrightarrow> config_ok cfg \<and> store_wf g cfg d"

text \<open>Where comments are inserted by the handler, which passes no counters.\<close>

abbreviation store_inv :: "store_config \<Rightarrow> db \<Rightarrow> bool" where
  "store_inv \<equiv> store_inv_from nothing"

lemmas store_inv_def = store_inv_from_def

lemma store_inv_given:
  assumes "store_inv_from g cfg d" and "\<And>i. i < sq_comments (db_seqs d) \<Longrightarrow> g' i = g i"
  shows "store_inv_from g' cfg d"
proof -
  have "g' (c_ID c) = g (c_ID c)" if "c \<in> set (db_comments d)" for c
    using assms that by (simp add: store_inv_def store_wf_def comments_wf_def comment_ok_def)
  then show ?thesis
    using assms(1) by (simp add: store_inv_def store_wf_def votes_wf_def counted_def)
qed

lemma store_inv_seq:
  assumes "store_inv_from g cfg d" and "sq_comments (db_seqs d) \<le> sq_comments s"
  shows "store_inv_from g cfg (d\<lparr>db_seqs := s\<rparr>)"
  using assms comments_wf_seq unfolding store_inv_def store_wf_def user_ids_def by fastforce

lemma store_inv_ids: "store_inv_from g cfg d \<Longrightarrow> distinct (map c_ID (db_comments d))"
  by (simp add: store_inv_def store_wf_def comments_wf_def)

text \<open>Every statement leaves the sequence of comments where it is or moves it on.\<close>

definition moves_on :: "db \<Rightarrow> db \<Rightarrow> bool" where
  "moves_on d d1 \<longleftrightarrow> sq_comments (db_seqs d) \<le> sq_comments (db_seqs d1)"

lemma moves_on_refl [simp]: "moves_on d d"
  by (simp add: moves_on_def)

lemma moves_on_trans: "moves_on d d1 \<Longrightarrow> moves_on d1 d2 \<Longrightarrow> moves_on d d2"
  by (simp add: moves_on_def)

lemma rolled_back_inv: "store_inv_from g cfg d \<Longrightarrow> moves_on d d1 \<Longrightarrow> store_inv_from g cfg (rolled_back d d1)"
  by (simp add: rolled_back_def moves_on_def store_inv_seq)

lemma moves_on_statements:
  "moves_on d (snd (createComment E arg d))"
  "moves_on d (snd (getCommentWithLock E i d))"
  "moves_on d (snd (getRootCommentCountForUser E p u d))"
  "moves_on d (snd (softDeleteComment E i d))"
  "moves_on d (snd (updateCommentPopularity E i x y d))"
  "moves_on d (snd (deleteCommentIfLeaf E i u p d))"
  "moves_on d (snd (upsertCommentVote E u i v d))"
  by (simp_all add: moves_on_def query_def createComment_def getCommentWithLock_def
      getRootCommentCountForUser_def softDeleteComment_def updateCommentPopularity_def
      deleteCommentIfLeaf_def upsertCommentVote_def Let_def set_comment_def remove_comment_def
      split: option.split)

lemma moves_on_result:
  "createComment E arg d = (r1, d1) \<Longrightarrow> moves_on d d1"
  "getCommentWithLock E i d = (r2, d1) \<Longrightarrow> moves_on d d1"
  "getRootCommentCountForUser E p u d = (r3, d1) \<Longrightarrow> moves_on d d1"
  "softDeleteComment E i d = (r4, d1) \<Longrightarrow> moves_on d d1"
  "updateCommentPopularity E i x y d = (r5, d1) \<Longrightarrow> moves_on d d1"
  "deleteCommentIfLeaf E i u p d = (r6, d1) \<Longrightarrow> moves_on d d1"
  "upsertCommentVote E u i v d = (r7, d1) \<Longrightarrow> moves_on d d1"
  using moves_on_statements by (metis snd_conv)+

lemma moves_on_bodies:
  "moves_on d (snd (insert_body cfg arg E d))"
  "moves_on d (snd (delete_body darg E d))"
  "moves_on d (snd (vote_body varg E d))"
  by (auto simp: insert_body_def insert_depth_def delete_body_def vote_body_def Let_def
      split: sum.split prod.split if_split dest!: moves_on_result intro: moves_on_trans)

section \<open>What the statements commit\<close>

lemma query_Inr: "query name E f d = (Inr x, d1) \<Longrightarrow> f d = (Inr x, d1)"
  by (simp add: query_def split: option.splits)

lemma getCommentWithLock_Inr:
  "getCommentWithLock E i d = (Inr c, d1) \<Longrightarrow> d1 = d \<and> comment_of d i = Some c"
  unfolding getCommentWithLock_def
  by (drule query_Inr) (auto simp: one_row_def split: option.splits)

lemma getRootCommentCountForUser_Inr: "getRootCommentCountForUser E p u d = (Inr n, d1) \<Longrightarrow> d1 = d"
  unfolding getRootCommentCountForUser_def by (drule query_Inr) simp

lemma createComment_inv:
  assumes inv: "store_inv_from g cfg d" and run: "createComment E arg d = (Inr c, d1)"
    and fresh: "g (sq_comments (db_seqs d)) = (cc_Upvotes arg, cc_Downvotes arg)"
    and depth: "0 \<le> cc_Depth arg" "cc_Depth arg = 0 \<or> cc_Depth arg < CommentMaxNestingDepth cfg"
    and parent: "i8_Valid (cc_ParentID arg) \<Longrightarrow> \<exists>p\<in>set (db_comments d).
        c_ID p = i8_Int64 (cc_ParentID arg) \<and> c_PostID p = cc_PostID arg \<and> cc_Depth arg = c_Depth p + 1"
    and root: "\<not> i8_Valid (cc_ParentID arg) \<Longrightarrow> cc_Depth arg = 0"
  shows "store_inv_from g cfg d1"
proof -
  let ?n = "sq_comments (db_seqs d)"
  note run' = run[unfolded createComment_def, THEN query_Inr, unfolded Let_def]
  have wf: "comments_wf cfg (user_ids d) (set (db_posts d)) ?n (db_comments d)"
    and votes: "votes_wf g (user_ids d) (db_comments d) (db_votes d)"
    using inv by (simp_all add: store_inv_def store_wf_def)
  have old: "c_ID x < ?n" if "x \<in> set (db_comments d)" for x
    using wf that by (auto simp: comments_wf_def comment_ok_def)
  have c: "c_ID c = ?n" "c_UserID c = cc_UserID arg" "c_PostID c = cc_PostID arg"
      "c_ParentID c = stored_int8 (cc_ParentID arg)" "c_Depth c = cc_Depth arg"
      "c_Upvotes c = cc_Upvotes arg" "c_Downvotes c = cc_Downvotes arg" "\<not> c_IsDeleted c"
      "c_Popularity c = \<lparr>i8_Int64 = cc_Upvotes arg - cc_Downvotes arg, i8_Valid = True\<rparr>"
    using run' by (auto simp: with_popularity_def split: if_splits)
  have d1: "db_comments d1 = db_comments d @ [c]" "db_votes d1 = db_votes d"
      "user_ids d1 = user_ids d" "db_posts d1 = db_posts d" "sq_comments (db_seqs d1) = ?n + 1"
    using run' by (auto simp: user_ids_def split: if_splits)
  have ok: "comment_ok cfg (user_ids d) (set (db_posts d)) (?n + 1) c"
    using run' depth c by (auto simp: comment_ok_def user_exists_def user_ids_def split: if_splits)
  have "placed (db_comments d) c"
  proof (cases "i8_Valid (cc_ParentID arg)")
    case True
    then show ?thesis using parent c old by (auto simp: placed_def stored_int8_def)
  next
    case False
    then show ?thesis using root c by (simp add: placed_def stored_int8_def null_int8_def)
  qed
  moreover have "c_ParentID x \<noteq> c_ParentID c"
    if "x \<in> set (db_comments d)" "live_reply c" "live_reply x" "c_UserID x = c_UserID c" for x
    using run' that c by (auto simp: live_reply_def split: if_splits)
  ultimately have "comments_wf cfg (user_ids d) (set (db_posts d)) (?n + 1) (db_comments d @ [c])"
    using comments_wf_snoc[OF wf c(1) ok] by blast
  moreover have "tally (db_votes d) ?n side = 0" for side
    using votes old by (intro tally_none) (force simp: votes_wf_def)
  then have "votes_wf g (user_ids d) (db_comments d @ [c]) (db_votes d)"
    using votes c fresh by (auto simp: votes_wf_def counted_def)
  ultimately show ?thesis using inv d1 by (simp add: store_inv_def store_wf_def)
qed

lemma set_comment_inv:
  assumes inv: "store_inv_from g cfg d" and c: "c \<in> set (db_comments d)" "same_place c c'"
    and del: "c_IsDeleted c \<Longrightarrow> c_IsDeleted c'"
    and same: "c_Upvotes c' = c_Upvotes c" "c_Downvotes c' = c_Downvotes c" "c_Popularity c' = c_Popularity c"
  shows "store_inv_from g cfg (set_comment d c')"
proof -
  have ids: "distinct (map c_ID (db_comments d))" using store_inv_ids[OF inv] .
  have wf: "comments_wf cfg (user_ids d) (set (db_posts d)) (sq_comments (db_seqs d)) (db_comments d)"
    and votes: "votes_wf g (user_ids d) (db_comments d) (db_votes d)"
    using inv by (simp_all add: store_inv_def store_wf_def)
  have "comment_ok cfg (user_ids d) (set (db_posts d)) (sq_comments (db_seqs d)) c"
    using wf c(1) by (simp add: comments_wf_def)
  then have "comments_wf cfg (user_ids d) (set (db_posts d)) (sq_comments (db_seqs d))
      (replaced (db_comments d) c')"
    using comments_wf_replaced[OF wf c del] same by (simp add: comment_ok_def)
  moreover have "votes_wf g (user_ids d) (replaced (db_comments d) c') (db_votes d)"
    using votes_wf_change[OF votes ids c] votes c same
    by (auto simp: votes_wf_def counted_def same_place_def)
  ultimately show ?thesis
    using inv by (simp add: set_comment_replaced store_inv_def store_wf_def user_ids_def)
qed

lemma softDeleteComment_inv:
  assumes "store_inv_from g cfg d" and "softDeleteComment E i d = (Inr c', d1)"
  shows "store_inv_from g cfg d1"
  using assms(2)[unfolded softDeleteComment_def, THEN query_Inr] assms(1)
  by (auto simp: Let_def same_place_def dest!: comment_of_Some intro!: set_comment_inv split: option.splits)

lemma updateComment_inv:
  assumes "store_inv_from g cfg d" and "updateComment E i u p b d = (Inr r, d1)"
  shows "store_inv_from g cfg d1"
  using assms(2)[unfolded updateComment_def, THEN query_Inr] assms(1)
  by (auto simp: Let_def same_place_def dest!: comment_of_Some intro!: set_comment_inv
      split: option.splits if_splits)

lemma remove_comment_inv:
  assumes inv: "store_inv_from g cfg d" and leaf: "\<not> has_children d i"
  shows "store_inv_from g cfg (remove_comment d i)"
proof -
  have wf: "comments_wf cfg (user_ids d) (set (db_posts d)) (sq_comments (db_seqs d)) (db_comments d)"
    and votes: "votes_wf g (user_ids d) (db_comments d) (db_votes d)"
    using inv by (simp_all add: store_inv_def store_wf_def)
  have "comments_wf cfg (user_ids d) (set (db_posts d)) (sq_comments (db_seqs d))
      [c \<leftarrow> db_comments d. c_ID c \<noteq> i]"
    using leaf by (intro comments_wf_remove[OF wf]) (auto simp: has_children_def)
  moreover have "votes_wf g (user_ids d) [c \<leftarrow> db_comments d. c_ID c \<noteq> i]
      [v \<leftarrow> db_votes d. cv_CommentID v \<noteq> i]"
    using votes by (auto simp: votes_wf_def distinct_map_filter counted_def tally_other)
  ultimately show ?thesis
    using inv by (simp add: store_inv_def store_wf_def remove_comment_def user_ids_def)
qed

lemma deleteCommentIfLeaf_inv:
  assumes "store_inv_from g cfg d" and "deleteCommentIfLeaf E i u p d = (Inr r, d1)"
  shows "store_inv_from g cfg d1"
  using assms(2)[unfolded deleteCommentIfLeaf_def, THEN query_Inr] assms(1)
  by (auto simp: Let_def intro: remove_comment_inv split: option.splits if_splits)

section \<open>Bodies\<close>

lemma tally_revoted_other:
  "cv_CommentID v \<noteq> j \<Longrightarrow> tally (revoted vs v) j side = tally vs j side"
  by (induction vs) (auto simp: revoted_def vote_key_def)

text \<open>What a vote does to the tables: the row of the pair is added or changed.\<close>

definition voted :: "CommentVote list \<Rightarrow> CommentVote \<Rightarrow> CommentVote list" where
  "voted vs v = (if vote_key v \<in> vote_key ` set vs then revoted vs v else vs @ [v])"

definition old_vote :: "db \<Rightarrow> int \<Rightarrow> int \<Rightarrow> int" where
  "old_vote d u i = (case vote_of d u i of Some v \<Rightarrow> cv_Vote v | None \<Rightarrow> 0)"

lemma upsertCommentVote_Inr:
  assumes "upsertCommentVote E u i new d = (Inr row, d1)"
  obtains v where "db_votes d1 = voted (db_votes d) v" and "vote_key v = (u, i)"
    and "cv_Vote v = new" and "uv_OriginalVote row = old_vote d u i"
    and "db_comments d1 = db_comments d" and "db_users d1 = db_users d" and "db_posts d1 = db_posts d"
    and "vote_of d u i \<noteq> None \<or> u \<in> user_ids d \<and> comment_of d i \<noteq> None"
proof (cases "vote_of d u i")
  case None
  let ?v = "\<lparr>cv_ID = sq_votes (db_seqs d), cv_UserID = u, cv_CommentID = i, cv_Vote = new,
    cv_CreatedAt = db_now d, cv_LastModifiedAt = db_now d\<rparr>"
  have "(u, i) \<notin> vote_key ` set (db_votes d)" using None by (simp add: vote_of_None)
  then show ?thesis
    using assms[unfolded upsertCommentVote_def, THEN query_Inr] None that[of ?v]
    by (auto simp: Let_def voted_def vote_key_def vote_row_def old_vote_def user_exists_def user_ids_def
        split: if_splits)
next
  case (Some v)
  let ?v = "v\<lparr>cv_Vote := new, cv_LastModifiedAt := db_now d\<rparr>"
  have v: "v \<in> set (db_votes d)" "cv_UserID v = u" "cv_CommentID v = i"
    using vote_of_Some[OF Some] by (simp_all add: vote_key_def)
  then have "(u, i) \<in> vote_key ` set (db_votes d)" by (force simp: vote_key_def)
  then show ?thesis
    using assms[unfolded upsertCommentVote_def, THEN query_Inr] Some v that[of ?v]
    by (auto simp: Let_def voted_def revoted_def vote_key_def vote_row_def old_vote_def)
qed

lemma updateCommentPopularity_Inr:
  assumes "updateCommentPopularity E i up down d = (Inr c', d1)"
  obtains c where "comment_of d i = Some c" and "\<not> c_IsDeleted c" and "same_place c c'"
    and "\<not> c_IsDeleted c'" and "c_Upvotes c' = c_Upvotes c + up" and "c_Downvotes c' = c_Downvotes c + down"
    and "c_Popularity c' = \<lparr>i8_Int64 = c_Upvotes c' - c_Downvotes c', i8_Valid = True\<rparr>"
    and "d1 = set_comment d c'"
  using assms[unfolded updateCommentPopularity_def, THEN query_Inr]
  by (auto simp: Let_def with_popularity_def same_place_def split: option.splits if_splits)

lemma tally_voted:
  assumes "distinct (map vote_key (db_votes d))" and "vote_key v = (u, i)" and "side \<noteq> 0"
  shows "tally (voted (db_votes d) v) j side = tally (db_votes d) j side
    + (if j = i then (if cv_Vote v = side then 1 else 0) - (if old_vote d u i = side then 1 else 0)
       else 0)"
proof (cases "vote_of d u i")
  case None
  then have "(u, i) \<notin> vote_key ` set (db_votes d)" by (simp add: vote_of_None)
  then show ?thesis
    using assms(2,3) None by (auto simp: voted_def old_vote_def vote_key_def)
next
  case (Some w)
  then have w: "w \<in> set (db_votes d)" "vote_key w = vote_key v"
    using vote_of_Some[OF Some] assms(2) by simp_all
  then have "vote_key v \<in> vote_key ` set (db_votes d)" by (metis image_eqI)
  then show ?thesis
    using tally_revoted[OF assms(1) w(1) w(2)[symmetric]] Some assms(2,3) w
    by (auto simp: voted_def old_vote_def vote_delta_def vote_key_def)
qed

lemma vote_body_Inr:
  assumes "vote_body arg E d = (Inr c', d2)"
  obtains v c where "cv_Vote v \<in> {1, -1}" and "cv_Vote v = vc_Vote arg"
    and "vote_key v = (vc_UserID arg, vc_CommentID arg)"
    and "old_vote d (vc_UserID arg) (vc_CommentID arg) \<noteq> vc_Vote arg"
    and "vote_of d (vc_UserID arg) (vc_CommentID arg) \<noteq> None \<or> vc_UserID arg \<in> user_ids d"
    and "comment_of d (vc_CommentID arg) = Some c" and "\<not> c_IsDeleted c" and "same_place c c'"
    and "\<not> c_IsDeleted c'"
    and "c_Upvotes c' = c_Upvotes c
           + vote_delta 1 (vc_Vote arg) (old_vote d (vc_UserID arg) (vc_CommentID arg))"
    and "c_Downvotes c' = c_Downvotes c
           + vote_delta (-1) (vc_Vote arg) (old_vote d (vc_UserID arg) (vc_CommentID arg))"
    and "c_Popularity c' = \<lparr>i8_Int64 = c_Upvotes c' - c_Downvotes c', i8_Valid = True\<rparr>"
    and "db_votes d2 = voted (db_votes d) v" and "db_comments d2 = replaced (db_comments d) c'"
    and "db_users d2 = db_users d" and "db_posts d2 = db_posts d" and "moves_on d d2"
proof -
  let ?u = "vc_UserID arg" and ?i = "vc_CommentID arg" and ?new = "vc_Vote arg"
  have new: "\<not> (?new \<noteq> -1 \<and> ?new \<noteq> 1)"
    by (rule notI) (use assms in \<open>simp add: vote_body_def\<close>)
  obtain q d1 where q: "upsertCommentVote E ?u ?i ?new d = (q, d1)" by fastforce
  obtain row where row: "q = Inr row"
    using assms q by (cases q) (simp_all add: vote_body_def new)
  note up = q[unfolded row]
  have differs: "uv_OriginalVote row \<noteq> ?new"
    by (rule notI) (use assms in \<open>simp add: vote_body_def new up\<close>)
  obtain r d3 where r: "updateCommentPopularity E ?i (vote_delta 1 ?new (uv_OriginalVote row))
        (vote_delta (-1) ?new (uv_OriginalVote row)) d1 = (r, d3)" by fastforce
  have "r = Inr c' \<and> d3 = d2"
    using assms by (cases r) (simp_all add: vote_body_def new up differs r split: if_splits)
  with r have pop: "updateCommentPopularity E ?i (vote_delta 1 ?new (uv_OriginalVote row))
        (vote_delta (-1) ?new (uv_OriginalVote row)) d1 = (Inr c', d2)" by simp
  have moved: "moves_on d d2"
    using moves_on_result(5)[OF pop] moves_on_result(7)[OF up] moves_on_trans by blast
  obtain v where v: "db_votes d1 = voted (db_votes d) v" "vote_key v = (?u, ?i)" "cv_Vote v = ?new"
      "uv_OriginalVote row = old_vote d ?u ?i" "db_comments d1 = db_comments d"
      "db_users d1 = db_users d" "db_posts d1 = db_posts d"
      "vote_of d ?u ?i \<noteq> None \<or> ?u \<in> user_ids d \<and> comment_of d ?i \<noteq> None"
    by (rule upsertCommentVote_Inr[OF up])
  obtain c where c: "comment_of d1 ?i = Some c" "\<not> c_IsDeleted c" "same_place c c'"
      "\<not> c_IsDeleted c'" "c_Upvotes c' = c_Upvotes c + vote_delta 1 ?new (uv_OriginalVote row)"
      "c_Downvotes c' = c_Downvotes c + vote_delta (-1) ?new (uv_OriginalVote row)"
      "c_Popularity c' = \<lparr>i8_Int64 = c_Upvotes c' - c_Downvotes c', i8_Valid = True\<rparr>"
      "d2 = set_comment d1 c'"
    by (rule updateCommentPopularity_Inr[OF pop])
  show ?thesis
  proof (rule that[of v c])
    show "cv_Vote v \<in> {1, -1}" using new v(3) by auto
    show "comment_of d ?i = Some c" using c(1) v(5) by (simp add: comment_of_def)
    show "db_comments d2 = replaced (db_comments d) c'" using c(8) v(5) by (simp add: set_comment_replaced)
    show "db_votes d2 = voted (db_votes d) v" "db_users d2 = db_users d" "db_posts d2 = db_posts d"
      using c(8) v by (simp_all add: set_comment_replaced)
    show "vote_of d ?u ?i \<noteq> None \<or> ?u \<in> user_ids d" using v(8) by blast
  qed (use differs v c moved in simp_all)
qed

lemma vote_body_inv:
  assumes inv: "store_inv_from g cfg d" and run: "vote_body arg E d = (Inr c', d2)"
  shows "store_inv_from g cfg d2"
proof (rule vote_body_Inr[OF run])
  let ?u = "vc_UserID arg" and ?i = "vc_CommentID arg"
  fix v c
  assume v: "cv_Vote v \<in> {1, -1}" "cv_Vote v = vc_Vote arg" "vote_key v = (?u, ?i)"
    and user: "vote_of d ?u ?i \<noteq> None \<or> ?u \<in> user_ids d"
    and c: "comment_of d ?i = Some c" "\<not> c_IsDeleted c" "same_place c c'"
    and up: "c_Upvotes c' = c_Upvotes c + vote_delta 1 (vc_Vote arg) (old_vote d ?u ?i)"
    and down: "c_Downvotes c' = c_Downvotes c + vote_delta (-1) (vc_Vote arg) (old_vote d ?u ?i)"
    and pop: "c_Popularity c' = \<lparr>i8_Int64 = c_Upvotes c' - c_Downvotes c', i8_Valid = True\<rparr>"
    and d2: "db_votes d2 = voted (db_votes d) v" "db_comments d2 = replaced (db_comments d) c'"
      "db_users d2 = db_users d" "db_posts d2 = db_posts d" "moves_on d d2"
  have c_in: "c \<in> set (db_comments d)" "c_ID c = ?i" using comment_of_Some[OF c(1)] by simp_all
  have wf: "comments_wf cfg (user_ids d) (set (db_posts d)) (sq_comments (db_seqs d)) (db_comments d)"
    and votes: "votes_wf g (user_ids d) (db_comments d) (db_votes d)"
    using inv by (simp_all add: store_inv_def store_wf_def)
  have keys: "distinct (map vote_key (db_votes d))" using votes by (simp add: votes_wf_def)
  have cwf: "comments_wf cfg (user_ids d) (set (db_posts d)) (sq_comments (db_seqs d2)) (db_comments d2)"
    using comments_wf_replaced[OF wf c_in(1) c(3) _ pop] c(2) d2 comments_wf_seq
    by (simp add: moves_on_def)
  have "votes_wf g (user_ids d) (replaced (db_comments d) c') (voted (db_votes d) v)"
  proof (rule votes_wf_change[OF votes store_inv_ids[OF inv] c_in(1) c(3)])
    show "distinct (map vote_key (voted (db_votes d) v))"
      using keys by (auto simp: voted_def revoted_keys)
    show "tally (voted (db_votes d) v) j side = tally (db_votes d) j side" if "j \<noteq> c_ID c" for j side
      using that c_in(2) v(3) by (simp add: voted_def vote_key_def tally_revoted_other)
    show "counted g (voted (db_votes d) v) c'"
      using votes c_in c(3) tally_voted[OF keys v(3)] up down v(2)
      by (auto simp: counted_def votes_wf_def same_place_def vote_delta_def)
    show "cv_Vote x \<in> {1, -1} \<and> cv_UserID x \<in> user_ids d \<and> cv_CommentID x \<in> c_ID ` set (db_comments d)"
      if "x \<in> set (voted (db_votes d) v)" for x
    proof (cases "x \<in> set (db_votes d)")
      case False
      then have x: "x = v" using that by (auto simp: voted_def revoted_def split: if_splits)
      have "?u \<in> user_ids d"
      proof (cases "vote_of d ?u ?i")
        case (Some w)
        then show ?thesis using vote_of_Some votes by (fastforce simp: votes_wf_def vote_key_def)
      qed (use user in simp)
      moreover have "?i \<in> c_ID ` set (db_comments d)" using c_in by (metis image_eqI)
      ultimately show ?thesis using x v by (auto simp: vote_key_def)
    qed (use votes in \<open>auto simp: votes_wf_def\<close>)
  qed
  then show ?thesis
    using inv cwf d2 by (simp add: store_inv_def store_wf_def user_ids_def)
qed

lemma delete_body_Inr:
  assumes "delete_body arg E d = (Inr r, d1)"
  obtains (hard) "deleteCommentIfLeaf E (dc_CommentID arg) (dc_UserID arg) (dc_PostID arg) d = (Inr r, d1)"
      and "dl_UserID r = dc_UserID arg" and "dl_PostID r = dc_PostID arg"
      and "dl_DeletedOk r \<or> dl_IsDeleted r"
    | (soft) row d2 c where
      "deleteCommentIfLeaf E (dc_CommentID arg) (dc_UserID arg) (dc_PostID arg) d = (Inr row, d2)"
      and "dl_UserID row = dc_UserID arg" and "dl_PostID row = dc_PostID arg"
      and "\<not> dl_DeletedOk row" and "\<not> dl_IsDeleted row" and "dl_HasChildren row"
      and "softDeleteComment E (dc_CommentID arg) d2 = (Inr c, d1)"
      and "r = \<lparr>dl_ID = c_ID c, dl_UserID = c_UserID c, dl_PostID = c_PostID c,
        dl_IsDeleted = c_IsDeleted c, dl_DeletedAt = c_DeletedAt c, dl_HasChildren = True,
        dl_DeletedOk = True\<rparr>"
proof -
  obtain q d2 where q: "deleteCommentIfLeaf E (dc_CommentID arg) (dc_UserID arg) (dc_PostID arg) d = (q, d2)"
    by fastforce
  obtain row where row: "q = Inr row"
    using assms q by (cases q) (auto simp: delete_body_def split: if_splits)
  obtain t d3 where t: "softDeleteComment E (dc_CommentID arg) d2 = (t, d3)" by fastforce
  show thesis
    using assms q t unfolding row
    by (cases t) (auto simp: delete_body_def intro: hard soft split: if_splits)
qed

lemma delete_body_inv:
  assumes "store_inv_from g cfg d" and "delete_body arg E d = (Inr r, d1)"
  shows "store_inv_from g cfg d1"
  using assms(2)
  by (rule delete_body_Inr) (use assms(1) deleteCommentIfLeaf_inv softDeleteComment_inv in blast)+

text \<open>The parameters the handler of the API builds (\<open>api/create_comment.go\<close>): no votes yet.\<close>

definition comment_params :: "int \<Rightarrow> int \<Rightarrow> string \<Rightarrow> pg_int8 \<Rightarrow> InsertCommentTxParams" where
  "comment_params user post body parent = \<lparr>ic_UserID = user, ic_PostID = post, ic_Body = body,
     ic_ParentID = parent, ic_Upvotes = 0, ic_Downvotes = 0\<rparr>"

lemma wrap32_id: "- (2 ^ 31) \<le> x \<Longrightarrow> x < 2 ^ 31 \<Longrightarrow> wrap32 x = x"
  by (simp add: wrap32_def)

lemma reply_depth_Inr:
  assumes "reply_depth cfg arg p = Inr n"
  shows "c_PostID p = ic_PostID arg \<and> n = wrap32 (c_Depth p + 1) \<and> n < CommentMaxNestingDepth cfg
    \<and> \<not> c_IsDeleted p \<and> c_UserID p \<noteq> ic_UserID arg"
  using assms by (auto simp: reply_depth_def Let_def split: if_splits)

text \<open>The identifiers not drawn yet are given what the insertion passes.\<close>

definition ready :: "given \<Rightarrow> InsertCommentTxParams \<Rightarrow> db \<Rightarrow> bool" where
  "ready g arg d \<longleftrightarrow> (\<forall>i\<ge>sq_comments (db_seqs d). g i = (ic_Upvotes arg, ic_Downvotes arg))"

lemma ready_moves_on: "ready g arg d \<Longrightarrow> moves_on d d1 \<Longrightarrow> ready g arg d1"
  by (simp add: ready_def moves_on_def)

lemma ready_rolled_back: "ready g arg d \<Longrightarrow> moves_on d d1 \<Longrightarrow> ready g arg (rolled_back d d1)"
  by (simp add: ready_def moves_on_def rolled_back_def)

lemma insert_body_inv:
  assumes inv: "store_inv_from g cfg d" and ready: "ready g arg d"
    and run: "insert_body cfg arg E d = (Inr c, d2)"
  shows "store_inv_from g cfg d2"
proof (cases "i8_Valid (ic_ParentID arg)")
  case True
  then obtain parent n where parent: "comment_of d (i8_Int64 (ic_ParentID arg)) = Some parent"
    and n: "reply_depth cfg arg parent = Inr n"
    and new: "createComment E \<lparr>cc_UserID = ic_UserID arg, cc_PostID = ic_PostID arg, cc_Body = ic_Body arg,
        cc_ParentID = ic_ParentID arg, cc_Depth = n, cc_Upvotes = ic_Upvotes arg,
        cc_Downvotes = ic_Downvotes arg\<rparr> d = (Inr c, d2)"
    using run by (auto simp: insert_body_def insert_depth_def Let_def dest!: getCommentWithLock_Inr
        split: if_splits sum.splits prod.splits)
  have p: "parent \<in> set (db_comments d)" "c_ID parent = i8_Int64 (ic_ParentID arg)"
    using comment_of_Some[OF parent] by simp_all
  have "comment_ok cfg (user_ids d) (set (db_posts d)) (sq_comments (db_seqs d)) parent"
    using inv p(1) by (simp add: store_inv_def store_wf_def comments_wf_def)
  then have small: "0 \<le> c_Depth parent" "c_Depth parent < 2 ^ 31 - 1 \<or> c_Depth parent = 0"
    using inv by (auto simp: comment_ok_def store_inv_def config_ok_def)
  then have "n = c_Depth parent + 1"
    using reply_depth_Inr[OF n] by (subst (asm) wrap32_id) auto
  then show ?thesis
    using createComment_inv[OF inv new] ready small p True reply_depth_Inr[OF n]
    by (auto simp: ready_def)
next
  case False
  then have "createComment E \<lparr>cc_UserID = ic_UserID arg, cc_PostID = ic_PostID arg, cc_Body = ic_Body arg,
        cc_ParentID = ic_ParentID arg, cc_Depth = 0, cc_Upvotes = ic_Upvotes arg,
        cc_Downvotes = ic_Downvotes arg\<rparr> d = (Inr c, d2)"
    using run by (auto simp: insert_body_def insert_depth_def Let_def dest!: getRootCommentCountForUser_Inr
        split: if_splits sum.splits prod.splits)
  from createComment_inv[OF inv this] ready False show ?thesis by (simp add: ready_def)
qed

interpretation insert_tx: transaction "\<lambda>d. store_inv_from g cfg d \<and> ready g arg d" "insert_body cfg arg"
  for g cfg arg
proof
  fix d E
  assume "store_inv_from g cfg d \<and> ready g arg d"
  then show "store_inv_from g cfg (rolled_back d (snd (insert_body cfg arg E d)))
      \<and> ready g arg (rolled_back d (snd (insert_body cfg arg E d)))"
    by (auto intro: rolled_back_inv ready_rolled_back moves_on_bodies)
next
  fix d E x d1
  assume h: "store_inv_from g cfg d \<and> ready g arg d" "insert_body cfg arg E d = (Inr x, d1)"
  have "moves_on d d1" using moves_on_bodies(1)[of d cfg arg E] h(2) by simp
  then show "store_inv_from g cfg d1 \<and> ready g arg d1"
    using h insert_body_inv ready_moves_on by blast
qed

text \<open>After an insertion, what was given to the comments it may have drawn an identifier for.\<close>

definition drawn :: "db \<Rightarrow> int \<times> int \<Rightarrow> given \<Rightarrow> given" where
  "drawn d k g = (\<lambda>i. if i < sq_comments (db_seqs d) then g i else k)"

lemma drawn_nothing [simp]: "drawn d (0, 0) nothing = nothing"
  by (simp add: drawn_def)

lemma store_inv_drawn: "store_inv_from g cfg d \<Longrightarrow> store_inv_from (drawn d k g) cfg d"
  by (rule store_inv_given) (simp_all add: drawn_def)

lemma insert_keeps:
  assumes "store_inv_from g cfg d"
  shows "store_inv_from (drawn d (ic_Upvotes arg, ic_Downvotes arg) g) cfg
    (snd (execTx E (insert_body cfg arg) d))"
  using insert_tx.keeps[OF conjI[OF store_inv_drawn[OF assms]]] by (simp add: ready_def drawn_def)

interpretation delete_tx: transaction "store_inv_from g cfg" "delete_body arg" for g cfg arg
  by unfold_locales (auto intro: rolled_back_inv moves_on_bodies delete_body_inv)

interpretation vote_tx: transaction "store_inv_from g cfg" "vote_body arg" for g cfg arg
  by unfold_locales (auto intro: rolled_back_inv moves_on_bodies vote_body_inv)

end
