(* ===== verification/Db_Users.thy ===== *)
theory Db_Users
  imports Db_Comments
begin

text \<open>
  Users, their sessions and their passkeys: the statements of \<open>user.sql.go\<close>,
  \<open>session.sql.go\<close> and \<open>webauthn_credential.sql.go\<close> that the store uses, and the operations
  over them. The foreign keys and the unique indexes are those of the migrations; the server
  looks at the indexes of \<open>users\<close> in the order they were created: the handle, the email and
  the username of the active users.
\<close>

section \<open>Statements over users\<close>

definition user_of :: "db \<Rightarrow> int \<Rightarrow> User option" where
  "user_of d i = find (\<lambda>u. u_ID u = i) (db_users d)"

definition set_user :: "db \<Rightarrow> User \<Rightarrow> db" where
  "set_user d u = d\<lparr>db_users := map (\<lambda>x. if u_ID x = u_ID u then u else x) (db_users d)\<rparr>"

text \<open>The unique index the row \<open>u\<close> violates among the other rows, if any.\<close>

definition users_conflict :: "User list \<Rightarrow> User \<Rightarrow> string option" where
  "users_conflict us u =
     (let others = [x \<leftarrow> us. u_ID x \<noteq> u_ID u] in
      if \<exists>x\<in>set others. u_WebauthnUserHandle x = u_WebauthnUserHandle u
        then Some ''users_webauthn_user_handle_key''
      else if \<not> u_IsDeleted u \<and> (\<exists>x\<in>set others. \<not> u_IsDeleted x \<and> u_Email x = u_Email u)
        then Some ''uniq_users_email_active''
      else if \<not> u_IsDeleted u \<and> (\<exists>x\<in>set others. \<not> u_IsDeleted x \<and> u_Username x = u_Username u)
        then Some ''uniq_users_username_active''
      else None)"

record createUserParams =
  cu_Username :: string
  cu_ProfileImgUrl :: pg_text
  cu_Email :: string
  cu_WebauthnUserHandle :: string

definition createUser :: "env \<Rightarrow> createUserParams \<Rightarrow> db \<Rightarrow> User result" where
  "createUser E arg = query ''createUser'' E (\<lambda>d.
     let i = sq_users (db_seqs d);
         d1 = d\<lparr>db_seqs := (db_seqs d)\<lparr>sq_users := i + 1\<rparr>\<rparr>;
         u = \<lparr>u_ID = i, u_Username = cu_Username arg,
              u_WebauthnUserHandle = cu_WebauthnUserHandle arg,
              u_ProfileImgUrl = stored_text (cu_ProfileImgUrl arg), u_Email = cu_Email arg,
              u_CreatedAt = db_now d, u_IsDeleted = False, u_DeletedAt = 0,
              u_DisplayName = cu_Username arg, u_ArchivedUsername = [], u_ArchivedEmail = [],
              u_LastModifiedAt = 0\<rparr>
     in case users_conflict (db_users d) u of
          Some con \<Rightarrow> (Inl (unique_violation E con), d1)
        | None \<Rightarrow> (Inr u, d1\<lparr>db_users := db_users d1 @ [u]\<rparr>))"

definition getUser :: "env \<Rightarrow> int \<Rightarrow> db \<Rightarrow> User result" where
  "getUser E i = query ''getUser'' E (\<lambda>d. (one_row (user_of d i), d))"

text \<open>The username of a deleted user is not unique; \<open>env_pick\<close> chooses among several rows.\<close>

definition getUserByUsername :: "env \<Rightarrow> string \<Rightarrow> db \<Rightarrow> User result" where
  "getUserByUsername E name = query ''getUserByUsername'' E (\<lambda>d.
     let us = [u \<leftarrow> db_users d. u_Username u = name]
     in (if us = [] then Inl ErrNoRows else Inr (us ! (env_pick E mod length us)), d))"

definition usernameExists :: "env \<Rightarrow> string \<Rightarrow> db \<Rightarrow> bool result" where
  "usernameExists E name = query ''usernameExists'' E (\<lambda>d.
     (Inr (\<exists>u\<in>set (db_users d). u_Username u = name), d))"

definition emailExists :: "env \<Rightarrow> string \<Rightarrow> db \<Rightarrow> bool result" where
  "emailExists E email = query ''emailExists'' E (\<lambda>d.
     (Inr (\<exists>u\<in>set (db_users d). u_Email u = email), d))"

text \<open>\<open>update_user\<close>: a parameter that is NULL leaves its column alone.\<close>

record updateUserRow =
  uu_ID :: int
  uu_Username :: string
  uu_Email :: string
  uu_ProfileImgUrl :: pg_text
  uu_IsDeleted :: bool
  uu_LastModifiedAt :: int
  uu_Updated :: bool

definition coalesce :: "pg_text \<Rightarrow> string \<Rightarrow> string" where
  "coalesce v old = (if tx_Valid v then tx_String v else old)"

definition updateUser ::
  "env \<Rightarrow> int \<Rightarrow> pg_text \<Rightarrow> pg_text \<Rightarrow> pg_text \<Rightarrow> db \<Rightarrow> updateUserRow result" where
  "updateUser E i name email img = query ''updateUser'' E (\<lambda>d.
     case user_of d i of
       None \<Rightarrow> (Inl ErrNoRows, d)
     | Some u \<Rightarrow>
         let updated = (\<not> u_IsDeleted u);
             u' = (if updated then u\<lparr>u_Username := coalesce name (u_Username u),
                     u_Email := coalesce email (u_Email u),
                     u_ProfileImgUrl := (if tx_Valid img then img else u_ProfileImgUrl u),
                     u_LastModifiedAt := db_now d\<rparr> else u);
             row = \<lparr>uu_ID = u_ID u, uu_Username = u_Username u', uu_Email = u_Email u',
                    uu_ProfileImgUrl = u_ProfileImgUrl u', uu_IsDeleted = u_IsDeleted u,
                    uu_LastModifiedAt = u_LastModifiedAt u', uu_Updated = updated\<rparr>
         in if updated then
              (case users_conflict (db_users d) u' of
                 Some con \<Rightarrow> (Inl (unique_violation E con), d)
               | None \<Rightarrow> (Inr row, set_user d u'))
            else (Inr row, d))"

text \<open>\<open>soft_delete_user\<close>\<close>

record softDeleteUserRow =
  sd_ID :: int
  sd_Username :: string
  sd_DisplayName :: string
  sd_Email :: string
  sd_ProfileImgUrl :: pg_text
  sd_IsDeleted :: bool
  sd_DeletedAt :: int
  sd_LastModifiedAt :: int
  sd_Success :: bool

definition deleted_user :: "db \<Rightarrow> User \<Rightarrow> User" where
  "deleted_user d u = u\<lparr>u_IsDeleted := True, u_DisplayName := ''[deleted]'',
     u_DeletedAt := db_now d, u_LastModifiedAt := db_now d,
     u_ArchivedUsername := u_Username u, u_ArchivedEmail := u_Email u,
     u_Username := ''deleted_user_'' @ Itoa (u_ID u),
     u_Email := ''deleted_'' @ Itoa (u_ID u) @ ''@invalid.local'',
     u_ProfileImgUrl := null_text\<rparr>"

definition softDeleteUser :: "env \<Rightarrow> int \<Rightarrow> db \<Rightarrow> softDeleteUserRow result" where
  "softDeleteUser E i = query ''softDeleteUser'' E (\<lambda>d.
     case user_of d i of
       None \<Rightarrow> (Inl ErrNoRows, d)
     | Some u \<Rightarrow>
         let u' = (if u_IsDeleted u then u else deleted_user d u)
         in (Inr \<lparr>sd_ID = u_ID u, sd_Username = u_Username u', sd_DisplayName = u_DisplayName u',
                  sd_Email = u_Email u', sd_ProfileImgUrl = u_ProfileImgUrl u',
                  sd_IsDeleted = u_IsDeleted u', sd_DeletedAt = u_DeletedAt u',
                  sd_LastModifiedAt = u_LastModifiedAt u', sd_Success = True\<rparr>,
             if u_IsDeleted u then d else set_user d u'))"

section \<open>Statements over sessions and passkeys\<close>

record createSessionParams =
  cs_ID :: string
  cs_UserID :: int
  cs_RefreshToken :: string
  cs_UserAgent :: string
  cs_ClientIp :: string
  cs_IsBlocked :: bool
  cs_ExpiresAt :: int

definition createSession :: "env \<Rightarrow> createSessionParams \<Rightarrow> db \<Rightarrow> Session result" where
  "createSession E arg = query ''createSession'' E (\<lambda>d.
     let s = \<lparr>s_ID = cs_ID arg, s_UserID = cs_UserID arg, s_RefreshToken = cs_RefreshToken arg,
              s_UserAgent = cs_UserAgent arg, s_ClientIp = cs_ClientIp arg,
              s_IsBlocked = cs_IsBlocked arg, s_ExpiresAt = cs_ExpiresAt arg,
              s_CreatedAt = db_now d\<rparr>
     in if \<exists>x\<in>set (db_sessions d). s_ID x = cs_ID arg then
          (Inl (unique_violation E ''sessions_pkey''), d)
        else if \<not> user_exists d (cs_UserID arg) then
          (Inl (fk_violation E ''sessions_user_id_fkey''), d)
        else (Inr s, d\<lparr>db_sessions := db_sessions d @ [s]\<rparr>))"

definition getSession :: "env \<Rightarrow> string \<Rightarrow> db \<Rightarrow> Session result" where
  "getSession E i = query ''getSession'' E (\<lambda>d.
     (one_row (find (\<lambda>s. s_ID s = i) (db_sessions d)), d))"

definition deleteUserSessions :: "env \<Rightarrow> int \<Rightarrow> db \<Rightarrow> unit result" where
  "deleteUserSessions E i = query ''deleteUserSessions'' E (\<lambda>d.
     (Inr (), d\<lparr>db_sessions := [s \<leftarrow> db_sessions d. s_UserID s \<noteq> i]\<rparr>))"

record createWebauthnCredentialsParams =
  ck_ID :: string
  ck_UserID :: int
  ck_PublicKey :: string
  ck_AttestationType :: pg_text
  ck_Transports :: string
  ck_UserPresent :: bool
  ck_UserVerified :: bool
  ck_BackupEligible :: bool
  ck_BackupState :: bool
  ck_Aaguid :: string
  ck_SignCount :: int
  ck_CloneWarning :: bool
  ck_AuthenticatorAttachment :: string
  ck_AuthenticatorData :: string
  ck_PublicKeyAlgorithm :: int

text \<open>The column \<open>authenticator_attachment\<close> is an enum of two values; no other text is read.\<close>

definition AuthenticatorAttachmentPlatform :: string where
  "AuthenticatorAttachmentPlatform = ''platform''"
definition AuthenticatorAttachmentCrossPlatform :: string where
  "AuthenticatorAttachmentCrossPlatform = ''cross-platform''"

definition createWebauthnCredentials ::
  "env \<Rightarrow> createWebauthnCredentialsParams \<Rightarrow> db \<Rightarrow> WebauthnCredential result" where
  "createWebauthnCredentials E arg = query ''createWebauthnCredentials'' E (\<lambda>d.
     let k = \<lparr>k_ID = ck_ID arg, k_UserID = ck_UserID arg, k_PublicKey = ck_PublicKey arg,
              k_AttestationType = stored_text (ck_AttestationType arg),
              k_Transports = ck_Transports arg, k_UserPresent = ck_UserPresent arg,
              k_UserVerified = ck_UserVerified arg, k_BackupEligible = ck_BackupEligible arg,
              k_BackupState = ck_BackupState arg, k_Aaguid = ck_Aaguid arg,
              k_SignCount = ck_SignCount arg, k_CloneWarning = ck_CloneWarning arg,
              k_AuthenticatorAttachment = ck_AuthenticatorAttachment arg,
              k_AuthenticatorData = ck_AuthenticatorData arg,
              k_PublicKeyAlgorithm = ck_PublicKeyAlgorithm arg, k_CreatedAt = db_now d,
              k_LastUsedAt = None\<rparr>
     in if ck_AuthenticatorAttachment arg \<notin> {AuthenticatorAttachmentPlatform, AuthenticatorAttachmentCrossPlatform}
        then (Inl (pg_error_of E ''22P02'' []), d)
        else if \<exists>x\<in>set (db_credentials d). k_ID x = ck_ID arg then
          (Inl (unique_violation E ''webauthn_credentials_pkey''), d)
        else if \<not> user_exists d (ck_UserID arg) then
          (Inl (fk_violation E ''webauthn_credentials_user_id_fkey''), d)
        else (Inr k, d\<lparr>db_credentials := db_credentials d @ [k]\<rparr>))"

definition getUserCredentials :: "env \<Rightarrow> int \<Rightarrow> db \<Rightarrow> WebauthnCredential list result" where
  "getUserCredentials E i = query ''getUserCredentials'' E (\<lambda>d.
     (Inr [k \<leftarrow> db_credentials d. k_UserID k = i], d))"

definition deleteUserCredentials :: "env \<Rightarrow> int \<Rightarrow> db \<Rightarrow> unit result" where
  "deleteUserCredentials E i = query ''deleteUserCredentials'' E (\<lambda>d.
     (Inr (), d\<lparr>db_credentials := [k \<leftarrow> db_credentials d. k_UserID k \<noteq> i]\<rparr>))"

text \<open>\<open>record_credential_use\<close>\<close>

record recordCredentialUseRow =
  ru_CredExists :: bool
  ru_PrevCount :: int
  ru_IsSuspicious :: bool

definition recordCredentialUse ::
  "env \<Rightarrow> string \<Rightarrow> int \<Rightarrow> db \<Rightarrow> recordCredentialUseRow result" where
  "recordCredentialUse E cred count = query ''recordCredentialUse'' E (\<lambda>d.
     case find (\<lambda>k. k_ID k = cred) (db_credentials d) of
       None \<Rightarrow> (Inr \<lparr>ru_CredExists = False, ru_PrevCount = -1, ru_IsSuspicious = False\<rparr>, d)
     | Some t \<Rightarrow>
         let suspicious = (count \<le> k_SignCount t \<and> (count \<noteq> 0 \<or> k_SignCount t \<noteq> 0))
         in (Inr \<lparr>ru_CredExists = True, ru_PrevCount = k_SignCount t, ru_IsSuspicious = suspicious\<rparr>,
             if suspicious then d
             else d\<lparr>db_credentials := map (\<lambda>k. if k_ID k = cred
                      then k\<lparr>k_SignCount := count, k_LastUsedAt := Some (db_now d)\<rparr> else k)
                    (db_credentials d)\<rparr>))"

section \<open>CreateUserWithCredentialsTx\<close>

definition opCreateUserWithCredentials :: string where
  "opCreateUserWithCredentials = ''create-user-with-credentials''"

text \<open>The verb \<open>%x\<close> of \<open>fmt\<close> on bytes.\<close>

definition hex_digit :: "nat \<Rightarrow> char" where
  "hex_digit n = (if n < 10 then char_of (48 + n) else char_of (87 + n))"

definition hex_text :: "string \<Rightarrow> string" where
  "hex_text s = concat (map (\<lambda>c. [hex_digit (byte c div 16), hex_digit (byte c mod 16)]) s)"

record CreateCredentialsTxParams =
  tc_ID :: string
  tc_PublicKey :: string
  tc_AttestationType :: pg_text
  tc_Transports :: string
  tc_UserPresent :: bool
  tc_UserVerified :: bool
  tc_BackupEligible :: bool
  tc_BackupState :: bool
  tc_Aaguid :: string
  tc_CloneWarning :: bool
  tc_AuthenticatorAttachment :: string
  tc_AuthenticatorData :: string
  tc_PublicKeyAlgorithm :: int

definition NewCreateUserParams ::
  "string \<Rightarrow> string \<Rightarrow> string option \<Rightarrow> string \<Rightarrow> createUserParams" where
  "NewCreateUserParams username email img handle =
     \<lparr>cu_Username = username,
      cu_ProfileImgUrl = (case img of Some s \<Rightarrow> \<lparr>tx_String = s, tx_Valid = True\<rparr>
                          | None \<Rightarrow> \<lparr>tx_String = [], tx_Valid = False\<rparr>),
      cu_Email = email, cu_WebauthnUserHandle = handle\<rparr>"

record CreateUserWithCredentialsTxParams =
  cw_User :: createUserParams
  cw_Cred :: CreateCredentialsTxParams

definition create_user_body ::
  "CreateUserWithCredentialsTxParams \<Rightarrow> env \<Rightarrow> db \<Rightarrow> User result" where
  "create_user_body arg E d =
     (case createUser E (cw_User arg) d of
        (Inl err, d1) \<Rightarrow>
          (Inl (sqlError opCreateUserWithCredentials (no_details\<lparr>det_entity := entUser\<rparr>) err), d1)
      | (Inr user, d1) \<Rightarrow>
          let c = cw_Cred arg;
              params = \<lparr>ck_ID = tc_ID c, ck_UserID = u_ID user, ck_PublicKey = tc_PublicKey c,
                ck_AttestationType = tc_AttestationType c, ck_Transports = tc_Transports c,
                ck_UserPresent = tc_UserPresent c, ck_UserVerified = tc_UserVerified c,
                ck_BackupEligible = tc_BackupEligible c, ck_BackupState = tc_BackupState c,
                ck_Aaguid = tc_Aaguid c, ck_SignCount = 0, ck_CloneWarning = tc_CloneWarning c,
                ck_AuthenticatorAttachment = tc_AuthenticatorAttachment c,
                ck_AuthenticatorData = tc_AuthenticatorData c,
                ck_PublicKeyAlgorithm = tc_PublicKeyAlgorithm c\<rparr>
          in case createWebauthnCredentials E params d1 of
               (Inl err, d2) \<Rightarrow>
                 (Inl (sqlError opCreateUserWithCredentials (no_details\<lparr>det_entity := entWauthnCred,
                    det_entityID := hex_text (tc_ID c), det_userID := Itoa (u_ID user)\<rparr>) err), d2)
             | (Inr k, d2) \<Rightarrow> (Inr user, d2))"

definition CreateUserWithCredentialsTx ::
  "env \<Rightarrow> CreateUserWithCredentialsTxParams \<Rightarrow> db \<Rightarrow> User result" where
  "CreateUserWithCredentialsTx E arg = execTx E (create_user_body arg)"

end
