(* ===== verification/Db_Accounts.thy ===== *)
theory Db_Accounts
  imports Db_Users
begin

text \<open>
  The operations of the store on users, sessions and passkeys beside their creation:
  reading, updating and deleting a user, the use of a passkey, and sessions.
\<close>

section \<open>Reading users\<close>

definition opGetUser :: string where "opGetUser = ''get-user''"

definition get_deleted_user :: "int \<Rightarrow> go_error" where
  "get_deleted_user i = newOpError opGetUser KindDeleted entUser
     (Errorf (''user with id '' @ Itoa i @ '' is deleted'') None) [withEntityID (Itoa i)]"

definition GetUser :: "env \<Rightarrow> int \<Rightarrow> db \<Rightarrow> User result" where
  "GetUser E i d =
     (case getUser E i d of
        (Inl err, d1) \<Rightarrow>
          if errors_Is_NoRows err then (Inl (notFoundError opGetUser entUser (Itoa i)), d1)
          else (Inl (sqlError opGetUser
                  (no_details\<lparr>det_entity := entUser, det_entityID := Itoa i\<rparr>) err), d1)
      | (Inr user, d1) \<Rightarrow>
          if u_IsDeleted user then (Inl (get_deleted_user i), d1) else (Inr user, d1))"

definition opGetUserByUsername :: string where "opGetUserByUsername = ''get-user-by-username''"

definition named_user_missing :: "string \<Rightarrow> go_error" where
  "named_user_missing name = newOpError opGetUserByUsername KindNotFound entUser
     (Errorf (''user with name '' @ [CHR 0x27] @ name @ [CHR 0x27] @ '' not found'') None) []"

definition named_user_deleted :: "string \<Rightarrow> go_error" where
  "named_user_deleted name = newOpError opGetUserByUsername KindDeleted entUser
     (Errorf (''user with name '' @ [CHR 0x27] @ name @ [CHR 0x27] @ '' is deleted'') None) []"

definition GetUserByUsername :: "env \<Rightarrow> string \<Rightarrow> db \<Rightarrow> User result" where
  "GetUserByUsername E name d =
     (case getUserByUsername E name d of
        (Inl err, d1) \<Rightarrow>
          if errors_Is_NoRows err then (Inl (named_user_missing name), d1)
          else (Inl (sqlError opGetUserByUsername
                  (no_details\<lparr>det_entity := entUser, det_input := name\<rparr>) err), d1)
      | (Inr user, d1) \<Rightarrow>
          if u_IsDeleted user then (Inl (named_user_deleted name), d1) else (Inr user, d1))"

definition opUsernameExists :: string where "opUsernameExists = ''username-exists''"
definition opEmailExists :: string where "opEmailExists = ''email-exists''"

definition UsernameExists :: "env \<Rightarrow> string \<Rightarrow> db \<Rightarrow> bool result" where
  "UsernameExists E name d =
     (case usernameExists E name d of
        (Inl err, d1) \<Rightarrow> (Inl (sqlError opUsernameExists
           (no_details\<lparr>det_input := name, det_entity := entUser\<rparr>) err), d1)
      | (Inr b, d1) \<Rightarrow> (Inr b, d1))"

definition EmailExists :: "env \<Rightarrow> string \<Rightarrow> db \<Rightarrow> bool result" where
  "EmailExists E email d =
     (case emailExists E email d of
        (Inl err, d1) \<Rightarrow> (Inl (sqlError opEmailExists
           (no_details\<lparr>det_input := email, det_entity := entUser\<rparr>) err), d1)
      | (Inr b, d1) \<Rightarrow> (Inr b, d1))"

section \<open>UpdateUser\<close>

definition opUpdateUser :: string where "opUpdateUser = ''update-user''"

record UpdateUserParams =
  pu_ID :: int
  pu_Username :: "string option"
  pu_Email :: "string option"
  pu_ProfileImgURL :: "string option"

definition params_empty :: "UpdateUserParams \<Rightarrow> bool" where
  "params_empty p \<longleftrightarrow> pu_Username p = None \<and> pu_Email p = None \<and> pu_ProfileImgURL p = None"

record UpdateUserResult =
  rr_ID :: int
  rr_Username :: string
  rr_Email :: string
  rr_ProfileImgURL :: pg_text
  rr_LastModifiedAt :: int

text \<open>\<open>util.StringToPgxText\<close>\<close>

definition StringToPgxText :: "string option \<Rightarrow> pg_text" where
  "StringToPgxText s = (case s of None \<Rightarrow> null_text
     | Some s \<Rightarrow> \<lparr>tx_String = TrimSpace s, tx_Valid = True\<rparr>)"

definition update_nothing :: go_error where
  "update_nothing = newOpError opUpdateUser KindInvalid entUser
     (Errorf ''all provided fields are empty'' None) []"

definition update_deleted_user :: "int \<Rightarrow> go_error" where
  "update_deleted_user i = newOpError opUpdateUser KindDeleted entUser
     (Errorf (''user with id '' @ Itoa i @ '' is deleted and cannot be updated'') None)
     [withEntityID (Itoa i)]"

definition update_user_failed :: "int \<Rightarrow> go_error" where
  "update_user_failed i = newOpError opUpdateUser KindInternal entUser
     (Errorf (''failed to update user with id '' @ Itoa i) None) [withEntityID (Itoa i)]"

definition UpdateUser :: "env \<Rightarrow> UpdateUserParams \<Rightarrow> db \<Rightarrow> UpdateUserResult result" where
  "UpdateUser E arg d =
     (if params_empty arg then (Inl update_nothing, d)
      else case updateUser E (pu_ID arg) (StringToPgxText (pu_Username arg))
                  (StringToPgxText (pu_Email arg)) (StringToPgxText (pu_ProfileImgURL arg)) d of
        (Inl err, d1) \<Rightarrow>
          if errors_Is_NoRows err
          then (Inl (notFoundError opUpdateUser entUser (Itoa (pu_ID arg))), d1)
          else (Inl (sqlError opUpdateUser
                  (no_details\<lparr>det_entity := entUser, det_entityID := Itoa (pu_ID arg)\<rparr>) err), d1)
      | (Inr row, d1) \<Rightarrow>
          if uu_Updated row then
            (Inr \<lparr>rr_ID = uu_ID row, rr_Username = uu_Username row, rr_Email = uu_Email row,
                  rr_ProfileImgURL = uu_ProfileImgUrl row,
                  rr_LastModifiedAt = uu_LastModifiedAt row\<rparr>, d1)
          else if uu_IsDeleted row then (Inl (update_deleted_user (pu_ID arg)), d1)
          else (Inl (update_user_failed (pu_ID arg)), d1))"

section \<open>SoftDeleteUserTx\<close>

definition opSoftDeleteUser :: string where "opSoftDeleteUser = ''soft-delete-user''"

record SoftDeleteUserTxResult =
  su_ID :: int
  su_DisplayName :: string
  su_Username :: string
  su_Email :: string
  su_ProfileImgURL :: pg_text
  su_IsDeleted :: bool
  su_DeletedAt :: int
  su_LastModifiedAt :: int

definition delete_user_failed :: "int \<Rightarrow> go_error" where
  "delete_user_failed i = newOpError opSoftDeleteUser KindInternal entUser
     (Errorf (''failed to delete user with id '' @ Itoa i) None) [withEntityID (Itoa i)]"

definition soft_delete_body :: "int \<Rightarrow> env \<Rightarrow> db \<Rightarrow> SoftDeleteUserTxResult result" where
  "soft_delete_body i E d =
     (case deleteUserSessions E i d of
        (Inl err, d1) \<Rightarrow> (Inl (sqlError opSoftDeleteUser
           (no_details\<lparr>det_userID := Itoa i, det_entity := entSession\<rparr>) err), d1)
      | (Inr _, d1) \<Rightarrow>
        (case deleteUserCredentials E i d1 of
           (Inl err, d2) \<Rightarrow> (Inl (sqlError opSoftDeleteUser
              (no_details\<lparr>det_userID := Itoa i, det_entity := entWauthnCred\<rparr>) err), d2)
         | (Inr _, d2) \<Rightarrow>
           (case softDeleteUser E i d2 of
              (Inl err, d3) \<Rightarrow>
                if errors_Is_NoRows err
                then (Inl (notFoundError opSoftDeleteUser entUser (Itoa i)), d3)
                else (Inl (sqlError opSoftDeleteUser (no_details\<lparr>det_entity := entUser,
                        det_entityID := Itoa i, det_userID := Itoa i\<rparr>) err), d3)
            | (Inr row, d3) \<Rightarrow>
                if sd_Success row then
                  (Inr \<lparr>su_ID = sd_ID row, su_DisplayName = sd_DisplayName row,
                        su_Username = sd_Username row, su_Email = sd_Email row,
                        su_ProfileImgURL = sd_ProfileImgUrl row, su_IsDeleted = sd_IsDeleted row,
                        su_DeletedAt = sd_DeletedAt row,
                        su_LastModifiedAt = sd_LastModifiedAt row\<rparr>, d3)
                else (Inl (delete_user_failed i), d3))))"

definition SoftDeleteUserTx :: "env \<Rightarrow> int \<Rightarrow> db \<Rightarrow> SoftDeleteUserTxResult result" where
  "SoftDeleteUserTx E i = execTx E (soft_delete_body i)"

section \<open>Passkeys\<close>

definition opGetUserCredentials :: string where "opGetUserCredentials = ''get-user-credentials''"

definition no_credentials :: "int \<Rightarrow> go_error" where
  "no_credentials i = newOpError opGetUserCredentials KindNotFound entWauthnCred
     (Errorf (''webauthn credentials for the user with ID ['' @ Itoa i @ ''] not found'') None)
     [withUser (Itoa i)]"

definition GetUserCredentials :: "env \<Rightarrow> int \<Rightarrow> db \<Rightarrow> WebauthnCredential list result" where
  "GetUserCredentials E i d =
     (case getUserCredentials E i d of
        (Inl err, d1) \<Rightarrow>
          if errors_Is_NoRows err then (Inl (no_credentials i), d1)
          else (Inl (sqlError opGetUserCredentials
                  (no_details\<lparr>det_userID := Itoa i, det_entity := entWauthnCred\<rparr>) err), d1)
      | (Inr creds, d1) \<Rightarrow> (Inr creds, d1))"

definition opRecordCredentialUse :: string where "opRecordCredentialUse = ''record-credential-use''"

record RecordCredentialUseParams =
  rc_ID :: string
  rc_SignCount :: int

definition use_rejected :: "RecordCredentialUseParams \<Rightarrow> recordCredentialUseRow \<Rightarrow> go_error" where
  "use_rejected arg row = newOpError opRecordCredentialUse KindSecurity entWauthnCred
     (Errorf (''credential use rejected: provided sign count '' @ Itoa (rc_SignCount arg)
        @ '' is not greater than current stored sign count '' @ Itoa (ru_PrevCount row)
        @ ''; only a 0->0 non-advancing counter transition is allowed'') None)
     [withEntityID (hex_text (rc_ID arg))]"

definition RecordCredentialUse :: "env \<Rightarrow> RecordCredentialUseParams \<Rightarrow> db \<Rightarrow> unit result" where
  "RecordCredentialUse E arg d =
     (case recordCredentialUse E (rc_ID arg) (rc_SignCount arg) d of
        (Inl err, d1) \<Rightarrow> (Inl (sqlError opRecordCredentialUse (no_details\<lparr>det_entity := entWauthnCred,
           det_entityID := hex_text (rc_ID arg), det_input := Itoa (rc_SignCount arg)\<rparr>) err), d1)
      | (Inr row, d1) \<Rightarrow>
          if \<not> ru_CredExists row then
            (Inl (notFoundError opRecordCredentialUse entWauthnCred (hex_text (rc_ID arg))), d1)
          else if ru_IsSuspicious row then (Inl (use_rejected arg row), d1)
          else (Inr (), d1))"

section \<open>Sessions\<close>

definition opCreateSession :: string where "opCreateSession = ''create-session''"
definition opGetSession :: string where "opGetSession = ''get-session''"

text \<open>The text of a \<open>uuid.UUID\<close>, \<open>uuid_text\<close>, belongs to a package the code imports.\<close>

definition CreateSession ::
  "(string \<Rightarrow> string) \<Rightarrow> env \<Rightarrow> createSessionParams \<Rightarrow> db \<Rightarrow> Session result" where
  "CreateSession uuid_text E arg d =
     (case createSession E arg d of
        (Inl err, d1) \<Rightarrow> (Inl (sqlError opCreateSession (no_details\<lparr>det_entity := entSession,
           det_entityID := uuid_text (cs_ID arg), det_userID := Itoa (cs_UserID arg)\<rparr>) err), d1)
      | (Inr session, d1) \<Rightarrow> (Inr session, d1))"

definition GetSession :: "(string \<Rightarrow> string) \<Rightarrow> env \<Rightarrow> string \<Rightarrow> db \<Rightarrow> Session result" where
  "GetSession uuid_text E i d =
     (case getSession E i d of
        (Inl err, d1) \<Rightarrow>
          if err = ErrNoRows then (Inl (notFoundError opGetSession entSession (uuid_text i)), d1)
          else (Inl (sqlError opGetSession (no_details\<lparr>det_entity := entSession,
                  det_entityID := uuid_text i\<rparr>) err), d1)
      | (Inr session, d1) \<Rightarrow> (Inr session, d1))"

end
