(* ===== verification/Db_Reach.thy ===== *)
theory Db_Reach
  imports Db_Ops Db_Accounts
begin

text \<open>
  The whole store as a state machine: one step is one operation of the interface \<open>Store\<close>, in
  any environment. What every reachable database satisfies is the invariant of the comments
  and votes together with the one of the accounts.
\<close>

section \<open>The invariant of the accounts\<close>

definition clash :: "User \<Rightarrow> User \<Rightarrow> bool" where
  "clash x u \<longleftrightarrow> u_WebauthnUserHandle x = u_WebauthnUserHandle u
     \<or> (\<not> u_IsDeleted x \<and> \<not> u_IsDeleted u \<and> (u_Email x = u_Email u \<or> u_Username x = u_Username u))"

definition users_wf :: "User list \<Rightarrow> int \<Rightarrow> bool" where
  "users_wf us n \<longleftrightarrow> distinct (map u_ID us) \<and> (\<forall>u\<in>set us. u_ID u < n)
     \<and> (\<forall>u\<in>set us. \<forall>x\<in>set us. u_ID x \<noteq> u_ID u \<longrightarrow> \<not> clash x u)"

definition accounts_wf :: "db \<Rightarrow> bool" where
  "accounts_wf d \<longleftrightarrow> users_wf (db_users d) (sq_users (db_seqs d))
     \<and> distinct (map s_ID (db_sessions d)) \<and> (\<forall>s\<in>set (db_sessions d). s_UserID s \<in> user_ids d)
     \<and> distinct (map k_ID (db_credentials d)) \<and> (\<forall>k\<in>set (db_credentials d). k_UserID k \<in> user_ids d)"

definition db_wf_from :: "given \<Rightarrow> store_config \<Rightarrow> db \<Rightarrow> bool" where
  "db_wf_from g cfg d \<longleftrightarrow> store_inv_from g cfg d \<and> accounts_wf d"

abbreviation db_wf :: "store_config \<Rightarrow> db \<Rightarrow> bool" where
  "db_wf \<equiv> db_wf_from nothing"

lemmas db_wf_def = db_wf_from_def

lemma clash_sym: "clash x u = clash u x"
  by (auto simp: clash_def)

lemma users_conflict_None:
  "users_conflict us u = None \<longleftrightarrow> (\<forall>x\<in>set us. u_ID x \<noteq> u_ID u \<longrightarrow> \<not> clash x u)"
  by (auto simp: users_conflict_def clash_def Let_def)

section \<open>Changing the users\<close>

lemma users_wf_seq: "users_wf us n \<Longrightarrow> n \<le> m \<Longrightarrow> users_wf us m"
  by (fastforce simp: users_wf_def)

lemma users_wf_snoc:
  assumes "users_wf us n" and "u_ID u = n" and "users_conflict us u = None"
  shows "users_wf (us @ [u]) (n + 1)"
proof -
  have free: "\<not> clash x u \<and> \<not> clash u x" if "x \<in> set us" "u_ID x \<noteq> u_ID u" for x
    using assms(3) that clash_sym by (auto simp: users_conflict_None)
  have old: "u_ID x < n" if "x \<in> set us" for x using assms(1) that by (simp add: users_wf_def)
  then show ?thesis
    using assms(1,2) free by (fastforce simp: users_wf_def)
qed

definition replaced_user :: "User list \<Rightarrow> User \<Rightarrow> User list" where
  "replaced_user us u = map (\<lambda>x. if u_ID x = u_ID u then u else x) us"

lemma set_user_replaced: "set_user d u = d\<lparr>db_users := replaced_user (db_users d) u\<rparr>"
  by (simp add: set_user_def replaced_user_def)

lemma replaced_user_ids: "map u_ID (replaced_user us u) = map u_ID us"
  by (simp add: replaced_user_def)

lemma replaced_user_id_set: "u_ID ` set (replaced_user us u) = u_ID ` set us"
  by (metis replaced_user_ids list.set_map)

lemma replaced_user_mem: "x \<in> set (replaced_user us u) \<Longrightarrow> x = u \<or> (x \<in> set us \<and> u_ID x \<noteq> u_ID u)"
  by (auto simp: replaced_user_def split: if_splits)

lemma users_wf_replaced:
  assumes wf: "users_wf us n" and mem: "u_ID u \<in> u_ID ` set us" and free: "users_conflict us u = None"
  shows "users_wf (replaced_user us u) n"
proof -
  have "\<not> clash x y" if "x \<in> set (replaced_user us u)" "y \<in> set (replaced_user us u)" "u_ID x \<noteq> u_ID y"
    for x y
    using replaced_user_mem[OF that(1)] replaced_user_mem[OF that(2)] that(3) wf free clash_sym
    unfolding users_wf_def users_conflict_None by metis
  moreover have "u_ID x < n" if "x \<in> set (replaced_user us u)" for x
    using replaced_user_mem[OF that] wf mem by (auto simp: users_wf_def)
  ultimately show ?thesis
    using wf by (simp add: users_wf_def replaced_user_ids)
qed

lemma user_of_Some: "user_of d i = Some u \<Longrightarrow> u \<in> set (db_users d) \<and> u_ID u = i"
  unfolding user_of_def by (drule find_in) simp

lemma user_of_None: "user_of d i = None \<longleftrightarrow> i \<notin> user_ids d"
  by (auto simp: user_of_def find_none user_ids_def)

section \<open>Statements keep the accounts\<close>

lemma accounts_wf_seq:
  "accounts_wf d \<Longrightarrow> sq_users (db_seqs d) \<le> sq_users s \<Longrightarrow> accounts_wf (d\<lparr>db_seqs := s\<rparr>)"
  using users_wf_seq by (auto simp: accounts_wf_def user_ids_def)

lemma createUser_Inr:
  assumes "createUser E arg d = (Inr u, d1)"
  shows "u_ID u = sq_users (db_seqs d)" and "users_conflict (db_users d) u = None"
    and "d1 = d\<lparr>db_seqs := (db_seqs d)\<lparr>sq_users := sq_users (db_seqs d) + 1\<rparr>,
      db_users := db_users d @ [u]\<rparr>"
  using assms[unfolded createUser_def, THEN query_Inr] by (auto simp: Let_def split: option.splits)

lemma createUser_wf:
  assumes "accounts_wf d" and "createUser E arg d = (Inr u, d1)"
  shows "accounts_wf d1 \<and> u_ID u \<in> user_ids d1"
  using assms(1) users_wf_snoc[OF _ createUser_Inr(1,2)[OF assms(2)]] createUser_Inr(3)[OF assms(2)]
  by (auto simp: accounts_wf_def user_ids_def)

lemma set_user_wf:
  assumes wf: "accounts_wf d" and u: "user_of d i = Some u" "u_ID u' = u_ID u"
    and free: "users_conflict (db_users d) u' = None"
  shows "accounts_wf (set_user d u')"
proof -
  have "u_ID u' \<in> u_ID ` set (db_users d)" using user_of_Some[OF u(1)] u(2) by (metis image_eqI)
  then have "users_wf (replaced_user (db_users d) u') (sq_users (db_seqs d))"
    using wf free by (intro users_wf_replaced) (auto simp: accounts_wf_def)
  then show ?thesis
    using wf by (simp add: accounts_wf_def set_user_replaced user_ids_def replaced_user_id_set)
qed

lemma updateUser_wf:
  assumes "accounts_wf d" and "updateUser E i a b c d = (Inr r, d1)"
  shows "accounts_wf d1"
  using assms(2)[unfolded updateUser_def, THEN query_Inr] assms(1)
  by (auto simp: Let_def split: option.splits if_splits intro: set_user_wf)

lemma deleted_user_free:
  assumes "accounts_wf d" and "user_of d i = Some u"
  shows "users_conflict (db_users d) (deleted_user d u) = None"
  using assms(1) user_of_Some[OF assms(2)]
  by (fastforce simp: users_conflict_None accounts_wf_def users_wf_def clash_def deleted_user_def)

lemma softDeleteUser_wf:
  assumes "accounts_wf d" and "softDeleteUser E i d = (Inr r, d1)"
  shows "accounts_wf d1"
  using assms(2)[unfolded softDeleteUser_def, THEN query_Inr] assms(1) deleted_user_free[OF assms(1)]
  by (auto simp: Let_def split: option.splits if_splits intro!: set_user_wf)
    (simp add: deleted_user_def)

lemma createSession_Inr:
  assumes "createSession E arg d = (Inr s, d1)"
  shows "s_ID s \<notin> s_ID ` set (db_sessions d)" and "s_UserID s \<in> user_ids d"
    and "d1 = d\<lparr>db_sessions := db_sessions d @ [s]\<rparr>"
  using assms[unfolded createSession_def, THEN query_Inr]
  by (auto simp: Let_def user_exists_def user_ids_def split: if_splits)

lemma createSession_wf:
  assumes "accounts_wf d" and "createSession E arg d = (Inr r, d1)"
  shows "accounts_wf d1"
  using assms(1) createSession_Inr[OF assms(2)] by (simp add: accounts_wf_def user_ids_def)

lemma createWebauthnCredentials_Inr:
  assumes "createWebauthnCredentials E arg d = (Inr k, d1)"
  shows "k_ID k \<notin> k_ID ` set (db_credentials d)" and "k_UserID k \<in> user_ids d"
    and "d1 = d\<lparr>db_credentials := db_credentials d @ [k]\<rparr>"
  using assms[unfolded createWebauthnCredentials_def, THEN query_Inr]
  by (auto simp: Let_def user_exists_def user_ids_def split: if_splits)

lemma createWebauthnCredentials_wf:
  assumes "accounts_wf d" and "createWebauthnCredentials E arg d = (Inr r, d1)"
  shows "accounts_wf d1"
  using assms(1) createWebauthnCredentials_Inr[OF assms(2)] by (simp add: accounts_wf_def user_ids_def)

lemma deleteUserSessions_wf:
  assumes "accounts_wf d" and "deleteUserSessions E i d = (Inr r, d1)"
  shows "accounts_wf d1"
  using assms(2)[unfolded deleteUserSessions_def, THEN query_Inr] assms(1)
  by (auto simp: accounts_wf_def user_ids_def distinct_map_filter)

lemma deleteUserCredentials_wf:
  assumes "accounts_wf d" and "deleteUserCredentials E i d = (Inr r, d1)"
  shows "accounts_wf d1"
  using assms(2)[unfolded deleteUserCredentials_def, THEN query_Inr] assms(1)
  by (auto simp: accounts_wf_def user_ids_def distinct_map_filter)

section \<open>Transactions over accounts\<close>

definition users_on :: "db \<Rightarrow> db \<Rightarrow> bool" where
  "users_on d d1 \<longleftrightarrow> sq_users (db_seqs d) \<le> sq_users (db_seqs d1)"

lemma users_on_statements:
  "users_on d (snd (createUser E arg d))"
  "users_on d (snd (createWebauthnCredentials E karg d))"
  "users_on d (snd (deleteUserSessions E i d))"
  "users_on d (snd (deleteUserCredentials E i d))"
  "users_on d (snd (softDeleteUser E i d))"
  by (simp_all add: users_on_def query_def createUser_def createWebauthnCredentials_def
      deleteUserSessions_def deleteUserCredentials_def softDeleteUser_def Let_def set_user_def
      split: option.split)

lemma users_on_result:
  "createUser E arg d = (r1, d1) \<Longrightarrow> users_on d d1"
  "createWebauthnCredentials E karg d = (r2, d1) \<Longrightarrow> users_on d d1"
  "deleteUserSessions E i d = (r3, d1) \<Longrightarrow> users_on d d1"
  "deleteUserCredentials E i d = (r4, d1) \<Longrightarrow> users_on d d1"
  "softDeleteUser E i d = (r5, d1) \<Longrightarrow> users_on d d1"
  using users_on_statements by (metis snd_conv)+

lemma users_on_trans: "users_on d d1 \<Longrightarrow> users_on d1 d2 \<Longrightarrow> users_on d d2"
  by (simp add: users_on_def)

lemma users_on_bodies:
  "users_on d (snd (create_user_body arg E d))"
  "users_on d (snd (soft_delete_body i E d))"
  by (auto simp: create_user_body_def soft_delete_body_def Let_def
      split: sum.split prod.split if_split dest!: users_on_result intro: users_on_trans)

lemma rolled_back_accounts: "accounts_wf d \<Longrightarrow> users_on d d1 \<Longrightarrow> accounts_wf (rolled_back d d1)"
  by (simp add: rolled_back_def users_on_def accounts_wf_seq)

lemma create_user_body_wf:
  assumes "accounts_wf d" and "create_user_body arg E d = (Inr u, d2)"
  shows "accounts_wf d2"
proof -
  obtain q d1 where q: "createUser E (cw_User arg) d = (q, d1)" by fastforce
  obtain v where v: "q = Inr v" using assms(2) q by (cases q) (simp_all add: create_user_body_def)
  show ?thesis
    using assms(2) q createUser_wf[OF assms(1) q[unfolded v]] createWebauthnCredentials_wf unfolding v
    by (fastforce simp: create_user_body_def Let_def split: sum.splits prod.splits)
qed

lemma soft_delete_body_Inr:
  assumes "soft_delete_body i E d = (Inr r, d3)"
  obtains d1 d2 row where "deleteUserSessions E i d = (Inr (), d1)"
    and "deleteUserCredentials E i d1 = (Inr (), d2)" and "softDeleteUser E i d2 = (Inr row, d3)"
    and "su_ID r = sd_ID row" and "su_IsDeleted r = sd_IsDeleted row"
  using assms by (auto simp: soft_delete_body_def split: sum.splits prod.splits if_splits)

lemma soft_delete_body_wf:
  assumes "accounts_wf d" and "soft_delete_body i E d = (Inr r, d3)"
  shows "accounts_wf d3"
  using assms(2)
  by (rule soft_delete_body_Inr)
    (use assms(1) deleteUserSessions_wf deleteUserCredentials_wf softDeleteUser_wf in blast)

interpretation create_user_tx: transaction accounts_wf "create_user_body arg" for arg
  by unfold_locales (auto intro: rolled_back_accounts users_on_bodies create_user_body_wf)

interpretation soft_delete_tx: transaction accounts_wf "soft_delete_body i" for i
  by unfold_locales (auto intro: rolled_back_accounts users_on_bodies soft_delete_body_wf)

section \<open>What an operation does not touch\<close>

definition same_accounts :: "db \<Rightarrow> db \<Rightarrow> bool" where
  "same_accounts d d1 \<longleftrightarrow> db_users d1 = db_users d \<and> db_sessions d1 = db_sessions d
     \<and> db_credentials d1 = db_credentials d \<and> sq_users (db_seqs d1) = sq_users (db_seqs d)"

definition same_comments :: "db \<Rightarrow> db \<Rightarrow> bool" where
  "same_comments d d1 \<longleftrightarrow> db_comments d1 = db_comments d \<and> db_votes d1 = db_votes d
     \<and> db_posts d1 = db_posts d \<and> sq_comments (db_seqs d1) = sq_comments (db_seqs d)
     \<and> user_ids d \<subseteq> user_ids d1"

lemma accounts_wf_frame: "accounts_wf d \<Longrightarrow> same_accounts d d1 \<Longrightarrow> accounts_wf d1"
  by (simp add: accounts_wf_def same_accounts_def user_ids_def)

lemma comment_ok_users: "comment_ok cfg us ps n c \<Longrightarrow> us \<subseteq> us' \<Longrightarrow> comment_ok cfg us' ps n c"
  by (auto simp: comment_ok_def)

lemma store_inv_frame:
  assumes "store_inv_from g cfg d" and "same_comments d d1"
  shows "store_inv_from g cfg d1"
proof -
  have sub: "user_ids d \<subseteq> user_ids d1" using assms(2) by (simp add: same_comments_def)
  show ?thesis
    using assms comment_ok_users[OF _ sub] sub
    by (simp add: store_inv_def store_wf_def comments_wf_def votes_wf_def same_comments_def subset_iff)
qed

lemma same_accounts_refl [simp]: "same_accounts d d"
  by (simp add: same_accounts_def)

lemma same_accounts_trans: "same_accounts d d1 \<Longrightarrow> same_accounts d1 d2 \<Longrightarrow> same_accounts d d2"
  by (simp add: same_accounts_def)

lemma same_comments_refl [simp]: "same_comments d d"
  by (simp add: same_comments_def)

lemma same_comments_trans: "same_comments d d1 \<Longrightarrow> same_comments d1 d2 \<Longrightarrow> same_comments d d2"
  by (auto simp: same_comments_def)

lemma same_accounts_statements:
  "same_accounts d (snd (createComment E arg d))"
  "same_accounts d (snd (getCommentWithLock E i d))"
  "same_accounts d (snd (getRootCommentCountForUser E p u d))"
  "same_accounts d (snd (softDeleteComment E i d))"
  "same_accounts d (snd (updateCommentPopularity E i x y d))"
  "same_accounts d (snd (deleteCommentIfLeaf E i u p d))"
  "same_accounts d (snd (updateComment E i u p b d))"
  "same_accounts d (snd (upsertCommentVote E u i v d))"
  by (simp_all add: same_accounts_def query_def createComment_def getCommentWithLock_def
      getRootCommentCountForUser_def softDeleteComment_def updateCommentPopularity_def
      deleteCommentIfLeaf_def updateComment_def upsertCommentVote_def Let_def set_comment_def
      remove_comment_def split: option.split)

lemma same_accounts_result:
  "createComment E arg d = (r1, d1) \<Longrightarrow> same_accounts d d1"
  "getCommentWithLock E i d = (r2, d1) \<Longrightarrow> same_accounts d d1"
  "getRootCommentCountForUser E p u d = (r3, d1) \<Longrightarrow> same_accounts d d1"
  "softDeleteComment E i d = (r4, d1) \<Longrightarrow> same_accounts d d1"
  "updateCommentPopularity E i x y d = (r5, d1) \<Longrightarrow> same_accounts d d1"
  "deleteCommentIfLeaf E i u p d = (r6, d1) \<Longrightarrow> same_accounts d d1"
  "upsertCommentVote E u i v d = (r7, d1) \<Longrightarrow> same_accounts d d1"
  using same_accounts_statements by (metis snd_conv)+

lemma same_accounts_bodies:
  "same_accounts d (snd (insert_body cfg arg E d))"
  "same_accounts d (snd (delete_body darg E d))"
  "same_accounts d (snd (vote_body varg E d))"
  by (auto simp: insert_body_def insert_depth_def delete_body_def vote_body_def Let_def
      split: sum.split prod.split if_split dest!: same_accounts_result intro: same_accounts_trans)

lemma user_ids_set_user: "user_ids (set_user d u) = user_ids d"
  by (simp add: user_ids_def set_user_replaced replaced_user_id_set)

lemma same_comments_statements:
  "same_comments d (snd (createUser E arg d))"
  "same_comments d (snd (createWebauthnCredentials E karg d))"
  "same_comments d (snd (deleteUserSessions E i d))"
  "same_comments d (snd (deleteUserCredentials E i d))"
  "same_comments d (snd (softDeleteUser E i d))"
  "same_comments d (snd (updateUser E i a b c d))"
  "same_comments d (snd (recordCredentialUse E k n d))"
  "same_comments d (snd (createSession E sarg d))"
  by (auto simp: same_comments_def query_def createUser_def createWebauthnCredentials_def
      deleteUserSessions_def deleteUserCredentials_def softDeleteUser_def updateUser_def
      recordCredentialUse_def createSession_def Let_def user_ids_set_user user_ids_def set_user_replaced
      replaced_user_id_set split: option.split)

lemma same_comments_result:
  "createUser E arg d = (r1, d1) \<Longrightarrow> same_comments d d1"
  "createWebauthnCredentials E karg d = (r2, d1) \<Longrightarrow> same_comments d d1"
  "deleteUserSessions E i d = (r3, d1) \<Longrightarrow> same_comments d d1"
  "deleteUserCredentials E i d = (r4, d1) \<Longrightarrow> same_comments d d1"
  "softDeleteUser E i d = (r5, d1) \<Longrightarrow> same_comments d d1"
  using same_comments_statements by (metis snd_conv)+

lemma same_comments_bodies:
  "same_comments d (snd (create_user_body arg E d))"
  "same_comments d (snd (soft_delete_body i E d))"
  by (auto simp: create_user_body_def soft_delete_body_def Let_def
      split: sum.split prod.split if_split dest!: same_comments_result intro: same_comments_trans)

text \<open>What a body does not touch, the transaction does not touch either.\<close>

lemma execTx_cases:
  "snd (execTx E body d) \<in> {d, rolled_back d (snd (body E d)), snd (body E d)}"
  by (auto simp: execTx_def split: option.split prod.split sum.split)

lemma same_accounts_tx: "same_accounts d (snd (body E d)) \<Longrightarrow> same_accounts d (snd (execTx E body d))"
  using execTx_cases[of E body d] by (auto simp: same_accounts_def rolled_back_def)

lemma same_comments_tx: "same_comments d (snd (body E d)) \<Longrightarrow> same_comments d (snd (execTx E body d))"
  using execTx_cases[of E body d] by (auto simp: same_comments_def rolled_back_def user_ids_def)

end
