(* ===== verification/Db_Props.thy ===== *)
theory Db_Props
  imports Db_Reach
begin

text \<open>
  What the operations on comments do, branch by branch: for each a verdict over the tables, the
  kind of the error it must return or none, and that the code follows it; and the consistency
  of every database the operations can reach.
\<close>

section \<open>A quiet environment\<close>

text \<open>No statement and no transaction fails for a reason outside the data.\<close>

definition quiet :: "env \<Rightarrow> bool" where
  "quiet E \<longleftrightarrow> env_query E = (\<lambda>name. None) \<and> env_begin E = None \<and> env_rollback E = None
     \<and> env_commit E = None"

lemma quiet_query: "quiet E \<Longrightarrow> query name E f d = f d"
  by (simp add: quiet_def query_def)

lemma quiet_tx:
  assumes "quiet E"
  shows "execTx E body d = (case body E d of (Inl err, d1) \<Rightarrow> (Inl err, rolled_back d d1)
    | (Inr x, d1) \<Rightarrow> (Inr x, d1))"
  using assms by (simp add: quiet_def execTx_def split: prod.split sum.split)

lemma execTx_Inl: "quiet E \<Longrightarrow> body E d = (Inl err, d1) \<Longrightarrow> execTx E body d = (Inl err, rolled_back d d1)"
  by (simp add: quiet_tx)

lemma execTx_Inr: "quiet E \<Longrightarrow> body E d = (Inr x, d1) \<Longrightarrow> execTx E body d = (Inr x, d1)"
  by (simp add: quiet_tx)

text \<open>\<open>fails op k d r\<close>: the operation \<open>op\<close> returned an error of kind \<open>k\<close> and changed no table.\<close>

definition fails :: "string \<Rightarrow> kind \<Rightarrow> db \<Rightarrow> 'a result \<Rightarrow> bool" where
  "fails op k d r = (case r of (Inl err, d1) \<Rightarrow> is_op_error op k err \<and> same_tables d d1 | _ \<Rightarrow> False)"

lemma fails_Inl [simp]: "fails op k d (Inl err, d1) \<longleftrightarrow> is_op_error op k err \<and> same_tables d d1"
  by (simp add: fails_def)

lemma fails_tx:
  "quiet E \<Longrightarrow> body E d = (Inl err, d1) \<Longrightarrow> is_op_error op k err \<Longrightarrow> fails op k d (execTx E body d)"
  by (simp add: execTx_Inl)

lemma sql_kind_pg [simp]:
  "sql_kind (fk_violation E con) = KindRelation"
  "sql_kind (unique_violation E con) = KindConflict"
  "sql_kind (out_of_range E) = KindInternal"
  by (simp_all add: sql_kind_def fk_violation_def unique_violation_def out_of_range_def pg_error_of_def)

lemma no_rows_pg [simp]:
  "\<not> errors_Is_NoRows (fk_violation E con)" "\<not> errors_Is_NoRows (unique_violation E con)"
  "\<not> errors_Is_NoRows (out_of_range E)" "fk_violation E con \<noteq> ErrNoRows"
  by (simp_all add: fk_violation_def unique_violation_def out_of_range_def pg_error_of_def)

section \<open>Deleting a comment\<close>

definition delete_verdict :: "db \<Rightarrow> DeleteCommentTxParams \<Rightarrow> kind option" where
  "delete_verdict d arg =
     (case comment_of d (dc_CommentID arg) of
        None \<Rightarrow> Some KindNotFound
      | Some c \<Rightarrow>
          if c_UserID c \<noteq> dc_UserID arg then Some KindPermission
          else if c_PostID c \<noteq> dc_PostID arg then Some KindRelation
          else None)"

definition soft_deleted :: "db \<Rightarrow> Comment \<Rightarrow> Comment" where
  "soft_deleted d c = c\<lparr>c_Body := ''[deleted]'', c_IsDeleted := True, c_DeletedAt := db_now d,
     c_LastModifiedAt := db_now d\<rparr>"

definition after_delete :: "db \<Rightarrow> Comment \<Rightarrow> db" where
  "after_delete d c =
     (if c_IsDeleted c then d
      else if has_children d (c_ID c) then set_comment d (soft_deleted d c)
      else remove_comment d (c_ID c))"

lemma deleted_errors [simp]:
  "is_op_error op k (delete_foreign_user arg) \<longleftrightarrow> op = opDeleteComment \<and> k = KindPermission"
  "is_op_error op k (delete_foreign_post arg) \<longleftrightarrow> op = opDeleteComment \<and> k = KindRelation"
  by (simp_all add: delete_foreign_user_def delete_foreign_post_def Let_def)

lemma delete_body_verdict:
  assumes "quiet E"
  shows "case delete_verdict d arg of
      Some k \<Rightarrow> (\<exists>err d1. delete_body arg E d = (Inl err, d1) \<and> is_op_error opDeleteComment k err)
    | None \<Rightarrow> (\<exists>c r. comment_of d (dc_CommentID arg) = Some c
        \<and> delete_body arg E d = (Inr r, after_delete d c)
        \<and> (dl_DeletedOk r \<or> dl_IsDeleted r) \<and> dl_ID r = dc_CommentID arg)"
proof (cases "comment_of d (dc_CommentID arg)")
  case None
  then show ?thesis
    using assms by (simp add: delete_verdict_def delete_body_def deleteCommentIfLeaf_def quiet_query)
next
  case (Some c)
  have i: "c_ID c = dc_CommentID arg" using comment_of_Some[OF Some] by simp
  show ?thesis
    using assms Some i
    by (simp add: delete_verdict_def delete_body_def deleteCommentIfLeaf_def softDeleteComment_def
        quiet_query Let_def after_delete_def soft_deleted_def)
qed

text \<open>
  C21: In a quiet environment \<open>DeleteCommentTx\<close> decides as its comment says: a comment that does
  not exist is \<open>NotFound\<close>, one of another user \<open>Permission\<close>, one of another post \<open>Relation\<close>, and
  nothing is changed then. Otherwise it succeeds: a comment already deleted is left alone, one
  with replies is emptied and marked, a leaf is removed with its votes. \<open>Corrupted\<close> is never
  returned.
\<close>

theorem delete_comment_outcome:
  assumes "quiet E"
  shows "case delete_verdict d arg of
      Some k \<Rightarrow> fails opDeleteComment k d (DeleteCommentTx E arg d)
    | None \<Rightarrow> (\<exists>c r. comment_of d (dc_CommentID arg) = Some c
        \<and> DeleteCommentTx E arg d = (Inr r, after_delete d c)
        \<and> dr_Success r \<and> dr_ID r = dc_CommentID arg)"
  using delete_body_verdict[OF assms, of d arg]
  by (auto simp: DeleteCommentTx_def execTx_Inl[OF assms] execTx_Inr[OF assms] split: option.splits)

section \<open>Updating a comment\<close>

definition update_verdict :: "db \<Rightarrow> UpdateCommentParams \<Rightarrow> kind option" where
  "update_verdict d arg =
     (case comment_of d (up_CommentID arg) of
        None \<Rightarrow> Some KindNotFound
      | Some c \<Rightarrow>
          if c_UserID c \<noteq> up_UserID arg then Some KindPermission
          else if c_IsDeleted c then Some KindDeleted
          else if c_PostID c \<noteq> up_PostID arg then Some KindRelation
          else None)"

lemma update_errors [simp]:
  "is_op_error op k (update_foreign_user arg) \<longleftrightarrow> op = opUpdateComment \<and> k = KindPermission"
  "is_op_error op k (update_deleted arg) \<longleftrightarrow> op = opUpdateComment \<and> k = KindDeleted"
  "is_op_error op k (update_foreign_post arg) \<longleftrightarrow> op = opUpdateComment \<and> k = KindRelation"
  by (simp_all add: update_foreign_user_def update_deleted_def update_foreign_post_def Let_def)

text \<open>
  C31: In a quiet environment \<open>UpdateComment\<close> names the reason of a refusal in the documented
  precedence, a missing comment, a foreign one, a deleted one, one of another post, and changes
  nothing then; otherwise it stores the new body and the time, and returns both.
\<close>

theorem update_comment_outcome:
  assumes "quiet E"
  shows "case update_verdict d arg of
      Some k \<Rightarrow> fails opUpdateComment k d (UpdateComment E arg d)
    | None \<Rightarrow> (\<exists>c. comment_of d (up_CommentID arg) = Some c
        \<and> UpdateComment E arg d =
            (Inr \<lparr>ur_ID = up_CommentID arg, ur_Body = up_Body arg, ur_LastModifiedAt = db_now d\<rparr>,
             set_comment d (c\<lparr>c_Body := up_Body arg, c_LastModifiedAt := db_now d\<rparr>)))"
proof (cases "comment_of d (up_CommentID arg)")
  case None
  then show ?thesis
    using assms by (simp add: update_verdict_def UpdateComment_def updateComment_def quiet_query)
next
  case (Some c)
  have "c_ID c = up_CommentID arg" using comment_of_Some[OF Some] by simp
  then show ?thesis
    using assms Some
    by (simp add: update_verdict_def UpdateComment_def updateComment_def quiet_query Let_def)
qed

section \<open>Voting\<close>

text \<open>The votes as a map from user and comment, which is what the table stands for.\<close>

definition votes_of :: "db \<Rightarrow> int \<times> int \<rightharpoonup> int" where
  "votes_of d = (\<lambda>(u, i). map_option cv_Vote (vote_of d u i))"

definition vote_fits :: "db \<Rightarrow> VoteCommentTxParams \<Rightarrow> Comment \<Rightarrow> bool" where
  "vote_fits d arg c =
     (let old = old_vote d (vc_UserID arg) (vc_CommentID arg);
          up = c_Upvotes c + vote_delta 1 (vc_Vote arg) old;
          down = c_Downvotes c + vote_delta (-1) (vc_Vote arg) old
      in in_bigint up \<and> in_bigint down \<and> in_bigint (up - down))"

definition vote_verdict :: "db \<Rightarrow> VoteCommentTxParams \<Rightarrow> kind option" where
  "vote_verdict d arg =
     (let u = vc_UserID arg; i = vc_CommentID arg in
      if vc_Vote arg \<noteq> -1 \<and> vc_Vote arg \<noteq> 1 then Some KindInvalid
      else if vote_of d u i = None \<and> (\<not> user_exists d u \<or> comment_of d i = None) then Some KindRelation
      else if old_vote d u i = vc_Vote arg then Some KindConflict
      else case comment_of d i of
             None \<Rightarrow> Some KindDeleted
           | Some c \<Rightarrow> if c_IsDeleted c then Some KindDeleted
                       else if vote_fits d arg c then None else Some KindInternal)"

lemma vote_errors [simp]:
  "is_op_error op k (vote_invalid arg) \<longleftrightarrow> op = opVoteComment \<and> k = KindInvalid"
  "is_op_error op k (vote_repeated arg row) \<longleftrightarrow> op = opVoteComment \<and> k = KindConflict"
  "is_op_error op k (vote_on_deleted arg) \<longleftrightarrow> op = opVoteComment \<and> k = KindDeleted"
  by (simp_all add: vote_invalid_def vote_repeated_def vote_on_deleted_def Let_def)

lemma quiet_upsert:
  assumes "quiet E" and "vote_of d u i \<noteq> None \<or> (user_exists d u \<and> comment_of d i \<noteq> None)"
  shows "\<exists>row d1. upsertCommentVote E u i new d = (Inr row, d1) \<and> uv_OriginalVote row = old_vote d u i
    \<and> db_comments d1 = db_comments d"
  using assms by (cases "vote_of d u i")
    (auto simp: upsertCommentVote_def quiet_query Let_def old_vote_def vote_row_def)

lemma quiet_upsert_refused:
  assumes "quiet E" and "vote_of d u i = None" and "\<not> user_exists d u \<or> comment_of d i = None"
  shows "\<exists>con d1. upsertCommentVote E u i new d = (Inl (fk_violation E con), d1)"
  using assms by (auto simp: upsertCommentVote_def quiet_query Let_def)

lemma vote_refused:
  assumes q: "quiet E" and k: "vote_verdict d arg = Some k"
  shows "\<exists>err d1. vote_body arg E d = (Inl err, d1) \<and> is_op_error opVoteComment k err"
proof (cases "vc_Vote arg \<noteq> -1 \<and> vc_Vote arg \<noteq> 1")
  case True
  then show ?thesis using k by (simp add: vote_verdict_def vote_body_def)
next
  case valid: False
  let ?u = "vc_UserID arg" and ?i = "vc_CommentID arg"
  show ?thesis
  proof (cases "vote_of d ?u ?i = None \<and> (\<not> user_exists d ?u \<or> comment_of d ?i = None)")
    case True
    then obtain con d1 where "upsertCommentVote E ?u ?i (vc_Vote arg) d = (Inl (fk_violation E con), d1)"
      using quiet_upsert_refused[OF q] by blast
    moreover have "k = KindRelation" using k valid True by (auto simp: vote_verdict_def Let_def)
    ultimately show ?thesis by (simp add: vote_body_def valid)
  next
    case False
    then obtain row d1 where up: "upsertCommentVote E ?u ?i (vc_Vote arg) d = (Inr row, d1)"
        "uv_OriginalVote row = old_vote d ?u ?i" "db_comments d1 = db_comments d"
      using quiet_upsert[OF q, of d ?u ?i] by blast
    have "comment_of d1 = comment_of d" using up(3) by (simp add: comment_of_def fun_eq_iff)
    moreover have "(if old_vote d ?u ?i = vc_Vote arg then Some KindConflict
        else case comment_of d ?i of None \<Rightarrow> Some KindDeleted
             | Some c \<Rightarrow> if c_IsDeleted c then Some KindDeleted
                         else if vote_fits d arg c then None else Some KindInternal) = Some k"
      using k valid False unfolding vote_verdict_def Let_def by (simp only: if_False)
    ultimately show ?thesis
      by (cases "comment_of d ?i") (simp_all add: vote_body_def valid up updateCommentPopularity_def
          quiet_query[OF q] Let_def vote_fits_def with_popularity_def split: if_splits)
  qed
qed

lemma vote_accepted:
  assumes q: "quiet E" and k: "vote_verdict d arg = None"
  shows "\<exists>c' d1. vote_body arg E d = (Inr c', d1)"
proof -
  let ?u = "vc_UserID arg" and ?i = "vc_CommentID arg"
  have valid: "\<not> (vc_Vote arg \<noteq> -1 \<and> vc_Vote arg \<noteq> 1)"
    and known: "vote_of d ?u ?i \<noteq> None \<or> (user_exists d ?u \<and> comment_of d ?i \<noteq> None)"
    and new: "old_vote d ?u ?i \<noteq> vc_Vote arg"
    using k by (auto simp: vote_verdict_def Let_def split: if_splits)
  obtain c where c: "comment_of d ?i = Some c" "\<not> c_IsDeleted c" "vote_fits d arg c"
    using k by (auto simp: vote_verdict_def Let_def split: if_splits option.splits)
  obtain row d1 where up: "upsertCommentVote E ?u ?i (vc_Vote arg) d = (Inr row, d1)"
      "uv_OriginalVote row = old_vote d ?u ?i" "db_comments d1 = db_comments d"
    using quiet_upsert[OF q known] by blast
  have "comment_of d1 ?i = Some c" using up(3) c(1) by (simp add: comment_of_def)
  then show ?thesis
    using c by (simp add: vote_body_def valid new up updateCommentPopularity_def quiet_query[OF q]
        Let_def vote_fits_def with_popularity_def)
qed

lemma find_revoted:
  "find (\<lambda>w. vote_key w = k) (revoted vs v)
    = (if k = vote_key v \<and> vote_key v \<in> vote_key ` set vs then Some v else find (\<lambda>w. vote_key w = k) vs)"
  by (induction vs) (auto simp: revoted_def)

lemma find_snoc: "find P (xs @ [x]) = (case find P xs of Some y \<Rightarrow> Some y | None \<Rightarrow> if P x then Some x else None)"
  by (induction xs) auto

lemma votes_of_voted:
  assumes "db_votes d1 = voted (db_votes d) v"
  shows "votes_of d1 = (votes_of d)(vote_key v \<mapsto> cv_Vote v)"
proof -
  have "vote_of e u i = find (\<lambda>w. vote_key w = (u, i)) (db_votes e)" for e u i
    by (simp add: vote_of_def vote_key_def)
  moreover have "vote_key v \<notin> vote_key ` set (db_votes d) \<Longrightarrow>
      find (\<lambda>w. vote_key w = vote_key v) (db_votes d) = None"
    by (subst find_none) (metis image_eqI)
  ultimately show ?thesis
    using assms by (auto simp: votes_of_def fun_eq_iff voted_def find_revoted find_snoc split: option.split)
qed

text \<open>
  C18: \<open>VoteCommentTx\<close> against a map of votes. In a quiet environment and a consistent database
  it fails exactly with the documented kind, changing no table: a value that is not 1 or -1, a
  missing user or comment, the same vote again, a deleted comment (a counter past the range of
  the column is internal). Otherwise the map gains the vote under the user and the comment, the
  two counters of that comment move by what the new vote adds and the old one took, every
  other comment stays, and the invariant with its counters still holds.
\<close>

theorem vote_comment_outcome:
  assumes "quiet E" and "store_inv_from g cfg d"
  shows "case vote_verdict d arg of
      Some k \<Rightarrow> fails opVoteComment k d (VoteCommentTx E arg d)
    | None \<Rightarrow> (\<exists>c c' d1. comment_of d (vc_CommentID arg) = Some c
        \<and> VoteCommentTx E arg d = (Inr c', d1)
        \<and> votes_of d1 = (votes_of d)((vc_UserID arg, vc_CommentID arg) \<mapsto> vc_Vote arg)
        \<and> db_comments d1 = replaced (db_comments d) c' \<and> same_place c c'
        \<and> c_Upvotes c' = c_Upvotes c
            + vote_delta 1 (vc_Vote arg) (old_vote d (vc_UserID arg) (vc_CommentID arg))
        \<and> c_Downvotes c' = c_Downvotes c
            + vote_delta (-1) (vc_Vote arg) (old_vote d (vc_UserID arg) (vc_CommentID arg))
        \<and> store_inv_from g cfg d1)"
proof (cases "vote_verdict d arg")
  case (Some k)
  then show ?thesis
    using vote_refused[OF assms(1) Some] by (auto simp: VoteCommentTx_def execTx_Inl[OF assms(1)])
next
  case None
  then obtain c' d1 where run: "vote_body arg E d = (Inr c', d1)"
    using vote_accepted[OF assms(1)] by blast
  note tx = execTx_Inr[where body = "vote_body arg", OF assms(1) run]
  show ?thesis
  proof (rule vote_body_Inr[OF run])
    fix v c
    assume "cv_Vote v = vc_Vote arg" "vote_key v = (vc_UserID arg, vc_CommentID arg)"
      "db_votes d1 = voted (db_votes d) v"
    then have "votes_of d1 = (votes_of d)((vc_UserID arg, vc_CommentID arg) \<mapsto> vc_Vote arg)"
      using votes_of_voted by metis
    moreover assume "comment_of d (vc_CommentID arg) = Some c" "same_place c c'"
      "c_Upvotes c' = c_Upvotes c
         + vote_delta 1 (vc_Vote arg) (old_vote d (vc_UserID arg) (vc_CommentID arg))"
      "c_Downvotes c' = c_Downvotes c
         + vote_delta (-1) (vc_Vote arg) (old_vote d (vc_UserID arg) (vc_CommentID arg))"
      "db_comments d1 = replaced (db_comments d) c'"
    ultimately show ?thesis
      using None tx vote_tx.keeps_result[OF assms(2) tx] by (simp add: VoteCommentTx_def)
  qed
qed

section \<open>Adding a comment\<close>

definition has_live_reply :: "db \<Rightarrow> int \<Rightarrow> pg_int8 \<Rightarrow> bool" where
  "has_live_reply d u p \<longleftrightarrow> i8_Valid p
     \<and> (\<exists>x\<in>set (db_comments d). c_UserID x = u \<and> c_ParentID x = p \<and> \<not> c_IsDeleted x)"

definition row_verdict :: "db \<Rightarrow> InsertCommentTxParams \<Rightarrow> kind option" where
  "row_verdict d arg =
     (if \<not> in_bigint (ic_Upvotes arg - ic_Downvotes arg) then Some KindInternal
      else if has_live_reply d (ic_UserID arg) (ic_ParentID arg) then Some KindConflict
      else if \<not> user_exists d (ic_UserID arg) \<or> ic_PostID arg \<notin> set (db_posts d) then Some KindRelation
      else None)"

definition insert_verdict ::
  "store_config \<Rightarrow> db \<Rightarrow> InsertCommentTxParams \<Rightarrow> kind option" where
  "insert_verdict cfg d arg =
     (if i8_Valid (ic_ParentID arg) then
        (case comment_of d (i8_Int64 (ic_ParentID arg)) of
           None \<Rightarrow> Some KindNotFound
         | Some p \<Rightarrow>
             if c_PostID p \<noteq> ic_PostID arg then Some KindRelation
             else if c_IsDeleted p then Some KindDeleted
             else if c_Depth p + 1 \<ge> CommentMaxNestingDepth cfg then Some KindConstraint
             else if c_UserID p = ic_UserID arg then Some KindConstraint
             else row_verdict d arg)
      else if len [c \<leftarrow> db_comments d. c_PostID c = ic_PostID arg \<and> c_UserID c = ic_UserID arg
                 \<and> \<not> i8_Valid (c_ParentID c)] \<ge> CommentMaxRootCountPerUser cfg
        then Some KindConstraint
      else row_verdict d arg)"

definition depth_for :: "db \<Rightarrow> pg_int8 \<Rightarrow> int" where
  "depth_for d p = (if i8_Valid p then case comment_of d (i8_Int64 p) of
      Some c \<Rightarrow> c_Depth c + 1 | None \<Rightarrow> 0 else 0)"

lemma insert_errors [simp]:
  "is_op_error op k (missing_parent arg) \<longleftrightarrow> op = opInsertComment \<and> k = KindNotFound"
  "is_op_error op k (parent_of_other_post arg p) \<longleftrightarrow> op = opInsertComment \<and> k = KindRelation"
  "is_op_error op k (parent_deleted p) \<longleftrightarrow> op = opInsertComment \<and> k = KindDeleted"
  "is_op_error op k (parent_too_deep p) \<longleftrightarrow> op = opInsertComment \<and> k = KindConstraint"
  "is_op_error op k (own_parent arg p) \<longleftrightarrow> op = opInsertComment \<and> k = KindConstraint"
  "is_op_error op k (too_many_roots arg) \<longleftrightarrow> op = opInsertComment \<and> k = KindConstraint"
  by (simp_all add: missing_parent_def parent_of_other_post_def parent_deleted_def parent_too_deep_def
      own_parent_def too_many_roots_def insert_error_def Let_def)

lemma parent_depth:
  assumes "store_inv_from g cfg d" and "comment_of d i = Some p"
  shows "wrap32 (c_Depth p + 1) = c_Depth p + 1"
proof -
  have "comment_ok cfg (user_ids d) (set (db_posts d)) (sq_comments (db_seqs d)) p"
    using assms(1) comment_of_Some[OF assms(2)] by (simp add: store_inv_def store_wf_def comments_wf_def)
  then show ?thesis
    using assms(1) by (intro wrap32_id) (auto simp: comment_ok_def store_inv_def config_ok_def)
qed

text \<open>The depth checks, and the insertion after them.\<close>

lemma insert_depth_verdict:
  assumes "quiet E" and "store_inv_from g cfg d"
  shows "(\<exists>k err. insert_verdict cfg d arg = Some k \<and> insert_depth cfg arg E d = (Inl err, d)
        \<and> is_op_error opInsertComment k err)
    \<or> insert_verdict cfg d arg = row_verdict d arg
        \<and> insert_depth cfg arg E d = (Inr (depth_for d (ic_ParentID arg)), d)
        \<and> (i8_Valid (ic_ParentID arg) \<longrightarrow> comment_of d (i8_Int64 (ic_ParentID arg)) \<noteq> None)"
proof (cases "i8_Valid (ic_ParentID arg)")
  case True
  then show ?thesis
    using assms(1) parent_depth[OF assms(2)]
    by (cases "comment_of d (i8_Int64 (ic_ParentID arg))")
      (simp_all add: insert_verdict_def insert_depth_def getCommentWithLock_def quiet_query one_row_def
        reply_depth_def depth_for_def)
next
  case False
  then show ?thesis
    using assms(1) by (simp add: insert_verdict_def insert_depth_def getRootCommentCountForUser_def
        quiet_query depth_for_def)
qed

lemma createComment_verdict:
  assumes "quiet E" and arg: "cc = \<lparr>cc_UserID = ic_UserID arg, cc_PostID = ic_PostID arg,
      cc_Body = ic_Body arg, cc_ParentID = ic_ParentID arg, cc_Depth = n,
      cc_Upvotes = ic_Upvotes arg, cc_Downvotes = ic_Downvotes arg\<rparr>"
    and "i8_Valid (ic_ParentID arg) \<longrightarrow> comment_of d (i8_Int64 (ic_ParentID arg)) \<noteq> None"
  shows "case row_verdict d arg of
      Some k \<Rightarrow> \<exists>err d1. createComment E cc d = (Inl err, d1) \<and> sql_kind err = k
    | None \<Rightarrow> \<exists>c d1. createComment E cc d = (Inr c, d1) \<and> db_comments d1 = db_comments d @ [c]
        \<and> c_ID c = sq_comments (db_seqs d) \<and> c_UserID c = ic_UserID arg \<and> c_PostID c = ic_PostID arg
        \<and> c_ParentID c = stored_int8 (ic_ParentID arg) \<and> c_Depth c = n \<and> c_Body c = ic_Body arg
        \<and> c_Upvotes c = ic_Upvotes arg \<and> c_Downvotes c = ic_Downvotes arg \<and> \<not> c_IsDeleted c"
  using assms by (auto simp: row_verdict_def createComment_def quiet_query Let_def has_live_reply_def
      stored_int8_def with_popularity_def null_int8_def)

lemma insert_comment_outcome_eq:
  assumes "quiet E" and "store_inv_from g cfg d"
  shows "case insert_verdict cfg d arg of
      Some k \<Rightarrow> fails opInsertComment k d (InsertCommentTx cfg E arg d)
    | None \<Rightarrow> \<exists>c d1. InsertCommentTx cfg E arg d = (Inr c, d1)
        \<and> db_comments d1 = db_comments d @ [c] \<and> c_ID c = sq_comments (db_seqs d)
        \<and> c_UserID c = ic_UserID arg \<and> c_PostID c = ic_PostID arg
        \<and> c_ParentID c = stored_int8 (ic_ParentID arg) \<and> c_Depth c = depth_for d (ic_ParentID arg)
        \<and> c_Body c = ic_Body arg \<and> c_Upvotes c = ic_Upvotes arg \<and> c_Downvotes c = ic_Downvotes arg
        \<and> \<not> c_IsDeleted c"
  using insert_depth_verdict[OF assms, of arg]
proof (elim disjE exE conjE)
  fix k err
  assume k: "insert_verdict cfg d arg = Some k" "insert_depth cfg arg E d = (Inl err, d)"
    "is_op_error opInsertComment k err"
  then have "insert_body cfg arg E d = (Inl err, d)" by (simp add: insert_body_def)
  with k show ?thesis by (simp add: InsertCommentTx_def fails_tx[OF assms(1)])
next
  assume ok: "insert_verdict cfg d arg = row_verdict d arg"
    "insert_depth cfg arg E d = (Inr (depth_for d (ic_ParentID arg)), d)"
    and par: "i8_Valid (ic_ParentID arg) \<longrightarrow> comment_of d (i8_Int64 (ic_ParentID arg)) \<noteq> None"
  note row = createComment_verdict[OF assms(1) refl par, of "depth_for d (ic_ParentID arg)"]
  show ?thesis
  proof (cases "row_verdict d arg")
    case None
    with row ok show ?thesis
      by (auto simp: InsertCommentTx_def insert_body_def quiet_tx[OF assms(1)])
  next
    case (Some k)
    with row ok show ?thesis
      by (auto simp: InsertCommentTx_def insert_body_def quiet_tx[OF assms(1)])
  qed
qed

text \<open>
  The refusals the interface documents (\<open>store.go\<close>, \<open>tx_insert_comment.go\<close>), in the order of the
  checks. The table refuses two more insertions, which the documents do not list: a second live
  reply of the user to the same comment, and a comment of a user who does not exist.
\<close>

definition insert_documented ::
  "store_config \<Rightarrow> db \<Rightarrow> InsertCommentTxParams \<Rightarrow> kind option" where
  "insert_documented cfg d arg =
     (let parent = comment_of d (i8_Int64 (ic_ParentID arg)); reply = i8_Valid (ic_ParentID arg);
          roots = len [c \<leftarrow> db_comments d. c_PostID c = ic_PostID arg \<and> c_UserID c = ic_UserID arg
            \<and> \<not> i8_Valid (c_ParentID c)]
      in if reply \<and> parent = None then Some KindNotFound
      else if reply \<and> c_PostID (the parent) \<noteq> ic_PostID arg then Some KindRelation
      else if reply \<and> c_IsDeleted (the parent) then Some KindDeleted
      else if reply \<and> c_Depth (the parent) + 1 \<ge> CommentMaxNestingDepth cfg then Some KindConstraint
      else if reply \<and> c_UserID (the parent) = ic_UserID arg then Some KindConstraint
      else if \<not> reply \<and> roots \<ge> CommentMaxRootCountPerUser cfg then Some KindConstraint
      else if \<not> in_bigint (ic_Upvotes arg - ic_Downvotes arg) then Some KindInternal
      else if ic_PostID arg \<notin> set (db_posts d) then Some KindRelation
      else None)"

lemma insert_verdict_documented:
  assumes "store_inv_from g cfg d"
  shows "insert_verdict cfg d arg = (case insert_documented cfg d arg of
      Some k \<Rightarrow> Some k
    | None \<Rightarrow> if has_live_reply d (ic_UserID arg) (ic_ParentID arg) then Some KindConflict
        else if \<not> user_exists d (ic_UserID arg) then Some KindRelation else None)"
proof -
  have post: "c_PostID p \<in> set (db_posts d)" if "comment_of d i = Some p" for i p
    using assms comment_of_Some[OF that]
    by (simp add: store_inv_def store_wf_def comments_wf_def comment_ok_def)
  show ?thesis
    by (auto simp: insert_verdict_def insert_documented_def row_verdict_def has_live_reply_def Let_def
        split: option.split dest: post)
qed

text \<open>
  C17: In a quiet environment and a consistent database \<open>InsertCommentTx\<close> fails with the
  documented kind, changing no table, for each documented reason: a missing parent, a parent of
  another post, a deleted parent, a parent at the last level, one's own parent, too many roots,
  counters whose difference leaves the range of its column, a missing post. Two refusals of the table
  are not documented: a second live reply of the user to the same comment is a conflict, and a
  missing user a relation. Otherwise one row is appended, with a fresh identifier, the depth
  after the parent's, the given text and the given counters.
\<close>

theorem insert_comment_outcome:
  assumes "quiet E" and "store_inv_from g cfg d"
  shows "case insert_documented cfg d arg of
      Some k \<Rightarrow> fails opInsertComment k d (InsertCommentTx cfg E arg d)
    | None \<Rightarrow>
        if has_live_reply d (ic_UserID arg) (ic_ParentID arg)
        then fails opInsertComment KindConflict d (InsertCommentTx cfg E arg d)
        else if \<not> user_exists d (ic_UserID arg)
        then fails opInsertComment KindRelation d (InsertCommentTx cfg E arg d)
        else \<exists>c d1. InsertCommentTx cfg E arg d = (Inr c, d1)
        \<and> db_comments d1 = db_comments d @ [c] \<and> c_ID c = sq_comments (db_seqs d)
        \<and> c_UserID c = ic_UserID arg \<and> c_PostID c = ic_PostID arg
        \<and> c_ParentID c = stored_int8 (ic_ParentID arg) \<and> c_Depth c = depth_for d (ic_ParentID arg)
        \<and> c_Body c = ic_Body arg \<and> c_Upvotes c = ic_Upvotes arg \<and> c_Downvotes c = ic_Downvotes arg
        \<and> \<not> c_IsDeleted c"
  using insert_comment_outcome_eq[OF assms, of arg]
  by (simp add: insert_verdict_documented[OF assms(2)] split: option.splits if_splits)

end
