(* ===== verification/Db_Steps.thy ===== *)
theory Db_Steps
  imports Db_Props
begin

text \<open>
  The operations of the interface \<open>Store\<close> as the steps of a machine over the database, what
  every reachable database satisfies, and what a failed transaction leaves behind.
\<close>

section \<open>Steps\<close>

text \<open>
  One step is one operation, in any environment, with any arguments and any result. The counters
  an insertion passes, any \<open>Upvotes\<close> and \<open>Downvotes\<close> of its parameters, label the step; the label
  of another operation means nothing. The reading operations are not steps, as they change
  nothing.
\<close>

inductive store_step :: "store_config \<Rightarrow> int \<times> int \<Rightarrow> db \<Rightarrow> db \<Rightarrow> bool" for cfg where
  Insert: "store_step cfg (ic_Upvotes arg, ic_Downvotes arg) d (snd (InsertCommentTx cfg E arg d))"
| Delete: "store_step cfg k d (snd (DeleteCommentTx E darg d))"
| Vote: "store_step cfg k d (snd (VoteCommentTx E varg d))"
| Update: "store_step cfg k d (snd (UpdateComment E uarg d))"
| Create_User: "store_step cfg k d (snd (CreateUserWithCredentialsTx E carg d))"
| Update_User: "store_step cfg k d (snd (UpdateUser E parg d))"
| Delete_User: "store_step cfg k d (snd (SoftDeleteUserTx E i d))"
| Use_Credential: "store_step cfg k d (snd (RecordCredentialUse E rarg d))"
| Create_Session: "store_step cfg k d (snd (CreateSession uuid_text E sarg d))"
| Tick: "store_step cfg k d (d\<lparr>db_now := t\<rparr>)"

inductive_cases store_stepE: "store_step cfg k d d1"

text \<open>A step of the handlers, which insert with the counters at 0, and a step of any caller.\<close>

abbreviation handler_step :: "store_config \<Rightarrow> db \<Rightarrow> db \<Rightarrow> bool" where
  "handler_step cfg \<equiv> store_step cfg (0, 0)"

definition any_step :: "store_config \<Rightarrow> db \<Rightarrow> db \<Rightarrow> bool" where
  "any_step cfg d d1 \<longleftrightarrow> (\<exists>k. store_step cfg k d d1)"

lemma handler_insert: "handler_step cfg d (snd (InsertCommentTx cfg E (comment_params u p text pid) d))"
  using store_step.Insert[of cfg "comment_params u p text pid" d E] by (simp add: comment_params_def)

lemma handler_any_steps: "(handler_step cfg)\<^sup>*\<^sup>* d d1 \<Longrightarrow> (any_step cfg)\<^sup>*\<^sup>* d d1"
  by (induction rule: rtranclp_induct) (auto simp only: any_step_def intro: rtranclp.rtrancl_into_rtrancl)

section \<open>Operations that are one statement\<close>

lemma single_statements:
  "snd (UpdateComment E uarg d)
     = snd (updateComment E (up_CommentID uarg) (up_UserID uarg) (up_PostID uarg) (up_Body uarg) d)"
  "snd (RecordCredentialUse E rarg d) = snd (recordCredentialUse E (rc_ID rarg) (rc_SignCount rarg) d)"
  "snd (CreateSession uuid_text E sarg d) = snd (createSession E sarg d)"
  by (simp_all add: UpdateComment_def RecordCredentialUse_def CreateSession_def
      split: prod.split sum.split)

lemma UpdateUser_statement:
  "snd (UpdateUser E parg d) \<in> {d, snd (updateUser E (pu_ID parg) (StringToPgxText (pu_Username parg))
     (StringToPgxText (pu_Email parg)) (StringToPgxText (pu_ProfileImgURL parg)) d)}"
  by (simp add: UpdateUser_def split: prod.split sum.split)

lemma failed_statements:
  "updateComment E i u p b d = (Inl err, d1) \<Longrightarrow> d1 = d"
  "updateUser E i na em im d = (Inl err, d1) \<Longrightarrow> d1 = d"
  "createSession E sarg d = (Inl err, d1) \<Longrightarrow> d1 = d"
  "recordCredentialUse E k n d = (Inl err, d1) \<Longrightarrow> d1 = d"
  by (auto simp: query_def updateComment_def updateUser_def createSession_def recordCredentialUse_def
      Let_def split: option.splits if_splits)

lemma DeleteCommentTx_tx: "snd (DeleteCommentTx E arg d) = snd (execTx E (delete_body arg) d)"
  by (simp add: DeleteCommentTx_def split: prod.split sum.split)

lemma updateComment_store: "store_inv_from g cfg d \<Longrightarrow> store_inv_from g cfg (snd (updateComment E i u p b d))"
proof -
  assume inv: "store_inv_from g cfg d"
  obtain r d1 where r: "updateComment E i u p b d = (r, d1)" by fastforce
  show ?thesis
    using failed_statements(1) updateComment_inv[OF inv] inv r by (cases r) fastforce+
qed

lemma updateUser_accounts: "accounts_wf d \<Longrightarrow> accounts_wf (snd (updateUser E i a b c d))"
proof -
  assume wf: "accounts_wf d"
  obtain r d1 where r: "updateUser E i a b c d = (r, d1)" by fastforce
  show ?thesis using failed_statements(2) updateUser_wf[OF wf] wf r by (cases r) fastforce+
qed

lemma createSession_accounts: "accounts_wf d \<Longrightarrow> accounts_wf (snd (createSession E arg d))"
proof -
  assume wf: "accounts_wf d"
  obtain r d1 where r: "createSession E arg d = (r, d1)" by fastforce
  show ?thesis using failed_statements(3) createSession_wf[OF wf] wf r by (cases r) fastforce+
qed

lemma map_credentials:
  assumes "\<And>k. k_ID (f k) = k_ID k" and "\<And>k. k_UserID (f k) = k_UserID k"
  shows "accounts_wf d \<Longrightarrow> accounts_wf (d\<lparr>db_credentials := map f (db_credentials d)\<rparr>)"
  using assms by (simp add: accounts_wf_def user_ids_def o_def)

lemma recordCredentialUse_accounts: "accounts_wf d \<Longrightarrow> accounts_wf (snd (recordCredentialUse E k n d))"
  by (auto simp: recordCredentialUse_def query_def Let_def intro!: map_credentials split: option.split)

lemma same_accounts_txs:
  "same_accounts d (snd (execTx E (insert_body cfg arg) d))"
  "same_accounts d (snd (execTx E (delete_body darg) d))"
  "same_accounts d (snd (execTx E (vote_body varg) d))"
  by (rule same_accounts_tx, rule same_accounts_bodies)+

lemma same_comments_txs:
  "same_comments d (snd (execTx E (create_user_body arg) d))"
  "same_comments d (snd (execTx E (soft_delete_body i) d))"
  by (rule same_comments_tx, rule same_comments_bodies)+

section \<open>The invariant is kept\<close>

lemma store_step_wf:
  assumes "store_step cfg k d d1" and wf: "db_wf_from g cfg d"
  shows "db_wf_from (drawn d k g) cfg d1"
proof -
  have inv: "store_inv_from (drawn d k g) cfg d" and acc: "accounts_wf d"
    using wf store_inv_drawn by (simp_all add: db_wf_def)
  show ?thesis
    using assms(1)
  proof cases
    case (Insert arg E)
    then show ?thesis
      using insert_keeps[of g cfg d arg E] wf accounts_wf_frame[OF acc same_accounts_txs(1)]
      by (simp add: db_wf_def InsertCommentTx_def)
  next
    case (Delete E darg)
    then show ?thesis
      using delete_tx.keeps[OF inv] accounts_wf_frame[OF acc same_accounts_txs(2)]
      by (simp add: db_wf_def DeleteCommentTx_tx)
  next
    case (Vote E varg)
    then show ?thesis
      using vote_tx.keeps[OF inv] accounts_wf_frame[OF acc same_accounts_txs(3)]
      by (simp add: db_wf_def VoteCommentTx_def)
  next
    case (Update E uarg)
    then show ?thesis
      using updateComment_store[OF inv] accounts_wf_frame[OF acc same_accounts_statements(7)]
      by (simp add: db_wf_def single_statements)
  next
    case (Create_User E carg)
    then show ?thesis
      using create_user_tx.keeps[OF acc] store_inv_frame[OF inv same_comments_txs(1)]
      by (simp add: db_wf_def CreateUserWithCredentialsTx_def)
  next
    case (Update_User E parg)
    then show ?thesis
      using UpdateUser_statement[of E parg d] inv acc updateUser_accounts[OF acc]
        store_inv_frame[OF inv same_comments_statements(6)]
      by (auto simp: db_wf_def)
  next
    case (Delete_User E i)
    then show ?thesis
      using soft_delete_tx.keeps[OF acc] store_inv_frame[OF inv same_comments_txs(2)]
      by (simp add: db_wf_def SoftDeleteUserTx_def)
  next
    case (Use_Credential E rarg)
    then show ?thesis
      using recordCredentialUse_accounts[OF acc] store_inv_frame[OF inv same_comments_statements(7)]
      by (simp add: db_wf_def single_statements)
  next
    case (Create_Session uuid_text E sarg)
    then show ?thesis
      using createSession_accounts[OF acc] store_inv_frame[OF inv same_comments_statements(8)]
      by (simp add: db_wf_def single_statements)
  next
    case (Tick t)
    then show ?thesis
      using inv acc by (simp add: db_wf_def store_inv_def store_wf_def accounts_wf_def user_ids_def)
  qed
qed

lemma handler_step_wf: "handler_step cfg d d1 \<Longrightarrow> db_wf cfg d \<Longrightarrow> db_wf cfg d1"
  using store_step_wf[of cfg "(0, 0)" d d1 nothing] by simp

lemma reachable_wf: "(handler_step cfg)\<^sup>*\<^sup>* d d1 \<Longrightarrow> db_wf cfg d \<Longrightarrow> db_wf cfg d1"
  by (induction rule: rtranclp_induct) (auto intro: handler_step_wf)

lemma any_step_wf: "any_step cfg d d1 \<Longrightarrow> db_wf_from g cfg d \<Longrightarrow> \<exists>g'. db_wf_from g' cfg d1"
  unfolding any_step_def using store_step_wf by blast

text \<open>The database after the migrations, with posts but nothing else.\<close>

definition fresh_db :: "int list \<Rightarrow> db" where
  "fresh_db ps = \<lparr>db_users = [], db_posts = ps, db_comments = [], db_votes = [], db_sessions = [],
     db_credentials = [], db_seqs = \<lparr>sq_users = 1, sq_comments = 1, sq_votes = 1\<rparr>, db_now = 1\<rparr>"

lemma fresh_wf: "config_ok cfg \<Longrightarrow> db_wf cfg (fresh_db ps)"
  by (simp add: db_wf_def store_inv_def store_wf_def comments_wf_def votes_wf_def replies_unique_def
      accounts_wf_def users_wf_def fresh_db_def)

text \<open>
  What the operations make of the empty database, together with the counters each comment was
  given. An insertion draws the next identifier, so what it passes belongs to that comment.
\<close>

inductive history :: "store_config \<Rightarrow> int list \<Rightarrow> db \<Rightarrow> given \<Rightarrow> bool" for cfg ps where
  Start: "history cfg ps (fresh_db ps) nothing"
| Step: "history cfg ps d g \<Longrightarrow> store_step cfg k d d1 \<Longrightarrow> history cfg ps d1 (drawn d k g)"

lemma history_wf: "history cfg ps d g \<Longrightarrow> config_ok cfg \<Longrightarrow> db_wf_from g cfg d"
  by (induction rule: history.induct) (auto intro: fresh_wf store_step_wf)

lemma handler_history: "(handler_step cfg)\<^sup>*\<^sup>* (fresh_db ps) d \<Longrightarrow> history cfg ps d nothing"
proof (induction rule: rtranclp_induct)
  case (step d1 d2)
  then show ?case using history.Step[of cfg ps d1 nothing "(0, 0)" d2] by simp
qed (rule history.Start)

text \<open>
  C6: Whatever the operations of the store do, in any order, with any arguments and with any
  failures in between, from the empty database: each counter of a comment is what its insertion
  passed and the votes stored for it; a comment is a root of depth 0 or lies one level below an
  older comment of its post, never at the configured depth; a user has at most one live reply to
  a comment; a vote is 1 or -1 and each user has one per comment; and no two active users share
  a name or an email. Where every insertion passed 0, as the handler does, the counters are the
  votes.
\<close>

theorem store_stays_consistent:
  assumes "config_ok cfg" and "history cfg ps d g"
  shows "(\<forall>c\<in>set (db_comments d). c_Upvotes c = fst (g (c_ID c)) + tally (db_votes d) (c_ID c) 1
            \<and> c_Downvotes c = snd (g (c_ID c)) + tally (db_votes d) (c_ID c) (-1)
            \<and> placed (db_comments d) c
            \<and> (c_Depth c = 0 \<or> c_Depth c < CommentMaxNestingDepth cfg))
    \<and> ((handler_step cfg)\<^sup>*\<^sup>* (fresh_db ps) d \<longrightarrow>
         (\<forall>c\<in>set (db_comments d). c_Upvotes c = tally (db_votes d) (c_ID c) 1
            \<and> c_Downvotes c = tally (db_votes d) (c_ID c) (-1)))
    \<and> replies_unique (db_comments d)
    \<and> (\<forall>v\<in>set (db_votes d). cv_Vote v \<in> {1, -1}) \<and> distinct (map vote_key (db_votes d))
    \<and> (\<forall>u\<in>set (db_users d). \<forall>x\<in>set (db_users d). u_ID x \<noteq> u_ID u
            \<and> \<not> u_IsDeleted x \<and> \<not> u_IsDeleted u \<longrightarrow> u_Email x \<noteq> u_Email u \<and> u_Username x \<noteq> u_Username u)"
proof -
  have wf: "db_wf_from g cfg d" using history_wf[OF assms(2,1)] .
  then have c: "comments_wf cfg (user_ids d) (set (db_posts d)) (sq_comments (db_seqs d)) (db_comments d)"
    and v: "votes_wf g (user_ids d) (db_comments d) (db_votes d)"
    and u: "users_wf (db_users d) (sq_users (db_seqs d))"
    by (simp_all add: db_wf_def store_inv_def store_wf_def accounts_wf_def)
  have zero: "votes_wf nothing (user_ids d) (db_comments d) (db_votes d)"
    if "(handler_step cfg)\<^sup>*\<^sup>* (fresh_db ps) d"
    using reachable_wf[OF that fresh_wf[OF assms(1)]] by (simp add: db_wf_def store_inv_def store_wf_def)
  show ?thesis
    using v c u zero
    by (simp add: votes_wf_def counted_def comments_wf_def comment_ok_def users_wf_def clash_def) blast
qed

section \<open>A history\<close>

text \<open>Two users register, the first comments on post 10, the second replies and votes.\<close>

definition demo_cfg :: store_config where
  "demo_cfg = \<lparr>CommentMaxNestingDepth = 3, CommentMaxRootCountPerUser = 2\<rparr>"

definition calm :: env where
  "calm = \<lparr>env_query = (\<lambda>name. None), env_text = (\<lambda>code con. []), env_pick = 0, env_begin = None,
     env_rollback = None, env_commit = None\<rparr>"

definition registration :: "string \<Rightarrow> CreateUserWithCredentialsTxParams" where
  "registration name = \<lparr>cw_User = NewCreateUserParams name (name @ ''@x'') None name,
     cw_Cred = \<lparr>tc_ID = name, tc_PublicKey = [], tc_AttestationType = null_text, tc_Transports = [],
       tc_UserPresent = True, tc_UserVerified = True, tc_BackupEligible = False,
       tc_BackupState = False, tc_Aaguid = [], tc_CloneWarning = False,
       tc_AuthenticatorAttachment = ''platform'', tc_AuthenticatorData = [],
       tc_PublicKeyAlgorithm = -7\<rparr>\<rparr>"

definition reply_to :: "int \<Rightarrow> pg_int8" where
  "reply_to i = \<lparr>i8_Int64 = i, i8_Valid = True\<rparr>"

definition demo_users :: db where
  "demo_users = snd (CreateUserWithCredentialsTx calm (registration ''bob'')
     (snd (CreateUserWithCredentialsTx calm (registration ''ann'') (fresh_db [10]))))"

definition demo_thread :: db where
  "demo_thread = snd (InsertCommentTx demo_cfg calm (comment_params 2 10 ''no'' (reply_to 1))
     (snd (InsertCommentTx demo_cfg calm (comment_params 1 10 ''hi'' null_int8) demo_users)))"

definition demo_db :: db where
  "demo_db = snd (VoteCommentTx calm \<lparr>vc_UserID = 2, vc_CommentID = 1, vc_Vote = 1\<rparr> demo_thread)"

lemma calm_quiet [simp]: "quiet calm"
  by (simp add: quiet_def calm_def)

lemma demo_config [simp]: "config_ok demo_cfg"
  by (simp add: config_ok_def demo_cfg_def)

lemma demo_reachable:
  "(handler_step demo_cfg)\<^sup>*\<^sup>* (fresh_db [10]) demo_thread"
  "(handler_step demo_cfg)\<^sup>*\<^sup>* (fresh_db [10]) demo_db"
proof -
  have "(handler_step demo_cfg)\<^sup>*\<^sup>* (fresh_db [10]) demo_users"
    unfolding demo_users_def
    by (rule rtranclp.rtrancl_into_rtrancl[OF r_into_rtranclp]; rule store_step.Create_User)
  then have "(handler_step demo_cfg)\<^sup>*\<^sup>* (fresh_db [10])
      (snd (InsertCommentTx demo_cfg calm (comment_params 1 10 ''hi'' null_int8) demo_users))"
    by (rule rtranclp.rtrancl_into_rtrancl) (rule handler_insert)
  then show thread: "(handler_step demo_cfg)\<^sup>*\<^sup>* (fresh_db [10]) demo_thread"
    unfolding demo_thread_def by (rule rtranclp.rtrancl_into_rtrancl) (rule handler_insert)
  show "(handler_step demo_cfg)\<^sup>*\<^sup>* (fresh_db [10]) demo_db"
    unfolding demo_db_def by (rule rtranclp.rtrancl_into_rtrancl[OF thread store_step.Vote])
qed

lemma demo_inv: "store_inv demo_cfg demo_thread" "store_inv demo_cfg demo_db"
  using reachable_wf[OF demo_reachable(1) fresh_wf] reachable_wf[OF demo_reachable(2) fresh_wf]
  by (simp_all add: db_wf_def)

lemma demo_comments:
  "map (\<lambda>c. (c_ID c, c_Depth c, c_Upvotes c)) (db_comments demo_db) = [(1, 0, 1), (2, 1, 0)]"
  by code_simp

text \<open>As \<open>tx_insert_comment_test.go\<close> does, a comment is inserted with 5 and 1, and then voted for.\<close>

definition given_comment :: InsertCommentTxParams where
  "given_comment = (comment_params 1 10 ''old'' null_int8)\<lparr>ic_Upvotes := 5, ic_Downvotes := 1\<rparr>"

definition given_inserted :: db where
  "given_inserted = snd (InsertCommentTx demo_cfg calm given_comment demo_db)"

definition given_db :: db where
  "given_db = snd (VoteCommentTx calm \<lparr>vc_UserID = 2, vc_CommentID = 3, vc_Vote = 1\<rparr> given_inserted)"

lemma given_history: "history demo_cfg [10] given_db (drawn given_inserted (0, 0) (drawn demo_db (5, 1) nothing))"
proof -
  have "store_step demo_cfg (5, 1) demo_db given_inserted"
    using store_step.Insert[of demo_cfg given_comment demo_db calm]
    by (simp add: given_inserted_def given_comment_def)
  then show ?thesis
    unfolding given_db_def
    by (intro history.Step[OF history.Step[OF handler_history[OF demo_reachable(2)]]] store_step.Vote)
qed

lemma given_comments:
  "map (\<lambda>c. (c_ID c, c_Upvotes c, c_Downvotes c)) (db_comments given_db) = [(1, 1, 0), (2, 0, 0), (3, 6, 1)]"
  "fst (drawn given_inserted (0, 0) (drawn demo_db (5, 1) nothing) 3) = 5"
  by code_simp+

lemma store_stays_consistent_witness:
  "\<exists>c. c \<in> set (db_comments given_db) \<and> c_ID c = 3 \<and> c_Upvotes c = 6 \<and> tally (db_votes given_db) 3 1 = 1"
proof -
  have "(3, 6, 1) \<in> set (map (\<lambda>c. (c_ID c, c_Upvotes c, c_Downvotes c)) (db_comments given_db))"
    unfolding given_comments(1) by simp
  then obtain c where c: "c \<in> set (db_comments given_db)" "c_ID c = 3" "c_Upvotes c = 6" by auto
  then have "c_Upvotes c = 5 + tally (db_votes given_db) 3 1"
    using store_stays_consistent[OF demo_config given_history] given_comments(2) by force
  then have "tally (db_votes given_db) 3 1 = 1" using c(3) by simp
  then show ?thesis using c by blast
qed

text \<open>The verdicts of the operations on comments, applied to that thread.\<close>

definition foreign_delete :: DeleteCommentTxParams where
  "foreign_delete = \<lparr>dc_CommentID = 1, dc_UserID = 2, dc_PostID = 10\<rparr>"

definition own_delete :: DeleteCommentTxParams where
  "own_delete = \<lparr>dc_CommentID = 1, dc_UserID = 1, dc_PostID = 10\<rparr>"

lemma demo_delete_verdicts:
  "delete_verdict demo_thread foreign_delete = Some KindPermission"
  "delete_verdict demo_thread own_delete = None"
  by code_simp+

lemma delete_comment_outcome_witness:
  "fails opDeleteComment KindPermission demo_thread (DeleteCommentTx calm foreign_delete demo_thread)
   \<and> (\<exists>c r. DeleteCommentTx calm own_delete demo_thread = (Inr r, after_delete demo_thread c)
        \<and> dr_Success r)"
  using delete_comment_outcome[OF calm_quiet, of demo_thread foreign_delete, unfolded demo_delete_verdicts option.case]
    delete_comment_outcome[OF calm_quiet, of demo_thread own_delete, unfolded demo_delete_verdicts option.case]
  by blast

definition late_update :: UpdateCommentParams where
  "late_update = \<lparr>up_UserID = 2, up_PostID = 11, up_CommentID = 2, up_Body = ''yes''\<rparr>"

definition own_update :: UpdateCommentParams where
  "own_update = \<lparr>up_UserID = 2, up_PostID = 10, up_CommentID = 2, up_Body = ''yes''\<rparr>"

lemma demo_update_verdicts:
  "update_verdict demo_thread late_update = Some KindRelation"
  "update_verdict demo_thread own_update = None"
  by code_simp+

lemma update_comment_outcome_witness:
  "fails opUpdateComment KindRelation demo_thread (UpdateComment calm late_update demo_thread)
   \<and> (\<exists>r d1. UpdateComment calm own_update demo_thread = (Inr r, d1))"
  using update_comment_outcome[OF calm_quiet, of demo_thread late_update, unfolded demo_update_verdicts option.case]
    update_comment_outcome[OF calm_quiet, of demo_thread own_update, unfolded demo_update_verdicts option.case]
  by blast

definition up_vote :: VoteCommentTxParams where
  "up_vote = \<lparr>vc_UserID = 2, vc_CommentID = 1, vc_Vote = 1\<rparr>"

definition down_vote :: VoteCommentTxParams where
  "down_vote = \<lparr>vc_UserID = 2, vc_CommentID = 1, vc_Vote = -1\<rparr>"

lemma demo_vote_verdicts:
  "vote_verdict demo_db up_vote = Some KindConflict"
  "vote_verdict demo_db down_vote = None"
  by code_simp+

lemma vote_comment_outcome_witness:
  "fails opVoteComment KindConflict demo_db (VoteCommentTx calm up_vote demo_db)
   \<and> (\<exists>c d1. VoteCommentTx calm down_vote demo_db = (Inr c, d1)
        \<and> votes_of d1 = (votes_of demo_db)((2, 1) \<mapsto> -1))"
  using vote_comment_outcome[OF calm_quiet demo_inv(2), of up_vote, unfolded demo_vote_verdicts option.case]
    vote_comment_outcome[OF calm_quiet demo_inv(2), of down_vote, unfolded demo_vote_verdicts option.case]
  by (simp add: down_vote_def) blast

text \<open>The second reply of a user to the same comment is refused by the table.\<close>

definition second_reply :: InsertCommentTxParams where
  "second_reply = comment_params 2 10 ''again'' (reply_to 1)"

definition second_root :: InsertCommentTxParams where
  "second_root = comment_params 1 10 ''more'' null_int8"

definition stray_root :: InsertCommentTxParams where
  "stray_root = comment_params 1 11 ''hello'' null_int8"

lemma demo_insert_verdicts:
  "insert_documented demo_cfg demo_db second_reply = None"
  "has_live_reply demo_db (ic_UserID second_reply) (ic_ParentID second_reply)"
  "insert_documented demo_cfg demo_db second_root = None"
  "\<not> has_live_reply demo_db (ic_UserID second_root) (ic_ParentID second_root)"
  "user_exists demo_db (ic_UserID second_root)"
  "insert_documented demo_cfg demo_db stray_root = Some KindRelation"
  by code_simp+

lemma insert_comment_outcome_witness:
  "fails opInsertComment KindRelation demo_db (InsertCommentTx demo_cfg calm stray_root demo_db)
   \<and> fails opInsertComment KindConflict demo_db (InsertCommentTx demo_cfg calm second_reply demo_db)
   \<and> (\<exists>c d1. InsertCommentTx demo_cfg calm second_root demo_db = (Inr c, d1)
        \<and> db_comments d1 = db_comments demo_db @ [c])"
proof -
  note out = insert_comment_outcome[OF calm_quiet demo_inv(2)]
  show ?thesis
    using out[of stray_root] out[of second_reply] out[of second_root]
    by (simp only: demo_insert_verdicts option.case if_True if_False not_False_eq_True not_True_eq_False) blast
qed

section \<open>Failed transactions\<close>

text \<open>
  C22: In any environment, if one of the five transactions returns an error, no table has
  changed, whatever statement, rollback or commit failed; only identifiers may be consumed. The
  one exception is a commit the server applied although it reported a failure.
\<close>

theorem failed_transaction_changes_nothing:
  assumes "commit_known E"
  shows "(\<forall>err d1. InsertCommentTx cfg E iarg d = (Inl err, d1) \<longrightarrow> same_tables d d1)
    \<and> (\<forall>err d1. DeleteCommentTx E darg d = (Inl err, d1) \<longrightarrow> same_tables d d1)
    \<and> (\<forall>err d1. VoteCommentTx E varg d = (Inl err, d1) \<longrightarrow> same_tables d d1)
    \<and> (\<forall>err d1. CreateUserWithCredentialsTx E carg d = (Inl err, d1) \<longrightarrow> same_tables d d1)
    \<and> (\<forall>err d1. SoftDeleteUserTx E i d = (Inl err, d1) \<longrightarrow> same_tables d d1)"
  by (auto simp: InsertCommentTx_def DeleteCommentTx_def VoteCommentTx_def SoftDeleteUserTx_def
      CreateUserWithCredentialsTx_def dest: execTx_atomic[OF _ assms] split: prod.splits sum.splits)

text \<open>The passkey of the second registration is taken, so its user is not stored either.\<close>

definition taken_passkey :: CreateUserWithCredentialsTxParams where
  "taken_passkey = (registration ''eve'')\<lparr>cw_Cred := cw_Cred (registration ''ann'')\<rparr>"

lemma demo_taken: "isl (fst (CreateUserWithCredentialsTx calm taken_passkey demo_users))"
  by code_simp

lemma failed_transaction_changes_nothing_witness:
  "\<exists>err d1. CreateUserWithCredentialsTx calm taken_passkey demo_users = (Inl err, d1)
     \<and> same_tables demo_users d1"
proof -
  have "commit_known calm" by (simp add: commit_known_def calm_def)
  moreover obtain err d1 where "CreateUserWithCredentialsTx calm taken_passkey demo_users = (Inl err, d1)"
    using demo_taken by (cases "CreateUserWithCredentialsTx calm taken_passkey demo_users") (auto simp: isl_def)
  ultimately show ?thesis
    using failed_transaction_changes_nothing by blast
qed

end
