(* ===== verification/Db_Query.thy ===== *)
theory Db_Query
  imports Db_Steps "HOL-Library.Multiset" "HOL-Library.Product_Lexorder" "HOL-Library.List_Lexorder"
begin

text \<open>
  \<open>QueryComments\<close>: the three orders, their statements, and the recursive queries behind them
  (\<open>get_comments_by_popularity\<close> and its two siblings in \<open>000003_comments_with_author_view.up.sql\<close>).
  A row of the recursive query carries its rank, the array of the row numbers on the path from
  the root; \<open>ORDER BY rnk\<close> compares these arrays from the left.
\<close>

section \<open>Rows with their author\<close>

record CommentsWithAuthor = Comment +
  w_UserDisplayName :: string
  w_UserProfileImgUrl :: pg_text

definition with_author :: "User \<Rightarrow> Comment \<Rightarrow> CommentsWithAuthor" where
  "with_author u c = Comment.extend c
     \<lparr>w_UserDisplayName = u_DisplayName u, w_UserProfileImgUrl = u_ProfileImgUrl u\<rparr>"

text \<open>\<open>JOIN users u ON u.id = c.user_id\<close>\<close>

definition join_author :: "db \<Rightarrow> Comment \<Rightarrow> CommentsWithAuthor list" where
  "join_author d c = map (\<lambda>u. with_author u c) [u \<leftarrow> db_users d. u_ID u = c_UserID c]"

section \<open>The recursive query\<close>

type_synonym sort_key_of = "Comment \<Rightarrow> int \<times> int"
type_synonym ranked = "int list \<times> Comment"

definition by_popularity :: sort_key_of where
  "by_popularity c = (- i8_Int64 (c_Popularity c), c_ID c)"

definition by_newest :: sort_key_of where
  "by_newest c = (- c_CreatedAt c, c_ID c)"

definition by_oldest :: sort_key_of where
  "by_oldest c = (c_CreatedAt c, c_ID c)"

text \<open>\<open>ROW_NUMBER() OVER (ORDER BY key)\<close>, appended to the rank of the row above.\<close>

definition numbered :: "sort_key_of \<Rightarrow> int list \<Rightarrow> Comment list \<Rightarrow> ranked list" where
  "numbered key rnk cs = map (\<lambda>(n, c). (rnk @ [int n], c)) (enumerate 1 (sort_key key cs))"

definition root_page :: "sort_key_of \<Rightarrow> db \<Rightarrow> int \<Rightarrow> int \<Rightarrow> int \<Rightarrow> Comment list" where
  "root_page key d post limit offset = take (nat limit) (drop (nat offset) (sort_key key
     [c \<leftarrow> db_comments d. c_PostID c = post \<and> \<not> i8_Valid (c_ParentID c)]))"

definition replies_of :: "db \<Rightarrow> Comment \<Rightarrow> Comment list" where
  "replies_of d t = [c \<leftarrow> db_comments d. c_PostID c = c_PostID t \<and> c_ParentID c = reply_to (c_ID t)]"

definition ranked_replies :: "sort_key_of \<Rightarrow> db \<Rightarrow> ranked \<Rightarrow> ranked list" where
  "ranked_replies key d t = numbered key (fst t) (replies_of d (snd t))"

text \<open>
  \<open>WITH RECURSIVE\<close>: the rows of one round are joined to make the next; the fuel is the number
  of comments, more than any thread is deep.
\<close>

fun recursive_rows :: "nat \<Rightarrow> (ranked \<Rightarrow> ranked list) \<Rightarrow> ranked list \<Rightarrow> ranked list" where
  "recursive_rows 0 step rows = []"
| "recursive_rows (Suc n) step rows = rows @ recursive_rows n step (concat (map step rows))"

definition thread_rows :: "sort_key_of \<Rightarrow> db \<Rightarrow> int \<Rightarrow> int \<Rightarrow> int \<Rightarrow> ranked list" where
  "thread_rows key d post limit offset =
     recursive_rows (length (db_comments d)) (ranked_replies key d)
       (numbered key [] (root_page key d post limit offset))"

definition get_comments ::
  "sort_key_of \<Rightarrow> env \<Rightarrow> int \<Rightarrow> int \<Rightarrow> int \<Rightarrow> db \<Rightarrow> CommentsWithAuthor list result" where
  "get_comments key E post limit offset d =
     (if offset < 0 then (Inl (pg_error_of E ''2201X'' []), d)
      else if limit < 0 then (Inl (pg_error_of E ''2201W'' []), d)
      else (Inr (concat (map (join_author d)
              (map snd (sort_key fst (thread_rows key d post limit offset))))), d))"

section \<open>The statements and QueryComments\<close>

definition getCommentsByPopularity ::
  "env \<Rightarrow> int \<Rightarrow> int \<Rightarrow> int \<Rightarrow> db \<Rightarrow> CommentsWithAuthor list result" where
  "getCommentsByPopularity E post limit offset =
     query ''getCommentsByPopularity'' E (get_comments by_popularity E post limit offset)"

definition getNewestComments ::
  "env \<Rightarrow> int \<Rightarrow> int \<Rightarrow> int \<Rightarrow> db \<Rightarrow> CommentsWithAuthor list result" where
  "getNewestComments E post limit offset =
     query ''getNewestComments'' E (get_comments by_newest E post limit offset)"

definition getOldestComments ::
  "env \<Rightarrow> int \<Rightarrow> int \<Rightarrow> int \<Rightarrow> db \<Rightarrow> CommentsWithAuthor list result" where
  "getOldestComments E post limit offset =
     query ''getOldestComments'' E (get_comments by_oldest E post limit offset)"

definition opQueryComments :: string where "opQueryComments = ''query-comments''"

definition CommentOrderPopular :: string where "CommentOrderPopular = ''pop''"
definition CommentOrderNewest :: string where "CommentOrderNewest = ''new''"
definition CommentOrderOldest :: string where "CommentOrderOldest = ''old''"

definition CommentOrderMethods :: "string list" where
  "CommentOrderMethods = [CommentOrderPopular, CommentOrderNewest, CommentOrderOldest]"

record CommentQuery =
  cq_Order :: string
  cq_PostID :: int
  cq_Limit :: int
  cq_Offset :: int

text \<open>\<open>strconv.Quote\<close> of the three names, which hold nothing to escape.\<close>

definition quoted :: "string \<Rightarrow> string" where
  "quoted s = [CHR 0x22] @ s @ [CHR 0x22]"

definition ValidateCommentOrderMethod :: "string \<Rightarrow> go_error option" where
  "ValidateCommentOrderMethod ord =
     (if ord \<notin> set CommentOrderMethods then
        Some (newOpError opQueryComments KindInvalid entComment
          (Errorf (''invalid order '' @ quoted ord @ ''. can be one of ''
             @ strings_Join (map quoted CommentOrderMethods) '', '') None)
          [withField ''order''])
      else None)"

definition QueryComments :: "env \<Rightarrow> CommentQuery \<Rightarrow> db \<Rightarrow> CommentsWithAuthor list result" where
  "QueryComments E q d =
     (case ValidateCommentOrderMethod (cq_Order q) of
        Some err \<Rightarrow> (Inl err, d)
      | None \<Rightarrow>
          (case (if cq_Order q = CommentOrderPopular
                 then getCommentsByPopularity E (cq_PostID q) (cq_Limit q) (cq_Offset q) d
                 else if cq_Order q = CommentOrderNewest
                 then getNewestComments E (cq_PostID q) (cq_Limit q) (cq_Offset q) d
                 else getOldestComments E (cq_PostID q) (cq_Limit q) (cq_Offset q) d) of
             (Inl err, d1) \<Rightarrow>
               if errors_Is_NoRows err then (Inr [], d1)
               else (Inl (sqlError opQueryComments
                       (no_details\<lparr>det_postID := Itoa (cq_PostID q), det_entity := entComment\<rparr>) err), d1)
           | (Inr rows, d1) \<Rightarrow> (Inr rows, d1)))"

section \<open>Depth-first order\<close>

text \<open>
  \<open>nested k p cs\<close>: a list of comments in depth-first order below the parent \<open>p\<close>, whose replies
  have depth \<open>k\<close>: each comment is followed by the thread below it.
\<close>

inductive nested :: "int \<Rightarrow> pg_int8 \<Rightarrow> 'a Comment_scheme list \<Rightarrow> bool" where
  nested_Nil: "nested k p []"
| nested_Cons: "\<lbrakk>c_Depth c = k; c_ParentID c = p; nested (k + 1) (reply_to (c_ID c)) below;
     nested k p rest\<rbrakk> \<Longrightarrow> nested k p (c # below @ rest)"

lemma nested_append: "nested k p xs \<Longrightarrow> nested k p ys \<Longrightarrow> nested k p (xs @ ys)"
proof (induction rule: nested.induct)
  case (nested_Cons c k p below rest)
  have "nested k p (c # below @ (rest @ ys))"
    using nested_Cons by (intro nested.nested_Cons) simp_all
  then show ?case by simp
qed simp

text \<open>The same rows, walked depth first; this is what sorting by rank must come to.\<close>

fun walk :: "nat \<Rightarrow> (ranked \<Rightarrow> ranked list) \<Rightarrow> ranked list \<Rightarrow> ranked list" where
  "walk 0 step rows = []"
| "walk (Suc n) step rows = concat (map (\<lambda>r. r # walk n step (step r)) rows)"

lemma walk_append: "walk n step (xs @ ys) = walk n step xs @ walk n step ys"
  by (cases n) simp_all

lemma walk_concat: "walk n step (concat xss) = concat (map (walk n step) xss)"
  by (induction xss) (cases n; simp add: walk_append)+

lemma mset_concat_Cons: "mset (concat (map (\<lambda>r. r # f r) rows)) = mset rows + mset (concat (map f rows))"
  by (induction rows) simp_all

lemma mset_walk: "mset (recursive_rows n step rows) = mset (walk n step rows)"
proof (induction n arbitrary: rows)
  case (Suc n)
  have "walk n step (concat (map step rows)) = concat (map (\<lambda>r. walk n step (step r)) rows)"
    by (simp add: walk_concat o_def)
  then show ?case using Suc by (simp add: mset_concat_Cons)
qed simp

end
