(* ===== verification/Db_Query_Props.thy ===== *)
theory Db_Query_Props
  imports Db_Query
begin

text \<open>
  In a consistent database the recursive queries return each thread in depth-first order, and
  the whole of it: sorting by rank comes to walking the replies from the roots of the page.
\<close>

section \<open>Sorting by rank\<close>

lemma append_less [simp]: "(pre @ xs :: int list) < pre @ ys \<longleftrightarrow> xs < ys"
  by (induction pre) simp_all

lemma less_append: "ys \<noteq> [] \<Longrightarrow> (xs :: int list) < xs @ ys"
  by (induction xs) (auto simp: neq_Nil_conv)

lemma sorted_wrt_blocks:
  assumes "\<And>b. b \<in> set bs \<Longrightarrow> sorted_wrt P b"
    and "sorted_wrt (\<lambda>b b'. \<forall>x\<in>set b. \<forall>y\<in>set b'. P x y) bs"
  shows "sorted_wrt P (concat bs)"
  using assms by (induction bs) (auto simp: sorted_wrt_append)

lemma numbered_rank: "r \<in> set (numbered key rnk cs) \<Longrightarrow> \<exists>n. fst r = rnk @ [n]"
  by (auto simp: numbered_def)

lemma numbered_snd: "map snd (numbered key rnk cs) = sort_key key cs"
  by (simp add: numbered_def o_def case_prod_beta)

lemma numbered_sorted: "sorted_wrt (\<lambda>r s. \<exists>m n. fst r = rnk @ [m] \<and> fst s = rnk @ [n] \<and> m < n)
    (numbered key rnk cs)"
proof -
  have "sorted_wrt (\<lambda>r s. \<exists>m n. fst r = rnk @ [m] \<and> fst s = rnk @ [n] \<and> m < n)
      (map (\<lambda>(n, c). (rnk @ [int n], c)) (enumerate k xs))" for k and xs :: "Comment list"
    by (induction xs arbitrary: k) (auto simp: in_set_enumerate_eq)
  then show ?thesis by (simp add: numbered_def)
qed

text \<open>A row of the walk extends the rank of the row it is below.\<close>

lemma walk_rank:
  "r \<in> set (walk n (ranked_replies key d) rows) \<Longrightarrow> \<exists>r0\<in>set rows. \<exists>s. fst r = fst r0 @ s"
proof (induction n arbitrary: rows)
  case (Suc n)
  then obtain r0 where r0: "r0 \<in> set rows" "r = r0 \<or> r \<in> set (walk n (ranked_replies key d) (ranked_replies key d r0))"
    by auto
  from r0(2) show ?case
  proof
    assume "r = r0"
    then show ?thesis using r0(1) by (intro bexI[of _ r0] exI[of _ "[]"]) simp_all
  next
    assume "r \<in> set (walk n (ranked_replies key d) (ranked_replies key d r0))"
    then obtain r1 s where r1: "r1 \<in> set (ranked_replies key d r0)" "fst r = fst r1 @ s"
      using Suc.IH by blast
    then obtain m where "fst r1 = fst r0 @ [m]"
      using numbered_rank[of r1 key "fst r0" "replies_of d (snd r0)"] by (auto simp: ranked_replies_def)
    then show ?thesis using r0(1) r1(2) by (intro bexI[of _ r0] exI[of _ "m # s"]) simp_all
  qed
qed simp

lemma walk_sorted: "sorted_wrt (\<lambda>r s. fst r < fst s) (walk n (ranked_replies key d) (numbered key' rnk cs))"
proof (induction n arbitrary: key' rnk cs)
  case (Suc n)
  let ?step = "ranked_replies key d"
  let ?block = "\<lambda>r. r # walk n ?step (?step r)"
  have below: "\<exists>m s. fst x = fst r @ m # s" if x: "x \<in> set (walk n ?step (?step r))" for x r
  proof -
    obtain r1 s where "r1 \<in> set (?step r)" "fst x = fst r1 @ s" using walk_rank[OF x] by blast
    then show ?thesis
      using numbered_rank[of r1 key "fst r" "replies_of d (snd r)"] by (auto simp: ranked_replies_def)
  qed
  have inside: "\<exists>s. fst x = fst r @ s" if "x \<in> set (?block r)" for x r
    using that below[of x r] by auto
  have "sorted_wrt (\<lambda>r s. fst r < fst s) (?block r)" for r
  proof -
    have "fst r < fst x" if "x \<in> set (walk n ?step (?step r))" for x
      using below[OF that] less_append by fastforce
    then show ?thesis using Suc.IH[of key "fst r" "replies_of d (snd r)"]
      by (simp add: ranked_replies_def[of key d r])
  qed
  moreover have "sorted_wrt (\<lambda>b b'. \<forall>x\<in>set b. \<forall>y\<in>set b'. fst x < fst y)
      (map ?block (numbered key' rnk cs))"
  proof -
    have "fst x < fst y" if "\<exists>m n. fst r = rnk @ [m] \<and> fst s = rnk @ [n] \<and> m < n"
        "x \<in> set (?block r)" "y \<in> set (?block s)" for x y r s
      using that(1) inside[OF that(2)] inside[OF that(3)] by auto
    then show ?thesis
      unfolding sorted_wrt_map by (intro sorted_wrt_mono_rel[OF _ numbered_sorted]) blast
  qed
  ultimately show ?case by (simp only: walk.simps) (rule sorted_wrt_blocks, auto)
qed simp

lemma rows_walk:
  "sort_key fst (recursive_rows n (ranked_replies key d) (numbered key' rnk cs))
     = walk n (ranked_replies key d) (numbered key' rnk cs)"
proof (rule sort_key_inj_key_eq)
  let ?w = "walk n (ranked_replies key d) (numbered key' rnk cs)"
  show "mset (recursive_rows n (ranked_replies key d) (numbered key' rnk cs)) = mset ?w"
    by (rule mset_walk)
  have s: "sorted_wrt (<) (map fst ?w)" using walk_sorted by (simp add: sorted_wrt_map)
  then have "sorted (map fst ?w)" "distinct (map fst ?w)" by (simp_all add: strict_sorted_iff)
  then show "inj_on fst (set (recursive_rows n (ranked_replies key d) (numbered key' rnk cs)))"
    using mset_walk by (metis distinct_map set_mset_mset)
  show "sorted (map fst ?w)" using s by (simp add: strict_sorted_iff)
qed

section \<open>Depth-first order of the threads\<close>

lemma replies_of_mem:
  "c \<in> set (replies_of d t) \<longleftrightarrow> c \<in> set (db_comments d) \<and> c_PostID c = c_PostID t
     \<and> c_ParentID c = reply_to (c_ID t)"
  by (auto simp: replies_of_def)

lemma numbered_set: "snd ` set (numbered key rnk cs) = set cs"
  using arg_cong[where f = set, OF numbered_snd[of key rnk cs]] by simp

lemma numbered_mem: "r \<in> set (numbered key rnk cs) \<Longrightarrow> snd r \<in> set cs"
  using numbered_set by fast

lemma in_numbered: "c \<in> set cs \<Longrightarrow> \<exists>r\<in>set (numbered key rnk cs). snd r = c"
  using numbered_set[of key rnk cs] by (metis imageE)

lemma reply_placed:
  assumes inv: "store_inv_from g cfg d" and t: "t \<in> set (db_comments d)" and c: "c \<in> set (db_comments d)"
    and parent: "c_ParentID c = reply_to (c_ID t)"
  shows "c_Depth c = c_Depth t + 1 \<and> c_PostID c = c_PostID t"
proof -
  have "placed (db_comments d) c"
    using inv c by (simp add: store_inv_def store_wf_def comments_wf_def)
  then obtain p where "p \<in> set (db_comments d)" "c_ID p = c_ID t" "c_PostID p = c_PostID c"
      "c_Depth c = c_Depth p + 1"
    using parent by (auto simp: placed_def reply_to_def)
  then show ?thesis using same_id[OF store_inv_ids[OF inv] _ t] by metis
qed

lemma walk_nested:
  assumes inv: "store_inv_from g cfg d"
    and "\<And>c. c \<in> set cs \<Longrightarrow> c \<in> set (db_comments d) \<and> c_Depth c = k \<and> c_ParentID c = p"
  shows "nested k p (map snd (walk n (ranked_replies key d) (numbered key' rnk cs)))"
  using assms(2)
proof (induction n arbitrary: k p key' rnk cs)
  case (Suc n)
  let ?step = "ranked_replies key d"
  have "nested k p (concat (map (\<lambda>r. snd r # map snd (walk n ?step (?step r))) rs))"
    if "\<forall>r\<in>set rs. snd r \<in> set cs" for rs
    using that
  proof (induction rs)
    case (Cons r rs)
    let ?c = "snd r"
    have c: "?c \<in> set (db_comments d)" "c_Depth ?c = k" "c_ParentID ?c = p"
      using Cons.prems Suc.prems by simp_all
    have "nested (k + 1) (reply_to (c_ID ?c)) (map snd (walk n ?step (?step r)))"
      unfolding ranked_replies_def[of key d r]
      by (rule Suc.IH) (use reply_placed[OF inv c(1)] c(2) in \<open>auto simp: replies_of_mem\<close>)
    then show ?case
      using nested_Cons[OF c(2,3)] Cons by simp
  qed (simp add: nested_Nil)
  then show ?case
    using numbered_mem[of _ key' rnk cs] by (simp add: map_concat o_def)
qed (simp add: nested_Nil)

section \<open>The whole threads\<close>

lemma depth_less:
  assumes inv: "store_inv_from g cfg d" and c: "c \<in> set (db_comments d)"
  shows "c_Depth c < len (db_comments d)"
proof -
  have wf: "comments_wf cfg (user_ids d) (set (db_posts d)) (sq_comments (db_seqs d)) (db_comments d)"
    using inv by (simp add: store_inv_def store_wf_def)
  have "{0..c_Depth x} \<subseteq> c_Depth ` set (db_comments d)" if "x \<in> set (db_comments d)" for x
    using that
  proof (induction "nat (c_Depth x)" arbitrary: x)
    case 0
    then have "c_Depth x = 0" using wf by (auto simp: comments_wf_def comment_ok_def)
    then show ?case using 0 by auto
  next
    case (Suc m)
    have "placed (db_comments d) x" using wf Suc.prems by (simp add: comments_wf_def)
    then obtain p where p: "p \<in> set (db_comments d)" "c_Depth x = c_Depth p + 1"
      using Suc.hyps(2) by (auto simp: placed_def split: if_splits)
    then have "{0..c_Depth p} \<subseteq> c_Depth ` set (db_comments d)" using Suc.hyps by simp
    moreover have "{0..c_Depth x} = insert (c_Depth x) {0..c_Depth p}"
      using p(2) Suc.hyps(2) by auto
    ultimately show ?case using Suc.prems by auto
  qed
  then have "card {0..c_Depth c} \<le> card (c_Depth ` set (db_comments d))"
    using c by (intro card_mono) simp_all
  also have "\<dots> \<le> length (db_comments d)"
    using card_image_le[of "set (db_comments d)" c_Depth] card_length[of "db_comments d"] by simp
  finally show ?thesis by (simp add: len_def)
qed

lemma ranked_replies_rank: "s \<in> set (ranked_replies key d r) \<Longrightarrow> length (fst s) = Suc (length (fst r))"
  unfolding ranked_replies_def by (drule numbered_rank) auto

lemma walk_closed:
  assumes "r \<in> set (walk n (ranked_replies key d) rows)" and "\<forall>x\<in>set rows. length (fst x) = k"
    and "s \<in> set (ranked_replies key d r)" and "length (fst s) < k + n"
  shows "s \<in> set (walk n (ranked_replies key d) rows)"
  using assms
proof (induction n arbitrary: rows k)
  case (Suc n)
  let ?step = "ranked_replies key d"
  obtain r0 where r0: "r0 \<in> set rows" "r = r0 \<or> r \<in> set (walk n ?step (?step r0))"
    using Suc.prems(1) by auto
  have "s \<in> set (walk n ?step (?step r0))"
  proof (cases "r = r0")
    case True
    then have "length (fst s) = Suc k" using ranked_replies_rank[OF Suc.prems(3)] Suc.prems(2) r0(1) by simp
    then have "0 < n" using Suc.prems(4) by simp
    then show ?thesis using True Suc.prems(3) by (cases n) auto
  next
    case False
    have "\<forall>x\<in>set (?step r0). length (fst x) = Suc k"
      using ranked_replies_rank Suc.prems(2) r0(1) by fastforce
    then show ?thesis using Suc.IH[of "?step r0" "Suc k"] False r0(2) Suc.prems(3,4) by simp
  qed
  then show ?case using r0(1) by auto
qed simp

lemma walk_depth:
  assumes inv: "store_inv_from g cfg d"
    and "\<forall>x\<in>set rows. snd x \<in> set (db_comments d) \<and> int (length (fst x)) = c_Depth (snd x) + 1"
    and "r \<in> set (walk n (ranked_replies key d) rows)"
  shows "snd r \<in> set (db_comments d) \<and> int (length (fst r)) = c_Depth (snd r) + 1"
  using assms(2,3)
proof (induction n arbitrary: rows)
  case (Suc n)
  let ?step = "ranked_replies key d"
  obtain r0 where r0: "r0 \<in> set rows" "r = r0 \<or> r \<in> set (walk n ?step (?step r0))"
    using Suc.prems(2) by auto
  have "snd x \<in> set (db_comments d) \<and> int (length (fst x)) = c_Depth (snd x) + 1" if x: "x \<in> set (?step r0)" for x
  proof -
    have "snd x \<in> set (replies_of d (snd r0))"
      using numbered_mem x by (simp add: ranked_replies_def)
    moreover have "snd r0 \<in> set (db_comments d)" "int (length (fst r0)) = c_Depth (snd r0) + 1"
      using Suc.prems(1) r0(1) by auto
    ultimately show ?thesis
      using reply_placed[OF inv] ranked_replies_rank[OF x] by (auto simp: replies_of_mem)
  qed
  then show ?case using r0 Suc by blast
qed simp

section \<open>Each comment once\<close>

definition above :: "db \<Rightarrow> Comment \<Rightarrow> Comment" where
  "above d c = (case comment_of d (i8_Int64 (c_ParentID c)) of Some p \<Rightarrow> p | None \<Rightarrow> c)"

lemma comment_of_id:
  assumes "store_inv_from g cfg d" and "c \<in> set (db_comments d)"
  shows "comment_of d (c_ID c) = Some c"
proof (cases "comment_of d (c_ID c)")
  case None
  then show ?thesis using assms(2) by (auto simp: comment_of_None)
next
  case (Some x)
  then show ?thesis
    using comment_of_Some[OF Some] same_id[OF store_inv_ids[OF assms(1)]] assms(2) by auto
qed

lemma above_reply:
  assumes "store_inv_from g cfg d" and "t \<in> set (db_comments d)" and "c \<in> set (replies_of d t)"
  shows "above d c = t"
  using assms(3) comment_of_id[OF assms(1,2)] by (simp add: above_def replies_of_mem reply_to_def)

lemma walk_above:
  assumes inv: "store_inv_from g cfg d" and "\<forall>x\<in>set rows. snd x \<in> set (db_comments d)"
    and "r \<in> set (walk n (ranked_replies key d) rows)"
  shows "\<exists>r0\<in>set rows. \<exists>m. c_Depth (snd r) = c_Depth (snd r0) + int m \<and> (above d ^^ m) (snd r) = snd r0"
  using assms(2,3)
proof (induction n arbitrary: rows)
  case (Suc n)
  let ?step = "ranked_replies key d"
  obtain r0 where r0: "r0 \<in> set rows" "r = r0 \<or> r \<in> set (walk n ?step (?step r0))"
    using Suc.prems(2) by auto
  from r0(2) show ?case
  proof
    assume "r = r0"
    then show ?thesis using r0(1) by (intro bexI[of _ r0] exI[of _ 0]) simp_all
  next
    assume r: "r \<in> set (walk n ?step (?step r0))"
    have t: "snd r0 \<in> set (db_comments d)" using Suc.prems(1) r0(1) by simp
    have step: "snd x \<in> set (replies_of d (snd r0))" if "x \<in> set (?step r0)" for x
      using numbered_mem that by (simp add: ranked_replies_def)
    then have "\<forall>x\<in>set (?step r0). snd x \<in> set (db_comments d)" by (simp add: replies_of_mem)
    from Suc.IH[OF this r] obtain r1 m where r1: "r1 \<in> set (?step r0)"
        "c_Depth (snd r) = c_Depth (snd r1) + int m" "(above d ^^ m) (snd r) = snd r1"
      by blast
    have "c_Depth (snd r1) = c_Depth (snd r0) + 1"
      using reply_placed[OF inv t] step[OF r1(1)] by (auto simp: replies_of_mem)
    moreover have "(above d ^^ Suc m) (snd r) = snd r0"
      using r1(3) above_reply[OF inv t step[OF r1(1)]] by simp
    ultimately show ?thesis using r0(1) r1(2) by (intro bexI[of _ r0] exI[of _ "Suc m"]) simp_all
  qed
qed simp

lemma distinct_blocks:
  assumes "\<And>r. r \<in> set rs \<Longrightarrow> distinct (f r)"
    and "sorted_wrt (\<lambda>r s. \<forall>x\<in>set (f r). \<forall>y\<in>set (f s). x \<noteq> y) rs"
  shows "distinct (concat (map f rs))"
  using assms by (induction rs) auto

lemma sorted_wrt_neq: "sorted_wrt (\<noteq>) xs \<longleftrightarrow> distinct xs"
  by (induction xs) auto

lemma distinct_comments: "store_inv_from g cfg d \<Longrightarrow> distinct (db_comments d)"
  using store_inv_ids distinct_map by blast

lemma walk_distinct:
  assumes inv: "store_inv_from g cfg d"
    and "\<And>c. c \<in> set cs \<Longrightarrow> c \<in> set (db_comments d) \<and> c_Depth c = k" and "distinct cs"
  shows "distinct (map snd (walk n (ranked_replies key d) (numbered key' rnk cs)))"
  using assms(2,3)
proof (induction n arbitrary: k key' rnk cs)
  case (Suc n)
  let ?step = "ranked_replies key d"
  let ?below = "\<lambda>r. walk n ?step (?step r)"
  let ?rows = "numbered key' rnk cs"
  have row: "snd r \<in> set (db_comments d) \<and> c_Depth (snd r) = k" if "r \<in> set ?rows" for r
    using numbered_mem[OF that] Suc.prems(1) by simp
  have up: "\<exists>m. c_Depth (snd x) = k + 1 + int m \<and> (above d ^^ Suc m) (snd x) = snd r"
    if r: "r \<in> set ?rows" and x: "x \<in> set (?below r)" for r x
  proof -
    have step: "snd y \<in> set (replies_of d (snd r))" if "y \<in> set (?step r)" for y
      using numbered_mem that by (simp add: ranked_replies_def)
    then have "\<forall>y\<in>set (?step r). snd y \<in> set (db_comments d)" by (simp add: replies_of_mem)
    from walk_above[OF inv this x] obtain r1 m where r1: "r1 \<in> set (?step r)"
        "c_Depth (snd x) = c_Depth (snd r1) + int m" "(above d ^^ m) (snd x) = snd r1" by blast
    then show ?thesis
      using reply_placed[OF inv] above_reply[OF inv _ step[OF r1(1)]] row[OF r] step[OF r1(1)]
      by (intro exI[of _ m]) (auto simp: replies_of_mem)
  qed
  have anc: "\<exists>m. c_Depth (snd x) = k + int m \<and> (above d ^^ m) (snd x) = snd r"
    if r: "r \<in> set ?rows" and x: "x \<in> set (r # ?below r)" for r x
  proof (cases "x = r")
    case True
    then show ?thesis using row[OF r] by (intro exI[of _ 0]) simp
  next
    case False
    then have "x \<in> set (?below r)" using x by simp
    then obtain m where "c_Depth (snd x) = k + 1 + int m" "(above d ^^ Suc m) (snd x) = snd r"
      using up[OF r] by blast
    then show ?thesis by (intro exI[of _ "Suc m"]) simp
  qed
  have each: "distinct (map snd (r # ?below r))" if r: "r \<in> set ?rows" for r
  proof -
    have "distinct (map snd (?below r))"
      unfolding ranked_replies_def[of key d r]
    proof (rule Suc.IH)
      show "c \<in> set (db_comments d) \<and> c_Depth c = k + 1" if "c \<in> set (replies_of d (snd r))" for c
        using reply_placed[OF inv] row[OF r] that by (auto simp: replies_of_mem)
      show "distinct (replies_of d (snd r))"
        using distinct_comments[OF inv] by (simp add: replies_of_def)
    qed
    moreover have "snd x \<noteq> snd r" if "x \<in> set (?below r)" for x
      using up[OF r that] row[OF r] by auto
    moreover from this have "snd r \<notin> snd ` set (?below r)" by fastforce
    ultimately show ?thesis by simp
  qed
  have split: "sorted_wrt (\<lambda>r s. \<forall>x\<in>set (map snd (r # ?below r)). \<forall>y\<in>set (map snd (s # ?below s)). x \<noteq> y) ?rows"
  proof -
    have apart: "\<forall>x\<in>set (map snd (r # ?below r)). \<forall>y\<in>set (map snd (s # ?below s)). x \<noteq> y"
      if h: "r \<in> set ?rows" "s \<in> set ?rows" "snd r \<noteq> snd s" for r s
    proof -
      have "snd x \<noteq> snd y" if x: "x \<in> set (r # ?below r)" and y: "y \<in> set (s # ?below s)" for x y
      proof
        assume "snd x = snd y"
        moreover obtain m where "c_Depth (snd x) = k + int m" "(above d ^^ m) (snd x) = snd r"
          using anc[OF h(1) x] by blast
        moreover obtain m' where "c_Depth (snd y) = k + int m'" "(above d ^^ m') (snd y) = snd s"
          using anc[OF h(2) y] by blast
        ultimately show False using h(3) by simp
      qed
      then show ?thesis unfolding set_map by blast
    qed
    have "distinct (map snd ?rows)" using Suc.prems(2) by (simp add: numbered_snd)
    then have "sorted_wrt (\<lambda>r s. snd r \<noteq> snd s) ?rows"
      unfolding sorted_wrt_neq[symmetric] by (simp add: sorted_wrt_map)
    then show ?thesis by (rule sorted_wrt_mono_rel[rotated]) (rule apart)
  qed
  have "distinct (concat (map (\<lambda>r. map snd (r # ?below r)) ?rows))"
    by (rule distinct_blocks[OF each split])
  then show ?case by (simp add: map_concat o_def)
qed simp

end
