(* ===== verification/Db_Thread.thy ===== *)
theory Db_Thread
  imports Db_Query_Props
begin

text \<open>
  \<open>QueryComments\<close> on a consistent database: what page of roots it returns, below each root the
  whole thread, the replies of a comment in the order asked for, each row once and with its author.
\<close>

section \<open>Rows of the walk\<close>

lemma same_sorted:
  assumes "sorted_wrt (\<lambda>r s. fst r < fst s) xs" and "sorted_wrt (\<lambda>r s. fst r < fst s) ys"
    and "set xs = set (ys :: ranked list)"
  shows "xs = ys"
proof -
  have s: "sorted_wrt (<) (map fst zs)" if "sorted_wrt (\<lambda>r s. fst r < fst s) zs" for zs :: "ranked list"
    using that by (simp add: sorted_wrt_map)
  then have d: "distinct zs" "sorted (map fst zs)" "inj_on fst (set zs)"
    if "sorted_wrt (\<lambda>r s. fst r < fst s) zs" for zs :: "ranked list"
    using that by (auto simp: strict_sorted_iff distinct_map)
  have "mset xs = mset ys"
    using d(1)[OF assms(1)] d(1)[OF assms(2)] assms(3) set_eq_iff_mset_eq_distinct by blast
  then have "sort_key fst xs = ys" "sort_key fst xs = xs"
    using sort_key_inj_key_eq d(2,3) assms(1,2) by blast+
  then show ?thesis by simp
qed

lemma numbered_increasing: "sorted_wrt (\<lambda>r s. fst r < fst s) (numbered key rnk cs)"
  by (rule sorted_wrt_mono_rel[OF _ numbered_sorted]) auto

lemma walk_origin:
  "r \<in> set (walk n step rows) \<Longrightarrow> r \<in> set rows \<or> (\<exists>t\<in>set (walk n step rows). r \<in> set (step t))"
proof (induction n arbitrary: rows)
  case (Suc n)
  then obtain r0 where r0: "r0 \<in> set rows" "r = r0 \<or> r \<in> set (walk n step (step r0))" by auto
  show ?case
  proof (cases "r = r0")
    case False
    then have "r \<in> set (step r0) \<or> (\<exists>t\<in>set (walk n step (step r0)). r \<in> set (step t))"
      using r0(2) Suc.IH by blast
    then show ?thesis using r0(1) by auto
  qed (use r0(1) in simp)
qed simp

lemma walk_rows: "0 < n \<Longrightarrow> r \<in> set rows \<Longrightarrow> r \<in> set (walk n step rows)"
  by (cases n) auto

section \<open>One page\<close>

text \<open>The rows below the page \<open>roots\<close>, in the order of the walk.\<close>

definition page_walk :: "sort_key_of \<Rightarrow> db \<Rightarrow> Comment list \<Rightarrow> ranked list" where
  "page_walk key d roots = walk (length (db_comments d)) (ranked_replies key d) (numbered key [] roots)"

definition root_of :: "db \<Rightarrow> Comment \<Rightarrow> bool" where
  "root_of d c \<longleftrightarrow> c \<in> set (db_comments d) \<and> \<not> i8_Valid (c_ParentID c)"

lemma root_placed:
  assumes "store_inv_from g cfg d" and "root_of d c"
  shows "c_Depth c = 0 \<and> c_ParentID c = null_int8"
proof -
  have "placed (db_comments d) c"
    using assms by (simp add: store_inv_def store_wf_def comments_wf_def root_of_def)
  then show ?thesis using assms(2) by (simp add: placed_def root_of_def)
qed

lemma page_row:
  assumes inv: "store_inv_from g cfg d" and roots: "\<forall>c\<in>set roots. root_of d c"
    and r: "r \<in> set (page_walk key d roots)"
  shows "snd r \<in> set (db_comments d) \<and> int (length (fst r)) = c_Depth (snd r) + 1"
proof -
  have "snd x \<in> set (db_comments d) \<and> int (length (fst x)) = c_Depth (snd x) + 1"
    if "x \<in> set (numbered key [] roots)" for x
    using numbered_mem[OF that] numbered_rank[OF that] root_placed[OF inv] roots
    by (auto simp: root_of_def)
  then show ?thesis using walk_depth[OF inv _ r[unfolded page_walk_def]] by blast
qed

lemma page_replies:
  assumes inv: "store_inv_from g cfg d" and roots: "\<forall>c\<in>set roots. root_of d c"
    and r: "r \<in> set (page_walk key d roots)" and s: "s \<in> set (ranked_replies key d r)"
  shows "s \<in> set (page_walk key d roots)"
proof -
  have row: "snd r \<in> set (db_comments d)" "int (length (fst r)) = c_Depth (snd r) + 1"
    using page_row[OF inv roots r] by simp_all
  have "snd s \<in> set (replies_of d (snd r))"
    using numbered_mem s by (simp add: ranked_replies_def)
  then have "snd s \<in> set (db_comments d)" "c_Depth (snd s) = c_Depth (snd r) + 1"
    using reply_placed[OF inv row(1)] by (auto simp: replies_of_mem)
  then have "length (fst s) < 1 + length (db_comments d)"
    using ranked_replies_rank[OF s] row(2) depth_less[OF inv, of "snd s"] by (simp add: len_def)
  moreover have "\<forall>x\<in>set (numbered key [] roots). length (fst x) = 1"
    using numbered_rank by fastforce
  ultimately show ?thesis
    unfolding page_walk_def by (rule walk_closed[OF r[unfolded page_walk_def] _ s, rotated])
qed

lemma page_distinct:
  assumes inv: "store_inv_from g cfg d" and "\<forall>c\<in>set roots. root_of d c" and "distinct roots"
  shows "distinct (map snd (page_walk key d roots))"
  unfolding page_walk_def
  by (rule walk_distinct[OF inv, of _ 0]) (use assms root_placed[OF inv] in \<open>auto simp: root_of_def\<close>)

lemma page_nested:
  assumes inv: "store_inv_from g cfg d" and "\<forall>c\<in>set roots. root_of d c"
  shows "nested 0 null_int8 (map snd (page_walk key d roots))"
  unfolding page_walk_def
  by (rule walk_nested[OF inv]) (use assms root_placed[OF inv] in \<open>auto simp: root_of_def\<close>)

lemma page_increasing: "sorted_wrt (\<lambda>r s. fst r < fst s) (page_walk key d roots)"
  unfolding page_walk_def by (rule walk_sorted)

lemma page_siblings:
  assumes inv: "store_inv_from g cfg d" and roots: "\<forall>c\<in>set roots. root_of d c" and "distinct roots"
    and c: "c \<in> set (map snd (page_walk key d roots))"
  shows "[x \<leftarrow> map snd (page_walk key d roots). c_ParentID x = reply_to (c_ID c)]
     = sort_key key (replies_of d c)"
proof -
  let ?w = "page_walk key d roots"
  let ?step = "ranked_replies key d"
  obtain t where t: "t \<in> set ?w" "snd t = c" using c by auto
  have mem: "snd s \<in> set (replies_of d (snd r))" if "s \<in> set (?step r)" for r s
    using numbered_mem that by (simp add: ranked_replies_def)
  have "s \<in> set (?step t)" if s: "s \<in> set ?w" and p: "c_ParentID (snd s) = reply_to (c_ID c)" for s
  proof -
    from s have "s \<in> set (numbered key [] roots) \<or> (\<exists>r\<in>set ?w. s \<in> set (?step r))"
      unfolding page_walk_def by (rule walk_origin)
    moreover have "s \<notin> set (numbered key [] roots)"
    proof
      assume "s \<in> set (numbered key [] roots)"
      then have "root_of d (snd s)" using numbered_mem roots by blast
      then show False using p by (simp add: root_of_def reply_to_def)
    qed
    ultimately obtain r where r: "r \<in> set ?w" "s \<in> set (?step r)" by blast
    have "c_ID (snd r) = c_ID c" using mem[OF r(2)] p by (simp add: replies_of_mem reply_to_def)
    then have same: "snd r = snd t"
      using page_row[OF inv roots r(1)] page_row[OF inv roots t(1)] t(2)
        same_id[OF store_inv_ids[OF inv], of "snd r" "snd t"] by simp
    have "inj_on snd (set ?w)"
      using page_distinct[OF inv roots assms(3)] by (simp add: distinct_map)
    then have "r = t" using same r(1) t(1) by (rule inj_onD)
    then show ?thesis using r(2) by simp
  qed
  moreover have "s \<in> set ?w \<and> c_ParentID (snd s) = reply_to (c_ID c)" if "s \<in> set (?step t)" for s
    using page_replies[OF inv roots t(1) that] mem[OF that] t(2) by (simp add: replies_of_mem)
  ultimately have "set [s \<leftarrow> ?w. c_ParentID (snd s) = reply_to (c_ID c)] = set (?step t)"
    unfolding set_filter by blast
  moreover have "sorted_wrt (\<lambda>r s. fst r < fst s) (?step t)"
    by (simp add: ranked_replies_def numbered_increasing)
  ultimately have "[s \<leftarrow> ?w. c_ParentID (snd s) = reply_to (c_ID c)] = ?step t"
    by (intro same_sorted sorted_wrt_filter[OF page_increasing])
  then show ?thesis
    using t(2) numbered_snd[of key "fst t"] by (simp add: filter_map o_def ranked_replies_def)
qed

lemma page_roots:
  assumes inv: "store_inv_from g cfg d" and roots: "\<forall>c\<in>set roots. root_of d c"
    and sorted: "sort_key key roots = roots"
  shows "[x \<leftarrow> map snd (page_walk key d roots). \<not> i8_Valid (c_ParentID x)] = roots"
proof -
  let ?w = "page_walk key d roots"
  let ?rows = "numbered key [] roots"
  have "s \<in> set ?rows" if s: "s \<in> set ?w" and "\<not> i8_Valid (c_ParentID (snd s))" for s
  proof -
    have "snd s \<notin> set (replies_of d (snd r))" for r
      using that(2) by (auto simp: replies_of_mem reply_to_def)
    then have "s \<notin> set (ranked_replies key d r)" for r
      using numbered_mem unfolding ranked_replies_def by blast
    then show ?thesis using walk_origin s unfolding page_walk_def by blast
  qed
  moreover have "s \<in> set ?w \<and> \<not> i8_Valid (c_ParentID (snd s))" if "s \<in> set ?rows" for s
  proof -
    have "root_of d (snd s)" using numbered_mem[OF that] roots by blast
    moreover from this have "0 < length (db_comments d)" by (auto simp: root_of_def)
    ultimately show ?thesis using walk_rows that by (simp add: root_of_def page_walk_def)
  qed
  ultimately have "set [s \<leftarrow> ?w. \<not> i8_Valid (c_ParentID (snd s))] = set ?rows" by auto
  then have "[s \<leftarrow> ?w. \<not> i8_Valid (c_ParentID (snd s))] = ?rows"
    using same_sorted sorted_wrt_filter[OF page_increasing] numbered_increasing by blast
  then show ?thesis
    using sorted numbered_snd[of key "[]" roots] by (simp add: filter_map o_def)
qed

section \<open>Authors\<close>

lemma filter_unique: "distinct (map f xs) \<Longrightarrow> x \<in> set xs \<Longrightarrow> [y \<leftarrow> xs. f y = f x] = [x]"
  by (induction xs) (auto simp: filter_empty_conv image_iff)

lemma author_exists:
  assumes inv: "store_inv_from g cfg d" and acc: "accounts_wf d" and c: "c \<in> set (db_comments d)"
  shows "\<exists>u\<in>set (db_users d). u_ID u = c_UserID c \<and> join_author d c = [with_author u c]"
proof -
  have "c_UserID c \<in> user_ids d"
    using inv c by (simp add: store_inv_def store_wf_def comments_wf_def comment_ok_def)
  then obtain u where u: "u \<in> set (db_users d)" "u_ID u = c_UserID c" by (auto simp: user_ids_def)
  have "distinct (map u_ID (db_users d))" using acc by (simp add: accounts_wf_def users_wf_def)
  then have "[x \<leftarrow> db_users d. u_ID x = c_UserID c] = [u]"
    using filter_unique[of u_ID "db_users d" u] u by simp
  then show ?thesis using u by (auto simp: join_author_def)
qed

text \<open>\<open>authored d cs ws\<close>: the rows \<open>ws\<close> are the comments \<open>cs\<close>, each with the user who wrote it.\<close>

definition authored :: "db \<Rightarrow> Comment list \<Rightarrow> CommentsWithAuthor list \<Rightarrow> bool" where
  "authored d = list_all2 (\<lambda>c w. \<exists>u\<in>set (db_users d). u_ID u = c_UserID c \<and> w = with_author u c)"

lemma authored_join:
  assumes "store_inv_from g cfg d" and "accounts_wf d" and "set cs \<subseteq> set (db_comments d)"
  shows "authored d cs (concat (map (join_author d) cs))"
  using assms(3)
proof (induction cs)
  case (Cons c cs)
  then obtain u where "u \<in> set (db_users d)" "u_ID u = c_UserID c" "join_author d c = [with_author u c]"
    using author_exists[OF assms(1,2)] by auto
  then show ?case using Cons by (auto simp: authored_def)
qed (simp add: authored_def)

section \<open>The page that is asked for\<close>

definition order_key :: "string \<Rightarrow> sort_key_of" where
  "order_key ord = (if ord = CommentOrderPopular then by_popularity
     else if ord = CommentOrderNewest then by_newest else by_oldest)"

lemma root_page_roots: "\<forall>c\<in>set (root_page key d post limit offset). root_of d c \<and> c_PostID c = post"
  unfolding root_page_def root_of_def by (auto dest!: in_set_takeD in_set_dropD)

lemma root_page_sorted: "sort_key key (root_page key d post limit offset) = root_page key d post limit offset"
  unfolding root_page_def
  by (rule sort_key_id_if_sorted) (simp flip: take_map drop_map add: sorted_wrt_take sorted_wrt_drop)

lemma root_page_distinct: "store_inv_from g cfg d \<Longrightarrow> distinct (root_page key d post limit offset)"
  using distinct_comments by (simp add: root_page_def)

text \<open>
  \<open>thread_page key d roots cs\<close>: \<open>cs\<close> is the page of \<open>roots\<close> in depth-first order with every
  reply below it, siblings in the order of \<open>key\<close>.
\<close>

definition thread_page :: "sort_key_of \<Rightarrow> db \<Rightarrow> Comment list \<Rightarrow> Comment list \<Rightarrow> bool" where
  "thread_page key d roots cs \<longleftrightarrow> set cs \<subseteq> set (db_comments d) \<and> distinct cs
     \<and> nested 0 null_int8 cs \<and> [x \<leftarrow> cs. \<not> i8_Valid (c_ParentID x)] = roots
     \<and> (\<forall>c\<in>set cs. [x \<leftarrow> cs. c_ParentID x = reply_to (c_ID c)] = sort_key key (replies_of d c))"

lemma get_comments_page:
  assumes inv: "store_inv_from g cfg d" and acc: "accounts_wf d" and "0 \<le> limit" and "0 \<le> offset"
  shows "\<exists>cs ws. get_comments key E post limit offset d = (Inr ws, d) \<and> authored d cs ws
     \<and> thread_page key d (root_page key d post limit offset) cs"
proof -
  let ?roots = "root_page key d post limit offset"
  let ?cs = "map snd (page_walk key d ?roots)"
  have roots: "\<forall>c\<in>set ?roots. root_of d c" using root_page_roots by blast
  have "get_comments key E post limit offset d = (Inr (concat (map (join_author d) ?cs)), d)"
    using assms(3,4) by (simp add: get_comments_def thread_rows_def rows_walk page_walk_def)
  moreover have cs: "set ?cs \<subseteq> set (db_comments d)" using page_row[OF inv roots] by auto
  moreover have "authored d ?cs (concat (map (join_author d) ?cs))"
    by (rule authored_join[OF inv acc cs])
  moreover have "thread_page key d ?roots ?cs"
    unfolding thread_page_def
    using cs page_distinct[OF inv roots root_page_distinct[OF inv]] page_nested[OF inv roots]
      page_roots[OF inv roots root_page_sorted]
      page_siblings[OF inv roots root_page_distinct[OF inv]] by blast
  ultimately show ?thesis by blast
qed

lemma bad_page_pg:
  "sql_kind (pg_error_of E ''2201X'' []) = KindInternal" "\<not> errors_Is_NoRows (pg_error_of E ''2201X'' [])"
  "sql_kind (pg_error_of E ''2201W'' []) = KindInternal" "\<not> errors_Is_NoRows (pg_error_of E ''2201W'' [])"
  by (simp_all add: sql_kind_def pg_error_of_def)

lemma QueryComments_key:
  assumes "quiet E" and "cq_Order q \<in> set CommentOrderMethods"
  shows "QueryComments E q d =
    (case get_comments (order_key (cq_Order q)) E (cq_PostID q) (cq_Limit q) (cq_Offset q) d of
       (Inl err, d1) \<Rightarrow> if errors_Is_NoRows err then (Inr [], d1)
         else (Inl (sqlError opQueryComments
                (no_details\<lparr>det_postID := Itoa (cq_PostID q), det_entity := entComment\<rparr>) err), d1)
     | (Inr rows, d1) \<Rightarrow> (Inr rows, d1))"
  using assms by (simp add: QueryComments_def ValidateCommentOrderMethod_def order_key_def
      getCommentsByPopularity_def getNewestComments_def getOldestComments_def quiet_query)

lemma query_comments_page:
  assumes "quiet E" and "store_inv_from g cfg d" and "accounts_wf d"
    and "cq_Order q \<in> set CommentOrderMethods" and "0 \<le> cq_Limit q" and "0 \<le> cq_Offset q"
  shows "\<exists>cs ws. QueryComments E q d = (Inr ws, d) \<and> authored d cs ws
    \<and> thread_page (order_key (cq_Order q)) d
        (root_page (order_key (cq_Order q)) d (cq_PostID q) (cq_Limit q) (cq_Offset q)) cs"
  using get_comments_page[OF assms(2,3,5,6), of "order_key (cq_Order q)" E "cq_PostID q"]
  by (auto simp: QueryComments_key[OF assms(1,4)])

text \<open>
  C11: On a consistent database \<open>QueryComments\<close> rejects an order it does not know as \<open>Invalid\<close>
  and a negative limit or offset as \<open>Internal\<close>. Otherwise it returns the page of the roots of the
  post in the order asked for and, whatever their depth, all the replies below them and nothing
  else: each row once, with its author, in depth-first order, the replies of every comment in
  the order asked for.
\<close>

theorem query_comments_outcome:
  assumes "quiet E" and "db_wf_from g cfg d"
  shows "if cq_Order q \<notin> set CommentOrderMethods then fails opQueryComments KindInvalid d (QueryComments E q d)
    else if cq_Offset q < 0 \<or> cq_Limit q < 0 then fails opQueryComments KindInternal d (QueryComments E q d)
    else \<exists>cs ws. QueryComments E q d = (Inr ws, d) \<and> authored d cs ws
      \<and> thread_page (order_key (cq_Order q)) d
          (root_page (order_key (cq_Order q)) d (cq_PostID q) (cq_Limit q) (cq_Offset q)) cs"
proof -
  have inv: "store_inv_from g cfg d" and acc: "accounts_wf d" using assms(2) by (simp_all add: db_wf_def)
  consider "cq_Order q \<notin> set CommentOrderMethods"
    | "cq_Order q \<in> set CommentOrderMethods" "cq_Offset q < 0 \<or> cq_Limit q < 0"
    | "cq_Order q \<in> set CommentOrderMethods" "0 \<le> cq_Limit q" "0 \<le> cq_Offset q" by linarith
  then show ?thesis
  proof cases
    case 1
    then show ?thesis by (simp add: QueryComments_def ValidateCommentOrderMethod_def)
  next
    case 2
    then show ?thesis
      by (auto simp: QueryComments_key[OF assms(1)] get_comments_def bad_page_pg)
  next
    case 3
    then show ?thesis
      using query_comments_page[OF assms(1) inv acc 3] by auto
  qed
qed

definition demo_page :: CommentQuery where
  "demo_page = \<lparr>cq_Order = CommentOrderPopular, cq_PostID = 10, cq_Limit = 5, cq_Offset = 0\<rparr>"

lemma demo_db_wf: "db_wf demo_cfg demo_db"
  using reachable_wf[OF demo_reachable(2) fresh_wf] by simp

lemma demo_page_ok:
  "cq_Order demo_page \<in> set CommentOrderMethods" "\<not> (cq_Offset demo_page < 0 \<or> cq_Limit demo_page < 0)"
  by code_simp+

lemma query_comments_outcome_witness:
  "fails opQueryComments KindInvalid demo_db (QueryComments calm (demo_page\<lparr>cq_Order := ''top''\<rparr>) demo_db)
   \<and> fails opQueryComments KindInternal demo_db (QueryComments calm (demo_page\<lparr>cq_Limit := -1\<rparr>) demo_db)
   \<and> (\<exists>cs ws. QueryComments calm demo_page demo_db = (Inr ws, demo_db) \<and> authored demo_db cs ws)"
proof -
  have "''top'' \<notin> set CommentOrderMethods" by code_simp
  then show ?thesis
    using query_comments_outcome[OF calm_quiet demo_db_wf, of "demo_page\<lparr>cq_Order := ''top''\<rparr>"]
      query_comments_outcome[OF calm_quiet demo_db_wf, of "demo_page\<lparr>cq_Limit := -1\<rparr>"]
      query_comments_outcome[OF calm_quiet demo_db_wf, of demo_page] demo_page_ok
    by (simp split: if_splits) blast
qed

lemma demo_rows:
  "(case fst (QueryComments calm demo_page demo_db) of Inl err \<Rightarrow> []
      | Inr ws \<Rightarrow> map (\<lambda>w. (c_ID w, w_UserDisplayName w)) ws) = [(1, ''ann''), (2, ''bob'')]"
  by code_simp

end
