(* ===== verification/Api_Comments.thy ===== *)
theory Api_Comments
  imports Db_Thread
begin

text \<open>
  \<open>PrepareCommentTree\<close> (\<open>api/comments_utils.go\<close>): the tree of comments from the rows of a
  depth-first query. The nodes the loop allocates are a heap, a pointer is an index of it, and
  \<open>nil\<close> is \<open>None\<close>, so the list of roots, the stack and the replies of a node share nodes as the
  slices of pointers of the code do. A slice expression that panics is \<open>None\<close> of the whole
  computation; an error is \<open>Inl\<close>.
\<close>

section \<open>The loop\<close>

type_synonym pointer = "nat option"

record CommentNode =
  cn_Comment :: CommentsWithAuthor
  cn_Replies :: "pointer list"

record tree_state =
  ts_heap :: "CommentNode list"
  ts_result :: "pointer list"
  ts_stack :: "pointer list"

definition bad_depth_jump :: "int \<Rightarrow> CommentsWithAuthor \<Rightarrow> int \<Rightarrow> go_error" where
  "bad_depth_jump i c n = Errorf (''bad depth jump at '' @ Itoa i @ '' (id='' @ Itoa (c_ID c) @ ''): ''
     @ Itoa (c_Depth c) @ '' > '' @ Itoa n) None"

definition corrupted_near :: "int \<Rightarrow> int \<Rightarrow> go_error" where
  "corrupted_near i d = Errorf (''corrupted data near index '' @ Itoa i @ '' at depth '' @ Itoa d) None"

text \<open>\<open>parent.Replies = append(parent.Replies, comment)\<close>\<close>

definition append_reply :: "CommentNode list \<Rightarrow> nat \<Rightarrow> pointer \<Rightarrow> CommentNode list option" where
  "append_reply h p c = do {
     node \<leftarrow> go_index h (int p);
     go_update h (int p) (node\<lparr>cn_Replies := cn_Replies node @ [c]\<rparr>) }"

definition tree_step :: "int \<Rightarrow> CommentsWithAuthor \<Rightarrow> tree_state \<Rightarrow> (go_error + tree_state) option" where
  "tree_step i c s =
     (let comment = Some (length (ts_heap s));
          h = ts_heap s @ [\<lparr>cn_Comment = c, cn_Replies = []\<rparr>];
          d = c_Depth c
      in if d = 0 then
           Some (Inr \<lparr>ts_heap = h, ts_result = ts_result s @ [comment], ts_stack = [comment]\<rparr>)
         else if len (ts_stack s) < d then Some (Inl (bad_depth_jump i c (len (ts_stack s))))
         else do {
           parent \<leftarrow> go_index (ts_stack s) (d - 1);
           (case parent of
              None \<Rightarrow> Some (Inl (corrupted_near i d))
            | Some p \<Rightarrow> do {
                h \<leftarrow> append_reply h p comment;
                if d = len (ts_stack s) then
                  Some (Inr (s\<lparr>ts_heap := h, ts_stack := ts_stack s @ [comment]\<rparr>))
                else do {
                  kept \<leftarrow> go_slice (ts_stack s) 0 d;
                  Some (Inr (s\<lparr>ts_heap := h, ts_stack := kept @ [comment]\<rparr>)) } }) })"

fun tree_loop ::
  "int \<Rightarrow> CommentsWithAuthor list \<Rightarrow> tree_state \<Rightarrow> (go_error + tree_state) option" where
  "tree_loop i [] s = Some (Inr s)"
| "tree_loop i (c # cs) s =
     (case tree_step i c s of
        None \<Rightarrow> None
      | Some (Inl err) \<Rightarrow> Some (Inl err)
      | Some (Inr s1) \<Rightarrow> tree_loop (i + 1) cs s1)"

text \<open>\<open>make\<close> panics on a negative capacity; the capacity is not seen otherwise.\<close>

definition PrepareCommentTree ::
  "CommentsWithAuthor list \<Rightarrow> int \<Rightarrow> (go_error + pointer list \<times> CommentNode list) option" where
  "PrepareCommentTree cs n_roots =
     (if n_roots < 0 then None
      else case tree_loop 0 cs \<lparr>ts_heap = [], ts_result = [], ts_stack = []\<rparr> of
        None \<Rightarrow> None
      | Some (Inl err) \<Rightarrow> Some (Inl err)
      | Some (Inr s) \<Rightarrow> Some (Inr (ts_result s, ts_heap s)))"

section \<open>Where a comment belongs\<close>

text \<open>\<open>above_at cs j e\<close>: the closest row before \<open>j\<close> at depth \<open>e\<close>.\<close>

definition above_at :: "CommentsWithAuthor list \<Rightarrow> nat \<Rightarrow> int \<Rightarrow> nat" where
  "above_at cs j e = last [i \<leftarrow> [0..<j]. c_Depth (cs ! i) = e]"

definition roots_upto :: "CommentsWithAuthor list \<Rightarrow> nat \<Rightarrow> pointer list" where
  "roots_upto cs k = map Some [j \<leftarrow> [0..<k]. c_Depth (cs ! j) = 0]"

definition replies_upto :: "CommentsWithAuthor list \<Rightarrow> nat \<Rightarrow> nat \<Rightarrow> pointer list" where
  "replies_upto cs k i = map Some [j \<leftarrow> [0..<k]. c_Depth (cs ! j) \<noteq> 0
     \<and> above_at cs j (c_Depth (cs ! j) - 1) = i]"

text \<open>The depth the next row may have at most.\<close>

definition depth_bound :: "CommentsWithAuthor list \<Rightarrow> nat \<Rightarrow> int" where
  "depth_bound cs j = (if j = 0 then 0 else c_Depth (cs ! (j - 1)) + 1)"

definition jumps :: "CommentsWithAuthor list \<Rightarrow> nat list" where
  "jumps cs = [j \<leftarrow> [0..<length cs]. depth_bound cs j < c_Depth (cs ! j)]"

lemma above_at_Suc: "above_at cs (Suc j) e = (if c_Depth (cs ! j) = e then j else above_at cs j e)"
  by (simp add: above_at_def)

lemma roots_upto_Suc: "roots_upto cs (Suc k) = roots_upto cs k @ (if c_Depth (cs ! k) = 0 then [Some k] else [])"
  by (simp add: roots_upto_def)

lemma replies_upto_Suc: "replies_upto cs (Suc k) i = replies_upto cs k i
    @ (if c_Depth (cs ! k) \<noteq> 0 \<and> above_at cs k (c_Depth (cs ! k) - 1) = i then [Some k] else [])"
  by (simp add: replies_upto_def)

section \<open>The invariant of the loop\<close>

definition tree_inv :: "CommentsWithAuthor list \<Rightarrow> nat \<Rightarrow> tree_state \<Rightarrow> bool" where
  "tree_inv cs k s \<longleftrightarrow>
     length (ts_heap s) = k
     \<and> (\<forall>i<k. ts_heap s ! i = \<lparr>cn_Comment = cs ! i, cn_Replies = replies_upto cs k i\<rparr>)
     \<and> (\<forall>i\<ge>k. replies_upto cs k i = [])
     \<and> ts_result s = roots_upto cs k
     \<and> len (ts_stack s) = depth_bound cs k
     \<and> (\<forall>e<length (ts_stack s). ts_stack s ! e = Some (above_at cs k (int e))
          \<and> above_at cs k (int e) < k)"

lemma tree_inv_start: "tree_inv cs 0 \<lparr>ts_heap = [], ts_result = [], ts_stack = []\<rparr>"
  by (simp add: tree_inv_def replies_upto_def roots_upto_def depth_bound_def)

lemma append_reply_Some:
  "p < length h \<Longrightarrow> append_reply h p c = Some (h[p := (h ! p)\<lparr>cn_Replies := cn_Replies (h ! p) @ [c]\<rparr>])"
  by (simp add: append_reply_def go_index_def go_update_def len_def)

text \<open>The stack after a row at depth \<open>d\<close>: the rows above it, and the row.\<close>

lemma stack_inv:
  assumes "\<forall>e<length st. st ! e = Some (above_at cs k (int e)) \<and> above_at cs k (int e) < k"
    and "c_Depth (cs ! k) = int d" and "d \<le> length st"
  shows "let st1 = take d st @ [Some k] in len st1 = depth_bound cs (Suc k)
    \<and> (\<forall>e<length st1. st1 ! e = Some (above_at cs (Suc k) (int e)) \<and> above_at cs (Suc k) (int e) < Suc k)"
  using assms by (auto simp: Let_def len_def depth_bound_def above_at_Suc nth_append less_Suc_eq)

lemma tree_step_root:
  assumes inv: "tree_inv cs k s" and "k < length cs" and d: "c_Depth (cs ! k) = 0"
  shows "\<exists>s1. tree_step (int k) (cs ! k) s = Some (Inr s1) \<and> tree_inv cs (Suc k) s1"
proof -
  have "replies_upto cs (Suc k) i = replies_upto cs k i" for i
    by (simp add: replies_upto_Suc d)
  then show ?thesis
    using inv d stack_inv[of "ts_stack s" cs k 0]
    by (auto simp: tree_step_def tree_inv_def roots_upto_Suc nth_append less_Suc_eq Let_def)
qed

lemma tree_step_reply:
  assumes inv: "tree_inv cs k s" and d: "0 < c_Depth (cs ! k)" "c_Depth (cs ! k) \<le> depth_bound cs k"
  shows "\<exists>s1. tree_step (int k) (cs ! k) s = Some (Inr s1) \<and> tree_inv cs (Suc k) s1"
proof -
  define n where "n = nat (c_Depth (cs ! k))"
  have n: "c_Depth (cs ! k) = int n" "0 < n" "n \<le> length (ts_stack s)"
    using inv d by (auto simp: n_def tree_inv_def len_def)
  define p where "p = above_at cs k (c_Depth (cs ! k) - 1)"
  have p: "ts_stack s ! (n - 1) = Some p" "p < k"
    using inv n(2,3) n(1)[symmetric] unfolding tree_inv_def p_def
    by (auto simp: of_nat_diff dest!: spec[of _ "n - 1"])
  let ?h = "ts_heap s @ [\<lparr>cn_Comment = cs ! k, cn_Replies = []\<rparr>]"
  let ?h1 = "?h[p := (?h ! p)\<lparr>cn_Replies := cn_Replies (?h ! p) @ [Some k]\<rparr>]"
  let ?s1 = "s\<lparr>ts_heap := ?h1, ts_stack := take n (ts_stack s) @ [Some k]\<rparr>"
  have len: "length (ts_heap s) = k" using inv by (simp add: tree_inv_def)
  have idx: "go_index (ts_stack s) (c_Depth (cs ! k) - 1) = Some (Some p)"
    using n p(1) by (simp add: go_index_def len_def nat_diff_distrib)
  have "append_reply ?h p (Some k) = Some ?h1"
    using append_reply_Some[of p ?h "Some k"] p(2) len by simp
  then have "tree_step (int k) (cs ! k) s = Some (Inr ?s1)"
    using n len idx by (simp add: tree_step_def Let_def go_slice_def len_def)
  moreover have "replies_upto cs (Suc k) i = replies_upto cs k i @ (if i = p then [Some k] else [])" for i
    using d(1) by (simp add: replies_upto_Suc p_def)
  then have "tree_inv cs (Suc k) ?s1"
    using inv p(2) len d(1) stack_inv[of "ts_stack s" cs k n] n
    unfolding tree_inv_def roots_upto_Suc
    by (auto simp: nth_append nth_list_update less_Suc_eq Let_def)
  ultimately show ?thesis by blast
qed

lemma tree_step_jump:
  assumes "tree_inv cs k s" and "depth_bound cs k < c_Depth (cs ! k)" and "0 \<le> depth_bound cs k"
  shows "tree_step (int k) (cs ! k) s = Some (Inl (bad_depth_jump (int k) (cs ! k) (depth_bound cs k)))"
  using assms by (simp add: tree_step_def tree_inv_def Let_def)

section \<open>The result\<close>

lemma tree_step_ok:
  assumes "tree_inv cs k s" and "k < length cs" and "0 \<le> c_Depth (cs ! k)" and "c_Depth (cs ! k) \<le> depth_bound cs k"
  shows "\<exists>s1. tree_step (int k) (cs ! k) s = Some (Inr s1) \<and> tree_inv cs (Suc k) s1"
  using assms(3,4) tree_step_root[OF assms(1,2)] tree_step_reply[OF assms(1)]
  by (cases "c_Depth (cs ! k) = 0") simp_all

lemma tree_loop_ok:
  assumes "tree_inv cs k s" and "k \<le> length cs" and "\<forall>c\<in>set cs. 0 \<le> c_Depth c"
    and "\<forall>j. k \<le> j \<and> j < length cs \<longrightarrow> c_Depth (cs ! j) \<le> depth_bound cs j"
  shows "\<exists>s1. tree_loop (int k) (drop k cs) s = Some (Inr s1) \<and> tree_inv cs (length cs) s1"
  using assms
proof (induction "length cs - k" arbitrary: k s)
  case 0
  then show ?case by simp
next
  case (Suc n)
  then have k: "k < length cs" by simp
  obtain s1 where s1: "tree_step (int k) (cs ! k) s = Some (Inr s1)" "tree_inv cs (Suc k) s1"
    using tree_step_ok[OF Suc.prems(1) k] Suc.prems(3,4) k by auto
  have "\<exists>s2. tree_loop (int (Suc k)) (drop (Suc k) cs) s1 = Some (Inr s2) \<and> tree_inv cs (length cs) s2"
    using Suc.hyps(1)[of "Suc k" s1] Suc.hyps(2) Suc.prems(3,4) s1(2) k by auto
  then show ?case using s1(1) by (simp add: Cons_nth_drop_Suc[OF k, symmetric] add.commute)
qed

lemma tree_loop_jump:
  assumes "tree_inv cs k s" and "k \<le> i" and "i < length cs" and "\<forall>c\<in>set cs. 0 \<le> c_Depth c"
    and "\<forall>j. k \<le> j \<and> j < i \<longrightarrow> c_Depth (cs ! j) \<le> depth_bound cs j"
    and jump: "depth_bound cs i < c_Depth (cs ! i)"
  shows "tree_loop (int k) (drop k cs) s = Some (Inl (bad_depth_jump (int i) (cs ! i) (depth_bound cs i)))"
  using assms(1-5)
proof (induction "i - k" arbitrary: k s)
  case 0
  then have [simp]: "k = i" by simp
  have "0 \<le> depth_bound cs i" using 0 by (simp add: depth_bound_def)
  then show ?case
    using tree_step_jump[OF _ jump] 0 by (simp add: Cons_nth_drop_Suc[OF assms(3), symmetric])
next
  case (Suc n)
  then have k: "k < length cs" "k < i" by simp_all
  obtain s1 where s1: "tree_step (int k) (cs ! k) s = Some (Inr s1)" "tree_inv cs (Suc k) s1"
    using tree_step_ok[OF Suc.prems(1) k(1)] Suc.prems(4,5) k by auto
  have "tree_loop (int (Suc k)) (drop (Suc k) cs) s1
      = Some (Inl (bad_depth_jump (int i) (cs ! i) (depth_bound cs i)))"
    using Suc.hyps(1)[of "Suc k" s1] Suc.hyps(2) Suc.prems s1(2) k by auto
  then show ?case using s1(1) by (simp add: Cons_nth_drop_Suc[OF k(1), symmetric] add.commute)
qed

text \<open>The tree that the depths describe, as a heap: node \<open>i\<close> is row \<open>i\<close>.\<close>

definition tree_heap :: "CommentsWithAuthor list \<Rightarrow> CommentNode list" where
  "tree_heap cs = map (\<lambda>i. \<lparr>cn_Comment = cs ! i, cn_Replies = replies_upto cs (length cs) i\<rparr>) [0..<length cs]"

lemma prepare_comment_tree_eq:
  assumes "0 \<le> n_roots" and "\<forall>c\<in>set cs. 0 \<le> c_Depth c"
  shows "PrepareCommentTree cs n_roots =
    (case jumps cs of
       [] \<Rightarrow> Some (Inr (roots_upto cs (length cs), tree_heap cs))
     | i # _ \<Rightarrow> Some (Inl (bad_depth_jump (int i) (cs ! i) (depth_bound cs i))))"
proof (cases "jumps cs")
  case Nil
  then have "\<forall>j. 0 \<le> j \<and> j < length cs \<longrightarrow> c_Depth (cs ! j) \<le> depth_bound cs j"
    by (auto simp: jumps_def filter_empty_conv not_less)
  then obtain s where s: "tree_loop 0 cs \<lparr>ts_heap = [], ts_result = [], ts_stack = []\<rparr> = Some (Inr s)"
      "tree_inv cs (length cs) s"
    using tree_loop_ok[OF tree_inv_start, of cs] assms(2) by auto
  have "ts_heap s = tree_heap cs"
    using s(2) by (intro nth_equalityI) (simp_all add: tree_inv_def tree_heap_def)
  then show ?thesis using s assms(1) Nil by (simp add: PrepareCommentTree_def tree_inv_def)
next
  case (Cons i js)
  then have i: "i < length cs" "depth_bound cs i < c_Depth (cs ! i)"
    by (auto simp: jumps_def dest!: arg_cong[where f = set] filter_eq_ConsD)
  have "c_Depth (cs ! j) \<le> depth_bound cs j" if "j < i" for j
  proof (rule ccontr)
    assume "\<not> ?thesis"
    then have "j \<in> set (jumps cs)" using that i by (simp add: jumps_def)
    moreover have "sorted_wrt (<) (jumps cs)" by (simp add: jumps_def sorted_wrt_filter)
    ultimately show False using that Cons by auto
  qed
  then have "tree_loop 0 cs \<lparr>ts_heap = [], ts_result = [], ts_stack = []\<rparr>
      = Some (Inl (bad_depth_jump (int i) (cs ! i) (depth_bound cs i)))"
    using tree_loop_jump[OF tree_inv_start _ i(1) assms(2) _ i(2)] by simp
  then show ?thesis using assms(1) Cons by (simp add: PrepareCommentTree_def)
qed

text \<open>
  C27: For rows with no negative depth and a capacity that is not negative,
  \<open>PrepareCommentTree\<close> never panics. It fails exactly when some row is more than one level
  below the row before it, or the first is no root, and the error names the first such row.
  Otherwise the roots are the rows of depth 0 in order, and every other row is a reply of the
  closest row before it that is one level up, replies in the order of the rows.
\<close>

theorem prepare_comment_tree_outcome:
  assumes "0 \<le> n_roots" and "\<forall>c\<in>set cs. 0 \<le> c_Depth c"
  shows "PrepareCommentTree cs n_roots =
    (case jumps cs of
       [] \<Rightarrow> Some (Inr (roots_upto cs (length cs), tree_heap cs))
     | i # _ \<Rightarrow> Some (Inl (bad_depth_jump (int i) (cs ! i) (depth_bound cs i))))"
  by (rule prepare_comment_tree_eq[OF assms])

text \<open>Two replies to a root, and a reply whose parent is missing.\<close>

definition demo_row :: "int \<Rightarrow> int \<Rightarrow> CommentsWithAuthor" where
  "demo_row i n = \<lparr>c_ID = i, c_UserID = 1, c_PostID = 1, c_ParentID = null_int8, c_Depth = n, c_Upvotes = 0,
     c_Downvotes = 0, c_Body = [], c_CreatedAt = 0, c_LastModifiedAt = 0, c_IsDeleted = False,
     c_DeletedAt = 0, c_Popularity = null_int8, w_UserDisplayName = [], w_UserProfileImgUrl = null_text\<rparr>"

lemma prepare_comment_tree_outcome_witness:
  "map_option (map_sum id (\<lambda>(ps, h). (ps, map cn_Replies h))) (PrepareCommentTree [demo_row 1 0, demo_row 2 1, demo_row 3 1] 1)
     = Some (Inr ([Some 0], [[Some 1, Some 2], [], []]))
   \<and> PrepareCommentTree [demo_row 1 0, demo_row 2 2] 1
     = Some (Inl (bad_depth_jump 1 (demo_row 2 2) 1))"
proof -
  let ?a = "[demo_row 1 0, demo_row 2 1, demo_row 3 1]" and ?b = "[demo_row 1 0, demo_row 2 2]"
  have depths: "\<forall>c\<in>set ?a. 0 \<le> c_Depth c" "\<forall>c\<in>set ?b. 0 \<le> c_Depth c"
    by (simp_all add: demo_row_def)
  have "jumps ?a = []" "jumps ?b = [1]" "depth_bound ?b 1 = 1" "?b ! 1 = demo_row 2 2"
      "(roots_upto ?a (length ?a), map cn_Replies (tree_heap ?a)) = ([Some 0], [[Some 1, Some 2], [], []])"
    by code_simp+
  then show ?thesis
    using prepare_comment_tree_outcome[OF _ depths(1), of 1] prepare_comment_tree_outcome[OF _ depths(2), of 1]
    by simp
qed

end
