(* ===== verification/Api_Threads.thy ===== *)
theory Api_Threads
  imports Api_Comments
begin

text \<open>
  The tree that \<open>PrepareCommentTree\<close> builds from a page of \<open>QueryComments\<close>: the replies of a
  node are exactly the rows that name its comment as their parent.
\<close>

section \<open>Rows in depth-first order\<close>

lemma nested_depth: "nested k p cs \<Longrightarrow> c \<in> set cs \<Longrightarrow> k \<le> c_Depth c"
  by (induction arbitrary: c rule: nested.induct) fastforce+

lemma nested_hd: "nested k p cs \<Longrightarrow> cs \<noteq> [] \<Longrightarrow> c_Depth (hd cs) = k"
  by (cases rule: nested.cases) auto

lemma nested_gentle:
  assumes "nested k p cs" and "Suc j < length cs"
  shows "c_Depth (cs ! Suc j) \<le> c_Depth (cs ! j) + 1"
  using assms
proof (induction arbitrary: j rule: nested.induct)
  case (nested_Cons c k p below rest)
  let ?m = "length below"
  have low: "k \<le> c_Depth x" if "x \<in> set (c # below)" for x
    using that nested_Cons.hyps(1) nested_depth[OF nested_Cons.hyps(3)] by fastforce
  have hd: "c_Depth (xs ! 0) = n" if "nested n q xs" "0 < length xs" for n q and xs :: "'a Comment_scheme list"
    using nested_hd[OF that(1)] that(2) by (simp add: hd_conv_nth)
  show ?case
  proof (cases j)
    case 0
    then show ?thesis
      using nested_Cons.prems nested_Cons.hyps(1) hd[OF nested_Cons.hyps(3)] hd[OF nested_Cons.hyps(4)]
      by (cases below) auto
  next
    case (Suc i)
    consider "Suc i < ?m" | "Suc i = ?m" | "?m \<le> i" by linarith
    then show ?thesis
    proof cases
      case 1
      then show ?thesis using nested_Cons.IH(1)[of i] Suc by (simp add: nth_append)
    next
      case 2
      then have "c_Depth (rest ! 0) = k"
        using nested_Cons.prems Suc hd[OF nested_Cons.hyps(4)] by simp
      moreover have "i < ?m" using 2 by simp
      then have "k \<le> c_Depth (below ! i)" "(c # below @ rest) ! j = below ! i"
        using low[of "below ! i"] by (simp_all add: Suc nth_append)
      moreover have "(c # below @ rest) ! Suc j = rest ! 0" using 2 by (simp add: Suc nth_append)
      ultimately show ?thesis by simp
    next
      case 3
      then show ?thesis
        using nested_Cons.IH(2)[of "i - ?m"] nested_Cons.prems Suc by (simp add: nth_append Suc_diff_le)
    qed
  qed
qed simp

text \<open>\<open>closest cs j e a\<close>: the last row before \<open>j\<close> at depth \<open>e\<close> is \<open>a\<close>.\<close>

definition closest :: "'a Comment_scheme list \<Rightarrow> nat \<Rightarrow> int \<Rightarrow> nat \<Rightarrow> bool" where
  "closest cs j e a \<longleftrightarrow> a < j \<and> c_Depth (cs ! a) = e \<and> (\<forall>i. a < i \<and> i < j \<longrightarrow> c_Depth (cs ! i) \<noteq> e)"

lemma closest_above_at:
  assumes "closest cs j e a"
  shows "above_at cs j e = a"
proof -
  have "[i \<leftarrow> [0..<j]. c_Depth (cs ! i) = e] = [i \<leftarrow> [0..<a]. c_Depth (cs ! i) = e] @ [a]"
  proof -
    have "[0..<j] = [0..<a] @ [a] @ [Suc a..<j]"
      using assms upt_add_eq_append[of 0 a "j - a"] by (simp add: closest_def upt_conv_Cons)
    moreover have "[i \<leftarrow> [Suc a..<j]. c_Depth (cs ! i) = e] = []"
      using assms by (auto simp: closest_def filter_empty_conv)
    ultimately show ?thesis using assms by (simp add: closest_def)
  qed
  then show ?thesis by (simp add: above_at_def)
qed

lemma nested_parent:
  assumes "nested k p cs" and "j < length cs"
  shows "if c_Depth (cs ! j) = k then c_ParentID (cs ! j) = p
    else \<exists>a. closest cs j (c_Depth (cs ! j) - 1) a \<and> c_ParentID (cs ! j) = reply_to (c_ID (cs ! a))"
  using assms
proof (induction arbitrary: j rule: nested.induct)
  case (nested_Cons c k p below rest)
  let ?cs = "c # below @ rest"
  let ?m = "length below"
  have deep: "k < c_Depth x" if "x \<in> set below" for x
    using nested_depth[OF nested_Cons.hyps(3) that] by simp
  consider "j = 0" | i where "j = Suc i" "i < ?m" | i where "j = Suc (?m + i)" "i < length rest"
    using nested_Cons.prems by (cases j) (auto, metis add_diff_inverse_nat nat_add_left_cancel_less)
  then show ?case
  proof cases
    case 1
    then show ?thesis using nested_Cons.hyps(1,2) by simp
  next
    case (2 i)
    show ?thesis
    proof (cases "c_Depth (below ! i) = k + 1")
      case True
      have "c_Depth (?cs ! x) \<noteq> k" if x: "0 < x" "x < j" for x
      proof -
        have "x - 1 < ?m" using x 2 by simp
        then have "?cs ! x = below ! (x - 1)" "k < c_Depth (below ! (x - 1))"
          using x(1) deep by (simp_all add: nth_append nth_Cons')
        then show ?thesis by simp
      qed
      then have "closest ?cs j k 0" using 2 nested_Cons.hyps(1) by (simp add: closest_def)
      then show ?thesis
        using nested_Cons.IH(1)[OF 2(2)] True 2 by (auto simp: nth_append intro!: exI[of _ 0])
    next
      case False
      then obtain a where a: "closest below i (c_Depth (below ! i) - 1) a"
          "c_ParentID (below ! i) = reply_to (c_ID (below ! a))"
        using nested_Cons.IH(1)[OF 2(2)] by auto
      have "k + 1 \<le> c_Depth (below ! a)" using deep[of "below ! a"] a(1) 2(2) by (simp add: closest_def)
      then have "closest ?cs j (c_Depth (below ! i) - 1) (Suc a)"
        using a(1) 2 by (auto simp: closest_def nth_append less_Suc_eq_0_disj nth_Cons')
      then show ?thesis
        using a 2 deep[of "below ! i"] by (auto simp: nth_append closest_def intro!: exI[of _ "Suc a"])
    qed
  next
    case (3 i)
    have at: "?cs ! j = rest ! i" using 3 by (simp add: nth_append)
    show ?thesis
    proof (cases "c_Depth (rest ! i) = k")
      case True
      then show ?thesis using nested_Cons.IH(2)[OF 3(2)] at by simp
    next
      case False
      then obtain a where a: "closest rest i (c_Depth (rest ! i) - 1) a"
          "c_ParentID (rest ! i) = reply_to (c_ID (rest ! a))"
        using nested_Cons.IH(2)[OF 3(2)] by auto
      have "c_Depth (?cs ! x) \<noteq> c_Depth (rest ! i) - 1" if x: "Suc (?m + a) < x" "x < j" for x
      proof -
        obtain y where y: "x = Suc (?m + y)" using x(1) le_Suc_ex[of "Suc ?m" x] by auto
        then show ?thesis using a(1) x 3 by (simp add: closest_def nth_append)
      qed
      then have "closest ?cs j (c_Depth (rest ! i) - 1) (Suc (?m + a))"
        using a(1) 3 by (simp add: closest_def nth_append)
      then show ?thesis
        using a(2) at False 3(2) a(1)
        by (auto simp: nth_append closest_def intro!: exI[of _ "Suc (?m + a)"])
    qed
  qed
qed simp

section \<open>Rows with their authors\<close>

lemma with_author_simps [simp]:
  "c_ID (with_author u c) = c_ID c" "c_Depth (with_author u c) = c_Depth c"
  "c_ParentID (with_author u c) = c_ParentID c" "Comment.truncate (with_author u c) = c"
  by (simp_all add: with_author_def Comment.defs)

lemma authored_rows:
  assumes "authored d cs ws"
  shows "map c_ID ws = map c_ID cs" "map c_ParentID ws = map c_ParentID cs"
    "map Comment.truncate ws = cs" "length ws = length cs"
  using assms unfolding authored_def by (induction rule: list_all2_induct) auto

lemma nested_authored:
  assumes "nested k p cs" and "authored d cs ws"
  shows "nested k p ws"
  using assms
proof (induction arbitrary: ws rule: nested.induct)
  case (nested_Nil k p)
  then show ?case by (simp add: authored_def nested.nested_Nil)
next
  case (nested_Cons c k p below rest)
  then obtain u ws1 ws2 where ws: "ws = with_author u c # ws1 @ ws2" "authored d below ws1"
      "authored d rest ws2"
    by (auto simp: authored_def list_all2_Cons1 list_all2_append1)
  show ?case unfolding ws(1) by (rule nested.nested_Cons) (use nested_Cons ws(2,3) in simp_all)
qed

section \<open>The tree of a page\<close>

lemma page_rows_jumps:
  assumes "nested 0 p ws"
  shows "jumps ws = []" "\<forall>c\<in>set ws. 0 \<le> c_Depth c"
proof -
  have "c_Depth (ws ! j) \<le> depth_bound ws j" if j: "j < length ws" for j
  proof (cases j)
    case 0
    have "c_Depth (hd ws) = 0" using nested_hd[OF assms] j by (cases ws) auto
    moreover have "hd ws = ws ! 0" using j by (simp add: hd_conv_nth flip: length_greater_0_conv)
    ultimately show ?thesis using 0 by (simp add: depth_bound_def)
  next
    case (Suc i)
    then show ?thesis using nested_gentle[OF assms, of i] j by (simp add: depth_bound_def)
  qed
  then show "jumps ws = []" by (auto simp: jumps_def filter_empty_conv not_less)
  show "\<forall>c\<in>set ws. 0 \<le> c_Depth c" using nested_depth[OF assms] by blast
qed

lemma page_tree:
  assumes "nested 0 p ws" and "0 \<le> n"
  shows "PrepareCommentTree ws n = Some (Inr (roots_upto ws (length ws), tree_heap ws))"
  using prepare_comment_tree_eq[OF assms(2) page_rows_jumps(2)[OF assms(1)]] page_rows_jumps(1)[OF assms(1)]
  by simp

lemma page_parent:
  assumes nest: "nested 0 null_int8 ws" and ids: "distinct (map c_ID ws)" and i: "i < length ws" and j: "j < length ws"
  shows "(c_Depth (ws ! j) \<noteq> 0 \<and> above_at ws j (c_Depth (ws ! j) - 1) = i)
     = (c_ParentID (ws ! j) = reply_to (c_ID (ws ! i)))"
proof (cases "c_Depth (ws ! j) = 0")
  case True
  then show ?thesis using nested_parent[OF nest j] by (simp add: reply_to_def null_int8_def)
next
  case False
  then obtain a where a: "closest ws j (c_Depth (ws ! j) - 1) a" "c_ParentID (ws ! j) = reply_to (c_ID (ws ! a))"
    using nested_parent[OF nest j] by auto
  have "a < length ws" using a(1) j by (simp add: closest_def)
  then have "c_ID (ws ! a) = c_ID (ws ! i) \<longleftrightarrow> a = i"
    using ids i nth_eq_iff_index_eq[OF ids, of a i] by simp
  then show ?thesis using False a closest_above_at[OF a(1)] by (auto simp: reply_to_def)
qed

lemma page_depth0:
  assumes nest: "nested 0 null_int8 ws" and j: "j < length ws"
  shows "c_Depth (ws ! j) = 0 \<longleftrightarrow> \<not> i8_Valid (c_ParentID (ws ! j))"
  using nested_parent[OF nest j] by (auto simp: reply_to_def null_int8_def split: if_splits)

text \<open>The nodes a list of pointers leads to.\<close>

definition at_nodes :: "CommentNode list \<Rightarrow> pointer list \<Rightarrow> CommentsWithAuthor list" where
  "at_nodes h ps = map (\<lambda>p. cn_Comment (h ! the p)) ps"

lemma filter_upt: "map (\<lambda>j. xs ! j) [j \<leftarrow> [0..<length xs]. P (xs ! j)] = filter P xs"
  using filter_map[of P "\<lambda>j. xs ! j" "[0..<length xs]"] map_nth[of xs] by (simp add: o_def)

lemma tree_heap_nth: "i < length cs \<Longrightarrow> tree_heap cs ! i = \<lparr>cn_Comment = cs ! i, cn_Replies = replies_upto cs (length cs) i\<rparr>"
  by (simp add: tree_heap_def)

lemma at_nodes_upto: "at_nodes (tree_heap cs) (map Some [j \<leftarrow> [0..<length cs]. P j]) = map (\<lambda>j. cs ! j) [j \<leftarrow> [0..<length cs]. P j]"
  by (auto simp: at_nodes_def tree_heap_nth)

lemma page_tree_roots:
  assumes "nested 0 null_int8 ws"
  shows "at_nodes (tree_heap ws) (roots_upto ws (length ws)) = [w \<leftarrow> ws. \<not> i8_Valid (c_ParentID w)]"
proof -
  have "[j \<leftarrow> [0..<length ws]. c_Depth (ws ! j) = 0] = [j \<leftarrow> [0..<length ws]. \<not> i8_Valid (c_ParentID (ws ! j))]"
    using page_depth0[OF assms] by (intro filter_cong) simp_all
  then show ?thesis
    using filter_upt[of ws "\<lambda>w. \<not> i8_Valid (c_ParentID w)"] by (simp add: roots_upto_def at_nodes_upto)
qed

lemma page_tree_replies:
  assumes "nested 0 null_int8 ws" and "distinct (map c_ID ws)" and i: "i < length ws"
  shows "at_nodes (tree_heap ws) (cn_Replies (tree_heap ws ! i)) = [w \<leftarrow> ws. c_ParentID w = reply_to (c_ID (ws ! i))]"
proof -
  have "[j \<leftarrow> [0..<length ws]. c_Depth (ws ! j) \<noteq> 0 \<and> above_at ws j (c_Depth (ws ! j) - 1) = i]
      = [j \<leftarrow> [0..<length ws]. c_ParentID (ws ! j) = reply_to (c_ID (ws ! i))]"
    using page_parent[OF assms] by (intro filter_cong) simp_all
  then show ?thesis
    using i filter_upt[of ws "\<lambda>w. c_ParentID w = reply_to (c_ID (ws ! i))"]
    by (simp add: replies_upto_def tree_heap_nth at_nodes_upto)
qed

end
