(* ===== verification/Api_Errors.thy ===== *)
theory Api_Errors
  imports Db_Props
begin

text \<open>
  The three errors the handlers answer with (\<open>api/vomit.go\<close>, \<open>api/auth_error.go\<close>,
  \<open>api/resource_error.go\<close>): problems of the request, of authentication, and of the store.
\<close>

section \<open>Kinds and reasons\<close>

definition KindAuth :: string where "KindAuth = ''auth''"
definition KindPayload :: string where "KindPayload = ''payload''"
definition KindResource :: string where "KindResource = ''resource''"

definition FlavorInternal :: string where "FlavorInternal = ''INTERNAL_ERR''"
definition ReqBodyTooLarge :: string where "ReqBodyTooLarge = ''REQ_BODY_TOO_LARGE''"
definition ReqJSONSyntaxError :: string where "ReqJSONSyntaxError = ''REQ_JSON_SYNTAX_ERR''"
definition ReqMalformedJSON :: string where "ReqMalformedJSON = ''REQ_JSON_MALFORMED''"
definition ReqEmptyBody :: string where "ReqEmptyBody = ''REQ_BODY_EMPTY''"
definition ReqInvalidArguments :: string where "ReqInvalidArguments = ''REQ_INVALID_ARGUMENTS''"
definition ReqInvalidPostID :: string where "ReqInvalidPostID = ''REQ_INVALID_POST_ID''"
definition ReqInvalidCommentID :: string where "ReqInvalidCommentID = ''REQ_INVALID_COMMENT_ID''"
definition ReqIncorrectContentType :: string where "ReqIncorrectContentType = ''REQ_INVALID_CONTENT_TYPE''"
definition ReqMissingData :: string where "ReqMissingData = ''REQ_MISSING_DATA''"

definition AuthHeaderNotProvided :: string where "AuthHeaderNotProvided = ''AUTH_NO_HEADER''"
definition AuthInvalidHeaderFormat :: string where "AuthInvalidHeaderFormat = ''AUTH_HEADER_INVALID_FORMAT''"
definition AuthTypeUnsupported :: string where "AuthTypeUnsupported = ''AUTH_TYPE_UNSUPPORTED''"
definition AuthAccessTokenErr :: string where "AuthAccessTokenErr = ''AUTH_ACCESS_TOKEN_ERR''"
definition AuthRefreshTokenErr :: string where "AuthRefreshTokenErr = ''AUTH_REFRESH_TOKEN_ERR''"
definition AuthSessionBlocked :: string where "AuthSessionBlocked = ''AUTH_SESSION_BLOCKED''"
definition AuthSessionExpired :: string where "AuthSessionExpired = ''AUTH_SESSION_EXPIRED''"
definition AuthSessionNotFound :: string where "AuthSessionNotFound = ''AUTH_SESSION_NOT_FOUND''"
definition AuthVerificationFailed :: string where "AuthVerificationFailed = ''AUTH_VERIFICATION_FAILED''"

section \<open>Errors of a request\<close>

record Issue =
  is_FieldName :: string
  is_Tag :: string
  is_Message :: string

record Vomit =
  v_Kind :: string
  v_Reason :: string
  v_Status :: int
  v_ErrMessage :: string
  v_Issues :: "Issue list"
  v_err :: "go_error option"

definition puke :: "string \<Rightarrow> int \<Rightarrow> string \<Rightarrow> go_error option \<Rightarrow> Issue list \<Rightarrow> Vomit" where
  "puke reason status msg err issues =
     \<lparr>v_Kind = KindPayload, v_Reason = reason, v_Status = status, v_ErrMessage = msg,
      v_Issues = issues, v_err = err\<rparr>"

definition barf :: "Issue list \<Rightarrow> Vomit option" where
  "barf issues =
     (if issues \<noteq> [] then Some (puke ReqInvalidArguments 400 ''invalid request arguments'' None issues)
      else None)"

section \<open>Errors of authentication\<close>

record AuthError =
  ae_Kind :: string
  ae_Reason :: string
  ae_Status :: int
  ae_ErrMessage :: string
  ae_err :: "go_error option"

definition newAuthError :: "string \<Rightarrow> int \<Rightarrow> string \<Rightarrow> go_error option \<Rightarrow> AuthError" where
  "newAuthError reason status msg err =
     \<lparr>ae_Kind = KindAuth, ae_Reason = reason, ae_Status = status, ae_ErrMessage = msg, ae_err = err\<rparr>"

section \<open>Errors of the store\<close>

record ResourceError =
  re_Kind :: string
  re_Reason :: string
  re_Status :: int
  re_Error :: string
  re_opErr :: "go_error option"

definition opKindToHTTPStatus :: "kind \<Rightarrow> int" where
  "opKindToHTTPStatus k =
     (case k of KindNotFound \<Rightarrow> 404 | KindRelation \<Rightarrow> 400 | KindDeleted \<Rightarrow> 410 | KindConflict \<Rightarrow> 409
      | KindPermission \<Rightarrow> 403 | KindConstraint \<Rightarrow> 422 | KindInvalid \<Rightarrow> 400 | _ \<Rightarrow> 500)"

definition hidden_text :: string where "hidden_text = ''an internal error occurred''"

definition internalResourceError :: ResourceError where
  "internalResourceError = \<lparr>re_Kind = KindResource, re_Reason = kind_String KindInternal,
     re_Status = 500, re_Error = hidden_text, re_opErr = None\<rparr>"

definition notFoundResourceError :: "string \<Rightarrow> ResourceError" where
  "notFoundResourceError msg = \<lparr>re_Kind = KindResource, re_Reason = kind_String KindNotFound,
     re_Status = 404, re_Error = msg, re_opErr = None\<rparr>"

text \<open>
  \<open>opErr.Err.Error()\<close> of an \<open>OpError\<close> without a cause would be a nil dereference, which is
  \<open>None\<close>.
\<close>

definition newResourceError :: "go_error \<Rightarrow> ResourceError option" where
  "newResourceError err =
     (case errors_As_OpError err of
        Some opErr \<Rightarrow>
          (case oe_Err opErr of
             None \<Rightarrow> None
           | Some e \<Rightarrow> Some \<lparr>re_Kind = KindResource, re_Reason = kind_String (oe_Kind opErr),
               re_Status = opKindToHTTPStatus (oe_Kind opErr),
               re_Error = (if oe_Kind opErr = KindInternal then hidden_text else Error_text e),
               re_opErr = Some opErr\<rparr>)
      | None \<Rightarrow> Some internalResourceError)"

section \<open>What a client sees\<close>

lemma newResourceError_op:
  assumes "is_op_error op k err"
  shows "\<exists>re. newResourceError err = Some re \<and> re_Status re = opKindToHTTPStatus k
    \<and> re_Reason re = kind_String k \<and> (k = KindInternal \<longrightarrow> re_Error re = hidden_text)
    \<and> re_opErr re = Some err \<and> oe_Kind err = k"
  using assms by (cases err) (auto simp: is_op_error_def newResourceError_def)

lemma newResourceError_other:
  "errors_As_OpError err = None \<Longrightarrow> newResourceError err = Some internalResourceError"
  by (simp add: newResourceError_def)

lemma fails_error: "fails op k d r \<Longrightarrow> \<exists>err d1. r = (Inl err, d1) \<and> is_op_error op k err \<and> same_tables d d1"
  by (cases r) (auto simp: fails_def split: sum.splits)

end
