(* ===== verification/Api_Validation.thy ===== *)
theory Api_Validation
  imports Api_Errors
begin

text \<open>
  The validation of requests (\<open>api/validation_utils.go\<close>) and what it uses of \<open>strconv\<close>.

  A validator takes the value and the name of its field, and returns the issues it appends and
  whether the next validator runs. A parser returns the error or the value. \<open>apilib\<close> extends
  the library record with the table \<open>unicode.IsDigit\<close> and the two parsers of the standard
  library of which only success matters: \<open>mail.ParseAddress\<close> and \<open>url.ParseRequestURI\<close>.
\<close>

record apilib = golib +
  al_IsDigit :: "nat \<Rightarrow> bool"
  al_email_ok :: "string \<Rightarrow> bool"
  al_uri_ok :: "string \<Rightarrow> bool"

section \<open>strconv.ParseInt\<close>

text \<open>The digits in base 10, left to right; \<open>Inl True\<close> is the range error.\<close>

fun ParseUint_loop :: "nat \<Rightarrow> nat \<Rightarrow> string \<Rightarrow> bool + nat" where
  "ParseUint_loop m n [] = Inr n"
| "ParseUint_loop m n (c # cs) =
     (if 48 \<le> byte c \<and> byte c \<le> 57 then
        let n1 = n * 10 + (byte c - 48)
        in if m < n1 then Inl True else ParseUint_loop m n1 cs
      else Inl False)"

definition NumError_Error :: "golib \<Rightarrow> string \<Rightarrow> string \<Rightarrow> go_error" where
  "NumError_Error L s msg = Errorf (''strconv.ParseInt: parsing '' @ gl_quote L s @ '': '' @ msg) None"

text \<open>The value is given beside the error as well: 0, or the bound that was passed.\<close>

definition ParseInt :: "golib \<Rightarrow> string \<Rightarrow> nat \<Rightarrow> go_error option \<times> int" where
  "ParseInt L s bits =
     (let syntax = (Some (NumError_Error L s ''invalid syntax''), 0);
          range = NumError_Error L s ''value out of range'';
          cutoff = 2 ^ (bits - 1);
          neg = (s \<noteq> [] \<and> hd s = CHR ''-'');
          t = (if s \<noteq> [] \<and> (hd s = CHR ''+'' \<or> hd s = CHR ''-'') then tl s else s)
      in if t = [] then syntax
         else case (case ParseUint_loop (2 ^ bits - 1) 0 t of
                      Inl False \<Rightarrow> None | Inl True \<Rightarrow> Some (2 ^ bits - 1) | Inr un \<Rightarrow> Some un) of
           None \<Rightarrow> syntax
         | Some un \<Rightarrow>
             if \<not> neg \<and> cutoff \<le> un then (Some range, int cutoff - 1)
             else if neg \<and> cutoff < un then (Some range, - int cutoff)
             else (None, if neg then - int un else int un))"

section \<open>Validators of strings\<close>

type_synonym 'a validator = "'a \<Rightarrow> string \<Rightarrow> Issue list \<times> bool"

definition validatorRequired :: string where "validatorRequired = ''required''"
definition validatorEmail :: string where "validatorEmail = ''email''"
definition validatorURL :: string where "validatorURL = ''url''"
definition validatorMin :: string where "validatorMin = ''min''"
definition validatorMax :: string where "validatorMax = ''max''"
definition validatorAlphanum :: string where "validatorAlphanum = ''alphanum''"

definition an_issue :: "string \<Rightarrow> string \<Rightarrow> string \<Rightarrow> Issue" where
  "an_issue name t msg = \<lparr>is_FieldName = name, is_Tag = t, is_Message = msg\<rparr>"

definition strRequired :: "string validator" where
  "strRequired v name =
     (if TrimSpace v = [] then ([an_issue name validatorRequired ''field is required''], False)
      else ([], True))"

definition strEmail :: "apilib \<Rightarrow> string validator" where
  "strEmail L v name =
     (if \<not> al_email_ok L v
      then ([an_issue name validatorEmail ''field must be a correct email address''], True)
      else ([], True))"

definition strURL :: "apilib \<Rightarrow> string validator" where
  "strURL L v name =
     (if \<not> al_uri_ok L v then ([an_issue name validatorURL ''the value must be a valid URL''], True)
      else ([], True))"

definition strMin :: "int \<Rightarrow> string validator" where
  "strMin m v name =
     (if int (RuneCount (TrimSpace v)) < m
      then ([an_issue name validatorMin (''value must be at least '' @ Itoa m
               @ '' symbols long, not including whitespaces'')], True)
      else ([], True))"

definition strMax :: "int \<Rightarrow> string validator" where
  "strMax m v name =
     (if m < int (RuneCount (TrimSpace v))
      then ([an_issue name validatorMax (''value must be at most '' @ Itoa m
               @ '' symbols long, not including whitespaces'')], True)
      else ([], True))"

function isAlphanumeric :: "apilib \<Rightarrow> string \<Rightarrow> bool" where
  "isAlphanumeric L s =
     (if s = [] then True
      else let r = fst (DecodeRune s) in
        if \<not> al_IsDigit L r \<and> \<not> IsLetter (gl_unicode L) r then False
        else isAlphanumeric L (drop (max 1 (snd (DecodeRune s))) s))"
  by pat_completeness auto
termination
  by (relation "measure (\<lambda>(L, s). length s)") auto

declare isAlphanumeric.simps [simp del]

definition strAlphanum :: "apilib \<Rightarrow> string validator" where
  "strAlphanum L v name =
     (if \<not> isAlphanumeric L (TrimSpace v)
      then ([an_issue name validatorAlphanum ''value must only letters and numbers''], True)
      else ([], True))"

section \<open>Validators of numbers\<close>

definition numMin :: "int \<Rightarrow> int validator" where
  "numMin m v name =
     (if v < m then ([an_issue name validatorMin (''value must be at least '' @ Itoa m)], True)
      else ([], True))"

definition numMax :: "int \<Rightarrow> int validator" where
  "numMax m v name =
     (if m < v then ([an_issue name validatorMax (''value must be at most '' @ Itoa m)], True)
      else ([], True))"

section \<open>Chains of validators\<close>

fun validate :: "'a \<Rightarrow> string \<Rightarrow> 'a validator list \<Rightarrow> Issue list" where
  "validate v name [] = []"
| "validate v name (fn # fns) =
     (case fn v name of
        (issues, proceed) \<Rightarrow> if proceed then issues @ validate v name fns else issues)"

section \<open>Parameters of a query\<close>

text \<open>\<open>url.Values\<close>\<close>

type_synonym url_values = "string \<rightharpoonup> string list"
type_synonym 'a parser = "string list \<Rightarrow> (go_error + 'a) option"

text \<open>\<open>s[0]\<close> panics on an empty list, which the callers exclude.\<close>

definition parseSingle :: "golib \<Rightarrow> (string \<Rightarrow> go_error + 'a) \<Rightarrow> 'a parser" where
  "parseSingle L p s =
     (if 1 < len s then
        Some (Inl (Errorf (''there should be only one value for this field, received: ''
          @ strings_Join (map (gl_quote L) s) '', '') None))
      else map_option p (go_index s 0))"

definition parseInt32 :: "golib \<Rightarrow> string \<Rightarrow> go_error + int" where
  "parseInt32 L s = (case ParseInt L s 32 of (Some err, _) \<Rightarrow> Inl err | (None, v) \<Rightarrow> Inr v)"

definition parseString :: "string \<Rightarrow> go_error + string" where
  "parseString s = Inr s"

definition parseAndValidate ::
  "string list \<Rightarrow> string \<Rightarrow> 'a \<Rightarrow> 'a parser \<Rightarrow> 'a validator list \<Rightarrow> (Issue list \<times> 'a) option" where
  "parseAndValidate vals key dest parse fns =
     (case parse vals of
        None \<Rightarrow> None
      | Some (Inl err) \<Rightarrow>
          Some ([an_issue key ''type_error'' (key @ '' has an invalid format: '' @ Error_text err)], dest)
      | Some (Inr parsed) \<Rightarrow> Some (validate parsed key fns, parsed))"

definition extractOptionalParam ::
  "url_values \<Rightarrow> string \<Rightarrow> 'a \<Rightarrow> 'a parser \<Rightarrow> 'a validator list \<Rightarrow> (Issue list \<times> 'a) option" where
  "extractOptionalParam m key dest parse fns =
     (case m key of
        None \<Rightarrow> Some ([], dest)
      | Some vals \<Rightarrow> if vals = [] then Some ([], dest) else parseAndValidate vals key dest parse fns)"

definition extractRequiredParam ::
  "url_values \<Rightarrow> string \<Rightarrow> 'a \<Rightarrow> 'a parser \<Rightarrow> 'a validator list \<Rightarrow> (Issue list \<times> 'a) option" where
  "extractRequiredParam m key dest parse fns =
     (let missing = ([an_issue key validatorRequired (key @ '' must be provided'')], dest)
      in case m key of
           None \<Rightarrow> Some missing
         | Some vals \<Rightarrow> if vals = [] then Some missing else parseAndValidate vals key dest parse fns)"

section \<open>Numbers read back\<close>

lemma byte_digit: "(k :: nat) < 10 \<Longrightarrow> byte (char_of (48 + k)) = 48 + k"
  by (simp add: byte_def)

lemma digits_Cons: "\<exists>(k :: nat) cs. k < 10 \<and> digits n = char_of (48 + k) # cs"
proof (induction n rule: digits.induct)
  case (1 n)
  show ?case
  proof (cases "n < 10")
    case True
    then show ?thesis by (subst digits.simps) auto
  next
    case False
    then obtain k :: nat and cs where "k < 10" "digits (n div 10) = char_of (48 + k) # cs" using 1 by blast
    then show ?thesis using False by (subst digits.simps) auto
  qed
qed

lemma ParseUint_digits: "n \<le> m \<Longrightarrow> ParseUint_loop m 0 (digits n @ cs) = ParseUint_loop m n cs"
proof (induction n arbitrary: cs rule: digits.induct)
  case (1 n)
  show ?case
  proof (cases "n < 10")
    case True
    then show ?thesis using 1(2) byte_digit[of n] by (subst digits.simps) (simp add: Let_def)
  next
    case False
    have "n div 10 \<le> m" using 1(2) by simp
    then have "ParseUint_loop m 0 (digits n @ cs)
        = ParseUint_loop m (n div 10) (char_of (48 + n mod 10) # cs)"
      using 1(1)[OF False, of "char_of (48 + n mod 10) # cs"] False by (subst digits.simps) simp
    also have "\<dots> = ParseUint_loop m n cs"
    proof -
      have "n mod 10 \<le> 9" using mod_less_divisor[of 10 n] by linarith
      then show ?thesis using 1(2) byte_digit[of "n mod 10"] by (simp add: Let_def)
    qed
    finally show ?thesis .
  qed
qed

lemma digit_no_sign: "(k :: nat) < 10 \<Longrightarrow> char_of (48 + k) \<noteq> CHR ''-'' \<and> char_of (48 + k) \<noteq> CHR ''+''"
proof -
  have "byte CHR ''-'' = 45" "byte CHR ''+'' = 43" by code_simp+
  moreover assume "(k :: nat) < 10"
  ultimately show ?thesis using byte_digit[of k] by auto
qed

lemma Itoa_parts: "Itoa x = (if x < 0 then CHR ''-'' # digits (nat (- x)) else digits (nat x))"
  by (simp add: Itoa_def)

lemma ParseInt_Itoa:
  assumes "0 < bits" and "- (2 ^ (bits - 1)) \<le> x" and "x < 2 ^ (bits - 1)"
  shows "ParseInt L (Itoa x) bits = (None, x)"
proof -
  define a where "a = nat \<bar>x\<bar>"
  have a: "x = (if x < 0 then - int a else int a)" by (simp add: a_def)
  have two: "2 ^ bits = 2 * (2 :: nat) ^ (bits - 1)" using assms(1) by (cases bits) simp_all
  have bound: "a \<le> 2 ^ (bits - 1)" "0 \<le> x \<Longrightarrow> a < 2 ^ (bits - 1)"
    using assms(2,3) by (auto simp: a_def nat_le_iff nat_less_iff)
  moreover have "(1 :: nat) \<le> 2 ^ (bits - 1)" by simp
  ultimately have "a \<le> 2 ^ bits - 1" unfolding two by linarith
  then have loop: "ParseUint_loop (2 ^ bits - 1) 0 (digits a) = Inr a"
    using ParseUint_digits[of a "2 ^ bits - 1" "[]"] by simp
  obtain k :: nat and cs where k: "k < 10" "digits a = char_of (48 + k) # cs" using digits_Cons by blast
  show ?thesis
  proof (cases "x < 0")
    case True
    then have "Itoa x = CHR ''-'' # digits a" by (simp add: Itoa_parts a_def)
    then show ?thesis using loop k bound(1) True a by (simp add: ParseInt_def Let_def)
  next
    case False
    then have "Itoa x = digits a" by (simp add: Itoa_parts a_def)
    then show ?thesis
      using loop k bound(2) False a digit_no_sign[OF k(1)] by (simp add: ParseInt_def Let_def not_less)
  qed
qed

lemma ParseInt_range:
  assumes "0 < bits" and "ParseInt L s bits = (e, x)"
  shows "- (2 ^ (bits - 1)) \<le> x \<and> x < 2 ^ (bits - 1)"
proof -
  define C :: nat where "C = 2 ^ (bits - 1)"
  have "0 < C" by (simp add: C_def)
  then have "- int C \<le> x \<and> x < int C"
    using assms(2) unfolding ParseInt_def Let_def C_def[symmetric]
    by (auto split: option.splits if_splits)
  then show ?thesis by (simp add: C_def)
qed

end
