(* ===== verification/Token_Maker.thy ===== *)
theory Token_Maker
  imports Db_Error "HOL-Library.Countable"
begin

text \<open>
  Access and refresh tokens (\<open>token/payload.go\<close>, \<open>token/jwt_maker.go\<close>, \<open>token/maker.go\<close>). The
  library that signs and parses tokens is the record \<open>jwt_library\<close>; what the code relies on of
  it is \<open>jwt_laws\<close>. The interface \<open>Maker\<close> is the record \<open>token_maker\<close>, its contract the locale
  \<open>maker\<close>. Times and durations are \<open>int\<close>s, in nanoseconds.
\<close>

section \<open>payload.go\<close>

definition ErrInvalidToken :: go_error where "ErrInvalidToken = Errorf ''invalid token'' None"
definition ErrTokenExpired :: go_error where "ErrTokenExpired = Errorf ''token is expired'' None"

record Payload =
  pl_ID :: string
  pl_UserID :: int
  pl_IssuedAt :: int
  pl_ExpiredAt :: int

definition Payload_Valid :: "int \<Rightarrow> Payload \<Rightarrow> go_error option" where
  "Payload_Valid now p = (if pl_ExpiredAt p < now then Some ErrTokenExpired else None)"

text \<open>The time of a call, and what \<open>uuid.NewRandom\<close> gives it.\<close>

record moment =
  mo_Now :: int
  mo_NewRandom :: "go_error + string"

definition NewPayload :: "moment \<Rightarrow> int \<Rightarrow> int \<Rightarrow> go_error + Payload" where
  "NewPayload m userId duration =
     (case mo_NewRandom m of
        Inl err \<Rightarrow> Inl err
      | Inr tokenID \<Rightarrow> Inr \<lparr>pl_ID = tokenID, pl_UserID = userId, pl_IssuedAt = mo_Now m,
          pl_ExpiredAt = mo_Now m + duration\<rparr>)"

text \<open>The claims; the two dates are pointers, the other registered claims are never set.\<close>

record RegisteredClaims =
  jc_ExpiresAt :: "int option"
  jc_IssuedAt :: "int option"

record CustomClaims =
  jc_UserID :: int
  jc_ID :: string
  jc_RegisteredClaims :: RegisteredClaims

text \<open>
  The library: the time a \<open>NumericDate\<close> keeps, signing with a secret under HS256, and parsing.
  Parsing asks the key function for a key, telling it whether the method of the token is an
  HMAC; of an error the code sees what \<open>errors.Is\<close> says of it. The last alternative of
  \<open>jwt_claims\<close> are claims of another type.
\<close>

datatype jwt_claims = Custom_Claims CustomClaims | Other_Claims

record jwt_error =
  je_error :: go_error
  je_Expired :: bool
  je_Unverifiable :: bool

record jwt_library =
  jw_NewNumericDate :: "int \<Rightarrow> int"
  jw_SignedString :: "CustomClaims \<Rightarrow> string \<Rightarrow> go_error + string"
  jw_ParseWithClaims :: "int \<Rightarrow> string \<Rightarrow> (bool \<Rightarrow> go_error + string) \<Rightarrow> jwt_error + jwt_claims"

definition GetJWTClaims :: "jwt_library \<Rightarrow> Payload \<Rightarrow> CustomClaims" where
  "GetJWTClaims J p = \<lparr>jc_UserID = pl_UserID p, jc_ID = pl_ID p, jc_RegisteredClaims =
     \<lparr>jc_ExpiresAt = Some (jw_NewNumericDate J (pl_ExpiredAt p)),
      jc_IssuedAt = Some (jw_NewNumericDate J (pl_IssuedAt p))\<rparr>\<rparr>"

text \<open>Reading a date that is missing is a nil dereference.\<close>

definition GetPayload :: "CustomClaims \<Rightarrow> Payload option" where
  "GetPayload c =
     (case (jc_IssuedAt (jc_RegisteredClaims c), jc_ExpiresAt (jc_RegisteredClaims c)) of
        (Some issued, Some expired) \<Rightarrow> Some \<lparr>pl_ID = jc_ID c, pl_UserID = jc_UserID c,
          pl_IssuedAt = issued, pl_ExpiredAt = expired\<rparr>
      | _ \<Rightarrow> None)"

section \<open>jwt_maker.go\<close>

definition minSecretKeySize :: int where "minSecretKeySize = 32"

record JWTMaker =
  jm_secretKey :: string

definition CreateToken ::
  "jwt_library \<Rightarrow> JWTMaker \<Rightarrow> moment \<Rightarrow> int \<Rightarrow> int \<Rightarrow> go_error + string \<times> Payload" where
  "CreateToken J mk m userId duration =
     (case NewPayload m userId duration of
        Inl err \<Rightarrow> Inl err
      | Inr payload \<Rightarrow>
        (case jw_SignedString J (GetJWTClaims J payload) (jm_secretKey mk) of
           Inl err \<Rightarrow> Inl err
         | Inr tokenString \<Rightarrow> Inr (tokenString, payload)))"

definition keyFunc :: "JWTMaker \<Rightarrow> bool \<Rightarrow> go_error + string" where
  "keyFunc mk is_hmac = (if \<not> is_hmac then Inl ErrInvalidToken else Inr (jm_secretKey mk))"

definition VerifyToken :: "jwt_library \<Rightarrow> JWTMaker \<Rightarrow> int \<Rightarrow> string \<Rightarrow> (go_error + Payload) option" where
  "VerifyToken J mk now tokenString =
     (case jw_ParseWithClaims J now tokenString (keyFunc mk) of
        Inl err \<Rightarrow>
          if je_Expired err then Some (Inl ErrTokenExpired)
          else if je_Unverifiable err then Some (Inl ErrInvalidToken)
          else Some (Inl (je_error err))
      | Inr Other_Claims \<Rightarrow> Some (Inl ErrInvalidToken)
      | Inr (Custom_Claims c) \<Rightarrow> map_option Inr (GetPayload c))"

definition NewJWTMaker :: "string \<Rightarrow> go_error + JWTMaker" where
  "NewJWTMaker secretKey =
     (if len secretKey < minSecretKeySize
      then Inl (Errorf (''invalid key size: must be at least '' @ Itoa minSecretKeySize @ '' characters'') None)
      else Inr \<lparr>jm_secretKey = secretKey\<rparr>)"

section \<open>The interface Maker\<close>

text \<open>A verification that panics is the value None.\<close>

record token_maker =
  tm_CreateToken :: "moment \<Rightarrow> int \<Rightarrow> int \<Rightarrow> go_error + string \<times> Payload"
  tm_VerifyToken :: "int \<Rightarrow> string \<Rightarrow> (go_error + Payload) option"

definition jwt_token_maker :: "jwt_library \<Rightarrow> JWTMaker \<Rightarrow> token_maker" where
  "jwt_token_maker J mk = \<lparr>tm_CreateToken = CreateToken J mk, tm_VerifyToken = VerifyToken J mk\<rparr>"

text \<open>
  \<open>same_token p q\<close>: verification returns of the payload \<open>p\<close> the payload \<open>q\<close>, whose times are cut
  to the second.
\<close>

definition same_token :: "Payload \<Rightarrow> Payload \<Rightarrow> bool" where
  "same_token p q \<longleftrightarrow> pl_ID q = pl_ID p \<and> pl_UserID q = pl_UserID p
     \<and> pl_ExpiredAt q \<le> pl_ExpiredAt p \<and> pl_ExpiredAt p < pl_ExpiredAt q + 1000000000
     \<and> pl_IssuedAt q \<le> pl_IssuedAt p \<and> pl_IssuedAt p < pl_IssuedAt q + 1000000000"

locale maker =
  fixes M :: token_maker
  assumes created: "tm_CreateToken M m u dur = Inr (t, p) \<Longrightarrow>
      mo_NewRandom m = Inr (pl_ID p) \<and> pl_UserID p = u \<and> pl_IssuedAt p = mo_Now m \<and> pl_ExpiredAt p = mo_Now m + dur"
    and verified: "tm_CreateToken M m u dur = Inr (t, p) \<Longrightarrow>
      \<exists>q. same_token p q \<and> tm_VerifyToken M now t
         = Some (if now < pl_ExpiredAt q then Inr q else Inl ErrTokenExpired)"
begin

lemma valid_before:
  assumes "tm_CreateToken M m u dur = Inr (t, p)" and "now \<le> mo_Now m + dur - 1000000000"
  shows "\<exists>q. same_token p q \<and> tm_VerifyToken M now t = Some (Inr q)"
  using verified[OF assms(1), of now] created[OF assms(1)] assms(2) by (auto simp: same_token_def)

lemma expired_after:
  assumes "tm_CreateToken M m u dur = Inr (t, p)" and "mo_Now m + dur \<le> now"
  shows "tm_VerifyToken M now t = Some (Inl ErrTokenExpired)"
  using verified[OF assms(1), of now] created[OF assms(1)] assms(2) by (auto simp: same_token_def)

end

section \<open>The JWT maker keeps the contract\<close>

text \<open>
  What the documentation of the library promises: a \<open>NumericDate\<close> is cut to the second, and a
  token signed with a secret is parsed with that secret to the same claims until the time in
  \<open>exp\<close>, from then on with \<open>ErrTokenExpired\<close>.
\<close>

definition jwt_laws :: "jwt_library \<Rightarrow> bool" where
  "jwt_laws J \<longleftrightarrow>
     (\<forall>t. jw_NewNumericDate J t \<le> t \<and> t < jw_NewNumericDate J t + 1000000000)
     \<and> (\<forall>c k t now key e. jw_SignedString J c k = Inr t \<longrightarrow> key True = Inr k \<longrightarrow>
          jc_ExpiresAt (jc_RegisteredClaims c) = Some e \<longrightarrow>
          (if now < e then jw_ParseWithClaims J now t key = Inr (Custom_Claims c)
           else \<exists>err. jw_ParseWithClaims J now t key = Inl err \<and> je_Expired err))"

lemma jwt_date: "jwt_laws J \<Longrightarrow> jw_NewNumericDate J t \<le> t \<and> t < jw_NewNumericDate J t + 1000000000"
  by (simp add: jwt_laws_def)

lemma jwt_parse:
  assumes "jwt_laws J" and "jw_SignedString J c k = Inr t" and "key True = Inr k"
    and "jc_ExpiresAt (jc_RegisteredClaims c) = Some e"
  shows "if now < e then jw_ParseWithClaims J now t key = Inr (Custom_Claims c)
         else \<exists>err. jw_ParseWithClaims J now t key = Inl err \<and> je_Expired err"
  using assms unfolding jwt_laws_def by blast

lemma CreateToken_Inr:
  assumes "CreateToken J mk m u dur = Inr (t, p)"
  shows "NewPayload m u dur = Inr p" and "jw_SignedString J (GetJWTClaims J p) (jm_secretKey mk) = Inr t"
  using assms by (auto simp: CreateToken_def split: sum.splits)

lemma GetPayload_claims: "GetPayload (GetJWTClaims J p) = Some (p\<lparr>pl_IssuedAt := jw_NewNumericDate J (pl_IssuedAt p),
    pl_ExpiredAt := jw_NewNumericDate J (pl_ExpiredAt p)\<rparr>)"
  by (simp add: GetPayload_def GetJWTClaims_def)

lemma GetJWTClaims_exp [simp]:
  "jc_ExpiresAt (jc_RegisteredClaims (GetJWTClaims J p)) = Some (jw_NewNumericDate J (pl_ExpiredAt p))"
  by (simp add: GetJWTClaims_def)

lemma VerifyToken_created:
  assumes "jwt_laws J" and "CreateToken J mk m u dur = Inr (t, p)"
  shows "VerifyToken J mk now t = Some (if now < jw_NewNumericDate J (pl_ExpiredAt p)
     then Inr (p\<lparr>pl_IssuedAt := jw_NewNumericDate J (pl_IssuedAt p),
       pl_ExpiredAt := jw_NewNumericDate J (pl_ExpiredAt p)\<rparr>) else Inl ErrTokenExpired)"
  using jwt_parse[OF assms(1) CreateToken_Inr(2)[OF assms(2)], of "keyFunc mk" "jw_NewNumericDate J (pl_ExpiredAt p)" now]
  by (auto simp: VerifyToken_def keyFunc_def GetPayload_claims split: if_splits)

lemma jwt_keeps_contract:
  assumes "jwt_laws J"
  shows "maker (jwt_token_maker J mk)"
proof
  fix m u dur t p now
  assume c: "tm_CreateToken (jwt_token_maker J mk) m u dur = Inr (t, p)"
  then have c': "CreateToken J mk m u dur = Inr (t, p)" by (simp add: jwt_token_maker_def)
  show "mo_NewRandom m = Inr (pl_ID p) \<and> pl_UserID p = u \<and> pl_IssuedAt p = mo_Now m \<and> pl_ExpiredAt p = mo_Now m + dur"
    using CreateToken_Inr(1)[OF c'] by (auto simp: NewPayload_def split: sum.splits)
  show "\<exists>q. same_token p q \<and> tm_VerifyToken (jwt_token_maker J mk) now t
      = Some (if now < pl_ExpiredAt q then Inr q else Inl ErrTokenExpired)"
    using VerifyToken_created[OF assms c', of now] jwt_date[OF assms]
    by (intro exI[of _ "p\<lparr>pl_IssuedAt := jw_NewNumericDate J (pl_IssuedAt p),
          pl_ExpiredAt := jw_NewNumericDate J (pl_ExpiredAt p)\<rparr>"])
      (auto simp: jwt_token_maker_def same_token_def)
qed

locale jwt =
  fixes J :: jwt_library
  assumes laws: "jwt_laws J"

sublocale jwt \<subseteq> jwt: maker "jwt_token_maker J mk" for mk
  by (rule jwt_keeps_contract[OF laws])

section \<open>The round trip of a token\<close>

text \<open>
  C25: A token that \<open>CreateToken\<close> made is read back by \<open>VerifyToken\<close> with the same secret: until
  the expiry, cut to the second, as the payload it was made for with both times cut to the
  second, and from then on as \<open>ErrTokenExpired\<close>; it never panics. The payload names the user
  asked for and expires after the given duration, and no maker is made from a secret shorter
  than 32 bytes.
\<close>

theorem token_round_trip:
  assumes "jwt_laws J" and "NewJWTMaker secret = Inr mk" and "CreateToken J mk m u dur = Inr (t, p)"
  shows "32 \<le> length secret \<and> pl_UserID p = u \<and> pl_ExpiredAt p = mo_Now m + dur
    \<and> (\<exists>q. same_token p q \<and> VerifyToken J mk now t
        = Some (if now < pl_ExpiredAt q then Inr q else Inl ErrTokenExpired))"
proof -
  have c: "tm_CreateToken (jwt_token_maker J mk) m u dur = Inr (t, p)"
    using assms(3) by (simp add: jwt_token_maker_def)
  have "32 \<le> length secret" using assms(2) by (simp add: NewJWTMaker_def minSecretKeySize_def len_def split: if_splits)
  then show ?thesis
    using maker.created[OF jwt_keeps_contract[OF assms(1)] c] maker.verified[OF jwt_keeps_contract[OF assms(1)] c, of now]
    by (simp add: jwt_token_maker_def)
qed

text \<open>A library that writes the secret and the claims down, as the length of the token.\<close>

definition demo_jwt :: jwt_library where
  "demo_jwt =
     \<lparr>jw_NewNumericDate = (\<lambda>t. t div 1000000000 * 1000000000),
      jw_SignedString = (\<lambda>c k. Inr (replicate (to_nat (k, jc_UserID c, jc_ID c,
        jc_ExpiresAt (jc_RegisteredClaims c), jc_IssuedAt (jc_RegisteredClaims c))) (CHR ''x''))),
      jw_ParseWithClaims = (\<lambda>now t key.
        (case from_nat (length t) of (k, u, i, e, a) \<Rightarrow>
           if key True = Inr k \<and> e \<noteq> None \<and> now < the e
           then Inr (Custom_Claims \<lparr>jc_UserID = u, jc_ID = i,
             jc_RegisteredClaims = \<lparr>jc_ExpiresAt = e, jc_IssuedAt = a\<rparr>\<rparr>)
           else Inl \<lparr>je_error = ErrTokenExpired, je_Expired = True, je_Unverifiable = False\<rparr>))\<rparr>"

interpretation demo_jwt: jwt demo_jwt
proof
  have "0 \<le> t mod 1000000000" and "t mod 1000000000 < 1000000000" for t :: int
    by (simp_all add: pos_mod_bound)
  then have "t div 1000000000 * 1000000000 \<le> t \<and> t < t div 1000000000 * 1000000000 + 1000000000" for t :: int
    using div_mult_mod_eq[of t 1000000000] by (smt (verit))
  then show "jwt_laws demo_jwt" by (auto simp: jwt_laws_def demo_jwt_def)
qed

definition demo_secret :: string where "demo_secret = replicate 32 (CHR ''k'')"

lemma token_round_trip_witness:
  "\<exists>t p q. CreateToken demo_jwt \<lparr>jm_secretKey = demo_secret\<rparr> \<lparr>mo_Now = 7, mo_NewRandom = Inr ''id''\<rparr> 2 9000000000
      = Inr (t, p) \<and> pl_UserID p = 2 \<and> VerifyToken demo_jwt \<lparr>jm_secretKey = demo_secret\<rparr> 8000000000 t = Some (Inr q)
      \<and> pl_UserID q = 2"
proof -
  have made: "NewJWTMaker demo_secret = Inr \<lparr>jm_secretKey = demo_secret\<rparr>" by code_simp
  obtain t p where c: "CreateToken demo_jwt \<lparr>jm_secretKey = demo_secret\<rparr>
      \<lparr>mo_Now = 7, mo_NewRandom = Inr ''id''\<rparr> 2 9000000000 = Inr (t, p)"
    by (simp add: CreateToken_def NewPayload_def demo_jwt_def)
  show ?thesis
    using c token_round_trip[OF demo_jwt.laws made c, of 8000000000] by (auto simp: same_token_def)
qed

end
