(* ===== verification/Api_Requests.thy ===== *)
theory Api_Requests
  imports Api_Threads Api_Validation Db_Accounts Token_Maker
begin

text \<open>
  What the handlers share: the parts of a request they read, the responses they write, the body
  and the identifiers of a request (\<open>api/json_utils.go\<close>, \<open>api/post_utils.go\<close>, the end of
  \<open>api/comments_utils.go\<close>), the middleware of authentication (\<open>api/auth_middleware.go\<close>), and the
  validation of each request.
\<close>

section \<open>Requests and responses\<close>

text \<open>A path value is empty when the pattern of the route has no such wildcard.\<close>

record request =
  rq_PathValue :: "string \<Rightarrow> string"
  rq_Query :: url_values
  rq_ContentType :: string
  rq_Authorization :: string

record PublicUserResponse =
  up_ID :: int
  up_DisplayName :: string
  up_ProfileImageURL :: "string option"
  up_CreatedAt :: int

definition createPublicUserResponse :: "User \<Rightarrow> PublicUserResponse" where
  "createPublicUserResponse user =
     \<lparr>up_ID = u_ID user, up_DisplayName = u_DisplayName user,
      up_ProfileImageURL = (if tx_Valid (u_ProfileImgUrl user)
        then Some (tx_String (u_ProfileImgUrl user)) else None),
      up_CreatedAt = u_CreatedAt user\<rparr>"

record RenewAccessTokenResponse =
  rt_AccessToken :: string
  rt_AccessTokenExpiresAt :: int

datatype body =
    NoBody
  | VomitBody Vomit
  | AuthBody AuthError
  | ResourceBody ResourceError
  | TreeBody "pointer list" "CommentNode list"
  | CommentBody Comment
  | UpdateCommentBody UpdateCommentResult
  | UserBody PublicUserResponse
  | UpdateUserBody UpdateUserResult
  | TokenBody RenewAccessTokenResponse

record response =
  rs_Status :: int
  rs_Body :: body

definition respondWithJSON :: "int \<Rightarrow> body \<Rightarrow> response" where
  "respondWithJSON status b = \<lparr>rs_Status = status, rs_Body = b\<rparr>"

text \<open>\<open>abortWithError\<close> on the three types that have a \<open>StatusCode\<close>.\<close>

definition abort_vomit :: "Vomit \<Rightarrow> response" where
  "abort_vomit v = respondWithJSON (v_Status v) (VomitBody v)"

definition abort_auth :: "AuthError \<Rightarrow> response" where
  "abort_auth e = respondWithJSON (ae_Status e) (AuthBody e)"

definition abort_resource :: "ResourceError \<Rightarrow> response" where
  "abort_resource e = respondWithJSON (re_Status e) (ResourceBody e)"

section \<open>The body of a request\<close>

text \<open>
  What \<open>encoding/json\<close> makes of the body is an argument: the value or the error of the first
  \<open>Decode\<close> and, after a value, the error of the second, which should be \<open>io.EOF\<close>. Of the first
  error, the tests of the code see the type, the text and the two values.
\<close>

record decode_error =
  de_error :: go_error
  de_max_bytes :: bool
  de_syntax :: bool
  de_type_field :: "string option"
  de_is_EOF :: bool
  de_is_UnexpectedEOF :: bool

type_synonym 'a json_body = "decode_error + 'a \<times> go_error option \<times> bool"

definition decode_vomit :: "decode_error \<Rightarrow> Vomit" where
  "decode_vomit e =
     (let err = Some (de_error e) in
      if de_max_bytes e then puke ReqBodyTooLarge 413 ''body too large'' err []
      else if de_syntax e then puke ReqJSONSyntaxError 400 ''syntax error in JSON'' err []
      else case de_type_field e of
        Some field \<Rightarrow> puke ReqMalformedJSON 400 (''incorrect data type for field '' @ field) err []
      | None \<Rightarrow>
          if HasPrefix (Error_text (de_error e)) ''json: unknown field''
          then puke ReqMalformedJSON 400 (Error_text (de_error e)) err []
          else if de_is_EOF e then puke ReqEmptyBody 400 ''the request body is empty'' err []
          else if de_is_UnexpectedEOF e then puke ReqMalformedJSON 400
            ''the request payload stream is interrupted or the body is incomplete'' err []
          else puke FlavorInternal 500 ''internal error'' err [])"

definition ingestJSONBody :: "request \<Rightarrow> 'a json_body \<Rightarrow> Vomit + 'a" where
  "ingestJSONBody r b =
     (if rq_ContentType r \<noteq> [] \<and> \<not> HasPrefix (rq_ContentType r) ''application/json''
      then Inl (puke ReqIncorrectContentType 415
             (''application/json Content-Type expected but got '' @ rq_ContentType r @ '' instead'') None [])
      else case b of
        Inl e \<Rightarrow> Inl (decode_vomit e)
      | Inr (v, err, ends) \<Rightarrow>
          if \<not> ends then Inl (puke ReqMalformedJSON 400
            ''request body must only contain a single JSON object'' err [])
          else Inr v)"

section \<open>Identifiers in the path\<close>

definition extractPostID :: "golib \<Rightarrow> request \<Rightarrow> Vomit + int" where
  "extractPostID L r =
     (let raw = rq_PathValue r ''post_id'' in
      case ParseInt L raw 64 of
        (Some err, _) \<Rightarrow> Inl (puke ReqInvalidPostID 400 (''Invalid post id: '' @ raw) (Some err) [])
      | (None, i) \<Rightarrow> Inr i)"

record commentIDDescriptor =
  cd_provided :: bool
  cd_valid :: bool
  cd_rawValue :: string
  cd_parsedValue :: int
  cd_err :: "go_error option"

definition available :: "commentIDDescriptor \<Rightarrow> bool" where
  "available d \<longleftrightarrow> cd_provided d \<and> cd_valid d"

definition getCommentIDDescriptor :: "golib \<Rightarrow> request \<Rightarrow> commentIDDescriptor" where
  "getCommentIDDescriptor L r =
     (let raw = rq_PathValue r ''comment_id''; (err, parsed) = ParseInt L raw 64
      in \<lparr>cd_provided = (raw \<noteq> []), cd_valid = (err = None), cd_rawValue = raw,
          cd_parsedValue = parsed, cd_err = err\<rparr>)"

definition extractCommentID :: "golib \<Rightarrow> request \<Rightarrow> Vomit + int" where
  "extractCommentID L r =
     (let desc = getCommentIDDescriptor L r in
      if \<not> available desc then
        Inl (puke ReqInvalidCommentID 400 (''comment id ['' @ cd_rawValue desc @ ''] is invalid'') (cd_err desc) [])
      else Inr (cd_parsedValue desc))"

section \<open>Authentication\<close>

text \<open>\<open>strings.Fields\<close>, with the field being read.\<close>

function fields_loop :: "string \<Rightarrow> string \<Rightarrow> string list" where
  "fields_loop cur s =
     (if s = [] then (if cur = [] then [] else [cur])
      else let w = max 1 (snd (DecodeRune s)) in
        if IsSpace (fst (DecodeRune s))
        then (if cur = [] then [] else [cur]) @ fields_loop [] (drop w s)
        else fields_loop (cur @ take w s) (drop w s))"
  by pat_completeness auto
termination
  by (relation "measure (\<lambda>(cur, s). length s)") auto

declare fields_loop.simps [simp del]

definition strings_Fields :: "string \<Rightarrow> string list" where
  "strings_Fields s = fields_loop [] s"

definition unauthorized :: "string \<Rightarrow> string \<Rightarrow> go_error option \<Rightarrow> response" where
  "unauthorized reason msg err = abort_auth (newAuthError reason 401 msg err)"

definition authMiddleware ::
  "golib \<Rightarrow> token_maker \<Rightarrow> int \<Rightarrow> (Payload \<Rightarrow> 'd \<Rightarrow> (response \<times> 'd) option) \<Rightarrow> request \<Rightarrow> 'd
     \<Rightarrow> (response \<times> 'd) option" where
  "authMiddleware L M now next_handler r d =
     (let header = rq_Authorization r; fields = strings_Fields header in
      if header = [] then
        Some (unauthorized AuthHeaderNotProvided ''authorization header is not provided'' None, d)
      else if len fields < 2 then
        Some (unauthorized AuthInvalidHeaderFormat ''invalid authorization header format'' None, d)
      else if ToLower L (fields ! 0) \<noteq> ''bearer'' then
        Some (unauthorized AuthTypeUnsupported
          (''unsupported authorization type: '' @ ToLower L (fields ! 0)) None, d)
      else case tm_VerifyToken M now (fields ! 1) of
        None \<Rightarrow> None
      | Some (Inl err) \<Rightarrow> Some (unauthorized AuthAccessTokenErr ''invalid or expired token'' (Some err), d)
      | Some (Inr payload) \<Rightarrow> next_handler payload d)"

section \<open>Validation of the requests\<close>

text \<open>\<open>CreateCommentRequest\<close> and \<open>UpdateCommentRequest\<close> have one field each, \<open>body\<close>.\<close>

definition CreateCommentRequest_Validate :: "string \<Rightarrow> Vomit option" where
  "CreateCommentRequest_Validate text = barf (validate text ''body'' [strRequired, strMax 500])"

definition UpdateCommentRequest_Validate :: "string \<Rightarrow> Vomit option" where
  "UpdateCommentRequest_Validate text = barf (validate text ''body'' [strRequired, strMax 500])"

record UpdateUserRequest =
  uq_Username :: "string option"
  uq_Email :: "string option"
  uq_ProfileImgURL :: "string option"

definition validate_if :: "'a option \<Rightarrow> string \<Rightarrow> 'a validator list \<Rightarrow> Issue list" where
  "validate_if v name fns = (case v of None \<Rightarrow> [] | Some x \<Rightarrow> validate x name fns)"

definition UpdateUserRequest_Validate :: "apilib \<Rightarrow> UpdateUserRequest \<Rightarrow> Vomit option" where
  "UpdateUserRequest_Validate L r = barf
     (validate_if (uq_Username r) ''username'' [strMin 3, strMax 50, strAlphanum L]
      @ validate_if (uq_Email r) ''email'' [strEmail L]
      @ validate_if (uq_ProfileImgURL r) ''profile_img_url'' [strURL L]
      @ (if uq_Username r = None \<and> uq_Email r = None \<and> uq_ProfileImgURL r = None
         then [an_issue ''body'' ''empty_body'' ''at least one of the optional fields must be present'']
         else []))"

definition RenewAccessTokenRequest_Validate :: "string \<Rightarrow> Vomit option" where
  "RenewAccessTokenRequest_Validate token = barf (validate token ''refresh_token'' [strRequired])"

section \<open>The parameters of a page of comments\<close>

record GetCommentsRequest =
  gr_RootOffset :: int
  gr_NRoots :: int
  gr_Order :: string

definition parseOrder :: "string \<Rightarrow> go_error + string" where
  "parseOrder s = parseString s"

definition valCommentOrder :: "string validator" where
  "valCommentOrder v name =
     (case ValidateCommentOrderMethod v of
        None \<Rightarrow> ([], True)
      | Some err \<Rightarrow> ([an_issue name ''comment_order'' (case errors_As_OpError err of
            Some opErr \<Rightarrow> Error_text opErr | None \<Rightarrow> ''invalid comments order method'')], True))"

definition ExtractQueryParams ::
  "golib \<Rightarrow> url_values \<Rightarrow> GetCommentsRequest \<Rightarrow> (Vomit option \<times> GetCommentsRequest) option" where
  "ExtractQueryParams L m r = do {
     (i1, offset) \<leftarrow> extractOptionalParam m ''root_offset'' (gr_RootOffset r)
       (parseSingle L (parseInt32 L)) [numMin 0];
     (i2, n) \<leftarrow> extractOptionalParam m ''n_roots'' (gr_NRoots r)
       (parseSingle L (parseInt32 L)) [numMin 1, numMax 100];
     (i3, ord) \<leftarrow> extractOptionalParam m ''order'' (gr_Order r) (parseSingle L parseOrder) [valCommentOrder];
     Some (barf (i1 @ i2 @ i3), \<lparr>gr_RootOffset = offset, gr_NRoots = n, gr_Order = ord\<rparr>) }"

end
