(* ===== verification/Api_Handlers.thy ===== *)
theory Api_Handlers
  imports Api_Requests
begin

text \<open>
  The handlers for comments and users (\<open>api/get_comments.go\<close>, \<open>api/create_comment.go\<close>,
  \<open>api/update_comment.go\<close>, \<open>api/delete_comment.go\<close>, \<open>api/get_user.go\<close>, \<open>api/update_user.go\<close>,
  \<open>api/delete_user.go\<close>) and the renewal of an access token (\<open>api/renew_access.go\<close>). A handler
  maps a request and the database to the response and the database after it; \<open>None\<close> is a panic.
\<close>

section \<open>Answering with an error of the store\<close>

definition abort_store :: "go_error \<Rightarrow> db \<Rightarrow> (response \<times> db) option" where
  "abort_store err d = map_option (\<lambda>re. (abort_resource re, d)) (newResourceError err)"

section \<open>Comments\<close>

definition default_page :: GetCommentsRequest where
  "default_page = \<lparr>gr_RootOffset = 0, gr_NRoots = 10, gr_Order = CommentOrderPopular\<rparr>"

definition getComments :: "golib \<Rightarrow> env \<Rightarrow> request \<Rightarrow> db \<Rightarrow> (response \<times> db) option" where
  "getComments L E r d =
     (case extractPostID L r of
        Inl v \<Rightarrow> Some (abort_vomit v, d)
      | Inr postID \<Rightarrow>
        (case ExtractQueryParams L (rq_Query r) default_page of
           None \<Rightarrow> None
         | Some (Some v, _) \<Rightarrow> Some (respondWithJSON (v_Status v) (VomitBody v), d)
         | Some (None, req) \<Rightarrow>
           (case QueryComments E \<lparr>cq_Order = gr_Order req, cq_PostID = postID,
                   cq_Limit = gr_NRoots req, cq_Offset = gr_RootOffset req\<rparr> d of
              (Inl err, d1) \<Rightarrow> abort_store err d1
            | (Inr comments, d1) \<Rightarrow>
              (case PrepareCommentTree comments (gr_NRoots req) of
                 None \<Rightarrow> None
               | Some (Inl _) \<Rightarrow> Some (respondWithJSON 500 (ResourceBody internalResourceError), d1)
               | Some (Inr (tree, h)) \<Rightarrow> Some (respondWithJSON 200 (TreeBody tree h), d1)))))"

definition createComment_handler ::
  "golib \<Rightarrow> store_config \<Rightarrow> env \<Rightarrow> string json_body \<Rightarrow> request \<Rightarrow> Payload \<Rightarrow> db
     \<Rightarrow> (response \<times> db) option" where
  "createComment_handler L cfg E b r auth d =
     (case extractPostID L r of
        Inl v \<Rightarrow> Some (abort_vomit v, d)
      | Inr postID \<Rightarrow>
        (case ingestJSONBody r b of
           Inl v \<Rightarrow> Some (abort_vomit v, d)
         | Inr text \<Rightarrow>
           (case CreateCommentRequest_Validate text of
              Some v \<Rightarrow> Some (abort_vomit v, d)
            | None \<Rightarrow>
              let desc = getCommentIDDescriptor L r in
              if \<not> cd_valid desc \<and> cd_provided desc then
                Some (abort_vomit (puke ReqInvalidCommentID 400
                  (''invalid comment id: '' @ cd_rawValue desc) None []), d)
              else
                let arg = comment_params (pl_UserID auth) postID text
                      \<lparr>i8_Int64 = cd_parsedValue desc, i8_Valid = cd_valid desc\<rparr>
                in case InsertCommentTx cfg E arg d of
                     (Inl err, d1) \<Rightarrow> abort_store err d1
                   | (Inr comment, d1) \<Rightarrow> Some (respondWithJSON 200 (CommentBody comment), d1))))"

definition updateComment_handler ::
  "golib \<Rightarrow> env \<Rightarrow> string json_body \<Rightarrow> request \<Rightarrow> Payload \<Rightarrow> db \<Rightarrow> (response \<times> db) option" where
  "updateComment_handler L E b r auth d =
     (case ingestJSONBody r b of
        Inl v \<Rightarrow> Some (respondWithJSON (v_Status v) (VomitBody v), d)
      | Inr text \<Rightarrow>
        (case UpdateCommentRequest_Validate text of
           Some v \<Rightarrow> Some (respondWithJSON (v_Status v) (VomitBody v), d)
         | None \<Rightarrow>
           (case extractPostID L r of
              Inl v \<Rightarrow> Some (abort_vomit v, d)
            | Inr postID \<Rightarrow>
              (case extractCommentID L r of
                 Inl v \<Rightarrow> Some (abort_vomit v, d)
               | Inr commentID \<Rightarrow>
                 (case UpdateComment E \<lparr>up_UserID = pl_UserID auth, up_PostID = postID,
                         up_CommentID = commentID, up_Body = text\<rparr> d of
                    (Inl err, d1) \<Rightarrow> abort_store err d1
                  | (Inr res, d1) \<Rightarrow> Some (respondWithJSON 200 (UpdateCommentBody res), d1))))))"

definition deleteComment_handler ::
  "golib \<Rightarrow> env \<Rightarrow> request \<Rightarrow> Payload \<Rightarrow> db \<Rightarrow> (response \<times> db) option" where
  "deleteComment_handler L E r auth d =
     (case extractPostID L r of
        Inl v \<Rightarrow> Some (abort_vomit v, d)
      | Inr postID \<Rightarrow>
        (case extractCommentID L r of
           Inl v \<Rightarrow> Some (abort_vomit v, d)
         | Inr commentID \<Rightarrow>
           (case DeleteCommentTx E \<lparr>dc_CommentID = commentID, dc_UserID = pl_UserID auth,
                   dc_PostID = postID\<rparr> d of
              (Inl err, d1) \<Rightarrow> abort_store err d1
            | (Inr _, d1) \<Rightarrow> Some (respondWithJSON 204 NoBody, d1))))"

section \<open>Users\<close>

text \<open>A deleted user is shown as one that is not found.\<close>

definition getUser_handler :: "golib \<Rightarrow> env \<Rightarrow> request \<Rightarrow> db \<Rightarrow> (response \<times> db) option" where
  "getUser_handler L E r d =
     (let param = rq_PathValue r ''id''; (err, userID) = ParseInt L param 64 in
      if err \<noteq> None \<or> userID \<le> 0 then
        Some (abort_vomit (puke ReqInvalidArguments 400 (''invalid user id: '' @ gl_quote L param) err []), d)
      else case GetUser E userID d of
        (Inl e, d1) \<Rightarrow>
          map_option (\<lambda>re. (abort_resource
            (case re_opErr re of
               Some opErr \<Rightarrow> if oe_Kind opErr = KindDeleted
                 then notFoundResourceError (''user with id ['' @ Itoa userID @ ''] not found'') else re
             | None \<Rightarrow> re), d1)) (newResourceError e)
      | (Inr user, d1) \<Rightarrow> Some (respondWithJSON 200 (UserBody (createPublicUserResponse user)), d1))"

definition updateUser_handler ::
  "apilib \<Rightarrow> env \<Rightarrow> UpdateUserRequest json_body \<Rightarrow> request \<Rightarrow> Payload \<Rightarrow> db \<Rightarrow> (response \<times> db) option" where
  "updateUser_handler L E b r auth d =
     (case ingestJSONBody r b of
        Inl v \<Rightarrow> Some (abort_vomit v, d)
      | Inr req \<Rightarrow>
        (case UpdateUserRequest_Validate L req of
           Some v \<Rightarrow> Some (abort_vomit v, d)
         | None \<Rightarrow>
           (case UpdateUser E \<lparr>pu_ID = pl_UserID auth, pu_Username = uq_Username req,
                   pu_Email = uq_Email req, pu_ProfileImgURL = uq_ProfileImgURL req\<rparr> d of
              (Inl err, d1) \<Rightarrow> abort_store err d1
            | (Inr user, d1) \<Rightarrow> Some (respondWithJSON 200 (UpdateUserBody user), d1))))"

definition deleteUser_handler :: "env \<Rightarrow> Payload \<Rightarrow> db \<Rightarrow> (response \<times> db) option" where
  "deleteUser_handler E auth d =
     (case SoftDeleteUserTx E (pl_UserID auth) d of
        (Inl err, d1) \<Rightarrow> abort_store err d1
      | (Inr _, d1) \<Rightarrow> Some (respondWithJSON 204 NoBody, d1))"

section \<open>Renewing an access token\<close>

text \<open>\<open>m\<close> is the moment of the request, and \<open>uuid_text\<close> the text of a \<open>uuid.UUID\<close>.\<close>

definition invalid_refresh :: "go_error \<Rightarrow> response" where
  "invalid_refresh err = unauthorized AuthRefreshTokenErr ''invalid or expired refresh token'' (Some err)"

definition session_blocked :: response where
  "session_blocked = abort_auth (newAuthError AuthSessionBlocked 403 ''account has been blocked'' None)"

definition session_expired :: response where
  "session_expired = unauthorized AuthSessionExpired ''invalid or expired refresh token'' None"

definition renewAccessToken ::
  "token_maker \<Rightarrow> int \<Rightarrow> (string \<Rightarrow> string) \<Rightarrow> moment \<Rightarrow> env \<Rightarrow> string json_body \<Rightarrow> request \<Rightarrow> db
     \<Rightarrow> (response \<times> db) option" where
  "renewAccessToken M access_duration uuid_text m E b r d =
     (case ingestJSONBody r b of
        Inl v \<Rightarrow> Some (respondWithJSON (v_Status v) (VomitBody v), d)
      | Inr token \<Rightarrow>
        (case RenewAccessTokenRequest_Validate token of
           Some v \<Rightarrow> Some (respondWithJSON (v_Status v) (VomitBody v), d)
         | None \<Rightarrow>
           (case tm_VerifyToken M (mo_Now m) token of
              None \<Rightarrow> None
            | Some (Inl err) \<Rightarrow> Some (invalid_refresh err, d)
            | Some (Inr payload) \<Rightarrow>
              (case GetSession uuid_text E (pl_ID payload) d of
                 (Inl err, d1) \<Rightarrow> abort_store err d1
               | (Inr session, d1) \<Rightarrow>
                   if s_IsBlocked session then Some (session_blocked, d1)
                   else if s_UserID session \<noteq> pl_UserID payload \<or> token \<noteq> s_RefreshToken session then
                     Some (invalid_refresh (Errorf (''SECURITY ANOMALY: mismatch for session ''
                       @ uuid_text (s_ID session)) None), d1)
                   else if s_ExpiresAt session < mo_Now m then Some (session_expired, d1)
                   else (case tm_CreateToken M m (pl_UserID payload) access_duration of
                      Inl _ \<Rightarrow> Some (respondWithJSON 500 (ResourceBody internalResourceError), d1)
                    | Inr (access, access_payload) \<Rightarrow>
                        Some (respondWithJSON 200 (TokenBody \<lparr>rt_AccessToken = access,
                          rt_AccessTokenExpiresAt = pl_ExpiredAt access_payload\<rparr>), d1))))))"

end
