(* ===== verification/Tmpstore.thy ===== *)
theory Tmpstore
  imports Db_Error
begin

text \<open>
  The store of pending registrations and authentications (\<open>tmpstore/store.go\<close>). The client of
  redis and the codec of \<open>encoding/json\<close> are the records \<open>redis\<close> and \<open>codec\<close>; what the code
  relies on of redis is \<open>redis_laws\<close>. What the handlers rely on of the store is the locale
  \<open>session_store\<close>, which each half of the store meets over any redis that keeps the laws.
\<close>

section \<open>The client and the codec\<close>

text \<open>
  \<open>rd_Set key value ttl now\<close>, \<open>rd_Get key now\<close> and \<open>rd_Del key\<close>, over the state of the server.
  \<open>Redis_Nil\<close> is \<open>redis.Nil\<close>.
\<close>

datatype redis_error = Redis_Nil | Redis_Failure go_error

record 'r redis =
  rd_Set :: "string \<Rightarrow> string \<Rightarrow> int \<Rightarrow> int \<Rightarrow> 'r \<Rightarrow> go_error option \<times> 'r"
  rd_Get :: "string \<Rightarrow> int \<Rightarrow> 'r \<Rightarrow> redis_error + string"
  rd_Del :: "string \<Rightarrow> 'r \<Rightarrow> go_error option \<times> 'r"

record 'a codec =
  co_Marshal :: "'a \<Rightarrow> go_error + string"
  co_Unmarshal :: "string \<Rightarrow> go_error + 'a"

definition PendingRegistrationPrefix :: string where "PendingRegistrationPrefix = ''pending_reg:''"
definition PendingAuthenticationPrefix :: string where "PendingAuthenticationPrefix = ''pending_auth:''"

text \<open>The data of the ceremony belong to a library; the pointer to them may be nil.\<close>

record 's PendingRegistration =
  pr_Email :: string
  pr_Username :: string
  pr_WebauthnUserHandle :: string
  pr_SessionData :: "'s option"
  pr_ExpiresAt :: int

record 's PendingAuthentication =
  pa_UserID :: int
  pa_Username :: string
  pa_SessionData :: "'s option"
  pa_ExpiresAt :: int

record ('r, 's) RedisStore =
  st_client :: "'r redis"
  st_registrations :: "'s PendingRegistration codec"
  st_authentications :: "'s PendingAuthentication codec"

section \<open>The operations\<close>

definition SaveUserRegSession ::
  "('r, 's) RedisStore \<Rightarrow> string \<Rightarrow> 's PendingRegistration \<Rightarrow> int \<Rightarrow> int \<Rightarrow> 'r \<Rightarrow> go_error option \<times> 'r" where
  "SaveUserRegSession S sessionID data ttl now r =
     (case co_Marshal (st_registrations S) data of
        Inl err \<Rightarrow> (Some (Errorf ''failed to serialize registration data: '' (Some err)), r)
      | Inr jsonData \<Rightarrow> rd_Set (st_client S) (PendingRegistrationPrefix @ sessionID) jsonData ttl now r)"

definition GetUserRegSession ::
  "('r, 's) RedisStore \<Rightarrow> string \<Rightarrow> int \<Rightarrow> 'r \<Rightarrow> go_error + 's PendingRegistration" where
  "GetUserRegSession S sessionID now r =
     (case rd_Get (st_client S) (PendingRegistrationPrefix @ sessionID) now r of
        Inl Redis_Nil \<Rightarrow> Inl (Errorf ''registration session not found or expired'' None)
      | Inl (Redis_Failure err) \<Rightarrow> Inl (Errorf ''failed to get registration session: '' (Some err))
      | Inr jsonData \<Rightarrow>
        (case co_Unmarshal (st_registrations S) jsonData of
           Inl err \<Rightarrow> Inl (Errorf ''failed to parse registration session json: '' (Some err))
         | Inr session \<Rightarrow> Inr session))"

definition DeleteUserRegSession :: "('r, 's) RedisStore \<Rightarrow> string \<Rightarrow> 'r \<Rightarrow> go_error option \<times> 'r" where
  "DeleteUserRegSession S sessionID r = rd_Del (st_client S) (PendingRegistrationPrefix @ sessionID) r"

definition SaveUserAuthSession ::
  "('r, 's) RedisStore \<Rightarrow> string \<Rightarrow> 's PendingAuthentication \<Rightarrow> int \<Rightarrow> int \<Rightarrow> 'r \<Rightarrow> go_error option \<times> 'r" where
  "SaveUserAuthSession S sessionID data ttl now r =
     (case co_Marshal (st_authentications S) data of
        Inl err \<Rightarrow> (Some (Errorf ''failed to serialize authentication data: '' (Some err)), r)
      | Inr jsonData \<Rightarrow> rd_Set (st_client S) (PendingAuthenticationPrefix @ sessionID) jsonData ttl now r)"

definition GetUserAuthSession ::
  "('r, 's) RedisStore \<Rightarrow> string \<Rightarrow> int \<Rightarrow> 'r \<Rightarrow> go_error + 's PendingAuthentication" where
  "GetUserAuthSession S sessionID now r =
     (case rd_Get (st_client S) (PendingAuthenticationPrefix @ sessionID) now r of
        Inl Redis_Nil \<Rightarrow> Inl (Errorf ''authentication session not found or expired'' None)
      | Inl (Redis_Failure err) \<Rightarrow> Inl (Errorf ''failed to get authentication session: '' (Some err))
      | Inr jsonData \<Rightarrow>
        (case co_Unmarshal (st_authentications S) jsonData of
           Inl err \<Rightarrow> Inl (Errorf ''failed to parse authentication session json: '' (Some err))
         | Inr session \<Rightarrow> Inr session))"

definition DeleteUserAuthSession :: "('r, 's) RedisStore \<Rightarrow> string \<Rightarrow> 'r \<Rightarrow> go_error option \<times> 'r" where
  "DeleteUserAuthSession S sessionID r = rd_Del (st_client S) (PendingAuthenticationPrefix @ sessionID) r"

section \<open>What redis promises\<close>

text \<open>
  \<open>look r key\<close> is the value the server holds under a key and the time it lives to. A command
  that reports a failure may have been carried out or not; no command touches another key.
\<close>

definition redis_laws :: "'r redis \<Rightarrow> ('r \<Rightarrow> string \<rightharpoonup> string \<times> int) \<Rightarrow> bool" where
  "redis_laws R look \<longleftrightarrow>
     (\<forall>key v ttl now r e r1. 0 < ttl \<longrightarrow> rd_Set R key v ttl now r = (e, r1) \<longrightarrow>
        look r1 = (look r)(key \<mapsto> (v, now + ttl)) \<or> (e \<noteq> None \<and> look r1 = look r))
     \<and> (\<forall>key r e r1. rd_Del R key r = (e, r1) \<longrightarrow>
        look r1 = (look r)(key := None) \<or> (e \<noteq> None \<and> look r1 = look r))
     \<and> (\<forall>key now r. case rd_Get R key now r of
          Inr v \<Rightarrow> \<exists>t. look r key = Some (v, t) \<and> now < t
        | Inl Redis_Nil \<Rightarrow> (\<forall>v t. look r key = Some (v, t) \<longrightarrow> t \<le> now)
        | Inl (Redis_Failure _) \<Rightarrow> True)"

text \<open>A value the codec writes and reads back.\<close>

definition codes :: "'a codec \<Rightarrow> 'a \<Rightarrow> bool" where
  "codes C a \<longleftrightarrow> (\<exists>s. co_Marshal C a = Inr s \<and> co_Unmarshal C s = Inr a)"

section \<open>The contract of the store\<close>

text \<open>\<open>stored r i\<close> is the session a store holds under \<open>i\<close> and the time it lives to.\<close>

locale session_store =
  fixes save :: "string \<Rightarrow> 'a \<Rightarrow> int \<Rightarrow> int \<Rightarrow> 'r \<Rightarrow> go_error option \<times> 'r"
    and get :: "string \<Rightarrow> int \<Rightarrow> 'r \<Rightarrow> go_error + 'a"
    and del :: "string \<Rightarrow> 'r \<Rightarrow> go_error option \<times> 'r"
    and stored :: "'r \<Rightarrow> string \<rightharpoonup> 'a \<times> int"
    and ok :: "'a \<Rightarrow> bool" and not_found :: go_error
  assumes save_stored: "save i a ttl now r = (e, r1) \<Longrightarrow> ok a \<Longrightarrow> 0 < ttl \<Longrightarrow>
      stored r1 = (stored r)(i \<mapsto> (a, now + ttl)) \<or> (e \<noteq> None \<and> stored r1 = stored r)"
    and del_stored: "del i r = (e, r1) \<Longrightarrow>
      stored r1 = (stored r)(i := None) \<or> (e \<noteq> None \<and> stored r1 = stored r)"
    and get_stored: "get i now r = Inr a \<Longrightarrow> \<exists>t. stored r i = Some (a, t) \<and> now < t"
    and get_live: "stored r i = Some (a, t) \<Longrightarrow> now < t \<Longrightarrow> get i now r \<noteq> Inl not_found"
begin

lemma get_after_save:
  assumes "save i a ttl now r = (None, r1)" and "ok a" and "0 < ttl"
  shows "get i later r1 = Inr b \<Longrightarrow> b = a \<and> later < now + ttl"
    and "later < now + ttl \<Longrightarrow> get i later r1 \<noteq> Inl not_found"
  using save_stored[OF assms] get_stored[of i later r1 b] get_live[of r1 i a "now + ttl" later] by auto

lemma get_after_del:
  assumes "del i r = (None, r1)"
  shows "get i now r1 \<noteq> Inr a"
  using del_stored[OF assms] get_stored[of i now r1 a] by auto

lemma others_kept:
  assumes "i \<noteq> j"
  shows "save i a ttl now r = (e, r1) \<Longrightarrow> ok a \<Longrightarrow> 0 < ttl \<Longrightarrow> stored r1 j = stored r j"
    and "del i r = (e, r1) \<Longrightarrow> stored r1 j = stored r j"
  using save_stored[of i a ttl now r e r1] del_stored[of i r e r1] assms by auto

end

section \<open>Both halves of the store keep it\<close>

definition stored_under :: "('r \<Rightarrow> string \<rightharpoonup> string \<times> int) \<Rightarrow> 'a codec \<Rightarrow> string \<Rightarrow> 'r \<Rightarrow> string \<rightharpoonup> 'a \<times> int" where
  "stored_under look C pre r i =
     (case look r (pre @ i) of
        None \<Rightarrow> None
      | Some (v, t) \<Rightarrow> (case co_Unmarshal C v of Inl _ \<Rightarrow> None | Inr a \<Rightarrow> Some (a, t)))"

lemma prefixes_apart [simp]:
  "PendingRegistrationPrefix @ i \<noteq> PendingAuthenticationPrefix @ j"
  "PendingAuthenticationPrefix @ i \<noteq> PendingRegistrationPrefix @ j"
  by (simp_all add: PendingRegistrationPrefix_def PendingAuthenticationPrefix_def)

lemma stored_under_set:
  "look r1 = (look r)(p @ i \<mapsto> (v, t)) \<Longrightarrow> co_Unmarshal C v = Inr a \<Longrightarrow>
    stored_under look C p r1 = (stored_under look C p r)(i \<mapsto> (a, t))"
  by (auto simp: stored_under_def fun_eq_iff)

lemma stored_under_del:
  "look r1 = (look r)(p @ i := None) \<Longrightarrow> stored_under look C p r1 = (stored_under look C p r)(i := None)"
  by (auto simp: stored_under_def fun_eq_iff)

lemma stored_under_same: "look r1 = look r \<Longrightarrow> stored_under look C p r1 = stored_under look C p r"
  by (simp add: stored_under_def fun_eq_iff)

lemma stored_under_other:
  "(\<forall>i. p @ i \<noteq> key) \<Longrightarrow> look r1 = (look r)(key := x) \<Longrightarrow> stored_under look C p r1 = stored_under look C p r"
  by (simp add: stored_under_def fun_eq_iff)

locale redis_server =
  fixes R :: "'r redis" and look :: "'r \<Rightarrow> string \<rightharpoonup> string \<times> int"
  assumes laws: "redis_laws R look"
begin

lemma set_law: "rd_Set R key v ttl now r = (e, r1) \<Longrightarrow> 0 < ttl \<Longrightarrow>
    look r1 = (look r)(key \<mapsto> (v, now + ttl)) \<or> (e \<noteq> None \<and> look r1 = look r)"
  using laws unfolding redis_laws_def by blast

lemma del_law: "rd_Del R key r = (e, r1) \<Longrightarrow>
    look r1 = (look r)(key := None) \<or> (e \<noteq> None \<and> look r1 = look r)"
  using laws unfolding redis_laws_def by blast

lemma get_law: "case rd_Get R key now r of
    Inr v \<Rightarrow> \<exists>t. look r key = Some (v, t) \<and> now < t
  | Inl Redis_Nil \<Rightarrow> (\<forall>v t. look r key = Some (v, t) \<longrightarrow> t \<le> now)
  | Inl (Redis_Failure _) \<Rightarrow> True"
  using laws unfolding redis_laws_def by blast

text \<open>A save, a get and a delete under one prefix make a session store.\<close>

lemma half_store:
  assumes save: "\<And>i a ttl now r. save i a ttl now r = (case co_Marshal C a of
        Inl err \<Rightarrow> (Some (f err), r) | Inr v \<Rightarrow> rd_Set R (p @ i) v ttl now r)"
    and get: "\<And>i now r. get i now r = (case rd_Get R (p @ i) now r of
        Inl Redis_Nil \<Rightarrow> Inl not_found
      | Inl (Redis_Failure err) \<Rightarrow> Inl (g err)
      | Inr v \<Rightarrow> (case co_Unmarshal C v of Inl err \<Rightarrow> Inl (h err) | Inr a \<Rightarrow> Inr a))"
    and del: "\<And>i r. del i r = rd_Del R (p @ i) r"
    and other: "\<And>err. g err \<noteq> not_found" "\<And>err. h err \<noteq> not_found"
  shows "session_store save get del (stored_under look C p) (codes C) not_found"
proof
  show "stored_under look C p r1 = (stored_under look C p r)(i \<mapsto> (a, now + ttl))
      \<or> (e \<noteq> None \<and> stored_under look C p r1 = stored_under look C p r)"
    if "save i a ttl now r = (e, r1)" "codes C a" "0 < ttl" for i a ttl now r e r1
    using that by (auto simp: save codes_def dest!: set_law intro: stored_under_set stored_under_same)
  show "stored_under look C p r1 = (stored_under look C p r)(i := None)
      \<or> (e \<noteq> None \<and> stored_under look C p r1 = stored_under look C p r)"
    if "del i r = (e, r1)" for i r e r1
    using that by (auto simp: del dest!: del_law intro: stored_under_del stored_under_same)
  show "\<exists>t. stored_under look C p r i = Some (a, t) \<and> now < t" if "get i now r = Inr a" for i now r a
    using that get_law[where key = "p @ i" and now = now and r = r]
    by (auto simp: get stored_under_def split: sum.splits redis_error.splits)
  show "get i now r \<noteq> Inl not_found" if "stored_under look C p r i = Some (a, t)" "now < t" for i now r a t
    using that get_law[where key = "p @ i" and now = now and r = r] other
    by (auto simp: get stored_under_def split: sum.splits redis_error.splits option.splits)
qed

end

definition no_registration :: go_error where
  "no_registration = Errorf ''registration session not found or expired'' None"

definition no_authentication :: go_error where
  "no_authentication = Errorf ''authentication session not found or expired'' None"

locale redis_store = redis_server "st_client S" look
  for S :: "('r, 's) RedisStore" and look

sublocale redis_store \<subseteq> registrations: session_store "SaveUserRegSession S" "GetUserRegSession S"
    "DeleteUserRegSession S" "stored_under look (st_registrations S) PendingRegistrationPrefix"
    "codes (st_registrations S)" no_registration
  by (rule half_store[OF SaveUserRegSession_def GetUserRegSession_def[folded no_registration_def]
        DeleteUserRegSession_def]) (simp_all add: no_registration_def)

sublocale redis_store \<subseteq> authentications: session_store "SaveUserAuthSession S" "GetUserAuthSession S"
    "DeleteUserAuthSession S" "stored_under look (st_authentications S) PendingAuthenticationPrefix"
    "codes (st_authentications S)" no_authentication
  by (rule half_store[OF SaveUserAuthSession_def GetUserAuthSession_def[folded no_authentication_def]
        DeleteUserAuthSession_def]) (simp_all add: no_authentication_def)

text \<open>The two halves share a server and keep apart.\<close>

context redis_store
begin

lemma registrations_apart:
  assumes "SaveUserAuthSession S i a ttl now r = (e, r1)" and "0 < ttl"
  shows "stored_under look C PendingRegistrationPrefix r1 = stored_under look C PendingRegistrationPrefix r"
proof (cases "co_Marshal (st_authentications S) a")
  case (Inr v)
  then have "rd_Set (st_client S) (PendingAuthenticationPrefix @ i) v ttl now r = (e, r1)"
    using assms(1) by (simp add: SaveUserAuthSession_def)
  from set_law[OF this assms(2)] show ?thesis
    using stored_under_other[of PendingRegistrationPrefix "PendingAuthenticationPrefix @ i" look r1 r]
      stored_under_same[of look r1 r] by auto
qed (use assms(1) in \<open>simp add: SaveUserAuthSession_def\<close>)

lemma registration_read_back:
  assumes "SaveUserRegSession S i a ttl now r = (None, r1)" and "codes (st_registrations S) a" and "0 < ttl"
    and "SaveUserAuthSession S j b ttl2 now2 r1 = (e, r2)" and "0 < ttl2"
  shows "GetUserRegSession S i later r2 = Inr c \<Longrightarrow> c = a \<and> later < now + ttl"
    and "later < now + ttl \<Longrightarrow> GetUserRegSession S i later r2 \<noteq> Inl no_registration"
    and "DeleteUserRegSession S i r2 = (None, r3) \<Longrightarrow> GetUserRegSession S i later r3 \<noteq> Inr c"
proof -
  have "stored_under look (st_registrations S) PendingRegistrationPrefix r2 i = Some (a, now + ttl)"
    using registrations.save_stored[OF assms(1-3)] registrations_apart[OF assms(4,5), of "st_registrations S"] by simp
  then show "GetUserRegSession S i later r2 = Inr c \<Longrightarrow> c = a \<and> later < now + ttl"
    and "later < now + ttl \<Longrightarrow> GetUserRegSession S i later r2 \<noteq> Inl no_registration"
    using registrations.get_stored[of i later r2 c] registrations.get_live[of r2 i a "now + ttl" later] by auto
qed (rule registrations.get_after_del)

end

section \<open>The round trip of a session\<close>

text \<open>
  C29: A pending registration that was saved is read back unchanged until its time is over,
  also when sessions of the other kind, of any identifier, are saved in between: no other value
  is ever returned, none after the time, and within it \<open>not found\<close> is never the answer. Once it
  is deleted it is not read again. The server may fail any command.
\<close>

theorem registration_round_trip:
  assumes "redis_laws (st_client S) look" and "codes (st_registrations S) a" and "0 < ttl" and "0 < ttl2"
    and "SaveUserRegSession S i a ttl now r = (None, r1)"
    and "SaveUserAuthSession S j b ttl2 now2 r1 = (e, r2)"
  shows "(case GetUserRegSession S i later r2 of
        Inr c \<Rightarrow> c = a \<and> later < now + ttl
      | Inl err \<Rightarrow> later < now + ttl \<longrightarrow> err \<noteq> no_registration)
    \<and> (DeleteUserRegSession S i r2 = (None, r3) \<longrightarrow> (\<exists>err. GetUserRegSession S i later r3 = Inl err))"
proof -
  have store: "redis_store S look" by (rule redis_store.intro) (rule redis_server.intro, rule assms(1))
  note read = redis_store.registration_read_back[OF store assms(5,2,3,6,4)]
  show ?thesis using read(1)[where later = later] read(2)[where later = later] read(3)[where ?r3.0 = r3 and later = later]
    by (cases "GetUserRegSession S i later r3") (auto split: sum.splits)
qed

text \<open>A server that keeps the commands it was sent, and a codec that knows one value.\<close>

definition demo_redis :: "(string \<rightharpoonup> string \<times> int) redis" where
  "demo_redis =
     \<lparr>rd_Set = (\<lambda>key v ttl now r. (None, r(key \<mapsto> (v, now + ttl)))),
      rd_Get = (\<lambda>key now r. case r key of None \<Rightarrow> Inl Redis_Nil
        | Some (v, t) \<Rightarrow> if now < t then Inr v else Inl Redis_Nil),
      rd_Del = (\<lambda>key r. (None, r(key := None)))\<rparr>"

interpretation demo_server: redis_server demo_redis id
  by unfold_locales (auto simp: redis_laws_def demo_redis_def split: option.splits)

definition demo_registration :: "unit PendingRegistration" where
  "demo_registration = \<lparr>pr_Email = ''d@x.org'', pr_Username = ''dan'', pr_WebauthnUserHandle = ''handle'',
     pr_SessionData = Some (), pr_ExpiresAt = 9\<rparr>"

definition demo_authentication :: "unit PendingAuthentication" where
  "demo_authentication = \<lparr>pa_UserID = 2, pa_Username = ''bob'', pa_SessionData = Some (), pa_ExpiresAt = 9\<rparr>"

definition demo_tmpstore :: "(string \<rightharpoonup> string \<times> int, unit) RedisStore" where
  "demo_tmpstore = \<lparr>st_client = demo_redis,
     st_registrations = \<lparr>co_Marshal = (\<lambda>a. Inr ''reg''), co_Unmarshal = (\<lambda>s. Inr demo_registration)\<rparr>,
     st_authentications = \<lparr>co_Marshal = (\<lambda>a. Inr ''auth''), co_Unmarshal = (\<lambda>s. Inr demo_authentication)\<rparr>\<rparr>"

interpretation demo_store: redis_store demo_tmpstore id
  using demo_server.laws by unfold_locales (simp add: demo_tmpstore_def)

lemma demo_codes: "codes (st_registrations demo_tmpstore) demo_registration"
    "codes (st_authentications demo_tmpstore) demo_authentication"
  by (simp_all add: codes_def demo_tmpstore_def)

lemma registration_round_trip_witness:
  "\<exists>r1 r2. SaveUserRegSession demo_tmpstore ''s1'' demo_registration 4 5 Map.empty = (None, r1)
     \<and> SaveUserAuthSession demo_tmpstore ''s1'' demo_authentication 4 5 r1 = (None, r2)
     \<and> (case GetUserRegSession demo_tmpstore ''s1'' 8 r2 of Inr c \<Rightarrow> c = demo_registration | Inl _ \<Rightarrow> False)"
proof -
  obtain r1 where s1: "SaveUserRegSession demo_tmpstore ''s1'' demo_registration 4 5 Map.empty = (None, r1)"
    by (simp add: SaveUserRegSession_def demo_tmpstore_def demo_redis_def)
  obtain r2 where s2: "SaveUserAuthSession demo_tmpstore ''s1'' demo_authentication 4 5 r1 = (None, r2)"
    by (simp add: SaveUserAuthSession_def demo_tmpstore_def demo_redis_def)
  have "case GetUserRegSession demo_tmpstore ''s1'' 8 r2 of Inl e \<Rightarrow> e = no_registration | Inr c \<Rightarrow> True"
    by (simp add: GetUserRegSession_def demo_tmpstore_def demo_redis_def no_registration_def split: option.split)
  then show ?thesis
    using s1 s2 registration_round_trip[OF demo_store.laws demo_codes(1) _ _ s1 s2, of 8]
    by (auto split: sum.splits)
qed

end
