(* ===== verification/Go_Json.thy ===== *)
theory Go_Json
  imports Db_Error
begin

text \<open>
  What the program uses of \<open>encoding/json\<close>: the grammar of a JSON value, the text of its strings,
  and the rules by which \<open>Unmarshal\<close> puts a value into a string, a slice of strings or a
  struct with fields of type string. Bytes are characters. The message of a syntax error is an
  argument of the definitions that return it.
\<close>

datatype json =
    JNull
  | JBool bool
  | JNumber string
  | JString string
  | JArray "json list"
  | JObject "(string \<times> json) list"

section \<open>Strings\<close>

definition json_space :: "char \<Rightarrow> bool" where
  "json_space c \<longleftrightarrow> byte c \<in> {9, 10, 13, 32}"

definition skip_space :: "string \<Rightarrow> string" where
  "skip_space s = dropWhile json_space s"

definition is_digit :: "char \<Rightarrow> bool" where
  "is_digit c \<longleftrightarrow> 48 \<le> byte c \<and> byte c \<le> 57"

definition hex_value :: "char \<Rightarrow> nat option" where
  "hex_value c =
     (if is_digit c then Some (byte c - 48)
      else if 97 \<le> byte c \<and> byte c \<le> 102 then Some (byte c - 87)
      else if 65 \<le> byte c \<and> byte c \<le> 70 then Some (byte c - 55)
      else None)"

definition four_hex :: "string \<Rightarrow> bool" where
  "four_hex s \<longleftrightarrow> 4 \<le> length s \<and> list_all (\<lambda>c. hex_value c \<noteq> None) (take 4 s)"

text \<open>The bytes between the quotes, checked, and what follows the closing quote.\<close>

fun scan_string :: "string \<Rightarrow> (string \<times> string) option" where
  "scan_string [] = None"
| "scan_string (c # cs) =
     (if c = CHR 0x22 then Some ([], cs)
      else if byte c < 32 then None
      else if c = CHR 0x5C then
        (case cs of
           [] \<Rightarrow> None
         | e # r \<Rightarrow>
             if e \<in> set [CHR 0x22, CHR 0x5C, CHR ''/'', CHR ''b'', CHR ''f'', CHR ''n'', CHR ''r'', CHR ''t'']
                \<or> (e = CHR ''u'' \<and> four_hex r)
             then map_option (\<lambda>(a, b). (c # e # a, b)) (scan_string r)
             else None)
      else map_option (\<lambda>(a, b). (c # a, b)) (scan_string cs))"

text \<open>\<open>utf8.AppendRune\<close>\<close>

definition AppendRune :: "nat \<Rightarrow> string" where
  "AppendRune r =
     (if r < 128 then [char_of r]
      else if r < 2048 then map char_of [192 + r div 64, 128 + r mod 64]
      else if r < 65536 then map char_of [224 + r div 4096, 128 + r div 64 mod 64, 128 + r mod 64]
      else map char_of [240 + r div 262144, 128 + r div 4096 mod 64, 128 + r div 64 mod 64, 128 + r mod 64])"

definition getu4 :: "string \<Rightarrow> nat" where
  "getu4 s = foldl (\<lambda>n c. 16 * n + (case hex_value c of Some d \<Rightarrow> d | None \<Rightarrow> 0)) 0 (take 4 s)"

definition is_surrogate :: "nat \<Rightarrow> bool" where
  "is_surrogate r \<longleftrightarrow> 55296 \<le> r \<and> r < 57344"

text \<open>The rune a \<open>\u\<close> escape stands for, with the number of bytes after the \<open>\u\<close> it takes.\<close>

definition escaped_rune :: "string \<Rightarrow> nat \<times> nat" where
  "escaped_rune r =
     (let u = getu4 r; r2 = drop 4 r
      in if \<not> is_surrogate u then (u, 4)
         else if u < 56320 \<and> take 2 r2 = [CHR 0x5C, CHR ''u''] \<and> four_hex (drop 2 r2)
                 \<and> 56320 \<le> getu4 (drop 2 r2) \<and> getu4 (drop 2 r2) < 57344
              then ((u - 55296) * 1024 + (getu4 (drop 2 r2) - 56320) + 65536, 10)
         else (RuneError, 4))"

definition simple_escape :: "char \<Rightarrow> char" where
  "simple_escape e = (if e = CHR ''b'' then char_of (8::nat) else if e = CHR ''f'' then char_of (12::nat)
     else if e = CHR ''n'' then char_of (10::nat) else if e = CHR ''r'' then char_of (13::nat)
     else if e = CHR ''t'' then char_of (9::nat) else e)"

text \<open>\<open>unquote\<close> of a checked string; each byte takes at most one round.\<close>

fun unquote_rounds :: "nat \<Rightarrow> string \<Rightarrow> string" where
  "unquote_rounds 0 s = []"
| "unquote_rounds (Suc n) [] = []"
| "unquote_rounds (Suc n) (c # cs) =
     (if c = CHR 0x5C then
        (case cs of
           [] \<Rightarrow> []
         | e # r \<Rightarrow>
             if e = CHR ''u'' then AppendRune (fst (escaped_rune r)) @ unquote_rounds n (drop (snd (escaped_rune r)) r)
             else simple_escape e # unquote_rounds n r)
      else if byte c < 128 then c # unquote_rounds n cs
      else AppendRune (fst (DecodeRune (c # cs))) @ unquote_rounds n (drop (snd (DecodeRune (c # cs))) (c # cs)))"

definition unquote :: "string \<Rightarrow> string" where
  "unquote s = unquote_rounds (length s) s"

section \<open>Values\<close>

text \<open>A number: the bytes the grammar takes and what follows.\<close>

definition take_digits :: "string \<Rightarrow> (string \<times> string) option" where
  "take_digits s = (if takeWhile is_digit s = [] then None else Some (takeWhile is_digit s, dropWhile is_digit s))"

definition scan_int :: "string \<Rightarrow> (string \<times> string) option" where
  "scan_int s = (case s of
       [] \<Rightarrow> None
     | c # cs \<Rightarrow> if c = CHR ''0'' then Some ([c], cs) else take_digits s)"

definition scan_fraction :: "string \<Rightarrow> (string \<times> string) option" where
  "scan_fraction s = (case s of
       c # cs \<Rightarrow> if c = CHR ''.'' then map_option (\<lambda>(a, b). (c # a, b)) (take_digits cs) else Some ([], s)
     | [] \<Rightarrow> Some ([], []))"

definition scan_exponent :: "string \<Rightarrow> (string \<times> string) option" where
  "scan_exponent s = (case s of
       c # cs \<Rightarrow>
         if c \<in> set ''eE'' then
           (case cs of
              g # r \<Rightarrow> if g \<in> set ''+-'' then map_option (\<lambda>(a, b). (c # g # a, b)) (take_digits r)
                       else map_option (\<lambda>(a, b). (c # a, b)) (take_digits cs)
            | [] \<Rightarrow> None)
         else Some ([], s)
     | [] \<Rightarrow> Some ([], []))"

definition scan_number :: "string \<Rightarrow> (string \<times> string) option" where
  "scan_number s =
     (let (sign, t) = (case s of c # cs \<Rightarrow> if c = CHR ''-'' then ([c], cs) else ([], s) | [] \<Rightarrow> ([], []))
      in case scan_int t of
           None \<Rightarrow> None
         | Some (a, t1) \<Rightarrow>
             (case scan_fraction t1 of
                None \<Rightarrow> None
              | Some (b, t2) \<Rightarrow>
                  (case scan_exponent t2 of None \<Rightarrow> None | Some (e, t3) \<Rightarrow> Some (sign @ a @ b @ e, t3))))"

definition literal :: "string \<Rightarrow> json \<Rightarrow> string \<Rightarrow> (json \<times> string) option" where
  "literal w v s = (if HasPrefix s w then Some (v, drop (length w) s) else None)"

definition maxNestingDepth :: int where "maxNestingDepth = 10000"

text \<open>
  A value, the elements of an array and the members of an object, with what follows them;
  \<open>d\<close> is the number of open arrays and objects. Every round takes a byte or stands between two
  that do, so twice the length of the input is enough rounds.
\<close>

fun parse_value :: "nat \<Rightarrow> int \<Rightarrow> string \<Rightarrow> (json \<times> string) option"
  and parse_elements :: "nat \<Rightarrow> int \<Rightarrow> string \<Rightarrow> (json list \<times> string) option"
  and parse_members :: "nat \<Rightarrow> int \<Rightarrow> string \<Rightarrow> ((string \<times> json) list \<times> string) option" where
  "parse_value 0 d s = None"
| "parse_value (Suc n) d s = (case skip_space s of
       [] \<Rightarrow> None
     | c # cs \<Rightarrow>
         if c = CHR 0x22 then map_option (\<lambda>(a, b). (JString (unquote a), b)) (scan_string cs)
         else if c = CHR ''['' then
           (if maxNestingDepth \<le> d then None
            else if HasPrefix (skip_space cs) '']'' then Some (JArray [], drop 1 (skip_space cs))
            else map_option (\<lambda>(vs, b). (JArray vs, b)) (parse_elements n (d + 1) cs))
         else if c = CHR ''{'' then
           (if maxNestingDepth \<le> d then None
            else if HasPrefix (skip_space cs) ''}'' then Some (JObject [], drop 1 (skip_space cs))
            else map_option (\<lambda>(ms, b). (JObject ms, b)) (parse_members n (d + 1) cs))
         else if c = CHR ''t'' then literal ''true'' (JBool True) (c # cs)
         else if c = CHR ''f'' then literal ''false'' (JBool False) (c # cs)
         else if c = CHR ''n'' then literal ''null'' JNull (c # cs)
         else map_option (\<lambda>(a, b). (JNumber a, b)) (scan_number (c # cs)))"
| "parse_elements 0 d s = None"
| "parse_elements (Suc n) d s = (case parse_value n d s of
       None \<Rightarrow> None
     | Some (v, r) \<Rightarrow> (case skip_space r of
           [] \<Rightarrow> None
         | c # cs \<Rightarrow>
             if c = CHR '','' then map_option (\<lambda>(vs, b). (v # vs, b)) (parse_elements n d cs)
             else if c = CHR '']'' then Some ([v], cs)
             else None))"
| "parse_members 0 d s = None"
| "parse_members (Suc n) d s = (case skip_space s of
       [] \<Rightarrow> None
     | q # qs \<Rightarrow>
         if q \<noteq> CHR 0x22 then None
         else (case scan_string qs of
             None \<Rightarrow> None
           | Some (k, r) \<Rightarrow>
               if \<not> HasPrefix (skip_space r) '':'' then None
               else (case parse_value n d (drop 1 (skip_space r)) of
                   None \<Rightarrow> None
                 | Some (v, t) \<Rightarrow> (case skip_space t of
                       [] \<Rightarrow> None
                     | c # cs \<Rightarrow>
                         if c = CHR '','' then map_option (\<lambda>(ms, b). ((unquote k, v) # ms, b)) (parse_members n d cs)
                         else if c = CHR ''}'' then Some ([(unquote k, v)], cs)
                         else None))))"

definition json_parse :: "string \<Rightarrow> json option" where
  "json_parse s = (case parse_value (2 * length s + 2) 0 s of
       Some (v, r) \<Rightarrow> if skip_space r = [] then Some v else None
     | None \<Rightarrow> None)"

section \<open>Unmarshal\<close>

text \<open>
  A key names a field when the two agree up to the case of letters; the rune U+017F counts as
  S and U+212A as K.
\<close>

fun fold_name :: "string \<Rightarrow> string" where
  "fold_name [] = []"
| "fold_name (c # cs) =
     (if take 2 (c # cs) = map char_of [197 :: nat, 191] then CHR ''S'' # fold_name (drop 1 cs)
      else if take 3 (c # cs) = map char_of [226 :: nat, 132, 170] then CHR ''K'' # fold_name (drop 2 cs)
      else (if 97 \<le> byte c \<and> byte c \<le> 122 then char_of (byte c - 32) else c) # fold_name cs)"

definition same_name :: "string \<Rightarrow> string \<Rightarrow> bool" where
  "same_name k tag \<longleftrightarrow> fold_name k = fold_name tag"

text \<open>What an error calls the value that does not fit.\<close>

fun json_kind :: "json \<Rightarrow> string" where
  "json_kind JNull = ''null''"
| "json_kind (JBool b) = ''bool''"
| "json_kind (JNumber s) = ''number''"
| "json_kind (JString s) = ''string''"
| "json_kind (JArray vs) = ''array''"
| "json_kind (JObject ms) = ''object''"

definition type_error :: "json \<Rightarrow> string \<Rightarrow> string \<Rightarrow> go_error" where
  "type_error v target typ = Errorf (''json: cannot unmarshal '' @ json_kind v @ '' into Go ''
     @ target @ '' of type '' @ typ) None"

text \<open>
  A variable of type string: null leaves it alone. The error of a value that does not fit is
  kept, decoding goes on, and the first error is returned at the end.
\<close>

type_synonym 'a decoded = "go_error option \<times> 'a"

definition first_error :: "go_error option \<Rightarrow> go_error option \<Rightarrow> go_error option" where
  "first_error a b = (case a of Some e \<Rightarrow> Some e | None \<Rightarrow> b)"

definition into_string :: "string \<Rightarrow> json \<Rightarrow> string \<Rightarrow> string decoded" where
  "into_string target v old = (case v of
       JString s \<Rightarrow> (None, s)
     | JNull \<Rightarrow> (None, old)
     | _ \<Rightarrow> (Some (type_error v target ''string''), old))"

text \<open>
  A struct whose fields are strings; \<open>ts\<close> are its tags and \<open>xs\<close> its fields in the same order.
  \<open>name\<close> and \<open>typ\<close> are what an error calls the struct and its type.
\<close>

fun into_fields :: "string \<Rightarrow> string list \<Rightarrow> (string \<times> json) list \<Rightarrow> string list \<Rightarrow> string list decoded" where
  "into_fields name ts [] xs = (None, xs)"
| "into_fields name ts ((k, v) # ms) xs = (case List.find (\<lambda>i. same_name k (ts ! i)) [0..<length ts] of
       None \<Rightarrow> into_fields name ts ms xs
     | Some i \<Rightarrow>
         let (e, x) = into_string (''struct field '' @ name @ ''.'' @ ts ! i) v (xs ! i);
             (e1, ys) = into_fields name ts ms (xs[i := x])
         in (first_error e e1, ys))"

definition into_struct :: "string \<Rightarrow> string \<Rightarrow> string list \<Rightarrow> json \<Rightarrow> string list decoded" where
  "into_struct typ name ts v = (case v of
       JObject ms \<Rightarrow> into_fields name ts ms (map (\<lambda>t. []) ts)
     | JNull \<Rightarrow> (None, map (\<lambda>t. []) ts)
     | _ \<Rightarrow> (Some (type_error v ''value'' typ), map (\<lambda>t. []) ts))"

text \<open>A slice of strings; a nil slice is \<open>None\<close>.\<close>

definition into_strings :: "json \<Rightarrow> string list option decoded" where
  "into_strings v = (case v of
       JNull \<Rightarrow> (None, None)
     | JArray vs \<Rightarrow>
         let rs = map (\<lambda>x. into_string ''value'' x []) vs
         in (foldr first_error (map fst rs) None, Some (map snd rs))
     | _ \<Rightarrow> (Some (type_error v ''value'' ''[]string''), None))"

text \<open>\<open>json.Unmarshal\<close>: a syntax error anywhere comes first.\<close>

definition Unmarshal :: "(string \<Rightarrow> string) \<Rightarrow> (json \<Rightarrow> 'a decoded) \<Rightarrow> string \<Rightarrow> go_error + 'a" where
  "Unmarshal syntax into bytes = (case json_parse bytes of
       None \<Rightarrow> Inl (Errorf (syntax bytes) None)
     | Some v \<Rightarrow> (case into v of (Some e, _) \<Rightarrow> Inl e | (None, x) \<Rightarrow> Inr x))"

section \<open>Enough rounds\<close>

lemma skip_space_short: "length (skip_space s) \<le> length s"
  by (simp add: skip_space_def length_dropWhile_le)

lemma scan_string_short: "scan_string s = Some (a, b) \<Longrightarrow> length b < length s"
proof (induction s arbitrary: a b rule: scan_string.induct)
  case (2 c cs)
  show ?case
  proof (cases cs)
    case Nil
    then show ?thesis using 2(3) by (simp split: if_splits)
  next
    case (Cons e r)
    then show ?thesis using 2 by (fastforce split: if_splits)
  qed
qed simp

lemma take_digits_short: "take_digits s = Some (a, b) \<Longrightarrow> length b < length s"
  by (auto simp: take_digits_def split: if_splits)
    (metis length_dropWhile_le le_neq_implies_less dropWhile_eq_self_iff takeWhile_eq_Nil_iff length_append
      takeWhile_dropWhile_id add_cancel_right_left length_0_conv)

lemma scan_int_short: "scan_int s = Some (a, b) \<Longrightarrow> length b < length s"
  by (auto simp: scan_int_def dest!: take_digits_short split: list.splits if_splits)

lemma scan_fraction_short: "scan_fraction s = Some (a, b) \<Longrightarrow> length b \<le> length s"
  by (auto simp: scan_fraction_def dest!: take_digits_short split: list.splits if_splits)

lemma scan_exponent_short: "scan_exponent s = Some (a, b) \<Longrightarrow> length b \<le> length s"
  by (auto simp: scan_exponent_def dest!: take_digits_short split: list.splits if_splits)

lemma scan_number_short: "scan_number s = Some (a, b) \<Longrightarrow> length b < length s"
  by (auto simp: scan_number_def Let_def dest!: scan_int_short scan_fraction_short scan_exponent_short
      split: list.splits if_splits option.splits)

lemma literal_short: "literal w u s = Some (v, r) \<Longrightarrow> w \<noteq> [] \<Longrightarrow> length r < length s"
  by (auto simp: literal_def HasPrefix_def split: if_splits) (cases s; cases w; simp)

lemma after_space: "skip_space s = c # cs \<Longrightarrow> length cs < length s"
  using skip_space_short[of s] by simp

lemma parse_value_short:
  assumes "parse_value (Suc n) d s = Some (v, r)"
    and elements: "\<And>d s vs. parse_elements n d s = Some (vs, r) \<Longrightarrow> length r < length s"
    and members: "\<And>d s ms. parse_members n d s = Some (ms, r) \<Longrightarrow> length r < length s"
  shows "length r < length s"
proof -
  obtain c cs where c: "skip_space s = c # cs" using assms(1) by (cases "skip_space s") simp_all
  have drop: "length (drop 1 (skip_space cs)) < length (c # cs)" using skip_space_short[of cs] by simp
  have "length r < length (c # cs)"
    using assms(1) c drop
    by (auto simp del: length_drop dest!: scan_string_short scan_number_short literal_short elements members
        split: if_splits)
  then show ?thesis using skip_space_short[of s] c by simp
qed

lemma parse_elements_cases:
  assumes "parse_elements (Suc n) d s = Some (vs, r)"
  obtains v q c cs ws where "parse_value n d s = Some (v, q)" and "skip_space q = c # cs"
    and "r = cs \<or> parse_elements n d cs = Some (ws, r)"
  using assms by (fastforce split: option.splits list.splits if_splits)

lemma parse_members_cases:
  assumes "parse_members (Suc n) d s = Some (ms, r)"
  obtains q qs k t v u c cs ws where "skip_space s = q # qs" and "scan_string qs = Some (k, t)"
    and "parse_value n d (drop 1 (skip_space t)) = Some (v, u)" and "skip_space u = c # cs"
    and "r = cs \<or> parse_members n d cs = Some (ws, r)"
  using assms by (fastforce split: option.splits list.splits if_splits)


lemma parse_short:
  "(\<forall>d s v r. parse_value n d s = Some (v, r) \<longrightarrow> length r < length s)
   \<and> (\<forall>d s vs r. parse_elements n d s = Some (vs, r) \<longrightarrow> length r < length s)
   \<and> (\<forall>d s ms r. parse_members n d s = Some (ms, r) \<longrightarrow> length r < length s)"
proof (induction n)
  case (Suc n)
  have "length r < length s" if "parse_value (Suc n) d s = Some (v, r)" for d s v r
    by (rule parse_value_short[OF that]) (use Suc.IH in blast)+
  moreover have "length r < length s" if run: "parse_elements (Suc n) d s = Some (vs, r)" for d s vs r
  proof (rule parse_elements_cases[OF run])
    fix v q c cs ws
    assume h: "parse_value n d s = Some (v, q)" "skip_space q = c # cs" "r = cs \<or> parse_elements n d cs = Some (ws, r)"
    then have "length q < length s" "length r \<le> length cs" using Suc.IH by (blast, metis order.refl less_imp_le)
    then show "length r < length s" using after_space[OF h(2)] by simp
  qed
  moreover have "length r < length s" if run: "parse_members (Suc n) d s = Some (ms, r)" for d s ms r
  proof (rule parse_members_cases[OF run])
    fix q qs k t v u c cs ws
    assume h: "skip_space s = q # qs" "scan_string qs = Some (k, t)"
      "parse_value n d (drop 1 (skip_space t)) = Some (v, u)" "skip_space u = c # cs"
      "r = cs \<or> parse_members n d cs = Some (ws, r)"
    then have "length u < length (drop 1 (skip_space t))" "length r \<le> length cs"
      using Suc.IH by (blast, metis order.refl less_imp_le)
    then show "length r < length s"
      using after_space[OF h(1)] after_space[OF h(4)] scan_string_short[OF h(2)] skip_space_short[of t] by simp
  qed
  ultimately show ?case by blast
qed simp

text \<open>Past twice the length of the input one more round changes nothing.\<close>

lemma parse_round:
  "(\<forall>d s. 2 * length s + 1 \<le> n \<longrightarrow> parse_value (Suc n) d s = parse_value n d s)
   \<and> (\<forall>d s. 2 * length s + 2 \<le> n \<longrightarrow> parse_elements (Suc n) d s = parse_elements n d s)
   \<and> (\<forall>d s. 2 * length s + 2 \<le> n \<longrightarrow> parse_members (Suc n) d s = parse_members n d s)"
proof (induction n)
  case (Suc n)
  have "parse_value (Suc (Suc n)) d s = parse_value (Suc n) d s" if "2 * length s + 1 \<le> Suc n" for d s
  proof (cases "skip_space s")
    case (Cons c cs)
    then have "2 * length cs + 2 \<le> n" using after_space[OF Cons] that by simp
    then have "parse_elements (Suc n) (d + 1) cs = parse_elements n (d + 1) cs"
      "parse_members (Suc n) (d + 1) cs = parse_members n (d + 1) cs" using Suc.IH by blast+
    then show ?thesis
      unfolding parse_value.simps(2)[of "Suc n"] parse_value.simps(2)[of n] Cons list.case by (simp only:)
  qed simp
  moreover have "parse_elements (Suc (Suc n)) d s = parse_elements (Suc n) d s" if "2 * length s + 2 \<le> Suc n" for d s
  proof -
    have v: "parse_value (Suc n) d s = parse_value n d s" using Suc.IH that by simp
    have "parse_elements (Suc n) d cs = parse_elements n d cs"
      if h: "parse_value n d s = Some (w, q)" "skip_space q = c # cs" for w q c cs
    proof -
      have "length q < length s" using parse_short[of n] h(1) by blast
      then show ?thesis using Suc.IH after_space[OF h(2)] \<open>2 * length s + 2 \<le> Suc n\<close> by simp
    qed
    then show ?thesis
      unfolding parse_elements.simps(2)[of "Suc n"] parse_elements.simps(2)[of n] v
      by (simp split: option.split list.split)
  qed
  moreover have "parse_members (Suc (Suc n)) d s = parse_members (Suc n) d s" if "2 * length s + 2 \<le> Suc n" for d s
  proof -
    have small: "2 * length s \<le> n" using that by simp
    show ?thesis
    proof (cases "skip_space s")
      case q: (Cons q qs)
      show ?thesis
      proof (cases "scan_string qs")
        case (Some kt)
        obtain k t where k: "scan_string qs = Some (k, t)" using Some by (cases kt) simp
        have t: "2 * length (drop 1 (skip_space t)) + 3 \<le> n"
          using after_space[OF q] scan_string_short[OF k] skip_space_short[of t] small by simp
        then have v: "parse_value (Suc n) d (drop 1 (skip_space t)) = parse_value n d (drop 1 (skip_space t))"
          using Suc.IH by simp
        have "parse_members (Suc n) d cs = parse_members n d cs"
          if h: "parse_value n d (drop 1 (skip_space t)) = Some (w, u)" "skip_space u = c # cs" for w u c cs
        proof -
          have "length u < length (drop 1 (skip_space t))" using parse_short[of n] h(1) by blast
          then show ?thesis using Suc.IH after_space[OF h(2)] t by simp
        qed
        then show ?thesis
          unfolding parse_members.simps(2)[of "Suc n"] parse_members.simps(2)[of n] q k list.case option.case prod.case v
          by (simp split: option.split list.split)
      qed (simp add: q)
    qed simp
  qed
  ultimately show ?case by blast
qed simp

lemma parse_enough: "2 * length s + 1 \<le> n \<Longrightarrow> parse_value (n + m) d s = parse_value n d s"
  by (induction m) (use parse_round in simp_all)

text \<open>Small texts.\<close>

lemma json_examples:
  "json_parse '' {}'' = Some (JObject [])"
  "json_parse ''[1,-2e3]'' = Some (JArray [JNumber ''1'', JNumber ''-2e3''])"
  "json_parse ''[1,]'' = None"
  by code_simp+

lemma json_escapes:
  "json_parse [CHR 0x22, CHR 0x5C, CHR ''n'', CHR 0x22] = Some (JString [CHR 0x0A])"
  by code_simp

end
