(* ===== verification/Util_Config.thy ===== *)
theory Util_Config
  imports Db_Comments Go_Json
begin

text \<open>
  The package \<open>util\<close>: the configuration, how it is loaded, and the host and port of an address
  (\<open>util/config.go\<close>), passwords (\<open>util/password.go\<close>) and random values (\<open>util/random.go\<close>); and the
  settings of the passkey library that \<open>wauthn/config.go\<close> makes of the configuration.

  The libraries behind them are arguments: what \<open>viper\<close> reads and decodes, the functions of
  \<open>bcrypt\<close>, the draws of \<open>math/rand\<close>, and \<open>webauthn.New\<close>.
\<close>

section \<open>The configuration\<close>

text \<open>Durations are in nanoseconds. The two limits on comments are the record \<open>store_config\<close>.\<close>

record Config =
  Environment :: string
  DBSource :: string
  MigrationURL :: string
  HTTPServerAddress :: string
  PublicOrigin :: string
  RPDisplayName :: string
  AllowedOrigins :: "string list"
  RedisAddress :: string
  RegistrationSessionTTL :: int
  AuthenticationSessionTTL :: int
  TokenSymmetricKey :: string
  EmailSenderName :: string
  EmailSenderAddress :: string
  EmailSenderPassword :: string
  AccessTokenDuration :: int
  RefreshTokenDuration :: int
  CommentLimits :: store_config

definition no_config :: Config where
  "no_config = \<lparr>Environment = [], DBSource = [], MigrationURL = [], HTTPServerAddress = [],
     PublicOrigin = [], RPDisplayName = [], AllowedOrigins = [], RedisAddress = [],
     RegistrationSessionTTL = 0, AuthenticationSessionTTL = 0, TokenSymmetricKey = [],
     EmailSenderName = [], EmailSenderAddress = [], EmailSenderPassword = [],
     AccessTokenDuration = 0, RefreshTokenDuration = 0,
     CommentLimits = \<lparr>CommentMaxNestingDepth = 0, CommentMaxRootCountPerUser = 0\<rparr>\<rparr>"

text \<open>
  \<open>read path\<close> is the error of \<open>viper.ReadInConfig\<close>, \<open>decoded path\<close> what \<open>viper.Unmarshal\<close> leaves
  in the configuration and its error. Both results are returned, as the names of the code are.
\<close>

definition LoadConfig ::
  "(string \<Rightarrow> go_error option) \<Rightarrow> (string \<Rightarrow> Config \<times> go_error option) \<Rightarrow> string \<Rightarrow> Config \<times> go_error option" where
  "LoadConfig read decoded path = (case read path of
       Some err \<Rightarrow> (no_config, Some err)
     | None \<Rightarrow> decoded path)"

section \<open>Host and port of an address\<close>

text \<open>\<open>strings.Contains\<close> and \<open>strings.LastIndexByte\<close>\<close>

fun strings_Contains :: "string \<Rightarrow> string \<Rightarrow> bool" where
  "strings_Contains [] p = (p = [])"
| "strings_Contains (c # s) p = (HasPrefix (c # s) p \<or> strings_Contains s p)"

fun LastIndexByte :: "string \<Rightarrow> char \<Rightarrow> int" where
  "LastIndexByte [] c = -1"
| "LastIndexByte (x # s) c =
     (let i = LastIndexByte s c in if 0 \<le> i then i + 1 else if x = c then 0 else -1)"

text \<open>
  The field \<open>Host\<close> of a URL that \<open>url.Parse\<close> accepts: after the scheme and two slashes, up to the
  path, the query or the fragment, without the part before the last \<open>@\<close>, its escapes decoded.
\<close>

fun percent_decode :: "string \<Rightarrow> string" where
  "percent_decode (p # h # l # s) =
     (case (hex_value h, hex_value l) of
        (Some a, Some b) \<Rightarrow> if p = CHR ''%'' then char_of (16 * a + b) # percent_decode s
                            else p # percent_decode (h # l # s)
      | _ \<Rightarrow> p # percent_decode (h # l # s))"
| "percent_decode s = s"

definition after_scheme :: "string \<Rightarrow> string" where
  "after_scheme s = (case scheme_end 0 s of Some i \<Rightarrow> drop (i + 1) s | None \<Rightarrow> s)"

definition url_Host :: "string \<Rightarrow> string" where
  "url_Host s =
     (let rest = after_scheme s
      in if \<not> HasPrefix rest ''//'' \<or> (scheme_end 0 s = None \<and> HasPrefix rest ''///'') then []
         else let authority = takeWhile (\<lambda>c. c \<notin> set ''/?#'') (drop 2 rest)
              in percent_decode (drop (nat (LastIndexByte authority (CHR ''@'') + 1)) authority))"

definition validOptionalPort :: "string \<Rightarrow> bool" where
  "validOptionalPort p = (case p of [] \<Rightarrow> True | c # cs \<Rightarrow> c = CHR '':'' \<and> list_all is_digit cs)"

text \<open>\<open>URL.Hostname\<close> and \<open>URL.Port\<close>\<close>

definition splitHostPort :: "string \<Rightarrow> string \<times> string" where
  "splitHostPort hostPort =
     (let colon = LastIndexByte hostPort (CHR '':'');
          (host, port) = (if colon \<noteq> -1 \<and> validOptionalPort (drop (nat colon) hostPort)
                          then (take (nat colon) hostPort, drop (nat colon + 1) hostPort) else (hostPort, []))
      in (if 2 \<le> length host \<and> hd host = CHR ''['' \<and> last host = CHR '']'' then butlast (tl host) else host, port))"

definition ExtractHostPort :: "golib \<Rightarrow> string \<Rightarrow> go_error + string \<times> string" where
  "ExtractHostPort L urlStr =
     (let addr = (if strings_Contains urlStr ''://'' then urlStr else ''http://'' @ urlStr)
      in case url_Parse L addr of
           Inl err \<Rightarrow> Inl (Errorf ''error parsing http server url: '' (Some (Errorf err None)))
         | Inr _ \<Rightarrow>
             let (host, port) = splitHostPort (url_Host addr)
             in if host = [] then Inl (Errorf ''http server url has empty host'' None) else Inr (host, port))"

section \<open>What an address gives back\<close>

text \<open>Letters, digits, hyphens and dots.\<close>

definition host_char :: "char \<Rightarrow> bool" where
  "host_char c \<longleftrightarrow> is_letter c \<or> is_digit c \<or> c \<in> set ''-.''"

lemma LastIndexByte_none: "c \<notin> set s \<Longrightarrow> LastIndexByte s c = -1"
  by (induction s) (auto simp: Let_def)

lemma LastIndexByte_last: "c \<notin> set t \<Longrightarrow> LastIndexByte (s @ c # t) c = len s"
  by (induction s) (auto simp: Let_def LastIndexByte_none len_def)

lemma percent_decode_id: "CHR ''%'' \<notin> set s \<Longrightarrow> percent_decode s = s"
  by (induction s rule: percent_decode.induct) (auto split: option.split)

lemma no_slash: "CHR ''/'' \<notin> set s \<Longrightarrow> \<not> strings_Contains s ''://''"
proof (induction s)
  case (Cons c s)
  then have "take 2 s \<noteq> ''//''" by (cases s) auto
  then show ?case using Cons by (simp add: HasPrefix_def numeral_2_eq_2)
qed simp

lemma host_chars:
  assumes "list_all host_char host"
  shows "set host \<inter> set ''/?#@:%['' = {}"
proof -
  have "\<not> host_char x" if "x \<in> set ''/?#@:%[''" for x
    using that by (auto simp: host_char_def is_letter_def is_digit_def byte_def)
  then show ?thesis using assms by (auto simp: list_all_iff)
qed

lemma digit_chars:
  assumes "list_all is_digit port"
  shows "set port \<inter> set ''/?#@:%['' = {}"
proof -
  have "list_all host_char port" using assms by (auto simp: list_all_iff host_char_def)
  then show ?thesis by (rule host_chars)
qed

text \<open>The host of an address that begins with \<open>http://\<close> and has neither path nor user.\<close>

lemma url_Host_plain:
  assumes "set s \<inter> set ''/?#@%'' = {}"
  shows "url_Host (''http://'' @ s) = s"
proof -
  let ?a = "takeWhile (\<lambda>c. c \<notin> set ''/?#'') s"
  have scheme: "scheme_end 0 (''http://'' @ s) = Some 4" by (simp add: is_letter_def byte_def)
  have after: "after_scheme (''http://'' @ s) = ''//'' @ s" unfolding after_scheme_def scheme by simp
  have host: "url_Host (''http://'' @ s) = percent_decode (drop (nat (LastIndexByte ?a (CHR ''@'') + 1)) ?a)"
    unfolding url_Host_def after scheme Let_def by (simp add: HasPrefix_def)
  have all: "?a = s" unfolding takeWhile_eq_all_conv using assms by auto
  have user: "LastIndexByte s (CHR ''@'') = -1" using assms by (intro LastIndexByte_none) auto
  have plain: "percent_decode s = s" using assms by (intro percent_decode_id) auto
  show ?thesis unfolding host all user by (simp add: plain)
qed

text \<open>
  An address made of a host and a port is read back as the two, with \<open>http://\<close> before it or not,
  and one without a port as its host.
\<close>

lemma host_port_read_back:
  assumes host: "host \<noteq> []" "list_all host_char host" and port: "list_all is_digit port"
    and "address = host @ '':'' @ port \<or> address = host \<and> port = []"
    and "gl_url_error L (''http://'' @ address) = None"
  shows "ExtractHostPort L address = Inr (host, port)"
    and "ExtractHostPort L (''http://'' @ address) = Inr (host, port)"
proof -
  have chars: "set address \<inter> set ''/?#@%['' = {}"
    using host_chars[OF host(2)] digit_chars[OF port] assms(4) by auto
  have colon: "CHR '':'' \<notin> set port" "CHR '':'' \<notin> set host" "hd host \<noteq> CHR ''[''"
    using host_chars[OF host(2)] digit_chars[OF port] host(1) by (auto simp: hd_in_set disjoint_iff)
  have "splitHostPort address = (host, port)"
    using assms(4) LastIndexByte_last[OF colon(1), of host] LastIndexByte_none[OF colon(2)] port colon(3)
    by (auto simp: splitHostPort_def validOptionalPort_def len_def)
  moreover have "url_Host (''http://'' @ address) = address" using chars by (intro url_Host_plain) auto
  ultimately have read: "splitHostPort (url_Host (''http://'' @ address)) = (host, port)" by simp
  have "\<not> strings_Contains address ''://''" "strings_Contains (''http://'' @ address) ''://''"
    using chars by (auto simp: no_slash HasPrefix_def)
  then show "ExtractHostPort L address = Inr (host, port)" "ExtractHostPort L (''http://'' @ address) = Inr (host, port)"
    using read assms(5) host(1) by (simp_all add: ExtractHostPort_def url_Parse_def Let_def)
qed

section \<open>The passkey library\<close>

record webauthn_settings =
  ws_RPDisplayName :: string
  ws_RPID :: string
  ws_RPOrigins :: "string list"

text \<open>\<open>NewWebAuthnConfig\<close>; \<open>build\<close> is \<open>webauthn.New\<close>.\<close>

definition NewWebAuthnConfig ::
  "golib \<Rightarrow> (webauthn_settings \<Rightarrow> go_error + 'w) \<Rightarrow> Config \<Rightarrow> go_error + 'w" where
  "NewWebAuthnConfig L build config = (case ExtractHostPort L (PublicOrigin config) of
       Inl err \<Rightarrow> Inl (Errorf ''failed to parse server http address: '' (Some err))
     | Inr (host, _) \<Rightarrow> build \<lparr>ws_RPDisplayName = RPDisplayName config, ws_RPID = host,
                              ws_RPOrigins = AllowedOrigins config\<rparr>)"

text \<open>The relying party is the host of the public origin, whatever its port.\<close>

lemma relying_party_is_host:
  assumes "host \<noteq> []" and "list_all host_char host" and "list_all is_digit port"
    and "PublicOrigin config = ''http://'' @ host @ '':'' @ port"
    and "gl_url_error L (''http://'' @ host @ '':'' @ port) = None"
  shows "NewWebAuthnConfig L build config = build \<lparr>ws_RPDisplayName = RPDisplayName config,
    ws_RPID = host, ws_RPOrigins = AllowedOrigins config\<rparr>"
  using host_port_read_back(2)[OF assms(1-3), of "host @ '':'' @ port" L] assms(4,5)
  by (simp add: NewWebAuthnConfig_def)

section \<open>Passwords and random values\<close>

definition HashPassword :: "(string \<Rightarrow> go_error + string) \<Rightarrow> string \<Rightarrow> go_error + string" where
  "HashPassword generate password = (case generate password of
       Inl err \<Rightarrow> Inl (Errorf ''failed to hash password '' (Some err))
     | Inr h \<Rightarrow> Inr h)"

definition CheckPassword :: "(string \<Rightarrow> string \<Rightarrow> go_error option) \<Rightarrow> string \<Rightarrow> string \<Rightarrow> go_error option" where
  "CheckPassword compare password hashedPassword = compare hashedPassword password"

definition alphabet :: string where "alphabet = ''abcdefghijklmnopqrstuvwxyz''"

text \<open>
  A draw is what \<open>rand.Int63n\<close> or \<open>rand.Intn\<close> returns for a bound, which must be positive; the
  difference of the bounds wraps around.
\<close>

definition RandomInt :: "(int \<Rightarrow> int) \<Rightarrow> int \<Rightarrow> int \<Rightarrow> int option" where
  "RandomInt draw lo hi = (let n = wrap64 (hi - lo + 1)
     in if n \<le> 0 then None else Some (wrap64 (lo + draw n)))"

text \<open>\<open>draws\<close> are the results of \<open>rand.Intn(26)\<close> in their order.\<close>

definition RandomString :: "(nat \<Rightarrow> nat) \<Rightarrow> int \<Rightarrow> string" where
  "RandomString draws n = map (\<lambda>i. alphabet ! draws i) [0..<nat n]"

definition RandomOwner :: "(nat \<Rightarrow> nat) \<Rightarrow> string" where
  "RandomOwner draws = RandomString draws 6"

definition RandomMoney :: "(int \<Rightarrow> int) \<Rightarrow> int option" where
  "RandomMoney draw = RandomInt draw 0 1000"

definition RandomEmail :: "(nat \<Rightarrow> nat) \<Rightarrow> string" where
  "RandomEmail draws = RandomString draws 6 @ ''@email.com''"

definition RandomURL :: "(nat \<Rightarrow> nat) \<Rightarrow> string" where
  "RandomURL draws = ''https://'' @ RandomString draws 8 @ ''.com''"

definition RandomByteArray :: "(nat \<Rightarrow> nat) \<Rightarrow> int \<Rightarrow> string option" where
  "RandomByteArray draws n = (if n < 0 then None else Some (map (\<lambda>i. char_of (draws i)) [0..<nat n]))"

lemma RandomInt_in_range:
  assumes "lo \<le> hi" and "in_bigint lo" and "in_bigint hi" and "hi - lo + 1 < 2 ^ 63"
    and "\<And>n. 0 < n \<Longrightarrow> 0 \<le> draw n \<and> draw n < n"
  shows "\<exists>x. RandomInt draw lo hi = Some x \<and> lo \<le> x \<and> x \<le> hi"
proof -
  have n: "wrap64 (hi - lo + 1) = hi - lo + 1" using assms(1,4) by (intro wrap64_id) auto
  have d: "0 \<le> draw (hi - lo + 1)" "draw (hi - lo + 1) < hi - lo + 1" using assms(1) assms(5)[of "hi - lo + 1"] by auto
  then have "wrap64 (lo + draw (hi - lo + 1)) = lo + draw (hi - lo + 1)"
    using assms(2,3) by (intro wrap64_id) (auto simp: in_bigint_def)
  then show ?thesis using n d assms(1) by (simp add: RandomInt_def Let_def)
qed

lemma RandomString_letters:
  assumes "\<And>i. draws i < 26"
  shows "length (RandomString draws n) = nat n" and "set (RandomString draws n) \<subseteq> set alphabet"
proof -
  have "length alphabet = 26" by (simp add: alphabet_def)
  then show "set (RandomString draws n) \<subseteq> set alphabet"
    using assms by (auto simp: RandomString_def)
qed (simp add: RandomString_def)

end
