(* ===== verification/Api_Service.thy ===== *)
theory Api_Service
  imports Api_Handlers Tmpstore Util_Config
begin

text \<open>
  What the handlers of the passkey ceremonies share: the parts of the service
  (\<open>api/service.go\<close>) and the interface of \<open>wauthn/config.go\<close>, the session cookie, the address
  of the client (\<open>api/utils.go\<close>), the headers of CORS (\<open>api/cors_middleware.go\<close>), users in the
  form the passkey library wants (\<open>api/user_utils.go\<close>) and the pair of tokens that opens a session
  (\<open>api/generate_auth_tokens.go\<close>).
\<close>

section \<open>Cookies\<close>

record Cookie =
  hc_Name :: string
  hc_Value :: string
  hc_MaxAge :: int
  hc_Path :: string
  hc_Domain :: string
  hc_Secure :: bool
  hc_HttpOnly :: bool

definition webauthnSessionCookie :: string where "webauthnSessionCookie = ''webauthn_session''"
definition WebauthnTransportHeader :: string where "WebauthnTransportHeader = ''X-Webauthn-Transports''"

text \<open>A request with the headers these handlers read; the text of the body is for the library.\<close>

record web_request =
  wr_request :: request
  wr_Method :: string
  wr_Origin :: string
  wr_Cookie :: "string option"
  wr_Transports :: string
  wr_UserAgent :: string
  wr_ForwardedFor :: string
  wr_RemoteAddr :: string
  wr_Body :: string

text \<open>\<open>int(d.Seconds())\<close>; the rounding of \<open>Seconds\<close> to a float is left out.\<close>

definition seconds :: "int \<Rightarrow> int" where
  "seconds d = (if d < 0 then - (- d div 1000000000) else d div 1000000000)"

definition setWebauthnSessionCookie :: "Config \<Rightarrow> string \<Rightarrow> int \<Rightarrow> Cookie" where
  "setWebauthnSessionCookie cf sessionID maxAge =
     \<lparr>hc_Name = webauthnSessionCookie, hc_Value = sessionID, hc_MaxAge = maxAge, hc_Path = ''/'',
      hc_Domain = [], hc_Secure = (Environment cf \<noteq> ''development''), hc_HttpOnly = True\<rparr>"

definition getWebauthnSessionCookieValue :: "web_request \<Rightarrow> string" where
  "getWebauthnSessionCookieValue r = (case wr_Cookie r of None \<Rightarrow> [] | Some v \<Rightarrow> v)"

definition clearWebauthnSessionCookie :: "bool \<Rightarrow> Cookie" where
  "clearWebauthnSessionCookie secure =
     \<lparr>hc_Name = webauthnSessionCookie, hc_Value = [], hc_MaxAge = -1, hc_Path = ''/'',
      hc_Domain = [], hc_Secure = secure, hc_HttpOnly = True\<rparr>"

section \<open>The address of the client\<close>

text \<open>\<open>strings.Split\<close> with a separator of one byte.\<close>

fun strings_Split :: "char \<Rightarrow> string \<Rightarrow> string list" where
  "strings_Split sep [] = [[]]"
| "strings_Split sep (c # s) =
     (if c = sep then [] # strings_Split sep s
      else case strings_Split sep s of [] \<Rightarrow> [[c]] | w # ws \<Rightarrow> (c # w) # ws)"

text \<open>\<open>net.SplitHostPort\<close>: the host, empty beside an error.\<close>

definition SplitHostPort :: "string \<Rightarrow> string" where
  "SplitHostPort hostport =
     (let i = LastIndexByte hostport (CHR '':'') in
      if i < 0 then []
      else if hd hostport = CHR ''['' then
        let e = index_byte hostport (CHR '']'') in
        if e < 0 \<or> e + 1 \<noteq> i then []
        else if CHR ''['' \<in> set (drop 1 hostport) \<or> CHR '']'' \<in> set (drop (nat (e + 1)) hostport) then []
        else take (nat e - 1) (drop 1 hostport)
      else
        let host = take (nat i) hostport in
        if CHR '':'' \<in> set host \<or> CHR ''['' \<in> set hostport \<or> CHR '']'' \<in> set hostport then []
        else host)"

definition getClientIP :: "web_request \<Rightarrow> string" where
  "getClientIP r =
     (if wr_ForwardedFor r \<noteq> [] then TrimSpace (hd (strings_Split (CHR '','') (wr_ForwardedFor r)))
      else SplitHostPort (wr_RemoteAddr r))"

section \<open>The headers of CORS\<close>

text \<open>The headers set on the response, and 204 when the request goes no further.\<close>

definition corsMiddleware :: "Config \<Rightarrow> web_request \<Rightarrow> (string \<times> string) list \<times> int option" where
  "corsMiddleware cf r =
     ((''Vary'', ''Origin'')
      # (if wr_Origin r \<noteq> [] \<and> wr_Origin r \<in> set (AllowedOrigins cf)
         then [(''Access-Control-Allow-Origin'', wr_Origin r),
               (''Access-Control-Allow-Credentials'', ''true''),
               (''Access-Control-Allow-Methods'', ''GET, POST, PUT, PATCH, DELETE, OPTIONS''),
               (''Access-Control-Allow-Headers'',
                strings_Join [''Content-Type'', ''Authorization'', WebauthnTransportHeader] '','')]
         else []),
      if wr_Method r = ''OPTIONS'' then Some 204 else None)"

section \<open>Users for the passkey library\<close>

record PrivateUserResponse =
  pv_ID :: int
  pv_Username :: string
  pv_DisplayName :: string
  pv_IsDeleted :: bool
  pv_DeletedAt :: int
  pv_Email :: string
  pv_ProfileImageURL :: "string option"
  pv_CreatedAt :: int

definition createPrivateUserResponse :: "User \<Rightarrow> PrivateUserResponse" where
  "createPrivateUserResponse user =
     \<lparr>pv_ID = u_ID user, pv_Username = u_Username user, pv_DisplayName = u_DisplayName user,
      pv_IsDeleted = u_IsDeleted user, pv_DeletedAt = u_DeletedAt user, pv_Email = u_Email user,
      pv_ProfileImageURL = (if tx_Valid (u_ProfileImgUrl user)
        then Some (tx_String (u_ProfileImgUrl user)) else None),
      pv_CreatedAt = u_CreatedAt user\<rparr>"

text \<open>\<open>webauthn.Credential\<close>, its parts flattened; the count is a \<open>uint32\<close>, the algorithm an \<open>int64\<close>.\<close>

record Credential =
  cr_ID :: string
  cr_PublicKey :: string
  cr_AttestationType :: string
  cr_Transport :: "string list"
  cr_UserPresent :: bool
  cr_UserVerified :: bool
  cr_BackupEligible :: bool
  cr_BackupState :: bool
  cr_AAGUID :: string
  cr_SignCount :: int
  cr_CloneWarning :: bool
  cr_Attachment :: string
  cr_AuthenticatorData :: string
  cr_PublicKeyAlgorithm :: int

record UserWithCredentials =
  uc_User :: User
  uc_Credentials :: "Credential list"

text \<open>The credentials are converted one by one; the first that fails ends the loop.\<close>

definition parse_credential :: "string list codec \<Rightarrow> WebauthnCredential \<Rightarrow> go_error + Credential" where
  "parse_credential T cred =
     (case co_Unmarshal T (k_Transports cred) of
        Inl err \<Rightarrow> Inl (Errorf (''failed to parse transports for credential '' @ hex_text (k_ID cred) @ '': '') (Some err))
      | Inr parsedTransport \<Rightarrow> Inr
          \<lparr>cr_ID = k_ID cred, cr_PublicKey = k_PublicKey cred,
           cr_AttestationType = tx_String (k_AttestationType cred), cr_Transport = parsedTransport,
           cr_UserPresent = k_UserPresent cred, cr_UserVerified = k_UserVerified cred,
           cr_BackupEligible = k_BackupEligible cred, cr_BackupState = k_BackupState cred,
           cr_AAGUID = k_Aaguid cred, cr_SignCount = k_SignCount cred mod 2 ^ 32,
           cr_CloneWarning = k_CloneWarning cred, cr_Attachment = k_AuthenticatorAttachment cred,
           cr_AuthenticatorData = k_AuthenticatorData cred,
           cr_PublicKeyAlgorithm = k_PublicKeyAlgorithm cred\<rparr>)"

fun parse_credentials :: "string list codec \<Rightarrow> WebauthnCredential list \<Rightarrow> go_error + Credential list" where
  "parse_credentials T [] = Inr []"
| "parse_credentials T (cred # creds) =
     (case parse_credential T cred of
        Inl err \<Rightarrow> Inl err
      | Inr c \<Rightarrow> (case parse_credentials T creds of Inl err \<Rightarrow> Inl err | Inr cs \<Rightarrow> Inr (c # cs)))"

definition NewUserWithCredentials ::
  "string list codec \<Rightarrow> User \<Rightarrow> WebauthnCredential list \<Rightarrow> go_error + UserWithCredentials" where
  "NewUserWithCredentials T user creds =
     (case parse_credentials T creds of
        Inl err \<Rightarrow> Inl err
      | Inr parsedCreds \<Rightarrow> Inr \<lparr>uc_User = user, uc_Credentials = parsedCreds\<rparr>)"

record TempUser =
  tu_ID :: string
  tu_Email :: string
  tu_Username :: string
  tu_WebauthnUserHandle :: string

text \<open>What the four methods of the interface \<open>webauthn.User\<close> return.\<close>

record webauthn_User =
  WebAuthnID :: string
  WebAuthnName :: string
  WebAuthnDisplayName :: string
  WebAuthnCredentials :: "Credential list"

definition user_with_credentials :: "UserWithCredentials \<Rightarrow> webauthn_User" where
  "user_with_credentials u = \<lparr>WebAuthnID = u_WebauthnUserHandle (uc_User u), WebAuthnName = u_Email (uc_User u),
     WebAuthnDisplayName = u_Username (uc_User u), WebAuthnCredentials = uc_Credentials u\<rparr>"

definition temp_user :: "TempUser \<Rightarrow> webauthn_User" where
  "temp_user u = \<lparr>WebAuthnID = tu_WebauthnUserHandle u, WebAuthnName = tu_Email u,
     WebAuthnDisplayName = tu_Username u, WebAuthnCredentials = []\<rparr>"

text \<open>The ceremonies of the library, as the interface \<open>wauthn.WebAuthnConfig\<close> has them.\<close>

record ('s, 'c, 'a) WebAuthnConfig =
  wa_BeginRegistration :: "webauthn_User \<Rightarrow> go_error + 'c \<times> 's"
  wa_FinishRegistration :: "webauthn_User \<Rightarrow> 's \<Rightarrow> web_request \<Rightarrow> go_error + Credential"
  wa_BeginLogin :: "webauthn_User \<Rightarrow> go_error + 'a \<times> 's"
  wa_FinishLogin :: "webauthn_User \<Rightarrow> 's \<Rightarrow> web_request \<Rightarrow> go_error + Credential"

section \<open>The service\<close>

text \<open>
  The parts of the service, with what it uses of libraries: \<open>sv_lib\<close>, the codec of lists of
  transports, and the text of a \<open>uuid.UUID\<close>. The store of the database is the state.
\<close>

record ('r, 's, 'c, 'a) Service =
  sv_config :: Config
  sv_tokenMaker :: token_maker
  sv_webauthnConfig :: "('s, 'c, 'a) WebAuthnConfig"
  sv_redisStore :: "('r, 's) RedisStore"
  sv_lib :: apilib
  sv_transports :: "string list codec"
  sv_uuid_text :: "string \<Rightarrow> string"

record PrivateSuccessAuthResponse =
  ps_SessionID :: string
  ps_AccessToken :: string
  ps_AccessTokenExpiresAt :: int
  ps_RefreshToken :: string
  ps_RefreshTokenExpiresAt :: int
  ps_User :: PrivateUserResponse

text \<open>The two tokens are made at the moments \<open>m1\<close> and \<open>m2\<close>.\<close>

definition generateAuthTokens ::
  "('r, 's, 'c, 'a) Service \<Rightarrow> moment \<Rightarrow> moment \<Rightarrow> env \<Rightarrow> User \<Rightarrow> string \<Rightarrow> string \<Rightarrow> db
     \<Rightarrow> PrivateSuccessAuthResponse result" where
  "generateAuthTokens S m1 m2 E user userAgent clientIP d =
     (case tm_CreateToken (sv_tokenMaker S) m1 (u_ID user) (AccessTokenDuration (sv_config S)) of
        Inl err \<Rightarrow> (Inl err, d)
      | Inr (accessToken, accessPayload) \<Rightarrow>
        (case tm_CreateToken (sv_tokenMaker S) m2 (u_ID user) (RefreshTokenDuration (sv_config S)) of
           Inl err \<Rightarrow> (Inl err, d)
         | Inr (refreshToken, refreshPayload) \<Rightarrow>
             let sessionParams = \<lparr>cs_ID = pl_ID refreshPayload, cs_UserID = u_ID user,
                   cs_RefreshToken = refreshToken, cs_UserAgent = userAgent, cs_ClientIp = clientIP,
                   cs_IsBlocked = False, cs_ExpiresAt = pl_ExpiredAt refreshPayload\<rparr>
             in case CreateSession (sv_uuid_text S) E sessionParams d of
                  (Inl err, d1) \<Rightarrow> (Inl err, d1)
                | (Inr session, d1) \<Rightarrow>
                    (Inr \<lparr>ps_SessionID = s_ID session, ps_AccessToken = accessToken,
                          ps_AccessTokenExpiresAt = pl_ExpiredAt accessPayload,
                          ps_RefreshToken = refreshToken,
                          ps_RefreshTokenExpiresAt = pl_ExpiredAt refreshPayload,
                          ps_User = createPrivateUserResponse user\<rparr>, d1)))"

end
