(* ===== verification/Api_Passkeys.thy ===== *)
theory Api_Passkeys
  imports Api_Service
begin

text \<open>
  The four handlers of the passkey ceremonies (\<open>api/webauthn_signup_start.go\<close>,
  \<open>webauthn_signup_finish.go\<close>, \<open>webauthn_signin_start.go\<close>, \<open>webauthn_signin_finish.go\<close>). The
  state is the database and the state of the redis server. The handlers read the clock once:
  \<open>now\<close> is the time of the request.
\<close>

section \<open>Responses\<close>

text \<open>The body may be the options a ceremony begins with, which the library makes, or the tokens.\<close>

datatype ('c, 'a) passkey_body =
    Plain body
  | SignupStartResponse 'c
  | SigninStartResponse 'a
  | AuthSuccess PrivateSuccessAuthResponse

record ('c, 'a) passkey_response =
  pk_Status :: int
  pk_Body :: "('c, 'a) passkey_body"
  pk_Cookie :: "Cookie option"

definition plain_response :: "response \<Rightarrow> ('c, 'a) passkey_response" where
  "plain_response x = \<lparr>pk_Status = rs_Status x, pk_Body = Plain (rs_Body x), pk_Cookie = None\<rparr>"

definition refuse_vomit :: "Vomit \<Rightarrow> ('c, 'a) passkey_response" where
  "refuse_vomit v = plain_response (respondWithJSON (v_Status v) (VomitBody v))"

definition refuse_auth :: "AuthError \<Rightarrow> ('c, 'a) passkey_response" where
  "refuse_auth e = plain_response (abort_auth e)"

definition server_error :: "('c, 'a) passkey_response" where
  "server_error = plain_response (respondWithJSON 500 (ResourceBody internalResourceError))"

definition refuse_store :: "go_error \<Rightarrow> 'st \<Rightarrow> (('c, 'a) passkey_response \<times> 'st) option" where
  "refuse_store err st = map_option (\<lambda>re. (plain_response (abort_resource re), st)) (newResourceError err)"

section \<open>Signing up: the start\<close>

record SignupStartRequest =
  sg_Email :: string
  sg_Username :: string

definition SignupStartRequest_Validate :: "apilib \<Rightarrow> SignupStartRequest \<Rightarrow> Vomit option" where
  "SignupStartRequest_Validate L r = barf
     (validate (sg_Email r) ''email'' [strRequired, strEmail L]
      @ validate (sg_Username r) ''username'' [strRequired, strMin 3, strMax 50, strAlphanum L])"

definition username_taken :: "string \<Rightarrow> Vomit" where
  "username_taken name = puke ReqInvalidArguments 409 (''user with username ['' @ name @ ''] already exists'') None []"

definition email_taken :: "string \<Rightarrow> Vomit" where
  "email_taken email = puke ReqInvalidArguments 409 (''user with email ['' @ email @ ''] already exists'') None []"

text \<open>\<open>handle\<close> is what \<open>rand.Read\<close> gives, \<open>sid\<close> what \<open>uuid.NewString\<close> gives; None is its panic.\<close>

definition signupStart ::
  "('r, 's, 'c, 'a) Service \<Rightarrow> env \<Rightarrow> int \<Rightarrow> go_error + string \<Rightarrow> string option
     \<Rightarrow> SignupStartRequest json_body \<Rightarrow> web_request \<Rightarrow> db \<times> 'r
     \<Rightarrow> (('c, 'a) passkey_response \<times> db \<times> 'r) option" where
  "signupStart S E now handle sid b r st =
     (case ingestJSONBody (wr_request r) b of
        Inl v \<Rightarrow> Some (refuse_vomit v, st)
      | Inr req \<Rightarrow>
        (case SignupStartRequest_Validate (sv_lib S) req of
           Some v \<Rightarrow> Some (refuse_vomit v, st)
         | None \<Rightarrow>
           (case UsernameExists E (sg_Username req) (fst st) of
              (Inl err, d1) \<Rightarrow> refuse_store err (d1, snd st)
            | (Inr True, d1) \<Rightarrow> Some (refuse_vomit (username_taken (sg_Username req)), d1, snd st)
            | (Inr False, d1) \<Rightarrow>
              (case EmailExists E (sg_Email req) d1 of
                 (Inl err, d2) \<Rightarrow> refuse_store err (d2, snd st)
               | (Inr True, d2) \<Rightarrow> Some (refuse_vomit (email_taken (sg_Email req)), d2, snd st)
               | (Inr False, d2) \<Rightarrow>
                 (case handle of
                    Inl err \<Rightarrow> Some (server_error, d2, snd st)
                  | Inr userHandle \<Rightarrow>
                    (case wa_BeginRegistration (sv_webauthnConfig S) (temp_user \<lparr>tu_ID = userHandle,
                            tu_Email = sg_Email req, tu_Username = sg_Username req,
                            tu_WebauthnUserHandle = userHandle\<rparr>) of
                       Inl err \<Rightarrow> Some (server_error, d2, snd st)
                     | Inr (create, session) \<Rightarrow>
                       (case sid of
                          None \<Rightarrow> None
                        | Some sessionID \<Rightarrow>
                            let ttl = RegistrationSessionTTL (sv_config S);
                                registrationData = \<lparr>pr_Email = sg_Email req,
                                  pr_Username = sg_Username req, pr_WebauthnUserHandle = userHandle,
                                  pr_SessionData = Some session, pr_ExpiresAt = now + ttl\<rparr>
                            in case SaveUserRegSession (sv_redisStore S) sessionID registrationData ttl now (snd st) of
                                 (Some err, r1) \<Rightarrow> Some (server_error, d2, r1)
                               | (None, r1) \<Rightarrow> Some (\<lparr>pk_Status = 200, pk_Body = SignupStartResponse create,
                                   pk_Cookie = Some (setWebauthnSessionCookie (sv_config S) sessionID (seconds ttl))\<rparr>,
                                   d2, r1))))))))"

section \<open>Signing up: the end\<close>

definition extractTransportData :: "web_request \<Rightarrow> Credential \<Rightarrow> string list" where
  "extractTransportData r cred =
     (if 0 < len (cr_Transport cred) then cr_Transport cred
      else strings_Split (CHR '','') (wr_Transports r))"

text \<open>\<open>uuid.UUID(slice)\<close> takes the first 16 bytes and panics if there are fewer.\<close>

definition uuid_of_slice :: "string \<Rightarrow> string option" where
  "uuid_of_slice s = (if length s < 16 then None else Some (take 16 s))"

definition credential_params :: "Credential \<Rightarrow> string \<Rightarrow> string \<Rightarrow> CreateCredentialsTxParams" where
  "credential_params cred jsonTransport aaguid =
     \<lparr>tc_ID = cr_ID cred, tc_PublicKey = cr_PublicKey cred,
      tc_AttestationType = \<lparr>tx_String = cr_AttestationType cred, tx_Valid = (cr_AttestationType cred \<noteq> [])\<rparr>,
      tc_Transports = jsonTransport, tc_UserPresent = cr_UserPresent cred,
      tc_UserVerified = cr_UserVerified cred, tc_BackupEligible = cr_BackupEligible cred,
      tc_BackupState = cr_BackupState cred, tc_Aaguid = aaguid,
      tc_CloneWarning = cr_CloneWarning cred, tc_AuthenticatorAttachment = cr_Attachment cred,
      tc_AuthenticatorData = cr_AuthenticatorData cred,
      tc_PublicKeyAlgorithm = wrap32 (cr_PublicKeyAlgorithm cred)\<rparr>"

definition no_cookie :: Vomit where
  "no_cookie = puke ReqMissingData 400 ''missing or invalid session cookie'' None []"

definition no_pending :: "go_error \<Rightarrow> Vomit" where
  "no_pending err = puke AuthSessionNotFound 400 ''registration session not found or expired'' (Some err) []"

definition pending_expired :: Vomit where
  "pending_expired = puke AuthSessionExpired 400 ''registration session expired'' None []"

definition registration_failed :: "go_error \<Rightarrow> Vomit" where
  "registration_failed err = puke AuthVerificationFailed 400 ''webauthn registration verification failed'' (Some err) []"

text \<open>The tokens of the new user end the ceremony; the error of the deletion is ignored.\<close>

definition signup_done ::
  "('r, 's, 'c, 'a) Service \<Rightarrow> env \<Rightarrow> moment \<Rightarrow> moment \<Rightarrow> web_request \<Rightarrow> string \<Rightarrow> User \<Rightarrow> db \<times> 'r
     \<Rightarrow> (('c, 'a) passkey_response \<times> db \<times> 'r)" where
  "signup_done S E m1 m2 r sessionID user st =
     (let cleared = Some (clearWebauthnSessionCookie (Environment (sv_config S) \<noteq> ''development''));
          r1 = snd (DeleteUserRegSession (sv_redisStore S) sessionID (snd st))
      in case generateAuthTokens S m1 m2 E user (wr_UserAgent r) (getClientIP r) (fst st) of
           (Inl err, d1) \<Rightarrow> (server_error\<lparr>pk_Cookie := cleared\<rparr>, d1, r1)
         | (Inr res, d1) \<Rightarrow> (\<lparr>pk_Status = 200, pk_Body = AuthSuccess res, pk_Cookie = cleared\<rparr>, d1, r1))"

definition signupFinish ::
  "('r, 's, 'c, 'a) Service \<Rightarrow> env \<Rightarrow> moment \<Rightarrow> moment \<Rightarrow> web_request \<Rightarrow> db \<times> 'r
     \<Rightarrow> (('c, 'a) passkey_response \<times> db \<times> 'r) option" where
  "signupFinish S E m1 m2 r st =
     (let now = mo_Now m1; sessionID = getWebauthnSessionCookieValue r in
      if sessionID = [] then Some (refuse_vomit no_cookie, st)
      else case GetUserRegSession (sv_redisStore S) sessionID now (snd st) of
        Inl err \<Rightarrow> Some (refuse_vomit (no_pending err), st)
      | Inr pending \<Rightarrow>
        if pr_ExpiresAt pending < now then Some (refuse_vomit pending_expired, st)
        else (case pr_SessionData pending of
          None \<Rightarrow> None
        | Some session \<Rightarrow>
          (case wa_FinishRegistration (sv_webauthnConfig S) (temp_user \<lparr>tu_ID = pr_WebauthnUserHandle pending,
                  tu_Email = pr_Email pending, tu_Username = pr_Username pending,
                  tu_WebauthnUserHandle = pr_WebauthnUserHandle pending\<rparr>) session r of
             Inl err \<Rightarrow> Some (refuse_vomit (registration_failed err), st)
           | Inr cred \<Rightarrow>
             (case co_Marshal (sv_transports S) (extractTransportData r cred) of
                Inl err \<Rightarrow> Some (server_error, st)
              | Inr jsonTransport \<Rightarrow>
                (case uuid_of_slice (cr_AAGUID cred) of
                   None \<Rightarrow> None
                 | Some aaguid \<Rightarrow>
                   (case CreateUserWithCredentialsTx E \<lparr>cw_User = NewCreateUserParams (pr_Username pending)
                             (pr_Email pending) None (pr_WebauthnUserHandle pending),
                           cw_Cred = credential_params cred jsonTransport aaguid\<rparr> (fst st) of
                      (Inl err, d1) \<Rightarrow> Some (server_error, d1, snd st)
                    | (Inr user, d1) \<Rightarrow> Some (signup_done S E m1 m2 r sessionID user (d1, snd st))))))))"

section \<open>Signing in: the start\<close>

definition SigninStartRequest_Validate :: "apilib \<Rightarrow> string \<Rightarrow> Vomit option" where
  "SigninStartRequest_Validate L username = barf
     (validate username ''username'' [strRequired, strMin 3, strMax 50, strAlphanum L])"

definition signinStart ::
  "('r, 's, 'c, 'a) Service \<Rightarrow> env \<Rightarrow> int \<Rightarrow> string option \<Rightarrow> string json_body \<Rightarrow> web_request \<Rightarrow> db \<times> 'r
     \<Rightarrow> (('c, 'a) passkey_response \<times> db \<times> 'r) option" where
  "signinStart S E now sid b r st =
     (case ingestJSONBody (wr_request r) b of
        Inl v \<Rightarrow> Some (refuse_vomit v, st)
      | Inr username \<Rightarrow>
        (case SigninStartRequest_Validate (sv_lib S) username of
           Some v \<Rightarrow> Some (refuse_vomit v, st)
         | None \<Rightarrow>
           (case GetUserByUsername E username (fst st) of
              (Inl err, d1) \<Rightarrow> refuse_store err (d1, snd st)
            | (Inr user, d1) \<Rightarrow>
              (case GetUserCredentials E (u_ID user) d1 of
                 (Inl err, d2) \<Rightarrow> refuse_store err (d2, snd st)
               | (Inr creds, d2) \<Rightarrow>
                 (case NewUserWithCredentials (sv_transports S) user creds of
                    Inl err \<Rightarrow> Some (server_error, d2, snd st)
                  | Inr userWithCreds \<Rightarrow>
                    (case wa_BeginLogin (sv_webauthnConfig S) (user_with_credentials userWithCreds) of
                       Inl err \<Rightarrow> Some (server_error, d2, snd st)
                     | Inr (assertion, session) \<Rightarrow>
                       (case sid of
                          None \<Rightarrow> None
                        | Some sessionID \<Rightarrow>
                            let ttl = AuthenticationSessionTTL (sv_config S);
                                pendingAuth = \<lparr>pa_UserID = u_ID user, pa_Username = username,
                                  pa_SessionData = Some session, pa_ExpiresAt = now + ttl\<rparr>
                            in case SaveUserAuthSession (sv_redisStore S) sessionID pendingAuth ttl now (snd st) of
                                 (Some err, r1) \<Rightarrow> Some (server_error, d2, r1)
                               | (None, r1) \<Rightarrow> Some (\<lparr>pk_Status = 200, pk_Body = SigninStartResponse assertion,
                                   pk_Cookie = Some (setWebauthnSessionCookie (sv_config S) sessionID (seconds ttl))\<rparr>,
                                   d2, r1))))))))"

section \<open>Signing in: the end\<close>

definition no_auth_cookie :: AuthError where
  "no_auth_cookie = newAuthError AuthSessionNotFound 400 ''missing or invalid session cookie'' None"

definition no_pending_auth :: AuthError where
  "no_pending_auth = newAuthError AuthSessionNotFound 400 ''authentication session not found or expired'' None"

definition auth_expired :: AuthError where
  "auth_expired = newAuthError AuthSessionExpired 401 ''authentication session expired'' None"

definition login_failed :: "go_error \<Rightarrow> AuthError" where
  "login_failed err = newAuthError FlavorInternal 401 ''authentication failed'' (Some err)"

definition use_refused :: "go_error \<Rightarrow> AuthError" where
  "use_refused opErr = newAuthError AuthVerificationFailed 401 ''authentication failed'' (Some opErr)"

text \<open>Of the errors of \<open>RecordCredentialUse\<close> two kinds end the sign-in; the others are ignored.\<close>

definition rejects_use :: "go_error \<Rightarrow> go_error option" where
  "rejects_use err = (case errors_As_OpError err of
      None \<Rightarrow> None
    | Some opErr \<Rightarrow> if oe_Kind opErr = KindSecurity \<or> oe_Kind opErr = KindNotFound then Some opErr else None)"

definition signin_done ::
  "('r, 's, 'c, 'a) Service \<Rightarrow> env \<Rightarrow> moment \<Rightarrow> moment \<Rightarrow> web_request \<Rightarrow> string \<Rightarrow> User \<Rightarrow> db \<times> 'r
     \<Rightarrow> (('c, 'a) passkey_response \<times> db \<times> 'r)" where
  "signin_done S E m1 m2 r sessionID user st =
     (case generateAuthTokens S m1 m2 E user (wr_UserAgent r) (getClientIP r) (fst st) of
        (Inl err, d1) \<Rightarrow> (server_error, d1, snd st)
      | (Inr res, d1) \<Rightarrow>
          (\<lparr>pk_Status = 200, pk_Body = AuthSuccess res,
            pk_Cookie = Some (clearWebauthnSessionCookie (Environment (sv_config S) \<noteq> ''development''))\<rparr>,
           d1, snd (DeleteUserAuthSession (sv_redisStore S) sessionID (snd st))))"

definition signinFinish ::
  "('r, 's, 'c, 'a) Service \<Rightarrow> env \<Rightarrow> moment \<Rightarrow> moment \<Rightarrow> web_request \<Rightarrow> db \<times> 'r
     \<Rightarrow> (('c, 'a) passkey_response \<times> db \<times> 'r) option" where
  "signinFinish S E m1 m2 r st =
     (let now = mo_Now m1; sessionID = getWebauthnSessionCookieValue r in
      if sessionID = [] then Some (refuse_auth no_auth_cookie, st)
      else case GetUserAuthSession (sv_redisStore S) sessionID now (snd st) of
        Inl err \<Rightarrow> Some (refuse_auth no_pending_auth, st)
      | Inr pending \<Rightarrow>
        if pa_ExpiresAt pending < now then Some (refuse_auth auth_expired, st)
        else (case GetUser E (pa_UserID pending) (fst st) of
          (Inl err, d1) \<Rightarrow> refuse_store err (d1, snd st)
        | (Inr user, d1) \<Rightarrow>
          (case GetUserCredentials E (u_ID user) d1 of
             (Inl err, d2) \<Rightarrow> Some (server_error, d2, snd st)
           | (Inr credentials, d2) \<Rightarrow>
             (case NewUserWithCredentials (sv_transports S) user credentials of
                Inl err \<Rightarrow> Some (server_error, d2, snd st)
              | Inr userWithCreds \<Rightarrow>
                (case pa_SessionData pending of
                   None \<Rightarrow> None
                 | Some session \<Rightarrow>
                   (case wa_FinishLogin (sv_webauthnConfig S) (user_with_credentials userWithCreds) session r of
                      Inl err \<Rightarrow> Some (refuse_auth (login_failed err), d2, snd st)
                    | Inr credential \<Rightarrow>
                      (case RecordCredentialUse E \<lparr>rc_ID = cr_ID credential,
                              rc_SignCount = cr_SignCount credential\<rparr> d2 of
                         (Inl err, d3) \<Rightarrow>
                           (case rejects_use err of
                              Some opErr \<Rightarrow> Some (refuse_auth (use_refused opErr), d3, snd st)
                            | None \<Rightarrow> Some (signin_done S E m1 m2 r sessionID (uc_User userWithCreds) (d3, snd st)))
                       | (Inr _, d3) \<Rightarrow>
                           Some (signin_done S E m1 m2 r sessionID (uc_User userWithCreds) (d3, snd st)))))))))"

end
