(* ===== verification/Api_Routes.thy ===== *)
theory Api_Routes
  imports Api_Passkeys
begin

text \<open>
  The service as a whole: the routes of \<open>api/router.go\<close> with their middleware. Which pattern a
  request matches is decided by \<open>http.ServeMux\<close>: a \<open>route\<close> is the pattern it chose, with what the
  JSON decoder makes of the body, and with the random values a start of a ceremony draws.
\<close>

datatype route =
    Signup_Start "SignupStartRequest json_body" "go_error + string" "string option"
  | Signup_Finish
  | Signin_Start "string json_body" "string option"
  | Signin_Finish
  | Renew_Access "string json_body"
  | Create_Comment "string json_body"
  | Get_Comments
  | Update_Comment "string json_body"
  | Delete_Comment
  | Get_User
  | Update_User "UpdateUserRequest json_body"
  | Delete_User

text \<open>A handler that leaves redis alone.\<close>

definition on_db :: "(db \<Rightarrow> (response \<times> db) option) \<Rightarrow> db \<times> 'r \<Rightarrow> (('c, 'a) passkey_response \<times> db \<times> 'r) option" where
  "on_db f st = map_option (\<lambda>(resp, d). (plain_response resp, d, snd st)) (f (fst st))"

definition behind_auth ::
  "('r, 's, 'c, 'a) Service \<Rightarrow> int \<Rightarrow> (Payload \<Rightarrow> db \<Rightarrow> (response \<times> db) option) \<Rightarrow> web_request \<Rightarrow> db \<times> 'r
     \<Rightarrow> (('c, 'a) passkey_response \<times> db \<times> 'r) option" where
  "behind_auth S now h r = on_db (authMiddleware (golib.truncate (sv_lib S)) (sv_tokenMaker S) now h (wr_request r))"

definition setupRouter ::
  "('r, 's, 'c, 'a) Service \<Rightarrow> env \<Rightarrow> moment \<Rightarrow> moment \<Rightarrow> route \<Rightarrow> web_request \<Rightarrow> db \<times> 'r
     \<Rightarrow> (('c, 'a) passkey_response \<times> db \<times> 'r) option" where
  "setupRouter S E m1 m2 rt r =
     (let L = golib.truncate (sv_lib S); now = mo_Now m1; rq = wr_request r in
      case rt of
        Signup_Start b handle sid \<Rightarrow> signupStart S E now handle sid b r
      | Signup_Finish \<Rightarrow> signupFinish S E m1 m2 r
      | Signin_Start b sid \<Rightarrow> signinStart S E now sid b r
      | Signin_Finish \<Rightarrow> signinFinish S E m1 m2 r
      | Renew_Access b \<Rightarrow> on_db (renewAccessToken (sv_tokenMaker S)
          (AccessTokenDuration (sv_config S)) (sv_uuid_text S) m1 E b rq)
      | Create_Comment b \<Rightarrow> behind_auth S now (createComment_handler L (CommentLimits (sv_config S)) E b rq) r
      | Get_Comments \<Rightarrow> on_db (getComments L E rq)
      | Update_Comment b \<Rightarrow> behind_auth S now (updateComment_handler L E b rq) r
      | Delete_Comment \<Rightarrow> behind_auth S now (deleteComment_handler L E rq) r
      | Get_User \<Rightarrow> on_db (getUser_handler L E rq)
      | Update_User b \<Rightarrow> behind_auth S now (updateUser_handler (sv_lib S) E b rq) r
      | Delete_User \<Rightarrow> behind_auth S now (deleteUser_handler E) r)"

text \<open>The handler of the server: CORS around the routes. The headers come with the response.\<close>

definition serve ::
  "('r, 's, 'c, 'a) Service \<Rightarrow> env \<Rightarrow> moment \<Rightarrow> moment \<Rightarrow> route \<Rightarrow> web_request \<Rightarrow> db \<times> 'r
     \<Rightarrow> ((string \<times> string) list \<times> ('c, 'a) passkey_response \<times> db \<times> 'r) option" where
  "serve S E m1 m2 rt r st =
     (case corsMiddleware (sv_config S) r of
        (headers, Some status) \<Rightarrow>
          Some (headers, plain_response \<lparr>rs_Status = status, rs_Body = NoBody\<rparr>, st)
      | (headers, None) \<Rightarrow> map_option (Pair headers) (setupRouter S E m1 m2 rt r st))"

end
