(* ===== verification/Service_Main.thy ===== *)
theory Service_Main
  imports Api_Routes
begin

text \<open>
  The process (\<open>main.go\<close>, and the server of \<open>api/service.go\<close>): how it is put together from its
  configuration, and then its two goroutines, one that serves until the server is shut down and
  one that waits for a signal, shuts the server down and closes the pool of connections.

  The start is a function of what the outside answers (\<open>startup\<close>); the running process is a step
  relation. \<open>ListenAndServe\<close> and \<open>Shutdown\<close> are those of \<open>net/http\<close>. The group of \<open>errgroup\<close> and what
  a closed pool of \<open>pgxpool\<close> does to a statement are the parameter \<open>process_libs\<close>, with the laws
  \<open>process_laws\<close>.
\<close>

section \<open>The server and the service\<close>

record http_server =
  srv_Addr :: string
  srv_ReadHeaderTimeout :: int
  srv_ReadTimeout :: int
  srv_WriteTimeout :: int
  srv_IdleTimeout :: int

definition time_Second :: int where "time_Second = 1000000000"

text \<open>
  The handler of the server is \<open>serve\<close> of \<open>Api_Routes\<close> over the service. The store the code passes
  here is the database of the process; the error is always nil.
\<close>

definition NewService ::
  "apilib \<Rightarrow> string list codec \<Rightarrow> (string \<Rightarrow> string) \<Rightarrow> Config \<Rightarrow> token_maker \<Rightarrow> ('r, 's) RedisStore
     \<Rightarrow> ('s, 'c, 'a) WebAuthnConfig \<Rightarrow> go_error + ('r, 's, 'c, 'a) Service \<times> http_server" where
  "NewService L T uuid_text config tokenMaker rs wa =
     Inr (\<lparr>sv_config = config, sv_tokenMaker = tokenMaker, sv_webauthnConfig = wa, sv_redisStore = rs,
           sv_lib = L, sv_transports = T, sv_uuid_text = uuid_text\<rparr>,
          \<lparr>srv_Addr = HTTPServerAddress config, srv_ReadHeaderTimeout = 5 * time_Second,
           srv_ReadTimeout = 10 * time_Second, srv_WriteTimeout = 15 * time_Second,
           srv_IdleTimeout = 60 * time_Second\<rparr>)"

section \<open>Start-up\<close>

datatype migration = Migrated | ErrNoChange | Migration_Failed go_error

text \<open>
  What the outside answers: the configuration, \<open>pgxpool.New\<close> on the data source, \<open>migrate.New\<close> and
  \<open>Up\<close>, \<open>webauthn.New\<close>, a client for the address of redis; and the libraries of the service.
\<close>

record ('r, 's, 'c, 'a) startup =
  su_read :: "string \<Rightarrow> go_error option"
  su_decoded :: "string \<Rightarrow> Config \<times> go_error option"
  su_pool :: "string \<Rightarrow> go_error option"
  su_migrate_new :: "string \<Rightarrow> string \<Rightarrow> go_error option"
  su_migrate_up :: "string \<Rightarrow> string \<Rightarrow> migration"
  su_webauthn :: "webauthn_settings \<Rightarrow> go_error + ('s, 'c, 'a) WebAuthnConfig"
  su_redis :: "string \<Rightarrow> ('r, 's) RedisStore"
  su_jwt :: jwt_library
  su_lib :: apilib
  su_transports :: "string list codec"
  su_uuid_text :: "string \<Rightarrow> string"

text \<open>\<open>tmpstore.NewStore\<close>\<close>

definition tmpstore_NewStore :: "(string \<Rightarrow> ('r, 's) RedisStore) \<Rightarrow> Config \<Rightarrow> ('r, 's) RedisStore" where
  "tmpstore_NewStore client config = client (RedisAddress config)"

text \<open>The message that is logged before the process exits with status 1, if one is.\<close>

definition runDBMigration ::
  "(string \<Rightarrow> string \<Rightarrow> go_error option) \<Rightarrow> (string \<Rightarrow> string \<Rightarrow> migration) \<Rightarrow> string \<Rightarrow> string \<Rightarrow> string option" where
  "runDBMigration new up migrationURL dbSource =
     (case new migrationURL dbSource of
        Some err \<Rightarrow> Some ''cannot create new migrate instance''
      | None \<Rightarrow>
        (case up migrationURL dbSource of
           Migration_Failed err \<Rightarrow> Some ''failed to run migrate up''
         | _ \<Rightarrow> None))"

text \<open>
  \<open>RunGinServer\<close> returns without starting a goroutine, having logged a message, or starts the two
  of the process with a service and its server.
\<close>

definition RunGinServer ::
  "('r, 's, 'c, 'a) startup \<Rightarrow> Config \<Rightarrow> string + ('r, 's, 'c, 'a) Service \<times> http_server" where
  "RunGinServer W config =
     (let rs = tmpstore_NewStore (su_redis W) config in
      case NewWebAuthnConfig (golib.truncate (su_lib W)) (su_webauthn W) config of
        Inl err \<Rightarrow> Inl ''failed to create Webauthn config''
      | Inr wa \<Rightarrow>
        (case NewJWTMaker (TokenSymmetricKey config) of
           Inl err \<Rightarrow> Inl ''failed to create JWT token maker''
         | Inr tokenMaker \<Rightarrow>
           (case NewService (su_lib W) (su_transports W) (su_uuid_text W) config
                   (jwt_token_maker (su_jwt W) tokenMaker) rs wa of
              Inl err \<Rightarrow> Inl ''cannot create HTTP service''
            | Inr service \<Rightarrow> Inr service)))"

section \<open>The group and the pool\<close>

text \<open>
  \<open>eg_Return\<close> is what becomes of the group when one of its functions returns, \<open>eg_Wait\<close> what \<open>Wait\<close>
  returns when all have; \<open>eg_Cancelled\<close> tells whether the group has ended its context. \<open>pool_closed E\<close>
  is the environment \<open>E\<close> as statements and transactions see it once the pool is closed.
\<close>

record 'g process_libs =
  eg_WithContext :: 'g
  eg_Return :: "go_error option \<Rightarrow> 'g \<Rightarrow> 'g"
  eg_Wait :: "'g \<Rightarrow> go_error option"
  eg_Cancelled :: "'g \<Rightarrow> bool"
  pool_closed :: "env \<Rightarrow> env"

text \<open>No statement and no transaction starts.\<close>

definition rejects_all :: "env \<Rightarrow> bool" where
  "rejects_all E \<longleftrightarrow> env_begin E \<noteq> None \<and> (\<forall>name. env_query E name \<noteq> None)"

text \<open>The first error is kept and ends the context; a closed pool hands out no connection.\<close>

definition process_laws :: "'g process_libs \<Rightarrow> bool" where
  "process_laws X \<longleftrightarrow>
     eg_Wait X (eg_WithContext X) = None \<and> \<not> eg_Cancelled X (eg_WithContext X)
     \<and> (\<forall>err g. eg_Wait X (eg_Return X err g) = (case eg_Wait X g of None \<Rightarrow> err | Some e \<Rightarrow> Some e))
     \<and> (\<forall>err g. eg_Cancelled X (eg_Return X err g) = (eg_Cancelled X g \<or> err \<noteq> None))
     \<and> (\<forall>E. rejects_all (pool_closed X E))"

section \<open>The running process\<close>

datatype listen_error = ErrServerClosed | Listen_Failure go_error

text \<open>
  The two goroutines: \<open>Served\<close> and \<open>Stopped\<close> hold what a function returned to the group, \<open>Closing\<close> is
  after \<open>Shutdown\<close> returned and before \<open>Close\<close> of the pool is called, \<open>Draining\<close> while that call waits
  for the connections that requests hold.
\<close>

datatype serving = Starting | Listening | Served "go_error option"
datatype stopping = Waiting | Shutting_Down | Closing "go_error option"
  | Draining "go_error option" | Stopped "go_error option"

text \<open>
  Whether a signal has come, the group, its functions, the flag \<open>inShutdown\<close> of the server, the
  number of requests it has accepted and not answered, how many of these hold a connection of the
  pool, whether the pool is open, which it is until \<open>Close\<close> has returned; and the database with
  redis.
\<close>

record ('g, 'r) process =
  p_signalled :: bool
  p_group :: 'g
  p_serving :: serving
  p_stopping :: stopping
  p_inShutdown :: bool
  p_requests :: nat
  p_acquired :: nat
  p_pool :: bool
  p_state :: "db \<times> 'r"

definition start_process :: "'g process_libs \<Rightarrow> bool \<Rightarrow> db \<times> 'r \<Rightarrow> ('g, 'r) process" where
  "start_process X signalled st =
     \<lparr>p_signalled = signalled, p_group = eg_WithContext X, p_serving = Starting, p_stopping = Waiting,
      p_inShutdown = False, p_requests = 0, p_acquired = 0, p_pool = True, p_state = st\<rparr>"

text \<open>The context of the group comes from the one a signal ends.\<close>

definition ctx_Done :: "'g process_libs \<Rightarrow> ('g, 'r) process \<Rightarrow> bool" where
  "ctx_Done X p \<longleftrightarrow> p_signalled p \<or> eg_Cancelled X (p_group p)"

definition group_return :: "'g process_libs \<Rightarrow> go_error option \<Rightarrow> ('g, 'r) process \<Rightarrow> ('g, 'r) process" where
  "group_return X err p = p\<lparr>p_group := eg_Return X err (p_group p)\<rparr>"

text \<open>The first function, from what \<open>Start\<close> returned.\<close>

definition serve_error :: "listen_error option \<Rightarrow> go_error option" where
  "serve_error result = (case result of
       None \<Rightarrow> None
     | Some ErrServerClosed \<Rightarrow> None
     | Some (Listen_Failure e) \<Rightarrow> Some e)"

definition serve_returns :: "'g process_libs \<Rightarrow> listen_error option \<Rightarrow> ('g, 'r) process \<Rightarrow> ('g, 'r) process" where
  "serve_returns X result p = group_return X (serve_error result) (p\<lparr>p_serving := Served (serve_error result)\<rparr>)"

text \<open>
  The end of the second function, after \<open>Shutdown\<close>. \<open>SQLStore.Shutdown\<close> calls \<open>Close\<close> of the pool, which
  hands out no connection any more and returns when the ones it has handed out are back: until
  then the call is blocked, here \<open>None\<close>.
\<close>

definition hands_out :: "('g, 'r) process \<Rightarrow> bool" where
  "hands_out p = (case p_stopping p of Draining err \<Rightarrow> False | Stopped err \<Rightarrow> False | _ \<Rightarrow> True)"

definition store_Shutdown :: "('g, 'r) process \<Rightarrow> ('g, 'r) process option" where
  "store_Shutdown p = (if p_acquired p = 0 then Some (p\<lparr>p_pool := False\<rparr>) else None)"

definition stop_returns :: "'g process_libs \<Rightarrow> go_error option \<Rightarrow> ('g, 'r) process \<Rightarrow> ('g, 'r) process" where
  "stop_returns X err p = group_return X err (p\<lparr>p_stopping := Stopped err\<rparr>)"

text \<open>\<open>Wait\<close> returns nothing before both functions have.\<close>

definition group_Wait :: "'g process_libs \<Rightarrow> ('g, 'r) process \<Rightarrow> go_error option option" where
  "group_Wait X p = (case (p_serving p, p_stopping p) of
       (Served _, Stopped _) \<Rightarrow> Some (eg_Wait X (p_group p))
     | _ \<Rightarrow> None)"

text \<open>The exit status of the process, once it has one.\<close>

definition exit_status :: "'g process_libs \<Rightarrow> ('g, 'r) process \<Rightarrow> int option" where
  "exit_status X p = map_option (\<lambda>err. if err = None then 0 else 1) (group_Wait X p)"

text \<open>
  The steps, each with who makes it. A server that is not shutting down accepts requests; one that
  is makes \<open>Start\<close> return \<open>ErrServerClosed\<close>. A request gets a connection while the pool hands them out,
  and gives it back with its answer; a request without one is answered too, and what it asks of the
  database fails once the pool hands out none. A request may also be lost with the client, and its
  connection of the pool is then back. \<open>Shutdown\<close> returns when no request is left, or with an error at
  any time: after the five seconds it is given, or from closing the listener. Then the pool is
  closed, which may have to wait. A signal after the context has ended changes nothing, and when
  \<open>main\<close> has left \<open>Wait\<close> nothing happens any more.
\<close>

datatype actor = Outside | Server | Handler | Stopper

inductive process_step ::
  "'g process_libs \<Rightarrow> ('r, 's, 'c, 'a) Service \<Rightarrow> actor \<Rightarrow> ('g, 'r) process \<Rightarrow> ('g, 'r) process \<Rightarrow> bool" for X S where
  Signal: "group_Wait X p = None \<Longrightarrow> \<not> ctx_Done X p \<Longrightarrow> process_step X S Outside p (p\<lparr>p_signalled := True\<rparr>)"
| Listen: "p_serving p = Starting \<Longrightarrow> \<not> p_inShutdown p \<Longrightarrow> process_step X S Server p (p\<lparr>p_serving := Listening\<rparr>)"
| Listen_Failed: "p_serving p \<in> {Starting, Listening} \<Longrightarrow> \<not> p_inShutdown p \<Longrightarrow>
    process_step X S Server p (serve_returns X (Some (Listen_Failure err)) p)"
| Server_Closed: "p_serving p \<in> {Starting, Listening} \<Longrightarrow> p_inShutdown p \<Longrightarrow>
    process_step X S Server p (serve_returns X (Some ErrServerClosed) p)"
| Accept: "p_serving p = Listening \<Longrightarrow> \<not> p_inShutdown p \<Longrightarrow>
    process_step X S Server p (p\<lparr>p_requests := Suc (p_requests p)\<rparr>)"
| Acquire: "group_Wait X p = None \<Longrightarrow> hands_out p \<Longrightarrow> p_acquired p < p_requests p \<Longrightarrow>
    process_step X S Handler p (p\<lparr>p_acquired := Suc (p_acquired p)\<rparr>)"
| Answer: "group_Wait X p = None \<Longrightarrow> p_requests p = Suc n \<Longrightarrow> p_acquired p \<le> n \<Longrightarrow>
    serve S (if hands_out p then E else pool_closed X E) m1 m2 rt r (p_state p) = Some (headers, resp, st1) \<Longrightarrow>
    process_step X S Handler p (p\<lparr>p_requests := n, p_state := st1\<rparr>)"
| Answer_Held: "group_Wait X p = None \<Longrightarrow> p_requests p = Suc n \<Longrightarrow> p_acquired p = Suc k \<Longrightarrow>
    serve S E m1 m2 rt r (p_state p) = Some (headers, resp, st1) \<Longrightarrow>
    process_step X S Handler p (p\<lparr>p_requests := n, p_acquired := k, p_state := st1\<rparr>)"
| Lose: "group_Wait X p = None \<Longrightarrow> p_requests p = Suc n \<Longrightarrow> p_acquired p \<le> n \<Longrightarrow>
    process_step X S Handler p (p\<lparr>p_requests := n\<rparr>)"
| Lose_Held: "group_Wait X p = None \<Longrightarrow> p_requests p = Suc n \<Longrightarrow> p_acquired p = Suc k \<Longrightarrow>
    process_step X S Handler p (p\<lparr>p_requests := n, p_acquired := k\<rparr>)"
| Shutdown: "p_stopping p = Waiting \<Longrightarrow> ctx_Done X p \<Longrightarrow>
    process_step X S Stopper p (p\<lparr>p_inShutdown := True, p_stopping := Shutting_Down\<rparr>)"
| Drained: "p_stopping p = Shutting_Down \<Longrightarrow> p_requests p = 0 \<Longrightarrow>
    process_step X S Stopper p (p\<lparr>p_stopping := Closing None\<rparr>)"
| Shutdown_Failed: "p_stopping p = Shutting_Down \<Longrightarrow>
    process_step X S Stopper p (p\<lparr>p_stopping := Closing (Some err)\<rparr>)"
| Close_Pool: "p_stopping p = Closing err \<Longrightarrow> process_step X S Stopper p (p\<lparr>p_stopping := Draining err\<rparr>)"
| Pool_Closed: "p_stopping p = Draining err \<Longrightarrow> store_Shutdown p = Some p1 \<Longrightarrow>
    process_step X S Stopper p (stop_returns X err p1)"

text \<open>Between the steps time passes and redis forgets.\<close>

inductive live_step ::
  "'g process_libs \<Rightarrow> ('r, 's, 'c, 'a) Service \<Rightarrow> ('g, 'r) process \<Rightarrow> ('g, 'r) process \<Rightarrow> bool" for X S where
  Run: "process_step X S a p q \<Longrightarrow> live_step X S p q"
| Pass: "live_step X S p (p\<lparr>p_state := ((fst (p_state p))\<lparr>db_now := t\<rparr>, rs)\<rparr>)"

text \<open>
  A run that goes on for ever, or stands still once it has ended. In a fair one nobody who can
  make a step for good makes none: the scheduler runs both goroutines and the handlers, and a
  handler that holds a connection finishes or is cut off.
\<close>

definition fair_run :: "'g process_libs \<Rightarrow> ('r, 's, 'c, 'a) Service \<Rightarrow> (nat \<Rightarrow> ('g, 'r) process) \<Rightarrow> bool" where
  "fair_run X S f \<longleftrightarrow> (\<forall>i. live_step X S (f i) (f (Suc i)))
     \<and> (\<forall>a\<in>{Server, Handler, Stopper}. \<forall>i. \<exists>j\<ge>i.
          (\<forall>q. \<not> process_step X S a (f j) q) \<or> process_step X S a (f j) (f (Suc j)))"

section \<open>The process as a whole\<close>

text \<open>
  \<open>main\<close> ends with a status before anything is served, or reaches the state in which the two
  goroutines run. A signal may have come already.
\<close>

datatype ('g, 'r, 's, 'c, 'a) life =
    Exits int string
  | Runs "('r, 's, 'c, 'a) Service" http_server "('g, 'r) process"

definition main ::
  "'g process_libs \<Rightarrow> ('r, 's, 'c, 'a) startup \<Rightarrow> bool \<Rightarrow> db \<times> 'r \<Rightarrow> ('g, 'r, 's, 'c, 'a) life" where
  "main X W signalled st =
     (case LoadConfig (su_read W) (su_decoded W) ''.'' of
        (_, Some err) \<Rightarrow> Exits 1 ''cannot read config file''
      | (config, None) \<Rightarrow>
        (case su_pool W (DBSource config) of
           Some err \<Rightarrow> Exits 1 ''cannot connect to the database''
         | None \<Rightarrow>
           (case runDBMigration (su_migrate_new W) (su_migrate_up W) (MigrationURL config) (DBSource config) of
              Some msg \<Rightarrow> Exits 1 msg
            | None \<Rightarrow>
              (case RunGinServer W config of
                 Inl msg \<Rightarrow> Exits 0 msg
               | Inr (S, server) \<Rightarrow> Runs S server (start_process X signalled st)))))"

end
