(* ===== verification/Api_Props.thy ===== *)
theory Api_Props
  imports Api_Handlers
begin

text \<open>
  What the handlers do from the request to the response: the validation of a request, the tree
  of a page of comments, the answers to a new comment, and who may renew an access token.
\<close>

section \<open>Validation\<close>

lemma barf_None: "barf is = None \<longleftrightarrow> is = []"
  by (simp add: barf_def)

lemma barf_status: "barf is = Some v \<Longrightarrow> v_Status v = 400"
  by (auto simp: barf_def puke_def split: if_splits)

lemma comment_text_ok:
  "CreateCommentRequest_Validate s = None \<longleftrightarrow> TrimSpace s \<noteq> [] \<and> RuneCount (TrimSpace s) \<le> 500"
  by (auto simp: CreateCommentRequest_Validate_def barf_None strRequired_def strMax_def)

lemma parseSingle_returns: "s \<noteq> [] \<Longrightarrow> parseSingle L p s \<noteq> None"
  by (simp add: parseSingle_def go_index_def len_def)

lemma extract_single:
  "\<exists>iss v. extractOptionalParam m key dest (parseSingle L p) fns = Some (iss, v)
    \<and> (iss = [] \<longrightarrow> v = dest \<or> validate v key fns = [])"
proof (cases "m key")
  case (Some vals)
  then show ?thesis
    using parseSingle_returns[of vals L p]
    by (cases "vals = []") (auto simp: extractOptionalParam_def parseAndValidate_def split: option.split sum.split)
qed (simp add: extractOptionalParam_def)

lemma extract_page:
  "\<exists>v req. ExtractQueryParams L m default_page = Some (v, req)
    \<and> (case v of Some vom \<Rightarrow> v_Status vom = 400
       | None \<Rightarrow> 0 \<le> gr_RootOffset req \<and> 1 \<le> gr_NRoots req \<and> gr_NRoots req \<le> 100
                 \<and> gr_Order req \<in> set CommentOrderMethods)"
proof -
  obtain i1 a where 1: "extractOptionalParam m ''root_offset'' 0 (parseSingle L (parseInt32 L)) [numMin 0] = Some (i1, a)"
      "i1 = [] \<longrightarrow> a = 0 \<or> validate a ''root_offset'' [numMin 0] = []"
    using extract_single[of m "''root_offset''" 0 L "parseInt32 L" "[numMin 0]"] by (elim exE conjE)
  obtain i2 b where 2: "extractOptionalParam m ''n_roots'' 10 (parseSingle L (parseInt32 L)) [numMin 1, numMax 100] = Some (i2, b)"
      "i2 = [] \<longrightarrow> b = 10 \<or> validate b ''n_roots'' [numMin 1, numMax 100] = []"
    using extract_single[of m "''n_roots''" 10 L "parseInt32 L" "[numMin 1, numMax 100]"] by (elim exE conjE)
  obtain i3 c where 3: "extractOptionalParam m ''order'' CommentOrderPopular (parseSingle L parseOrder) [valCommentOrder] = Some (i3, c)"
      "i3 = [] \<longrightarrow> c = CommentOrderPopular \<or> validate c ''order'' [valCommentOrder] = []"
    using extract_single[of m "''order''" CommentOrderPopular L parseOrder "[valCommentOrder]"] by (elim exE conjE)
  have range: "i1 = [] \<longrightarrow> 0 \<le> a" using 1(2) by (auto simp: numMin_def split: if_splits)
  have count: "i2 = [] \<longrightarrow> 1 \<le> b \<and> b \<le> 100"
    using 2(2) by (auto simp: numMin_def numMax_def split: if_splits)
  have order: "i3 = [] \<longrightarrow> c \<in> set CommentOrderMethods"
    using 3(2) by (auto simp: valCommentOrder_def ValidateCommentOrderMethod_def CommentOrderMethods_def split: if_splits)
  have "ExtractQueryParams L m default_page
      = Some (barf (i1 @ i2 @ i3), \<lparr>gr_RootOffset = a, gr_NRoots = b, gr_Order = c\<rparr>)"
    by (simp only: ExtractQueryParams_def default_page_def GetCommentsRequest.select_convs 1(1) 2(1) 3(1)
        Option.bind.bind_lunit prod.case)
  then show ?thesis
    using range count order barf_None[of "i1 @ i2 @ i3"] barf_status[of "i1 @ i2 @ i3"]
    by (cases "barf (i1 @ i2 @ i3)") simp_all
qed

lemma extractPostID_status: "extractPostID L r = Inl v \<Longrightarrow> v_Status v = 400"
  by (auto simp: extractPostID_def Let_def puke_def split: prod.splits option.splits)

text \<open>
  C36: Numbers written in base 10 are read back: every \<open>int32\<close> from a parameter of the query and
  every \<open>int64\<close> from the path; and whatever \<open>parseInt32\<close> accepts is an \<open>int32\<close>, so the page
  parameters never wrap.
\<close>

theorem parameters_read_back:
  assumes "- (2 ^ 31) \<le> x" and "x < 2 ^ 31" and "- (2 ^ 63) \<le> y" and "y < 2 ^ 63"
    and "rq_PathValue r ''post_id'' = Itoa y"
  shows "parseInt32 L (Itoa x) = Inr x \<and> extractPostID L r = Inr y
    \<and> (case parseInt32 L s of Inr z \<Rightarrow> - (2 ^ 31) \<le> z \<and> z < 2 ^ 31 | Inl _ \<Rightarrow> True)"
proof -
  have "parseInt32 L (Itoa x) = Inr x" using ParseInt_Itoa[of 32 x L] assms by (simp add: parseInt32_def)
  moreover have "extractPostID L r = Inr y"
    using ParseInt_Itoa[of 64 y L] assms by (simp add: extractPostID_def)
  moreover have "- (2 ^ 31) \<le> z \<and> z < 2 ^ 31" if "parseInt32 L s = Inr z" for z
    using ParseInt_range[of 32 L s] that by (auto simp: parseInt32_def split: prod.splits option.splits)
  ultimately show ?thesis by (auto split: sum.split)
qed

section \<open>A page of comments\<close>

text \<open>
  \<open>page_shown key d roots ps h\<close>: the pointers \<open>ps\<close> lead to the comments \<open>roots\<close>, each comment of
  the heap is a node once and a comment of \<open>d\<close>, and the replies of a node are the replies of its
  comment in \<open>d\<close>, sorted by \<open>key\<close>.
\<close>

definition page_shown :: "sort_key_of \<Rightarrow> db \<Rightarrow> Comment list \<Rightarrow> pointer list \<Rightarrow> CommentNode list \<Rightarrow> bool" where
  "page_shown key d roots ps h \<longleftrightarrow>
     map Comment.truncate (at_nodes h ps) = roots
     \<and> distinct (map (\<lambda>x. c_ID (cn_Comment x)) h)
     \<and> (\<forall>x\<in>set h. let c = Comment.truncate (cn_Comment x) in c \<in> set (db_comments d)
          \<and> (\<exists>u\<in>set (db_users d). u_ID u = c_UserID c \<and> cn_Comment x = with_author u c)
          \<and> map Comment.truncate (at_nodes h (cn_Replies x)) = sort_key key (replies_of d c))"

lemma map_filter_truncate:
  assumes "map Comment.truncate ws = cs" and "\<And>w. P (Comment.truncate w) = Q w"
  shows "map Comment.truncate (filter Q ws) = filter P cs"
  using assms by (auto simp: filter_map o_def)

lemma truncate_fields [simp]:
  "c_ParentID (Comment.truncate w) = c_ParentID w" "c_ID (Comment.truncate w) = c_ID w"
  by (simp_all add: Comment.truncate_def)

lemma thread_page_shown:
  assumes inv: "store_inv_from g cfg d" and page: "thread_page key d roots cs" and auth: "authored d cs ws"
  shows "page_shown key d roots (roots_upto ws (length ws)) (tree_heap ws)"
proof -
  have cs: "set cs \<subseteq> set (db_comments d)" "distinct cs" "nested 0 null_int8 cs"
      "[x \<leftarrow> cs. \<not> i8_Valid (c_ParentID x)] = roots"
      "\<And>c. c \<in> set cs \<Longrightarrow> [x \<leftarrow> cs. c_ParentID x = reply_to (c_ID c)] = sort_key key (replies_of d c)"
    using page by (simp_all add: thread_page_def)
  note rows = authored_rows[OF auth]
  have nest: "nested 0 null_int8 ws" using nested_authored[OF cs(3) auth] .
  have "inj_on c_ID (set cs)"
    using store_inv_ids[OF inv] cs(1) by (auto simp: distinct_map intro: inj_on_subset)
  then have ids: "distinct (map c_ID ws)" using cs(2) rows(1) by (simp add: distinct_map)
  have heap: "map (\<lambda>x. c_ID (cn_Comment x)) (tree_heap ws) = map c_ID ws"
    by (auto simp: tree_heap_def intro: nth_equalityI)
  have roots: "map Comment.truncate (at_nodes (tree_heap ws) (roots_upto ws (length ws))) = roots"
    unfolding page_tree_roots[OF nest] cs(4)[symmetric] by (rule map_filter_truncate[OF rows(3)]) simp
  have node: "let c = Comment.truncate (cn_Comment x) in c \<in> set (db_comments d)
      \<and> (\<exists>u\<in>set (db_users d). u_ID u = c_UserID c \<and> cn_Comment x = with_author u c)
      \<and> map Comment.truncate (at_nodes (tree_heap ws) (cn_Replies x)) = sort_key key (replies_of d c)"
    if x: "x \<in> set (tree_heap ws)" for x
  proof -
    obtain i where i: "i < length ws" "x = tree_heap ws ! i"
      using x by (auto simp: in_set_conv_nth tree_heap_def)
    then have w: "cn_Comment x = ws ! i" by (simp add: tree_heap_nth)
    have c: "Comment.truncate (ws ! i) = cs ! i" using rows(3,4) i(1) by auto
    have mem: "cs ! i \<in> set cs" using i(1) rows(4) by simp
    have "map Comment.truncate (at_nodes (tree_heap ws) (cn_Replies x))
        = [z \<leftarrow> cs. c_ParentID z = reply_to (c_ID (cs ! i))]"
      unfolding i(2) page_tree_replies[OF nest ids i(1)]
      by (rule map_filter_truncate[OF rows(3)]) (simp add: c[symmetric])
    moreover have "\<exists>u\<in>set (db_users d). u_ID u = c_UserID (cs ! i) \<and> ws ! i = with_author u (cs ! i)"
      using auth i(1) rows(4) by (simp add: authored_def list_all2_conv_all_nth)
    ultimately show ?thesis
      using mem cs(1) cs(5)[OF mem] by (auto simp: w c Let_def)
  qed
  show ?thesis
    unfolding page_shown_def using roots node ids heap by simp
qed

text \<open>
  C16: On a consistent database \<open>getComments\<close> answers 400 to a path or a query it cannot read and
  otherwise 200, never with an error of the server, and changes nothing. The tree it sends holds
  the page of roots asked for; below every comment are exactly its replies in the database,
  whatever their depth, in the order asked for; each comment is sent once, with its author.
\<close>

theorem get_comments_outcome:
  assumes "quiet E" and "db_wf_from g cfg d"
  shows "\<exists>resp. getComments L E r d = Some (resp, d)
    \<and> (case extractPostID L r of
        Inl _ \<Rightarrow> rs_Status resp = 400
      | Inr post \<Rightarrow> \<exists>v req. ExtractQueryParams L (rq_Query r) default_page = Some (v, req)
          \<and> (if v \<noteq> None then rs_Status resp = 400
             else rs_Status resp = 200 \<and> (\<exists>ps h. rs_Body resp = TreeBody ps h
                    \<and> page_shown (order_key (gr_Order req)) d
                        (root_page (order_key (gr_Order req)) d post (gr_NRoots req) (gr_RootOffset req)) ps h)))"
proof -
  have inv: "store_inv_from g cfg d" and acc: "accounts_wf d" using assms(2) by (simp_all add: db_wf_def)
  obtain v req where ex: "ExtractQueryParams L (rq_Query r) default_page = Some (v, req)"
    and ok: "case v of Some vom \<Rightarrow> v_Status vom = 400
       | None \<Rightarrow> 0 \<le> gr_RootOffset req \<and> 1 \<le> gr_NRoots req \<and> gr_NRoots req \<le> 100
                 \<and> gr_Order req \<in> set CommentOrderMethods"
    using extract_page by blast
  show ?thesis
  proof (cases "extractPostID L r")
    case (Inl vom)
    then show ?thesis
      using extractPostID_status[OF Inl] by (simp add: getComments_def abort_vomit_def respondWithJSON_def)
  next
    case (Inr post)
    show ?thesis
    proof (cases v)
      case (Some vom)
      then show ?thesis using Inr ex ok by (simp add: getComments_def respondWithJSON_def)
    next
      case None
      let ?key = "order_key (gr_Order req)"
      let ?q = "\<lparr>cq_Order = gr_Order req, cq_PostID = post, cq_Limit = gr_NRoots req, cq_Offset = gr_RootOffset req\<rparr>"
      have req: "0 \<le> gr_RootOffset req" "1 \<le> gr_NRoots req" "gr_Order req \<in> set CommentOrderMethods"
        using ok None by simp_all
      then obtain cs ws where q: "QueryComments E ?q d = (Inr ws, d)" "authored d cs ws"
          "thread_page ?key d (root_page ?key d post (gr_NRoots req) (gr_RootOffset req)) cs"
        using query_comments_page[OF assms(1) inv acc, of ?q] by auto
      have "nested 0 null_int8 ws" using nested_authored[OF _ q(2)] q(3) by (simp add: thread_page_def)
      then have "PrepareCommentTree ws (gr_NRoots req) = Some (Inr (roots_upto ws (length ws), tree_heap ws))"
        using page_tree req(2) by simp
      then show ?thesis
        using Inr ex None q(1) thread_page_shown[OF inv q(3,2)]
        by (simp add: getComments_def respondWithJSON_def)
    qed
  qed
qed

section \<open>A new comment\<close>

definition comment_parent :: "golib \<Rightarrow> request \<Rightarrow> pg_int8" where
  "comment_parent L r = (let desc = getCommentIDDescriptor L r in
     \<lparr>i8_Int64 = cd_parsedValue desc, i8_Valid = cd_valid desc\<rparr>)"

text \<open>What a request for a new comment asks for, or the error that answers it.\<close>

definition new_comment :: "golib \<Rightarrow> string json_body \<Rightarrow> request \<Rightarrow> Payload \<Rightarrow> Vomit + InsertCommentTxParams" where
  "new_comment L b r auth =
     (case extractPostID L r of Inl v \<Rightarrow> Inl v | Inr post \<Rightarrow>
      (case ingestJSONBody r b of Inl v \<Rightarrow> Inl v | Inr text \<Rightarrow>
       (case CreateCommentRequest_Validate text of Some v \<Rightarrow> Inl v | None \<Rightarrow>
        if cd_provided (getCommentIDDescriptor L r) \<and> \<not> cd_valid (getCommentIDDescriptor L r)
        then Inl (puke ReqInvalidCommentID 400
               (''invalid comment id: '' @ cd_rawValue (getCommentIDDescriptor L r)) None [])
        else Inr (comment_params (pl_UserID auth) post text (comment_parent L r)))))"

text \<open>\<open>refused_with k d out\<close>: the answer is the error of the store of kind \<open>k\<close>, and no table changed.\<close>

definition refused_with :: "kind \<Rightarrow> db \<Rightarrow> (response \<times> db) option \<Rightarrow> bool" where
  "refused_with k d out \<longleftrightarrow> (\<exists>re d1. out = Some (\<lparr>rs_Status = opKindToHTTPStatus k, rs_Body = ResourceBody re\<rparr>, d1)
     \<and> same_tables d d1 \<and> re_Reason re = kind_String k \<and> (k = KindInternal \<longrightarrow> re_Error re = hidden_text))"

lemma abort_store_fails:
  assumes "is_op_error op k err" and "same_tables d d1"
  shows "refused_with k d (abort_store err d1)"
  using newResourceError_op[OF assms(1)] assms(2)
  by (auto simp: refused_with_def abort_store_def abort_resource_def respondWithJSON_def)

lemma createComment_handler_new:
  "createComment_handler L cfg E b r auth d =
     (case new_comment L b r auth of
        Inl v \<Rightarrow> Some (abort_vomit v, d)
      | Inr arg \<Rightarrow> (case InsertCommentTx cfg E arg d of
          (Inl err, d1) \<Rightarrow> abort_store err d1
        | (Inr comment, d1) \<Rightarrow> Some (respondWithJSON 200 (CommentBody comment), d1)))"
  by (simp add: createComment_handler_def new_comment_def comment_parent_def Let_def conj_commute
      split: sum.split option.split)

text \<open>
  C20: Behind the middleware \<open>createComment\<close> answers a request it cannot read or validate with that
  error and leaves the database alone. Any other request is the insertion of the given text by
  the authenticated user under the post and the parent of the path: refused with the status of
  the kind of the verdict and nothing changed, or answered 200 with the one comment appended.
\<close>

theorem create_comment_outcome:
  assumes "quiet E" and "store_inv_from g cfg d"
  shows "case new_comment L b r auth of
      Inl v \<Rightarrow> createComment_handler L cfg E b r auth d = Some (abort_vomit v, d)
    | Inr arg \<Rightarrow> ic_UserID arg = pl_UserID auth
        \<and> TrimSpace (ic_Body arg) \<noteq> [] \<and> RuneCount (TrimSpace (ic_Body arg)) \<le> 500
        \<and> (case insert_verdict cfg d arg of
             Some k \<Rightarrow> refused_with k d (createComment_handler L cfg E b r auth d)
           | None \<Rightarrow> \<exists>c d1. createComment_handler L cfg E b r auth d
                 = Some (\<lparr>rs_Status = 200, rs_Body = CommentBody c\<rparr>, d1)
               \<and> db_comments d1 = db_comments d @ [c] \<and> c_UserID c = pl_UserID auth
               \<and> c_PostID c = ic_PostID arg \<and> c_Body c = ic_Body arg \<and> c_Depth c = depth_for d (ic_ParentID arg))"
proof (cases "new_comment L b r auth")
  case (Inl v)
  then show ?thesis by (simp add: createComment_handler_new)
next
  case (Inr arg)
  then have arg: "ic_UserID arg = pl_UserID auth" "CreateCommentRequest_Validate (ic_Body arg) = None"
    by (auto simp: new_comment_def comment_params_def split: sum.splits option.splits if_splits)
  show ?thesis
  proof (cases "insert_verdict cfg d arg")
    case None
    then show ?thesis
      using insert_comment_outcome_eq[OF assms, of arg] Inr arg comment_text_ok[of "ic_Body arg"]
      by (auto simp: createComment_handler_new respondWithJSON_def)
  next
    case (Some k)
    then obtain err d1 where "InsertCommentTx cfg E arg d = (Inl err, d1)"
        "is_op_error opInsertComment k err" "same_tables d d1"
      using insert_comment_outcome_eq[OF assms, of arg] fails_error by fastforce
    then show ?thesis
      using Inr arg Some comment_text_ok[of "ic_Body arg"] abort_store_fails
      by (simp add: createComment_handler_new)
  qed
qed

section \<open>Sessions\<close>

lemma GetSession_Inr:
  "GetSession uuid_text E i d = (Inr s, d1) \<Longrightarrow> d1 = d \<and> s \<in> set (db_sessions d) \<and> s_ID s = i"
  by (auto simp: GetSession_def getSession_def query_def one_row_def dest!: find_in
      split: option.splits prod.splits sum.splits if_splits)

lemma abort_store_status:
  "abort_store err d = Some (resp, d1) \<Longrightarrow> rs_Status resp \<noteq> 200"
  by (auto simp: abort_store_def newResourceError_def abort_resource_def respondWithJSON_def
      internalResourceError_def opKindToHTTPStatus_def split: option.splits kind.splits)

text \<open>\<open>session_for\<close>: a session that the token of the request may renew at the time \<open>now\<close>.\<close>

definition session_for :: "db \<Rightarrow> int \<Rightarrow> Payload \<Rightarrow> string \<Rightarrow> bool" where
  "session_for d now p token \<longleftrightarrow> (\<exists>s\<in>set (db_sessions d). s_ID s = pl_ID p \<and> s_UserID s = pl_UserID p
     \<and> s_RefreshToken s = token \<and> \<not> s_IsBlocked s \<and> now \<le> s_ExpiresAt s)"

lemma renew_session:
  assumes "renewAccessToken M dur uuid_text m E b r d = Some (resp, d1)" and "rs_Status resp = 200"
  shows "\<exists>token p. ingestJSONBody r b = Inr token \<and> tm_VerifyToken M (mo_Now m) token = Some (Inr p) \<and> session_for d (mo_Now m) p token"
proof -
  have plain: "rs_Status (session_blocked) \<noteq> 200" "rs_Status session_expired \<noteq> 200"
      "rs_Status (invalid_refresh e) \<noteq> 200" for e
    by (simp_all add: session_blocked_def session_expired_def invalid_refresh_def unauthorized_def
        abort_auth_def newAuthError_def respondWithJSON_def)
  have vomits: "ingestJSONBody r b = Inl v \<Longrightarrow> v_Status v \<noteq> 200" for v
    by (auto simp: ingestJSONBody_def decode_vomit_def puke_def Let_def split: if_splits sum.splits option.splits)
  obtain token where token: "ingestJSONBody r b = Inr token"
    using assms vomits by (auto simp: renewAccessToken_def respondWithJSON_def split: sum.splits)
  have valid: "RenewAccessTokenRequest_Validate token = None"
    using assms token barf_status
    by (fastforce simp: renewAccessToken_def respondWithJSON_def RenewAccessTokenRequest_Validate_def split: option.splits)
  obtain p where p: "tm_VerifyToken M (mo_Now m) token = Some (Inr p)"
    using assms token valid plain by (auto simp: renewAccessToken_def split: sum.splits option.splits)
  obtain s d2 where s: "GetSession uuid_text E (pl_ID p) d = (Inr s, d2)"
    using assms token valid p abort_store_status
    by (fastforce simp: renewAccessToken_def split: sum.splits prod.splits)
  have "\<not> s_IsBlocked s \<and> s_UserID s = pl_UserID p \<and> token = s_RefreshToken s \<and> \<not> s_ExpiresAt s < mo_Now m"
    using assms token valid p s plain by (auto simp: renewAccessToken_def split: if_splits)
  then show ?thesis
    using GetSession_Inr[OF s] token p by (auto simp: session_for_def)
qed

end
