(* ===== verification/Db_Account_Props.thy ===== *)
theory Db_Account_Props
  imports Db_Steps
begin

text \<open>
  What the operations on accounts do: deleting a user, using a passkey, updating a profile.
  The last section shows four places where the code and its comments part.
\<close>

section \<open>Deleting a user\<close>

text \<open>What the transaction answers about a stored user.\<close>

definition shows_user :: "User \<Rightarrow> SoftDeleteUserTxResult \<Rightarrow> bool" where
  "shows_user u r \<longleftrightarrow> su_ID r = u_ID u \<and> su_DisplayName r = u_DisplayName u
     \<and> su_Username r = u_Username u \<and> su_Email r = u_Email u
     \<and> su_ProfileImgURL r = u_ProfileImgUrl u \<and> su_IsDeleted r = u_IsDeleted u
     \<and> su_DeletedAt r = u_DeletedAt u \<and> su_LastModifiedAt r = u_LastModifiedAt u"

text \<open>The database once the sessions and the passkeys of the user are gone.\<close>

definition signed_out :: "int \<Rightarrow> db \<Rightarrow> db" where
  "signed_out i d = d\<lparr>db_sessions := [s \<leftarrow> db_sessions d. s_UserID s \<noteq> i],
     db_credentials := [k \<leftarrow> db_credentials d. k_UserID k \<noteq> i]\<rparr>"

lemma signed_out_simps [simp]:
  "user_of (signed_out i d) j = user_of d j" "db_users (signed_out i d) = db_users d"
  "db_now (signed_out i d) = db_now d" "deleted_user (signed_out i d) u = deleted_user d u"
  "signed_out i (signed_out i d) = signed_out i d"
  "signed_out i (set_user (signed_out i d) u) = set_user (signed_out i d) u"
  by (simp_all add: signed_out_def user_of_def deleted_user_def set_user_def)

lemma soft_delete_run:
  assumes "quiet E"
  shows "user_of d i = None \<Longrightarrow> fails opSoftDeleteUser KindNotFound d (SoftDeleteUserTx E i d)"
    and "user_of d i = Some u \<Longrightarrow> u' = (if u_IsDeleted u then u else deleted_user d u) \<Longrightarrow>
      \<exists>r. shows_user u' r \<and> (\<forall>s. shows_user u' s \<longrightarrow> s = r)
        \<and> SoftDeleteUserTx E i d
          = (Inr r, if u_IsDeleted u then signed_out i d else set_user (signed_out i d) u')"
proof -
  note sql = soft_delete_body_def quiet_query[OF assms] deleteUserSessions_def deleteUserCredentials_def
    softDeleteUser_def Let_def
  show "fails opSoftDeleteUser KindNotFound d (SoftDeleteUserTx E i d)" if "user_of d i = None"
    using that by (simp add: SoftDeleteUserTx_def quiet_tx[OF assms] sql user_of_def)
  show "\<exists>r. shows_user u' r \<and> (\<forall>s. shows_user u' s \<longrightarrow> s = r) \<and> SoftDeleteUserTx E i d
      = (Inr r, if u_IsDeleted u then signed_out i d else set_user (signed_out i d) u')"
    if "user_of d i = Some u" "u' = (if u_IsDeleted u then u else deleted_user d u)"
  proof -
    have found: "user_of (signed_out i d) i = Some u" using that(1) by simp
    have id: "u_ID u' = u_ID u" using that(2) by (simp add: deleted_user_def)
    show ?thesis
      using found that(2) id
      by (intro exI[of _ "\<lparr>su_ID = u_ID u', su_DisplayName = u_DisplayName u', su_Username = u_Username u',
            su_Email = u_Email u', su_ProfileImgURL = u_ProfileImgUrl u', su_IsDeleted = u_IsDeleted u',
            su_DeletedAt = u_DeletedAt u', su_LastModifiedAt = u_LastModifiedAt u'\<rparr>"])
        (simp add: SoftDeleteUserTx_def quiet_tx[OF assms] sql shows_user_def signed_out_def
          deleted_user_def)
  qed
qed

lemma user_of_set_user:
  assumes "user_of d i = Some u" and "u_ID u' = i"
  shows "user_of (set_user d u') i = Some u'"
proof -
  have "find (\<lambda>x. u_ID x = i) (replaced_user us u') = Some u'" if "i \<in> u_ID ` set us" for us
    using that assms(2) by (induction us) (auto simp: replaced_user_def)
  moreover have "i \<in> u_ID ` set (db_users d)" using user_of_Some[OF assms(1)] by (metis image_eqI)
  ultimately show ?thesis by (simp add: user_of_def set_user_replaced)
qed

lemma kept_users:
  assumes "accounts_wf d" and "user_of d i = Some u"
  shows "map (\<lambda>x. if u_ID x = i then u else x) (db_users d) = db_users d"
proof (rule map_idI)
  fix x assume "x \<in> set (db_users d)"
  then show "(if u_ID x = i then u else x) = x"
    using assms(1) user_of_Some[OF assms(2)] by (auto simp: accounts_wf_def users_wf_def distinct_map inj_on_def)
qed

lemma freed_names:
  assumes "accounts_wf d" and "user_of d i = Some u" and "\<not> u_IsDeleted u"
    and "x \<in> set (db_users (set_user d (deleted_user d u)))" and "\<not> u_IsDeleted x"
  shows "u_Username x \<noteq> u_Username u \<and> u_Email x \<noteq> u_Email u"
proof -
  have "x \<in> set (db_users d)" "u_ID x \<noteq> u_ID u"
    using replaced_user_mem[of x "db_users d" "deleted_user d u"] assms(4,5)
    by (auto simp: set_user_replaced deleted_user_def)
  then show ?thesis
    using assms(1,3,5) user_of_Some[OF assms(2)] by (auto simp: accounts_wf_def users_wf_def clash_def)
qed

text \<open>
  C28: In a quiet environment and consistent accounts \<open>SoftDeleteUserTx\<close> refuses only a user that
  does not exist, and then changes nothing. Otherwise the profile of an active user is replaced: a
  made-up name and address with the identifier in them, the display name \<open>[deleted]\<close>, no image,
  the old name and address kept only in the archive, the user marked deleted now; a user deleted
  before stays as it is. The answer shows that row, the other users are untouched, the sessions and
  passkeys of the user are gone and only they, comments and votes are kept, no active user has
  the name or the address the user had, and the accounts stay consistent. Deleting once more
  answers the same and changes nothing.
\<close>

theorem soft_delete_user_outcome:
  assumes "quiet E" and "accounts_wf d"
  shows "case user_of d i of
      None \<Rightarrow> fails opSoftDeleteUser KindNotFound d (SoftDeleteUserTx E i d)
    | Some u \<Rightarrow> \<exists>r d1 u'. SoftDeleteUserTx E i d = (Inr r, d1) \<and> shows_user u' r
        \<and> user_of d1 i = Some u'
        \<and> u' = (if u_IsDeleted u then u
            else u\<lparr>u_Username := ''deleted_user_'' @ Itoa i,
              u_Email := ''deleted_'' @ Itoa i @ ''@invalid.local'', u_DisplayName := ''[deleted]'',
              u_ProfileImgUrl := null_text, u_ArchivedUsername := u_Username u,
              u_ArchivedEmail := u_Email u, u_IsDeleted := True,
              u_DeletedAt := db_now d, u_LastModifiedAt := db_now d\<rparr>)
        \<and> db_users d1 = map (\<lambda>x. if u_ID x = i then u' else x) (db_users d)
        \<and> db_sessions d1 = [s \<leftarrow> db_sessions d. s_UserID s \<noteq> i]
        \<and> db_credentials d1 = [k \<leftarrow> db_credentials d. k_UserID k \<noteq> i]
        \<and> db_comments d1 = db_comments d \<and> db_votes d1 = db_votes d
        \<and> (\<not> u_IsDeleted u \<longrightarrow> (\<forall>x\<in>set (db_users d1). \<not> u_IsDeleted x \<longrightarrow>
              u_Username x \<noteq> u_Username u \<and> u_Email x \<noteq> u_Email u))
        \<and> accounts_wf d1
        \<and> SoftDeleteUserTx E i d1 = (Inr r, d1)"
proof (cases "user_of d i")
  case None
  then show ?thesis using soft_delete_run(1)[OF assms(1)] by simp
next
  case (Some u)
  note u = user_of_Some[OF Some]
  let ?u = "if u_IsDeleted u then u else deleted_user d u"
  let ?d1 = "if u_IsDeleted u then signed_out i d else set_user (signed_out i d) ?u"
  obtain r where r: "shows_user ?u r" "\<And>s. shows_user ?u s \<Longrightarrow> s = r"
      and run: "SoftDeleteUserTx E i d = (Inr r, ?d1)"
    using soft_delete_run(2)[OF assms(1) Some refl] by blast
  have ids: "u_ID ?u = i" using u by (simp add: deleted_user_def)
  have there: "user_of ?d1 i = Some ?u"
    using user_of_set_user[of "signed_out i d" i u ?u] Some ids by (simp split: if_splits)
  have users: "db_users ?d1 = map (\<lambda>x. if u_ID x = i then ?u else x) (db_users d)"
    using kept_users[OF assms(2) Some] ids by (cases "u_IsDeleted u") (simp_all add: set_user_def)
  have again: "SoftDeleteUserTx E i ?d1 = (Inr r, ?d1)"
  proof -
    have del: "u_IsDeleted ?u" by (simp add: deleted_user_def)
    obtain s where "shows_user ?u s" "SoftDeleteUserTx E i ?d1 = (Inr s, signed_out i ?d1)"
      using soft_delete_run(2)[OF assms(1) there refl] del by (simp only: if_True) blast
    then show ?thesis using r(2) by simp
  qed
  have wf: "accounts_wf ?d1"
    using soft_delete_tx.keeps[OF assms(2), of E i] run by (simp add: SoftDeleteUserTx_def)
  have free: "\<not> u_IsDeleted u \<Longrightarrow> \<forall>x\<in>set (db_users ?d1). \<not> u_IsDeleted x \<longrightarrow>
      u_Username x \<noteq> u_Username u \<and> u_Email x \<noteq> u_Email u"
    using freed_names[OF assms(2) Some] by (simp add: set_user_def signed_out_def)
  have kept: "db_sessions ?d1 = [s \<leftarrow> db_sessions d. s_UserID s \<noteq> i]"
      "db_credentials ?d1 = [k \<leftarrow> db_credentials d. k_UserID k \<noteq> i]"
      "db_comments ?d1 = db_comments d" "db_votes ?d1 = db_votes d"
    by (simp_all add: set_user_def signed_out_def)
  have shape: "?u = (if u_IsDeleted u then u
            else u\<lparr>u_Username := ''deleted_user_'' @ Itoa i,
              u_Email := ''deleted_'' @ Itoa i @ ''@invalid.local'', u_DisplayName := ''[deleted]'',
              u_ProfileImgUrl := null_text, u_ArchivedUsername := u_Username u,
              u_ArchivedEmail := u_Email u, u_IsDeleted := True,
              u_DeletedAt := db_now d, u_LastModifiedAt := db_now d\<rparr>)"
    using u by (simp add: deleted_user_def)
  show ?thesis
    unfolding Some option.case
    by (intro exI[of _ r] exI[of _ ?d1] exI[of _ ?u] conjI)
      (rule run r(1) there shape users kept wf again, (use free in blast)?)+
qed

lemma demo_accounts: "accounts_wf demo_db"
  using reachable_wf[OF demo_reachable(2) fresh_wf] by (simp add: db_wf_def)

lemma demo_user_of: "user_of demo_db 9 = None" "map_option u_IsDeleted (user_of demo_db 1) = Some False"
  "Itoa 1 = ''1''"
  by code_simp+

lemma soft_delete_user_outcome_witness:
  "fails opSoftDeleteUser KindNotFound demo_db (SoftDeleteUserTx calm 9 demo_db)
   \<and> (\<exists>r d1 u'. SoftDeleteUserTx calm 1 demo_db = (Inr r, d1) \<and> user_of d1 1 = Some u'
        \<and> u_Username u' = ''deleted_user_1'' \<and> SoftDeleteUserTx calm 1 d1 = (Inr r, d1))"
proof -
  obtain u where u: "user_of demo_db 1 = Some u" "\<not> u_IsDeleted u" using demo_user_of(2) by auto
  note out = soft_delete_user_outcome[OF calm_quiet demo_accounts]
  obtain r d1 u' where "SoftDeleteUserTx calm 1 demo_db = (Inr r, d1)" "user_of d1 1 = Some u'"
      "u_Username u' = ''deleted_user_1''" "SoftDeleteUserTx calm 1 d1 = (Inr r, d1)"
    using out[of 1] u demo_user_of(3) by auto
  then show ?thesis using out[of 9] demo_user_of(1) by auto
qed

section \<open>Using a passkey\<close>

definition use_verdict :: "db \<Rightarrow> RecordCredentialUseParams \<Rightarrow> kind option" where
  "use_verdict d arg =
     (case find (\<lambda>k. k_ID k = rc_ID arg) (db_credentials d) of
        None \<Rightarrow> Some KindNotFound
      | Some k \<Rightarrow> if k_SignCount k < rc_SignCount arg \<or> (k_SignCount k = 0 \<and> rc_SignCount arg = 0)
                  then None else Some KindSecurity)"

definition signed :: "db \<Rightarrow> RecordCredentialUseParams \<Rightarrow> db" where
  "signed d arg = d\<lparr>db_credentials := map (\<lambda>k. if k_ID k = rc_ID arg
     then k\<lparr>k_SignCount := rc_SignCount arg, k_LastUsedAt := Some (db_now d)\<rparr> else k)
     (db_credentials d)\<rparr>"

text \<open>
  C24: In a quiet environment \<open>RecordCredentialUse\<close> accepts exactly a signature counter that
  advances, or stays at 0, and stores it with the time; any other is \<open>Security\<close>, an unknown passkey
  \<open>NotFound\<close>, and both change nothing. So, as the identifiers of the passkeys are distinct, no
  stored counter ever goes back, in any environment.
\<close>

theorem credential_use_outcome:
  assumes "quiet E"
  shows "(case use_verdict d arg of
      Some k \<Rightarrow> fails opRecordCredentialUse k d (RecordCredentialUse E arg d)
    | None \<Rightarrow> RecordCredentialUse E arg d = (Inr (), signed d arg))
    \<and> (distinct (map k_ID (db_credentials d)) \<longrightarrow>
        (\<forall>F. list_all2 (\<lambda>k k'. k_ID k' = k_ID k \<and> k_SignCount k \<le> k_SignCount k')
          (db_credentials d) (db_credentials (snd (RecordCredentialUse F arg d)))))"
proof
  show "case use_verdict d arg of
      Some k \<Rightarrow> fails opRecordCredentialUse k d (RecordCredentialUse E arg d)
    | None \<Rightarrow> RecordCredentialUse E arg d = (Inr (), signed d arg)"
    using assms by (cases "find (\<lambda>k. k_ID k = rc_ID arg) (db_credentials d)")
      (auto simp: use_verdict_def RecordCredentialUse_def recordCredentialUse_def quiet_query Let_def
        signed_def use_rejected_def)
  show "distinct (map k_ID (db_credentials d)) \<longrightarrow>
        (\<forall>F. list_all2 (\<lambda>k k'. k_ID k' = k_ID k \<and> k_SignCount k \<le> k_SignCount k')
          (db_credentials d) (db_credentials (snd (RecordCredentialUse F arg d))))"
  proof (intro impI allI)
    fix F
    assume ids: "distinct (map k_ID (db_credentials d))"
    have refl: "list_all2 (\<lambda>k k'. k_ID k' = k_ID k \<and> k_SignCount k \<le> k_SignCount k') ks ks"
      for ks :: "WebauthnCredential list" by (simp add: list.rel_refl)
    show "list_all2 (\<lambda>k k'. k_ID k' = k_ID k \<and> k_SignCount k \<le> k_SignCount k')
          (db_credentials d) (db_credentials (snd (RecordCredentialUse F arg d)))"
    proof (cases "find (\<lambda>k. k_ID k = rc_ID arg) (db_credentials d)")
      case None
      then show ?thesis
        using refl by (simp add: single_statements recordCredentialUse_def query_def split: option.split)
    next
      case (Some t)
      then have "k = t" if "k \<in> set (db_credentials d)" "k_ID k = rc_ID arg" for k
        using find_in[OF Some] that ids by (auto simp: distinct_map inj_on_def)
      then show ?thesis
        using refl Some by (auto simp: single_statements recordCredentialUse_def query_def Let_def
            list.rel_map list.rel_refl_strong split: option.split intro!: list.rel_refl_strong)
    qed
  qed
qed

definition first_use :: RecordCredentialUseParams where
  "first_use = \<lparr>rc_ID = ''ann'', rc_SignCount = 5\<rparr>"

lemma demo_use: "use_verdict demo_db first_use = None"
  by code_simp

lemma credential_use_outcome_witness:
  "RecordCredentialUse calm first_use demo_db = (Inr (), signed demo_db first_use)"
  using credential_use_outcome[OF calm_quiet, where d = demo_db and arg = first_use] by (simp add: demo_use)

section \<open>Updating a profile\<close>

definition new_profile :: "db \<Rightarrow> UpdateUserParams \<Rightarrow> User \<Rightarrow> User" where
  "new_profile d arg u = u\<lparr>
     u_Username := (case pu_Username arg of Some s \<Rightarrow> TrimSpace s | None \<Rightarrow> u_Username u),
     u_Email := (case pu_Email arg of Some s \<Rightarrow> TrimSpace s | None \<Rightarrow> u_Email u),
     u_ProfileImgUrl := (case pu_ProfileImgURL arg of
        Some s \<Rightarrow> \<lparr>tx_String = TrimSpace s, tx_Valid = True\<rparr> | None \<Rightarrow> u_ProfileImgUrl u),
     u_LastModifiedAt := db_now d\<rparr>"

definition profile_verdict :: "db \<Rightarrow> UpdateUserParams \<Rightarrow> kind option" where
  "profile_verdict d arg =
     (if params_empty arg then Some KindInvalid
      else case user_of d (pu_ID arg) of
             None \<Rightarrow> Some KindNotFound
           | Some u \<Rightarrow> if u_IsDeleted u then Some KindDeleted
                       else if users_conflict (db_users d) (new_profile d arg u) \<noteq> None then Some KindConflict
                       else None)"

text \<open>
  C33: In a quiet environment \<open>UpdateUser\<close> refuses an empty update, a missing user, a deleted one
  and a name or email another active user has, each with its documented kind and without a
  change; otherwise it stores the given fields, trimmed, and leaves the other fields alone.
\<close>

theorem update_user_outcome:
  assumes "quiet E"
  shows "case profile_verdict d arg of
      Some k \<Rightarrow> fails opUpdateUser k d (UpdateUser E arg d)
    | None \<Rightarrow> \<exists>u r. user_of d (pu_ID arg) = Some u
        \<and> UpdateUser E arg d = (Inr r, set_user d (new_profile d arg u)) \<and> rr_ID r = pu_ID arg
        \<and> rr_Username r = u_Username (new_profile d arg u) \<and> rr_Email r = u_Email (new_profile d arg u)"
proof (cases "params_empty arg")
  case True
  then show ?thesis by (simp add: profile_verdict_def UpdateUser_def update_nothing_def)
next
  case False
  show ?thesis
  proof (cases "user_of d (pu_ID arg)")
    case None
    then show ?thesis
      using False by (simp add: profile_verdict_def UpdateUser_def updateUser_def quiet_query[OF assms])
  next
    case (Some u)
    have new: "u\<lparr>u_Username := coalesce (StringToPgxText (pu_Username arg)) (u_Username u),
        u_Email := coalesce (StringToPgxText (pu_Email arg)) (u_Email u),
        u_ProfileImgUrl := if tx_Valid (StringToPgxText (pu_ProfileImgURL arg))
          then StringToPgxText (pu_ProfileImgURL arg) else u_ProfileImgUrl u,
        u_LastModifiedAt := db_now d\<rparr> = new_profile d arg u"
      by (simp add: new_profile_def coalesce_def StringToPgxText_def null_text_def split: option.split)
    show ?thesis
    proof (cases "u_IsDeleted u")
      case True
      then show ?thesis
        using False Some by (simp add: profile_verdict_def UpdateUser_def updateUser_def
            quiet_query[OF assms] Let_def update_deleted_user_def)
    next
      case live: False
      show ?thesis
        using False Some live user_of_Some[OF Some]
        by (cases "users_conflict (db_users d) (new_profile d arg u)")
          (simp_all add: profile_verdict_def UpdateUser_def updateUser_def quiet_query[OF assms]
            Let_def new)
    qed
  qed
qed

definition rename :: UpdateUserParams where
  "rename = \<lparr>pu_ID = 1, pu_Username = Some '' bob '', pu_Email = None, pu_ProfileImgURL = None\<rparr>"

lemma demo_profile: "profile_verdict demo_db rename = Some KindConflict"
  by code_simp

lemma update_user_outcome_witness: "fails opUpdateUser KindConflict demo_db (UpdateUser calm rename demo_db)"
  using update_user_outcome[OF calm_quiet, where d = demo_db and arg = rename] by (simp only: demo_profile option.case)

section \<open>Where the code and its comments part\<close>

text \<open>
  \<open>GetUserCredentials\<close> documents \<open>NotFound\<close> for a user without passkeys, but a query for many
  rows does not report that there are none.
\<close>

lemma credentials_never_missing:
  assumes "quiet E"
  shows "GetUserCredentials E i d = (Inr [k \<leftarrow> db_credentials d. k_UserID k = i], d)"
  using assms by (simp add: GetUserCredentials_def getUserCredentials_def quiet_query)

text \<open>
  The message of a conflict quotes \<open>opDetails.input\<close>, which neither \<open>CreateUserWithCredentialsTx\<close>
  nor \<open>UpdateUser\<close> sets, so it names no user.
\<close>

definition name_taken :: CreateUserWithCredentialsTxParams where
  "name_taken = (registration ''eve'')\<lparr>cw_User := NewCreateUserParams ''ann'' ''eve@x'' None ''eve''\<rparr>"

lemma conflict_names_nobody:
  "fst (CreateUserWithCredentialsTx calm name_taken demo_users) =
     Inl (OpError opCreateUserWithCredentials KindConflict entUser [] [] [] ''username'' []
       (Some (Errorf (''user with username '' @ [CHR 0x27, CHR 0x27] @ '' exists: '')
         (Some (unique_violation calm ''uniq_users_username_active'')))))"
  by code_simp

text \<open>
  A deleted user is renamed to \<open>deleted_user_<id>\<close>, a name an active user may have: then
  \<open>GetUserByUsername\<close>, which does not look at \<open>is_deleted\<close>, may find the deleted one first and
  report the active user as deleted. For the same reason \<open>UsernameExists\<close>, documented for active
  users, counts the deleted ones.
\<close>

definition impostor_db :: db where
  "impostor_db = snd (CreateUserWithCredentialsTx calm (registration ''deleted_user_1'')
     (snd (SoftDeleteUserTx calm 1 demo_users)))"

lemma active_user_reported_deleted:
  "list_ex (\<lambda>u. \<not> u_IsDeleted u \<and> u_Username u = ''deleted_user_1'') (db_users impostor_db)"
  "fst (GetUserByUsername calm ''deleted_user_1'' impostor_db) = Inl (named_user_deleted ''deleted_user_1'')"
  by code_simp+

lemma deleted_username_exists:
  "fst (UsernameExists calm ''deleted_user_1'' (snd (SoftDeleteUserTx calm 1 demo_users))) = Inr True"
  "\<not> list_ex (\<lambda>u. \<not> u_IsDeleted u \<and> u_Username u = ''deleted_user_1'')
     (db_users (snd (SoftDeleteUserTx calm 1 demo_users)))"
  by code_simp+

text \<open>
  Every method of \<open>Store\<close> is documented to return an \<open>OpError\<close>, but what \<open>execTx\<close> reports of a
  failed begin, rollback or commit is not one, and a failed rollback hides the kind of the
  error before it.
\<close>

lemma transaction_errors_unclassified:
  "env_begin E = Some e \<Longrightarrow> execTx E body d = (Inl e, d)"
  "env_begin E = None \<Longrightarrow> env_rollback E = Some rb \<Longrightarrow> body E d = (Inl err, d1)
     \<Longrightarrow> \<exists>e. fst (execTx E body d) = Inl e \<and> errors_As_OpError e = None"
  by (simp_all add: execTx_def)

end
