(* ===== verification/Api_Sessions.thy ===== *)
theory Api_Sessions
  imports Api_Props Db_Account_Props
begin

text \<open>
  Which operations store and remove sessions. Witnesses of the properties of the handlers close
  the theory.
\<close>

section \<open>Only CreateSession opens a session\<close>

definition fewer_sessions :: "db \<Rightarrow> db \<Rightarrow> bool" where
  "fewer_sessions d d1 \<longleftrightarrow> set (db_sessions d1) \<subseteq> set (db_sessions d)"

lemma fewer_refl [simp]: "fewer_sessions d d"
  by (simp add: fewer_sessions_def)

lemma fewer_trans: "fewer_sessions d d1 \<Longrightarrow> fewer_sessions d1 d2 \<Longrightarrow> fewer_sessions d d2"
  by (auto simp: fewer_sessions_def)

lemma fewer_same_accounts: "same_accounts d d1 \<Longrightarrow> fewer_sessions d d1"
  by (simp add: same_accounts_def fewer_sessions_def)

lemma fewer_statements:
  "fewer_sessions d (snd (createUser E arg d))"
  "fewer_sessions d (snd (createWebauthnCredentials E karg d))"
  "fewer_sessions d (snd (deleteUserSessions E i d))"
  "fewer_sessions d (snd (deleteUserCredentials E i d))"
  "fewer_sessions d (snd (softDeleteUser E i d))"
  "fewer_sessions d (snd (updateUser E i na em im d))"
  "fewer_sessions d (snd (recordCredentialUse E cr n d))"
  by (auto simp: fewer_sessions_def query_def createUser_def createWebauthnCredentials_def
      deleteUserSessions_def deleteUserCredentials_def softDeleteUser_def updateUser_def
      recordCredentialUse_def set_user_def Let_def split: option.split)

lemma fewer_result: "f d = (r, d1) \<Longrightarrow> fewer_sessions d (snd (f d)) \<Longrightarrow> fewer_sessions d d1"
  by simp

lemma fewer_bodies:
  "fewer_sessions d (snd (create_user_body arg E d))"
  "fewer_sessions d (snd (soft_delete_body i E d))"
  using fewer_statements
  by (auto simp: create_user_body_def soft_delete_body_def Let_def
      split: sum.split prod.split if_split dest!: fewer_result[OF _ fewer_statements(1)]
        fewer_result[OF _ fewer_statements(2)] fewer_result[OF _ fewer_statements(3)]
        fewer_result[OF _ fewer_statements(4)] fewer_result[OF _ fewer_statements(5)]
      intro: fewer_trans)

lemma fewer_tx: "fewer_sessions d (snd (body E d)) \<Longrightarrow> fewer_sessions d (snd (execTx E body d))"
  using execTx_cases[of E body d] by (auto simp: fewer_sessions_def rolled_back_def)

lemma CreateSession_new:
  "s \<in> set (db_sessions (snd (CreateSession uuid_text E arg d))) \<Longrightarrow> s \<notin> set (db_sessions d) \<Longrightarrow> s_UserID s = cs_UserID arg"
  by (auto simp: single_statements createSession_def query_def Let_def split: option.splits if_splits)

lemma step_sessions:
  assumes "store_step cfg k d d1"
  shows "fewer_sessions d d1 \<or> (\<exists>uuid_text E arg. d1 = snd (CreateSession uuid_text E arg d))"
  using assms
proof cases
  case (Insert arg E)
  then show ?thesis using fewer_same_accounts[OF same_accounts_txs(1)] by (simp add: InsertCommentTx_def)
next
  case (Delete E darg)
  then show ?thesis using fewer_same_accounts[OF same_accounts_txs(2)] by (simp add: DeleteCommentTx_tx)
next
  case (Vote E varg)
  then show ?thesis using fewer_same_accounts[OF same_accounts_txs(3)] by (simp add: VoteCommentTx_def)
next
  case (Update E uarg)
  then show ?thesis using fewer_same_accounts[OF same_accounts_statements(7)] by (simp add: single_statements)
next
  case (Create_User E carg)
  then show ?thesis using fewer_tx[of d "create_user_body carg" E, OF fewer_bodies(1)] by (simp add: CreateUserWithCredentialsTx_def)
next
  case (Update_User E parg)
  then show ?thesis using UpdateUser_statement[of E parg d] fewer_statements(6) by auto
next
  case (Delete_User E i)
  then show ?thesis using fewer_tx[of d "soft_delete_body i" E, OF fewer_bodies(2)] by (simp add: SoftDeleteUserTx_def)
next
  case (Use_Credential E rarg)
  then show ?thesis using fewer_statements(7) by (simp add: single_statements)
next
  case (Create_Session uuid_text E sarg)
  then show ?thesis by blast
next
  case (Tick t)
  then show ?thesis by (simp add: fewer_sessions_def)
qed

section \<open>After the deletion of an account\<close>

definition no_session :: "int \<Rightarrow> db \<Rightarrow> bool" where
  "no_session i d \<longleftrightarrow> (\<forall>s\<in>set (db_sessions d). s_UserID s \<noteq> i)"

lemma deleteUser_deletes:
  assumes "deleteUser_handler E auth d = Some (resp, d1)" and "rs_Status resp = 204"
  shows "\<exists>r. soft_delete_body (pl_UserID auth) E d = (Inr r, d1)"
proof -
  have refused: "abort_store err d2 = Some (resp, d1) \<Longrightarrow> rs_Status resp \<noteq> 204" for err d2
    by (auto simp: abort_store_def newResourceError_def abort_resource_def respondWithJSON_def
        internalResourceError_def opKindToHTTPStatus_def split: option.splits kind.splits)
  obtain r where "SoftDeleteUserTx E (pl_UserID auth) d = (Inr r, d1)"
    using assms refused by (auto simp: deleteUser_handler_def split: prod.splits sum.splits)
  then show ?thesis
    by (auto simp: SoftDeleteUserTx_def execTx_def split: option.splits prod.splits sum.splits)
qed

lemma deleteUser_no_session:
  assumes "deleteUser_handler E auth d = Some (resp, d1)" and "rs_Status resp = 204"
  shows "no_session (pl_UserID auth) d1"
proof -
  obtain r where "soft_delete_body (pl_UserID auth) E d = (Inr r, d1)"
    using deleteUser_deletes[OF assms] by blast
  then obtain d2 d3 row where steps: "deleteUserSessions E (pl_UserID auth) d = (Inr (), d2)"
      "deleteUserCredentials E (pl_UserID auth) d2 = (Inr (), d3)"
      "softDeleteUser E (pl_UserID auth) d3 = (Inr row, d1)"
    by (rule soft_delete_body_Inr)
  have "db_sessions d2 = [s \<leftarrow> db_sessions d. s_UserID s \<noteq> pl_UserID auth]"
    using steps(1) by (auto simp: deleteUserSessions_def query_def split: option.splits)
  moreover have "fewer_sessions d2 d1"
    using fewer_statements(4)[of d2 E "pl_UserID auth"] fewer_statements(5)[of d3 E "pl_UserID auth"] steps(2,3)
    by (auto intro: fewer_trans)
  ultimately show ?thesis by (auto simp: fewer_sessions_def no_session_def)
qed

section \<open>Witnesses\<close>

definition demo_lib :: apilib where
  "demo_lib = \<lparr>gl_unicode = \<lparr>IsLetter = (\<lambda>r. True), IsNumber = (\<lambda>r. False), IsPunct = (\<lambda>r. False)\<rparr>,
     gl_lower = id, gl_quote = quoted, gl_url_error = (\<lambda>_. None), al_IsDigit = (\<lambda>r. False),
     al_email_ok = (\<lambda>_. True), al_uri_ok = (\<lambda>_. True)\<rparr>"

definition demo_golib' :: golib where
  "demo_golib' = golib.truncate demo_lib"

definition page_request :: request where
  "page_request = \<lparr>rq_PathValue = (\<lambda>name. if name = ''post_id'' then ''10'' else []),
     rq_Query = [''order'' \<mapsto> [''new'']], rq_ContentType = [], rq_Authorization = []\<rparr>"

definition demo_auth :: Payload where
  "demo_auth = \<lparr>pl_ID = ''s2'', pl_UserID = 2, pl_IssuedAt = 0, pl_ExpiredAt = 9\<rparr>"

lemma ParseInt_10: "ParseInt L ''10'' 64 = (None, 10)"
proof -
  have "Itoa 10 = ''10''" by code_simp
  then show ?thesis using ParseInt_Itoa[of 64 10 L] by simp
qed

lemma page_request_post: "extractPostID L page_request = Inr 10"
  by (simp add: extractPostID_def page_request_def ParseInt_10)

lemma page_request_query: "fst (the (ExtractQueryParams demo_golib' (rq_Query page_request) default_page)) = None"
  by code_simp

lemma page_request_comment:
  "cd_provided (getCommentIDDescriptor L page_request) = False"
  "cd_valid (getCommentIDDescriptor L page_request) = False"
  "comment_parent L page_request = null_int8"
  by (simp_all add: getCommentIDDescriptor_def page_request_def ParseInt_def comment_parent_def
      null_int8_def Let_def)

lemma get_comments_outcome_witness:
  "\<exists>resp. getComments demo_golib' calm page_request demo_db = Some (resp, demo_db) \<and> rs_Status resp = 200"
proof -
  obtain req where "ExtractQueryParams demo_golib' (rq_Query page_request) default_page = Some (None, req)"
    using page_request_query extract_page[of demo_golib' "rq_Query page_request"] by (metis fst_conv option.sel)
  with get_comments_outcome[OF calm_quiet demo_db_wf, of demo_golib' page_request, unfolded page_request_post sum.case]
  show ?thesis by fastforce
qed

lemma demo_text:
  "ingestJSONBody page_request (Inr (''why'', None, True)) = Inr ''why''"
  "CreateCommentRequest_Validate ''why'' = None"
  "insert_verdict demo_cfg demo_db (comment_params 2 10 ''why'' null_int8) = None"
  by code_simp+

lemma new_comment_read:
  "new_comment L (Inr (''why'', None, True)) page_request demo_auth
     = Inr (comment_params 2 10 ''why'' null_int8)"
  by (simp add: new_comment_def demo_text page_request_post page_request_comment demo_auth_def)

lemma create_comment_outcome_witness:
  "\<exists>c d1. createComment_handler demo_golib' demo_cfg calm (Inr (''why'', None, True)) page_request demo_auth demo_db
       = Some (\<lparr>rs_Status = 200, rs_Body = CommentBody c\<rparr>, d1) \<and> db_comments d1 = db_comments demo_db @ [c]"
  using create_comment_outcome[OF calm_quiet demo_inv(2), of demo_golib' "Inr (''why'', None, True)"
      page_request demo_auth, unfolded new_comment_read demo_text(3) sum.case option.case]
  by blast

lemma parameters_read_back_witness:
  "parseInt32 demo_golib' (Itoa (-7)) = Inr (-7) \<and> extractPostID demo_golib' page_request = Inr 10"
proof -
  have "rq_PathValue page_request ''post_id'' = Itoa 10" by code_simp
  then show ?thesis
    using parameters_read_back[of "-7" 10 page_request demo_golib'] by simp
qed

end
