(* ===== verification/Api_Passkey_Props.thy ===== *)
theory Api_Passkey_Props
  imports Api_Passkeys Api_Sessions
begin

text \<open>
  What the passkey ceremonies guarantee: who gets a session, whose account a registration
  creates, and that the tokens of a session renew it.
\<close>

section \<open>Opening a session\<close>

text \<open>\<open>opened S m i token d d1\<close>: \<open>d1\<close> is \<open>d\<close> with one new session of the user \<open>i\<close> for \<open>token\<close>.\<close>

definition opened :: "('r, 's, 'c, 'a) Service \<Rightarrow> moment \<Rightarrow> int \<Rightarrow> string \<Rightarrow> db \<Rightarrow> db \<Rightarrow> bool" where
  "opened S m i token d d1 \<longleftrightarrow> (\<exists>p s.
     tm_CreateToken (sv_tokenMaker S) m i (RefreshTokenDuration (sv_config S)) = Inr (token, p)
     \<and> d1 = d\<lparr>db_sessions := db_sessions d @ [s]\<rparr> \<and> s_ID s = pl_ID p \<and> s_UserID s = i
     \<and> s_RefreshToken s = token \<and> \<not> s_IsBlocked s \<and> s_ExpiresAt s = pl_ExpiredAt p
     \<and> s_ID s \<notin> s_ID ` set (db_sessions d))"

lemma CreateSession_result:
  "CreateSession uuid_text E arg d = (Inr s, d1) \<Longrightarrow> createSession E arg d = (Inr s, d1)"
  "CreateSession uuid_text E arg d = (Inl err, d1) \<Longrightarrow> d1 = d"
  by (auto simp: CreateSession_def dest: failed_statements(3) split: prod.splits sum.splits)

lemma createSession_row:
  "createSession E arg d = (Inr s, d1) \<Longrightarrow> s_ID s = cs_ID arg \<and> s_UserID s = cs_UserID arg
    \<and> s_RefreshToken s = cs_RefreshToken arg \<and> s_IsBlocked s = cs_IsBlocked arg \<and> s_ExpiresAt s = cs_ExpiresAt arg"
  by (auto simp: createSession_def Let_def dest!: query_Inr split: if_splits)

lemma generateAuthTokens_Inl: "generateAuthTokens S m1 m2 E user ua ip d = (Inl err, d1) \<Longrightarrow> d1 = d"
  by (auto simp: generateAuthTokens_def Let_def dest: CreateSession_result(2) split: sum.splits prod.splits)

lemma generateAuthTokens_Inr:
  assumes "generateAuthTokens S m1 m2 E user ua ip d = (Inr res, d1)"
  shows "opened S m2 (u_ID user) (ps_RefreshToken res) d d1 \<and> pv_ID (ps_User res) = u_ID user"
proof -
  have "ps_User res = createPrivateUserResponse user"
    using assms by (auto simp: generateAuthTokens_def Let_def split: sum.splits prod.splits)
  then have shown: "pv_ID (ps_User res) = u_ID user" by (simp add: createPrivateUserResponse_def)
  obtain p s arg where t: "tm_CreateToken (sv_tokenMaker S) m2 (u_ID user) (RefreshTokenDuration (sv_config S))
        = Inr (ps_RefreshToken res, p)"
      and s: "CreateSession (sv_uuid_text S) E arg d = (Inr s, d1)"
      and arg: "cs_ID arg = pl_ID p" "cs_UserID arg = u_ID user" "cs_RefreshToken arg = ps_RefreshToken res"
        "\<not> cs_IsBlocked arg" "cs_ExpiresAt arg = pl_ExpiredAt p"
    using assms by (fastforce simp: generateAuthTokens_def Let_def split: sum.splits prod.splits)
  note row = CreateSession_result(1)[OF s]
  show ?thesis
    unfolding opened_def using t createSession_Inr[OF row] createSession_row[OF row] arg shown
    by (intro conjI exI[of _ p] exI[of _ s]) simp_all
qed

section \<open>Refusals\<close>

lemma plain_status [simp]: "pk_Status (plain_response x) = rs_Status x"
  by (simp add: plain_response_def)

lemma refuse_store_status: "refuse_store err st = Some (resp, st1) \<Longrightarrow> pk_Status resp \<noteq> 200 \<and> st1 = st"
  by (auto simp: refuse_store_def newResourceError_def abort_resource_def respondWithJSON_def
      internalResourceError_def opKindToHTTPStatus_def split: option.splits kind.splits)

lemma refusals_status [simp]:
  "pk_Status server_error = 500" "pk_Status (refuse_auth no_auth_cookie) = 400"
  "pk_Status (refuse_auth no_pending_auth) = 400" "pk_Status (refuse_auth auth_expired) = 401"
  "pk_Status (refuse_auth (login_failed err)) = 401" "pk_Status (refuse_auth (use_refused err)) = 401"
  "pk_Status (refuse_vomit v) = v_Status v" "v_Status no_cookie = 400" "v_Status (no_pending err) = 400"
  "v_Status pending_expired = 400" "v_Status (registration_failed err) = 400"
  by (simp_all add: server_error_def refuse_auth_def refuse_vomit_def abort_auth_def respondWithJSON_def
      no_auth_cookie_def no_pending_auth_def auth_expired_def login_failed_def use_refused_def newAuthError_def
      no_cookie_def no_pending_def pending_expired_def registration_failed_def puke_def)

section \<open>Signing in\<close>

lemma GetUser_result:
  "GetUser E i d = (Inr u, d1) \<Longrightarrow> d1 = d \<and> u \<in> set (db_users d) \<and> u_ID u = i \<and> \<not> u_IsDeleted u"
  "GetUser E i d = (Inl err, d1) \<Longrightarrow> d1 = d"
  by (auto simp: GetUser_def getUser_def query_def one_row_def dest: user_of_Some
      split: option.splits prod.splits sum.splits if_splits)

lemma GetUserCredentials_result:
  "GetUserCredentials E i d = (Inr ks, d1) \<Longrightarrow> d1 = d \<and> ks = [k \<leftarrow> db_credentials d. k_UserID k = i]"
  "GetUserCredentials E i d = (Inl err, d1) \<Longrightarrow> d1 = d"
  by (auto simp: GetUserCredentials_def getUserCredentials_def query_def
      split: option.splits prod.splits sum.splits if_splits)

text \<open>The user of a sign-in and the passkeys stored for it, as the library gets them.\<close>

definition login_user :: "('r, 's, 'c, 'a) Service \<Rightarrow> db \<Rightarrow> User \<Rightarrow> go_error + webauthn_User" where
  "login_user S d user = map_sum id user_with_credentials
     (NewUserWithCredentials (sv_transports S) user [k \<leftarrow> db_credentials d. k_UserID k = u_ID user])"




text \<open>
  \<open>verified S d r now rs user cred\<close>: the cookie of the request names a pending sign-in of the
  active user \<open>user\<close>, still in time, and the library verified the request against it and the
  passkeys stored for this user, giving \<open>cred\<close>.
\<close>

definition verified :: "('r, 's, 'c, 'a) Service \<Rightarrow> db \<Rightarrow> web_request \<Rightarrow> int \<Rightarrow> 'r \<Rightarrow> User \<Rightarrow> Credential \<Rightarrow> bool" where
  "verified S d r now rs user cred \<longleftrightarrow> (\<exists>pending wu session.
     GetUserAuthSession (sv_redisStore S) (getWebauthnSessionCookieValue r) now rs = Inr pending
     \<and> now \<le> pa_ExpiresAt pending \<and> user \<in> set (db_users d) \<and> u_ID user = pa_UserID pending
     \<and> \<not> u_IsDeleted user \<and> login_user S d user = Inr wu \<and> pa_SessionData pending = Some session
     \<and> wa_FinishLogin (sv_webauthnConfig S) wu session r = Inr cred)"

definition use_of :: "Credential \<Rightarrow> RecordCredentialUseParams" where
  "use_of cred = \<lparr>rc_ID = cr_ID cred, rc_SignCount = cr_SignCount cred\<rparr>"


lemma NewUserWithCredentials_user: "NewUserWithCredentials T user ks = Inr u \<Longrightarrow> uc_User u = user"
  by (auto simp: NewUserWithCredentials_def split: sum.splits)

text \<open>A sign-in is refused before the passkey is used, or goes on with a verified one.\<close>

lemma signinFinish_cases:
  assumes "signinFinish S E m1 m2 r (d, rs) = Some (resp, d1, rs1)"
  shows "(pk_Status resp \<noteq> 200 \<and> d1 = d \<and> rs1 = rs)
    \<or> (\<exists>user cred x d2. verified S d r (mo_Now m1) rs user cred
       \<and> RecordCredentialUse E (use_of cred) d = (x, d2)
       \<and> (case x of Inl err \<Rightarrow> rejects_use err \<noteq> None | Inr _ \<Rightarrow> False)
       \<and> pk_Status resp \<noteq> 200 \<and> d1 = d2 \<and> rs1 = rs)
    \<or> (\<exists>user cred x d2. verified S d r (mo_Now m1) rs user cred
       \<and> RecordCredentialUse E (use_of cred) d = (x, d2)
       \<and> (case x of Inl err \<Rightarrow> rejects_use err = None | Inr _ \<Rightarrow> True)
       \<and> (resp, d1, rs1) = signin_done S E m1 m2 r (getWebauthnSessionCookieValue r) user (d2, rs))"
proof (rule ccontr)
  let ?sid = "getWebauthnSessionCookieValue r"
  assume no: "\<not> ?thesis"
  then have ref: "pk_Status resp \<noteq> 200 \<Longrightarrow> d1 = d \<Longrightarrow> rs1 = rs \<Longrightarrow> False" by blast
  have sid: "?sid \<noteq> []" using assms ref by (auto simp: signinFinish_def Let_def)
  obtain pending where pending: "GetUserAuthSession (sv_redisStore S) ?sid (mo_Now m1) rs = Inr pending"
    using assms ref sid by (cases "GetUserAuthSession (sv_redisStore S) ?sid (mo_Now m1) rs") (auto simp: signinFinish_def Let_def)
  have in_time: "\<not> pa_ExpiresAt pending < mo_Now m1"
    using assms ref sid pending by (auto simp: signinFinish_def Let_def)
  obtain x d' where get: "GetUser E (pa_UserID pending) d = (x, d')" by (rule prod.exhaust)
  moreover have "d' = d" using GetUser_result[of E "pa_UserID pending" d] get by (cases x) auto
  moreover have "x \<noteq> Inl err" for err
    using assms ref sid pending in_time get calculation(2) refuse_store_status[of err "(d, rs)" resp "(d1, rs1)"]
    by (auto simp: signinFinish_def Let_def)
  ultimately obtain user where user: "GetUser E (pa_UserID pending) d = (Inr user, d)" by (cases x) auto
  obtain y d'' where get2: "GetUserCredentials E (u_ID user) d = (y, d'')" by (rule prod.exhaust)
  moreover have "d'' = d" using GetUserCredentials_result[of E "u_ID user" d] get2 by (cases y) auto
  moreover have "y \<noteq> Inl err" for err
    using assms ref sid pending in_time user get2 calculation(2) by (auto simp: signinFinish_def Let_def)
  ultimately obtain ks where ks: "GetUserCredentials E (u_ID user) d = (Inr ks, d)" by (cases y) auto
  obtain wu where wu: "NewUserWithCredentials (sv_transports S) user ks = Inr wu"
    using assms ref sid pending in_time user ks
    by (cases "NewUserWithCredentials (sv_transports S) user ks") (auto simp: signinFinish_def Let_def)
  obtain session where session: "pa_SessionData pending = Some session"
    using assms sid pending in_time user ks wu
    by (cases "pa_SessionData pending") (auto simp: signinFinish_def Let_def)
  obtain cred where cred: "wa_FinishLogin (sv_webauthnConfig S) (user_with_credentials wu) session r = Inr cred"
    using assms ref sid pending in_time user ks wu session
    by (cases "wa_FinishLogin (sv_webauthnConfig S) (user_with_credentials wu) session r") (auto simp: signinFinish_def Let_def)
  have ver: "verified S d r (mo_Now m1) rs user cred"
    using pending in_time GetUser_result(1)[OF user] GetUserCredentials_result(1)[OF ks] wu session cred
    by (auto simp: verified_def login_user_def)
  obtain z d2 where used: "RecordCredentialUse E (use_of cred) d = (z, d2)" by (rule prod.exhaust)
  have res: "(resp, d1, rs1) = (case z of
      Inl err \<Rightarrow> (case rejects_use err of
          Some opErr \<Rightarrow> (refuse_auth (use_refused opErr), d2, rs)
        | None \<Rightarrow> signin_done S E m1 m2 r ?sid user (d2, rs))
    | Inr _ \<Rightarrow> signin_done S E m1 m2 r ?sid user (d2, rs))"
    using assms sid pending in_time user ks wu session cred NewUserWithCredentials_user[OF wu] used
    by (auto simp: signinFinish_def Let_def use_of_def split: sum.splits option.splits)
  show False
  proof (cases "case z of Inl err \<Rightarrow> rejects_use err \<noteq> None | Inr _ \<Rightarrow> False")
    case True
    moreover have "pk_Status resp \<noteq> 200 \<and> d1 = d2 \<and> rs1 = rs"
      using True res by (auto split: sum.splits option.splits)
    ultimately show False using no ver used by blast
  next
    case False
    then have "case z of Inl err \<Rightarrow> rejects_use err = None | Inr _ \<Rightarrow> True"
      and "(resp, d1, rs1) = signin_done S E m1 m2 r ?sid user (d2, rs)"
      using res by (auto split: sum.splits option.splits)
    then show False using no ver used by blast
  qed
qed

lemma signin_done_cases:
  assumes "(resp, d1, rs1) = signin_done S E m1 m2 r i user (d, rs)"
  shows "if pk_Status resp = 200
    then \<exists>res. pk_Body resp = AuthSuccess res \<and> opened S m2 (u_ID user) (ps_RefreshToken res) d d1
      \<and> pv_ID (ps_User res) = u_ID user
    else d1 = d \<and> rs1 = rs"
  using assms generateAuthTokens_Inl generateAuthTokens_Inr
  by (fastforce simp: signin_done_def split: prod.splits sum.splits)


section \<open>Sessions stay until their user is deleted\<close>

definition kept_sessions :: "int \<Rightarrow> db \<Rightarrow> db \<Rightarrow> bool" where
  "kept_sessions i d d1 \<longleftrightarrow> (\<forall>s\<in>set (db_sessions d). s_UserID s = i \<longrightarrow> s \<in> set (db_sessions d1))"

lemma kept_refl [simp]: "kept_sessions i d d"
  by (simp add: kept_sessions_def)

lemma kept_same: "db_sessions d1 = db_sessions d \<Longrightarrow> kept_sessions i d d1"
  by (simp add: kept_sessions_def)

lemma kept_statements:
  "db_sessions (snd (createUser E arg d)) = db_sessions d"
  "db_sessions (snd (createWebauthnCredentials E karg d)) = db_sessions d"
  "db_sessions (snd (updateUser E j na em im d)) = db_sessions d"
  "db_sessions (snd (recordCredentialUse E cr n d)) = db_sessions d"
  "db_sessions (snd (deleteUserCredentials E j d)) = db_sessions d"
  "db_sessions (snd (softDeleteUser E j d)) = db_sessions d"
  by (auto simp: query_def createUser_def createWebauthnCredentials_def updateUser_def
      deleteUserCredentials_def softDeleteUser_def recordCredentialUse_def set_user_def Let_def split: option.split)

lemma kept_create_body: "db_sessions (snd (create_user_body arg E d)) = db_sessions d"
proof -
  obtain x d1 where 1: "createUser E (cw_User arg) d = (x, d1)" by (rule prod.exhaust)
  then have "db_sessions d1 = db_sessions d" using kept_statements(1)[of E "cw_User arg" d] by simp
  then show ?thesis
    using 1 by (cases x) (auto simp: create_user_body_def Let_def split: prod.split sum.split
        dest!: arg_cong[where f = "\<lambda>x. db_sessions (snd x)"] simp: kept_statements)
qed

lemma kept_delete_body:
  assumes "i \<noteq> j"
  shows "kept_sessions i d (snd (soft_delete_body j E d))"
proof -
  obtain x d1 where 1: "deleteUserSessions E j d = (x, d1)" by (rule prod.exhaust)
  then have k: "kept_sessions i d d1"
    using assms by (auto simp: deleteUserSessions_def query_def kept_sessions_def split: option.splits)
  obtain y d2 where 2: "deleteUserCredentials E j d1 = (y, d2)" by (rule prod.exhaust)
  obtain z d3 where 3: "softDeleteUser E j d2 = (z, d3)" by (rule prod.exhaust)
  have "db_sessions d2 = db_sessions d1" "db_sessions d3 = db_sessions d1"
    using kept_statements(5)[of E j d1] kept_statements(6)[of E j d2] 2 3 by auto
  with k show ?thesis
    using 1 2 3 by (auto simp: soft_delete_body_def kept_sessions_def split: sum.split)
qed

lemma kept_tx: "kept_sessions i d (snd (body E d)) \<Longrightarrow> kept_sessions i d (snd (execTx E body d))"
  using execTx_cases[of E body d] by (auto simp: kept_sessions_def rolled_back_def)

lemma kept_accounts: "same_accounts d d1 \<Longrightarrow> kept_sessions i d d1"
  by (simp add: same_accounts_def kept_sessions_def)

lemma step_keeps_sessions:
  assumes "store_step cfg k d d1" and "\<forall>E. d1 \<noteq> snd (SoftDeleteUserTx E i d)"
  shows "kept_sessions i d d1"
  using assms(1)
proof cases
  case (Insert arg E)
  then show ?thesis using kept_accounts[OF same_accounts_txs(1)] by (simp add: InsertCommentTx_def)
next
  case (Delete E darg)
  then show ?thesis using kept_accounts[OF same_accounts_txs(2)] by (simp add: DeleteCommentTx_tx)
next
  case (Vote E varg)
  then show ?thesis using kept_accounts[OF same_accounts_txs(3)] by (simp add: VoteCommentTx_def)
next
  case (Update E uarg)
  then show ?thesis using kept_accounts[OF same_accounts_statements(7)] by (simp add: single_statements)
next
  case (Create_User E carg)
  then show ?thesis
    using kept_tx[of i d "create_user_body carg" E] kept_same[OF kept_create_body] by (simp add: CreateUserWithCredentialsTx_def)
next
  case (Update_User E parg)
  then show ?thesis using UpdateUser_statement[of E parg d] kept_same[OF kept_statements(3)] by auto
next
  case (Delete_User E j)
  then have "i \<noteq> j" using assms(2) by blast
  then show ?thesis using Delete_User kept_tx[of i d "soft_delete_body j" E] kept_delete_body by (simp add: SoftDeleteUserTx_def)
next
  case (Use_Credential E rarg)
  then show ?thesis by (simp add: single_statements kept_same kept_statements)
next
  case (Create_Session uuid_text E sarg)
  then show ?thesis
    by (auto simp: single_statements createSession_def query_def Let_def kept_sessions_def split: option.split)
next
  case (Tick t)
  then show ?thesis by (simp add: kept_sessions_def)
qed

text \<open>A history in which the user \<open>i\<close> is not deleted.\<close>

definition without_deletion :: "store_config \<Rightarrow> int \<Rightarrow> db \<Rightarrow> db \<Rightarrow> bool" where
  "without_deletion cfg i = (\<lambda>d d1. any_step cfg d d1 \<and> (\<forall>E. d1 \<noteq> snd (SoftDeleteUserTx E i d)))\<^sup>*\<^sup>*"

lemma without_deletion_keeps:
  assumes "without_deletion cfg i d d1" and "db_wf_from g cfg d"
  shows "kept_sessions i d d1 \<and> (\<exists>g'. db_wf_from g' cfg d1)"
  using assms(1) unfolding without_deletion_def
proof (induction rule: rtranclp_induct)
  case (step d1 d2)
  then obtain k where "store_step cfg k d1 d2" by (auto simp: any_step_def)
  moreover have "\<exists>g'. db_wf_from g' cfg d2" using step any_step_wf by blast
  ultimately show ?case
    using step step_keeps_sessions[of cfg k d1 d2 i] by (auto simp: kept_sessions_def)
qed (use assms(2) in auto)

section \<open>The steps of a sign-in\<close>

lemma generateAuthTokens_steps: "(handler_step cfg)\<^sup>*\<^sup>* d (snd (generateAuthTokens S m1 m2 E user ua ip d))"
proof -
  have "snd (generateAuthTokens S m1 m2 E user ua ip d) = d
      \<or> (\<exists>arg. snd (generateAuthTokens S m1 m2 E user ua ip d) = snd (CreateSession (sv_uuid_text S) E arg d))"
    by (auto simp: generateAuthTokens_def Let_def split: sum.split prod.split) (metis snd_conv)+
  then show ?thesis using store_step.Create_Session by (metis r_into_rtranclp rtranclp.rtrancl_refl)
qed

lemma signin_done_steps: "(resp, d1, rs1) = signin_done S E m1 m2 r i user (d, rs) \<Longrightarrow> (handler_step cfg)\<^sup>*\<^sup>* d d1"
  using generateAuthTokens_steps[of cfg d S m1 m2 E user "wr_UserAgent r" "getClientIP r"]
  by (auto simp: signin_done_def split: prod.splits sum.splits)

lemma signinFinish_steps:
  assumes "signinFinish S E m1 m2 r (d, rs) = Some (resp, d1, rs1)"
  shows "(handler_step cfg)\<^sup>*\<^sup>* d d1"
proof -
  have use: "(handler_step cfg)\<^sup>*\<^sup>* d d2" if "RecordCredentialUse E arg d = (x, d2)" for arg x d2
    using store_step.Use_Credential[of cfg "(0, 0)" d E arg] that by simp
  show ?thesis
    using signinFinish_cases[OF assms]
  proof (elim disjE exE conjE)
    fix user cred x d2
    assume "RecordCredentialUse E (use_of cred) d = (x, d2)"
      and "(resp, d1, rs1) = signin_done S E m1 m2 r (getWebauthnSessionCookieValue r) user (d2, rs)"
    then show ?thesis using use signin_done_steps by (metis rtranclp_trans)
  qed (use use in auto)
qed

section \<open>A session renews its access token\<close>

lemma find_unique:
  "x \<in> set xs \<Longrightarrow> distinct (map f xs) \<Longrightarrow> find (\<lambda>y. f y = f x) xs = Some x"
  by (induction xs) (auto simp: image_iff)

lemma renewAccessToken_live:
  assumes "ingestJSONBody r b = Inr token" and "TrimSpace token \<noteq> []"
    and "tm_VerifyToken M (mo_Now m) token = Some (Inr q)" and "quiet E"
    and "s \<in> set (db_sessions d)" and "distinct (map s_ID (db_sessions d))"
    and "s_ID s = pl_ID q" and "s_UserID s = pl_UserID q" and "s_RefreshToken s = token"
    and "\<not> s_IsBlocked s" and "mo_Now m \<le> s_ExpiresAt s"
    and "tm_CreateToken M m (pl_UserID q) dur = Inr (t, p)"
  shows "renewAccessToken M dur uuid_text m E b r d = Some (\<lparr>rs_Status = 200, rs_Body = TokenBody
    \<lparr>rt_AccessToken = t, rt_AccessTokenExpiresAt = pl_ExpiredAt p\<rparr>\<rparr>, d)"
proof -
  have "RenewAccessTokenRequest_Validate token = None"
    using assms(2) by (simp add: RenewAccessTokenRequest_Validate_def barf_None strRequired_def)
  moreover have "GetSession uuid_text E (pl_ID q) d = (Inr s, d)"
    using find_unique[OF assms(5,6)] assms(4,7)
    by (simp add: GetSession_def getSession_def quiet_query one_row_def)
  ultimately show ?thesis
    using assms by (simp add: renewAccessToken_def respondWithJSON_def)
qed

lemma signinFinish_ok:
  assumes "signinFinish S E m1 m2 r (d, rs) = Some (resp, d1, rs1)" and "pk_Status resp = 200"
  shows "\<exists>d0 res. pk_Body resp = AuthSuccess res
    \<and> opened S m2 (pv_ID (ps_User res)) (ps_RefreshToken res) d0 d1"
  using signinFinish_cases[OF assms(1)]
proof (elim disjE exE conjE)
  fix user cred x d2
  assume "(resp, d1, rs1) = signin_done S E m1 m2 r (getWebauthnSessionCookieValue r) user (d2, rs)"
  from signin_done_cases[OF this] assms(2) show ?thesis by auto
qed (use assms(2) in simp_all)

text \<open>
  C12: Whoever has signed in can renew the access token: while the store does anything but delete
  the account, up to a second before the refresh token expires, \<open>renewAccessToken\<close> answers the
  refresh token of the sign-in with 200 and a new access token for its full duration. The maker
  of tokens has to keep the contract \<open>maker\<close>, as the JWT maker does.
\<close>

theorem signed_in_user_can_renew:
  assumes "maker (sv_tokenMaker S)" and "db_wf_from g cfg d"
    and "signinFinish S E m1 m2 r (d, rs) = Some (resp, d1, rs1)"
    and "pk_Status resp = 200" and "pk_Body resp = AuthSuccess res"
    and "without_deletion cfg (pv_ID (ps_User res)) d1 d2" and "quiet E3"
    and "ingestJSONBody r3 b = Inr (ps_RefreshToken res)" and "TrimSpace (ps_RefreshToken res) \<noteq> []"
    and "mo_Now m3 + 1000000000 \<le> mo_Now m2 + RefreshTokenDuration (sv_config S)"
    and "tm_CreateToken (sv_tokenMaker S) m3 (pv_ID (ps_User res)) dur = Inr (t, p)"
  shows "renewAccessToken (sv_tokenMaker S) dur (sv_uuid_text S) m3 E3 b r3 d2 = Some (\<lparr>rs_Status = 200,
    rs_Body = TokenBody \<lparr>rt_AccessToken = t, rt_AccessTokenExpiresAt = mo_Now m3 + dur\<rparr>\<rparr>, d2)"
proof -
  define i where "i = pv_ID (ps_User res)"
  obtain d0 where "opened S m2 i (ps_RefreshToken res) d0 d1"
    using signinFinish_ok[OF assms(3,4)] assms(5) by (auto simp: i_def)
  then obtain p0 s where c: "tm_CreateToken (sv_tokenMaker S) m2 (i) (RefreshTokenDuration (sv_config S))
        = Inr (ps_RefreshToken res, p0)"
      and d1: "d1 = d0\<lparr>db_sessions := db_sessions d0 @ [s]\<rparr>" and s: "s_ID s = pl_ID p0" "s_UserID s = i"
        "s_RefreshToken s = ps_RefreshToken res" "\<not> s_IsBlocked s" "s_ExpiresAt s = pl_ExpiredAt p0"
    unfolding opened_def by blast
  have "\<exists>g'. db_wf_from g' cfg d1"
    using handler_any_steps[OF signinFinish_steps[OF assms(3)]] assms(2) any_step_wf
    by (induction rule: rtranclp_induct) blast+
  then have "kept_sessions i d1 d2" and "\<exists>g'. db_wf_from g' cfg d2"
    using without_deletion_keeps[OF assms(6)] by (auto simp: i_def)
  then have kept: "s \<in> set (db_sessions d2)" "distinct (map s_ID (db_sessions d2))"
    using s d1 by (auto simp: kept_sessions_def db_wf_def accounts_wf_def)
  note contract = maker.created[OF assms(1) c] maker.created[OF assms(1) assms(11)]
  obtain q where q: "same_token p0 q" "tm_VerifyToken (sv_tokenMaker S) (mo_Now m3) (ps_RefreshToken res) = Some (Inr q)"
    using maker.valid_before[OF assms(1) c, of "mo_Now m3"] assms(10) by auto
  show ?thesis
    using renewAccessToken_live[OF assms(8,9) q(2) assms(7) kept, of dur t p "sv_uuid_text S"] s q(1) contract assms(10,11)
    by (simp add: same_token_def i_def)
qed

end
