(* ===== verification/Api_Signup_Props.thy ===== *)
theory Api_Signup_Props
  imports Api_Passkey_Props
begin

text \<open>
  Signing up: the request that starts a registration and the one that ends it are linked by the
  pending registration in redis, so the account that is created is the one asked for.
\<close>

section \<open>The start of a registration\<close>

definition pending_for :: "('r, 's, 'c, 'a) Service \<Rightarrow> int \<Rightarrow> string \<Rightarrow> SignupStartRequest \<Rightarrow> 's \<Rightarrow> 's PendingRegistration" where
  "pending_for S now handle req session = \<lparr>pr_Email = sg_Email req, pr_Username = sg_Username req,
     pr_WebauthnUserHandle = handle, pr_SessionData = Some session,
     pr_ExpiresAt = now + RegistrationSessionTTL (sv_config S)\<rparr>"

definition begin_user :: "string \<Rightarrow> SignupStartRequest \<Rightarrow> webauthn_User" where
  "begin_user handle req = temp_user \<lparr>tu_ID = handle, tu_Email = sg_Email req,
     tu_Username = sg_Username req, tu_WebauthnUserHandle = handle\<rparr>"

lemma exists_result:
  "UsernameExists E name d = (x, d1) \<Longrightarrow> d1 = d \<and> (\<forall>t. x = Inr t \<longrightarrow> t = (\<exists>u\<in>set (db_users d). u_Username u = name))"
  "EmailExists E email d = (y, d1) \<Longrightarrow> d1 = d \<and> (\<forall>t. y = Inr t \<longrightarrow> t = (\<exists>u\<in>set (db_users d). u_Email u = email))"
  by (auto simp: UsernameExists_def EmailExists_def usernameExists_def emailExists_def query_def
      split: option.splits prod.splits sum.splits)

lemma ingest_status: "ingestJSONBody r b = Inl v \<Longrightarrow> v_Status v \<noteq> 200"
  by (auto simp: ingestJSONBody_def decode_vomit_def puke_def Let_def split: if_splits sum.splits option.splits)

lemma taken_status [simp]: "v_Status (username_taken n) = 409" "v_Status (email_taken n) = 409"
  by (simp_all add: username_taken_def email_taken_def puke_def)

text \<open>A registration that starts: the name and the address are free, and it is saved under the cookie.\<close>

definition registration_started ::
  "('r, 's, 'c, 'a) Service \<Rightarrow> int \<Rightarrow> SignupStartRequest \<Rightarrow> db \<Rightarrow> 'r \<Rightarrow> string \<Rightarrow> 's PendingRegistration \<Rightarrow> 'r \<Rightarrow> bool" where
  "registration_started S now req d rs sid pending rs1 \<longleftrightarrow>
     SignupStartRequest_Validate (sv_lib S) req = None
     \<and> (\<forall>u\<in>set (db_users d). u_Username u \<noteq> sg_Username req \<and> u_Email u \<noteq> sg_Email req)
     \<and> (\<exists>handle create session. wa_BeginRegistration (sv_webauthnConfig S) (begin_user handle req) = Inr (create, session)
          \<and> pending = pending_for S now handle req session)
     \<and> SaveUserRegSession (sv_redisStore S) sid pending (RegistrationSessionTTL (sv_config S)) now rs = (None, rs1)"

lemma signupStart_ok:
  assumes "signupStart S E now handle sid b r (d, rs) = Some (resp, d1, rs1)" and "pk_Status resp = 200"
  shows "d1 = d \<and> (\<exists>req i pending. ingestJSONBody (wr_request r) b = Inr req
    \<and> registration_started S now req d rs i pending rs1
    \<and> pk_Cookie resp = Some (setWebauthnSessionCookie (sv_config S) i (seconds (RegistrationSessionTTL (sv_config S)))))"
proof -
  obtain req where req: "ingestJSONBody (wr_request r) b = Inr req"
    using assms ingest_status[of "wr_request r" b]
    by (cases "ingestJSONBody (wr_request r) b") (auto simp: signupStart_def)
  have valid: "SignupStartRequest_Validate (sv_lib S) req = None"
    using assms req barf_status
    by (cases "SignupStartRequest_Validate (sv_lib S) req") (auto simp: signupStart_def SignupStartRequest_Validate_def)
  obtain x dx where x: "UsernameExists E (sg_Username req) d = (x, dx)" by (rule prod.exhaust)
  then have name: "x = Inr False"
    using assms req valid by (cases x) (auto simp: signupStart_def dest: refuse_store_status split: bool.splits)
  obtain y dy where y: "EmailExists E (sg_Email req) d = (y, dy)" by (rule prod.exhaust)
  then have email: "y = Inr False"
    using assms req valid x name exists_result(1)[OF x]
    by (cases y) (auto simp: signupStart_def dest: refuse_store_status split: bool.splits)
  note free = exists_result(1)[OF x] exists_result(2)[OF y] x y name email
  obtain h where h: "handle = Inr h"
    using assms req valid free by (cases handle) (auto simp: signupStart_def)
  obtain create session where beg: "wa_BeginRegistration (sv_webauthnConfig S) (begin_user h req) = Inr (create, session)"
    using assms req valid free h
    by (cases "wa_BeginRegistration (sv_webauthnConfig S) (begin_user h req)") (auto simp: signupStart_def begin_user_def)
  obtain i where i: "sid = Some i"
    using assms req valid free h beg by (cases sid) (auto simp: signupStart_def begin_user_def)
  let ?p = "pending_for S now h req session"
  obtain e r1 where e: "SaveUserRegSession (sv_redisStore S) i ?p (RegistrationSessionTTL (sv_config S)) now rs = (e, r1)"
    by (rule prod.exhaust)
  have ok: "e = None"
    using assms req valid free h beg i e
    by (cases e) (auto simp: signupStart_def begin_user_def pending_for_def Let_def)
  then have out: "r1 = rs1 \<and> d1 = d \<and> pk_Cookie resp
      = Some (setWebauthnSessionCookie (sv_config S) i (seconds (RegistrationSessionTTL (sv_config S))))"
    using assms req valid free h beg i e
    by (auto simp: signupStart_def begin_user_def pending_for_def Let_def)
  have "registration_started S now req d rs i ?p rs1"
    unfolding registration_started_def
  proof (intro conjI exI)
    show "\<forall>u\<in>set (db_users d). u_Username u \<noteq> sg_Username req \<and> u_Email u \<noteq> sg_Email req"
      using free by auto
  qed (use valid beg e ok out in simp_all)
  then show ?thesis using req out by blast
qed

section \<open>The end of a registration\<close>

text \<open>\<open>registered name email cred d d1 user\<close>: one active user and its first passkey are new in \<open>d1\<close>.\<close>

definition registered :: "string \<Rightarrow> string \<Rightarrow> Credential \<Rightarrow> db \<Rightarrow> db \<Rightarrow> User \<Rightarrow> bool" where
  "registered name email cred d d1 user \<longleftrightarrow> (\<exists>k.
     d1 = d\<lparr>db_users := db_users d @ [user], db_credentials := db_credentials d @ [k],
       db_seqs := (db_seqs d)\<lparr>sq_users := sq_users (db_seqs d) + 1\<rparr>\<rparr>
     \<and> u_ID user = sq_users (db_seqs d) \<and> u_Username user = name \<and> u_Email user = email
     \<and> u_DisplayName user = name \<and> \<not> u_IsDeleted user
     \<and> k_ID k = cr_ID cred \<and> k_UserID k = u_ID user \<and> k_SignCount k = 0
     \<and> cr_ID cred \<notin> k_ID ` set (db_credentials d))"

lemma createUser_row:
  "createUser E arg d = (Inr u, d1) \<Longrightarrow> u_Username u = cu_Username arg \<and> u_Email u = cu_Email arg
    \<and> u_DisplayName u = cu_Username arg \<and> \<not> u_IsDeleted u"
  by (auto simp: createUser_def Let_def dest!: query_Inr split: option.splits)

lemma createWebauthnCredentials_row:
  "createWebauthnCredentials E arg d = (Inr k, d1) \<Longrightarrow> k_ID k = ck_ID arg \<and> k_UserID k = ck_UserID arg
    \<and> k_SignCount k = ck_SignCount arg
    \<and> ck_AuthenticatorAttachment arg \<in> {AuthenticatorAttachmentPlatform, AuthenticatorAttachmentCrossPlatform}"
  by (auto simp: createWebauthnCredentials_def Let_def dest!: query_Inr split: if_splits)

lemma create_registered:
  assumes "CreateUserWithCredentialsTx E \<lparr>cw_User = NewCreateUserParams name email img handle,
    cw_Cred = credential_params cred tr aaguid\<rparr> d = (Inr user, d1)"
  shows "registered name email cred d d1 user"
    and "cr_Attachment cred \<in> {AuthenticatorAttachmentPlatform, AuthenticatorAttachmentCrossPlatform}"
proof -
  have "create_user_body \<lparr>cw_User = NewCreateUserParams name email img handle,
      cw_Cred = credential_params cred tr aaguid\<rparr> E d = (Inr user, d1)"
    using assms execTx_committed by (auto simp: CreateUserWithCredentialsTx_def)
  then obtain d0 k karg where u: "createUser E (NewCreateUserParams name email img handle) d = (Inr user, d0)"
      and k: "createWebauthnCredentials E karg d0 = (Inr k, d1)"
      and karg: "ck_ID karg = cr_ID cred" "ck_UserID karg = u_ID user" "ck_SignCount karg = 0"
        "ck_AuthenticatorAttachment karg = cr_Attachment cred"
    by (fastforce simp: create_user_body_def credential_params_def Let_def split: prod.splits sum.splits)
  note rows = createUser_Inr(1,3)[OF u] createUser_row[OF u] createWebauthnCredentials_Inr[OF k]
    createWebauthnCredentials_row[OF k]
  show "registered name email cred d d1 user"
    unfolding registered_def using rows karg
    by (intro exI[of _ k]) (auto simp: NewCreateUserParams_def split: option.splits)
  show "cr_Attachment cred \<in> {AuthenticatorAttachmentPlatform, AuthenticatorAttachmentCrossPlatform}"
    using rows karg by simp
qed

lemma signupFinish_cases:
  assumes "signupFinish S E m1 m2 r (d, rs) = Some (resp, d1, rs1)"
  shows "(pk_Status resp \<noteq> 200 \<and> rs1 = rs
      \<and> (d1 = d \<or> (\<exists>arg err. CreateUserWithCredentialsTx E arg d = (Inl err, d1))))
    \<or> (\<exists>pending session cred user d2.
       GetUserRegSession (sv_redisStore S) (getWebauthnSessionCookieValue r) (mo_Now m1) rs = Inr pending
       \<and> mo_Now m1 \<le> pr_ExpiresAt pending \<and> pr_SessionData pending = Some session
       \<and> wa_FinishRegistration (sv_webauthnConfig S) (begin_user (pr_WebauthnUserHandle pending)
            \<lparr>sg_Email = pr_Email pending, sg_Username = pr_Username pending\<rparr>) session r = Inr cred
       \<and> cr_Attachment cred \<in> {AuthenticatorAttachmentPlatform, AuthenticatorAttachmentCrossPlatform}
       \<and> registered (pr_Username pending) (pr_Email pending) cred d d2 user
       \<and> (\<exists>arg. CreateUserWithCredentialsTx E arg d = (Inr user, d2))
       \<and> (resp, d1, rs1) = signup_done S E m1 m2 r (getWebauthnSessionCookieValue r) user (d2, rs))"
proof (rule ccontr)
  let ?sid = "getWebauthnSessionCookieValue r"
  assume no: "\<not> ?thesis"
  then have ref: "pk_Status resp \<noteq> 200 \<Longrightarrow> d1 = d \<Longrightarrow> rs1 = rs \<Longrightarrow> False" by blast
  have sid: "?sid \<noteq> []" using assms ref by (auto simp: signupFinish_def)
  obtain pending where pending: "GetUserRegSession (sv_redisStore S) ?sid (mo_Now m1) rs = Inr pending"
    using assms ref sid by (cases "GetUserRegSession (sv_redisStore S) ?sid (mo_Now m1) rs") (auto simp: signupFinish_def Let_def)
  have in_time: "\<not> pr_ExpiresAt pending < mo_Now m1"
    using assms ref sid pending by (auto simp: signupFinish_def Let_def)
  obtain session where session: "pr_SessionData pending = Some session"
    using assms sid pending in_time by (cases "pr_SessionData pending") (auto simp: signupFinish_def Let_def)
  let ?user = "begin_user (pr_WebauthnUserHandle pending) \<lparr>sg_Email = pr_Email pending, sg_Username = pr_Username pending\<rparr>"
  note known = assms sid pending in_time session
  obtain cred where cred: "wa_FinishRegistration (sv_webauthnConfig S) ?user session r = Inr cred"
    using known ref by (cases "wa_FinishRegistration (sv_webauthnConfig S) ?user session r")
      (auto simp: signupFinish_def Let_def begin_user_def)
  obtain tr where tr: "co_Marshal (sv_transports S) (extractTransportData r cred) = Inr tr"
    using known ref cred by (cases "co_Marshal (sv_transports S) (extractTransportData r cred)")
      (auto simp: signupFinish_def Let_def begin_user_def)
  obtain aaguid where aaguid: "uuid_of_slice (cr_AAGUID cred) = Some aaguid"
    using known cred tr by (cases "uuid_of_slice (cr_AAGUID cred)") (auto simp: signupFinish_def Let_def begin_user_def)
  let ?arg = "\<lparr>cw_User = NewCreateUserParams (pr_Username pending) (pr_Email pending) None (pr_WebauthnUserHandle pending),
    cw_Cred = credential_params cred tr aaguid\<rparr>"
  obtain x d2 where x: "CreateUserWithCredentialsTx E ?arg d = (x, d2)" by (rule prod.exhaust)
  have "x \<noteq> Inl err" for err
    using known ref cred tr aaguid x no by (auto simp: signupFinish_def Let_def begin_user_def)
  then obtain user where user: "x = Inr user" by (cases x) auto
  have "(resp, d1, rs1) = signup_done S E m1 m2 r ?sid user (d2, rs)"
    using known cred tr aaguid x user by (auto simp: signupFinish_def Let_def begin_user_def)
  then show False
    using no pending in_time session cred create_registered[OF x[unfolded user]] x[unfolded user]
    by (simp only: not_less) blast
qed

lemma signup_done_cases:
  assumes "(resp, d1, rs1) = signup_done S E m1 m2 r i user (d, rs)"
  shows "if pk_Status resp = 200
    then \<exists>res. pk_Body resp = AuthSuccess res \<and> opened S m2 (u_ID user) (ps_RefreshToken res) d d1
    else pk_Status resp = 500 \<and> d1 = d"
  using assms generateAuthTokens_Inl generateAuthTokens_Inr
  by (fastforce simp: signup_done_def Let_def server_error_def plain_response_def respondWithJSON_def
      split: prod.splits sum.splits)

text \<open>What is read under the cookie is what the start has saved, whatever was done to other keys.\<close>

lemma pending_read_back:
  assumes "redis_laws (st_client (sv_redisStore S)) look" and "codes (st_registrations (sv_redisStore S)) pending"
    and "0 < ttl" and "SaveUserRegSession (sv_redisStore S) i pending ttl now rs = (None, rs1)"
    and "look rs2 (PendingRegistrationPrefix @ i) = look rs1 (PendingRegistrationPrefix @ i)"
    and "GetUserRegSession (sv_redisStore S) i later rs2 = Inr p"
  shows "p = pending"
proof -
  have store: "redis_store (sv_redisStore S) look"
    by (rule redis_store.intro) (rule redis_server.intro, rule assms(1))
  note half = redis_server.half_store[OF redis_store.axioms[OF store] SaveUserRegSession_def
      GetUserRegSession_def[folded no_registration_def] DeleteUserRegSession_def]
  have contract: "session_store (SaveUserRegSession (sv_redisStore S)) (GetUserRegSession (sv_redisStore S))
      (DeleteUserRegSession (sv_redisStore S))
      (stored_under look (st_registrations (sv_redisStore S)) PendingRegistrationPrefix)
      (codes (st_registrations (sv_redisStore S))) no_registration"
    by (rule half) (simp_all add: no_registration_def)
  have "stored_under look (st_registrations (sv_redisStore S)) PendingRegistrationPrefix rs1 i = Some (pending, now + ttl)"
    using session_store.save_stored[OF contract assms(4,2,3)] by simp
  then have "stored_under look (st_registrations (sv_redisStore S)) PendingRegistrationPrefix rs2 i = Some (pending, now + ttl)"
    using assms(5) by (simp add: stored_under_def)
  then show ?thesis using session_store.get_stored[OF contract assms(6)] by auto
qed

text \<open>
  C10: The account that a registration creates is the one whose registration was started under
  the cookie: the name and the address of the first request, which were validated, and the
  passkey that the library accepted in the second, both requests within the time of the session
  and in any interleaving with other requests. An answer of 200 means exactly one new active user,
  one passkey with counter 0 and one session of that user; with any other answer no table has
  changed, except that the account may exist when the tokens could not be made.
\<close>

theorem signup_creates_requested_user:
  assumes "redis_laws (st_client (sv_redisStore S)) look"
    and "\<forall>h session. codes (st_registrations (sv_redisStore S)) (pending_for S now h req session)"
    and "0 < RegistrationSessionTTL (sv_config S)"
    and "ingestJSONBody (wr_request r) b = Inr req"
    and "signupStart S E now handle sid b r (d, rs) = Some (resp, d1, rs1)"
    and "pk_Status resp = 200" and "pk_Cookie resp = Some c" and "wr_Cookie r2 = Some (hc_Value c)"
    and "look rs2 (PendingRegistrationPrefix @ hc_Value c) = look rs1 (PendingRegistrationPrefix @ hc_Value c)"
    and "signupFinish S E2 m1 m2 r2 (d2, rs2) = Some (resp2, d3, rs3)"
  shows "d1 = d \<and> SignupStartRequest_Validate (sv_lib S) req = None
    \<and> (if pk_Status resp2 = 200
       then mo_Now m1 \<le> now + RegistrationSessionTTL (sv_config S)
         \<and> (\<exists>user cred dc res. registered (sg_Username req) (sg_Email req) cred d2 dc user
              \<and> pk_Body resp2 = AuthSuccess res \<and> opened S m2 (u_ID user) (ps_RefreshToken res) dc d3)
       else (commit_known E2 \<longrightarrow> same_tables d2 d3)
         \<or> (pk_Status resp2 = 500 \<and> (\<exists>user cred. registered (sg_Username req) (sg_Email req) cred d2 d3 user)))"
proof -
  obtain i pending where start: "registration_started S now req d rs i pending rs1"
      and c: "c = setWebauthnSessionCookie (sv_config S) i (seconds (RegistrationSessionTTL (sv_config S)))"
      and d1: "d1 = d"
    using signupStart_ok[OF assms(5,6)] assms(4,7) by auto
  obtain h session where p: "pending = pending_for S now h req session"
    using start unfolding registration_started_def by blast
  have valid: "SignupStartRequest_Validate (sv_lib S) req = None"
    and saved: "SaveUserRegSession (sv_redisStore S) i pending (RegistrationSessionTTL (sv_config S)) now rs = (None, rs1)"
    using start by (simp_all add: registration_started_def)
  have i: "hc_Value c = i" using c by (simp add: setWebauthnSessionCookie_def)
  have cookie: "getWebauthnSessionCookieValue r2 = i" using assms(8) i by (simp add: getWebauthnSessionCookieValue_def)
  have codes: "codes (st_registrations (sv_redisStore S)) pending" using assms(2) p by simp
  note read_back = pending_read_back[OF assms(1) codes assms(3) saved assms(9)[unfolded i]]
  show ?thesis
    using signupFinish_cases[OF assms(10)]
  proof (elim disjE exE conjE)
    fix q se cred user dc
    assume "GetUserRegSession (sv_redisStore S) (getWebauthnSessionCookieValue r2) (mo_Now m1) rs2 = Inr q"
      and late: "mo_Now m1 \<le> pr_ExpiresAt q"
      and reg: "registered (pr_Username q) (pr_Email q) cred d2 dc user"
      and fin: "(resp2, d3, rs3) = signup_done S E2 m1 m2 r2 (getWebauthnSessionCookieValue r2) user (dc, rs2)"
    then have "q = pending" using read_back cookie by simp
    then show ?thesis
      using late reg signup_done_cases[OF fin] valid d1 p by (auto simp: pending_for_def split: if_splits)
  next
    fix arg err
    assume "CreateUserWithCredentialsTx E2 arg d2 = (Inl err, d3)" and "pk_Status resp2 \<noteq> 200"
    then show ?thesis
      using valid d1 execTx_atomic[of E2 "create_user_body arg" d2 err d3] by (simp add: CreateUserWithCredentialsTx_def)
  qed (use valid d1 in simp_all)
qed

end
