(* ===== verification/Api_Passkey_Demo.thy ===== *)
theory Api_Passkey_Demo
  imports Api_Signup_Props
begin

text \<open>
  A service for the witnesses of the passkey ceremonies, with a maker of tokens that keeps a
  table, and three observations on the code.
\<close>

section \<open>A maker of tokens\<close>

definition table_maker :: "(string \<times> Payload) list \<Rightarrow> token_maker" where
  "table_maker T = \<lparr>
     tm_CreateToken = (\<lambda>m u dur. case find (\<lambda>(t, p). mo_NewRandom m = Inr (pl_ID p) \<and> pl_UserID p = u
         \<and> pl_IssuedAt p = mo_Now m \<and> pl_ExpiredAt p = mo_Now m + dur) T of
       Some x \<Rightarrow> Inr x | None \<Rightarrow> Inl ErrInvalidToken),
     tm_VerifyToken = (\<lambda>now t. case find (\<lambda>x. fst x = t) T of
       Some (_, p) \<Rightarrow> Some (if now < pl_ExpiredAt p then Inr p else Inl ErrTokenExpired)
     | None \<Rightarrow> Some (Inl ErrInvalidToken))\<rparr>"

lemma table_maker_contract:
  assumes "distinct (map fst T)"
  shows "maker (table_maker T)"
proof
  fix m u dur t p now
  assume "tm_CreateToken (table_maker T) m u dur = Inr (t, p)"
  then have "(t, p) \<in> set T \<and> mo_NewRandom m = Inr (pl_ID p) \<and> pl_UserID p = u
      \<and> pl_IssuedAt p = mo_Now m \<and> pl_ExpiredAt p = mo_Now m + dur"
    by (auto simp: table_maker_def dest!: find_in split: option.splits)
  then show "mo_NewRandom m = Inr (pl_ID p) \<and> pl_UserID p = u \<and> pl_IssuedAt p = mo_Now m \<and> pl_ExpiredAt p = mo_Now m + dur"
    and "\<exists>q. same_token p q \<and> tm_VerifyToken (table_maker T) now t
      = Some (if now < pl_ExpiredAt q then Inr q else Inl ErrTokenExpired)"
    using find_unique[of "(t, p)" T fst] assms
    by (auto simp: table_maker_def same_token_def intro!: exI[of _ p])
qed

definition demo_token :: "string \<Rightarrow> int \<Rightarrow> int \<Rightarrow> int \<Rightarrow> string \<times> Payload" where
  "demo_token i u now dur = (''token'' @ i @ Itoa u, \<lparr>pl_ID = i, pl_UserID = u, pl_IssuedAt = now, pl_ExpiredAt = now + dur\<rparr>)"

definition demo_tokens :: token_maker where
  "demo_tokens = table_maker [demo_token ''a'' 2 6 3000000000, demo_token ''r'' 2 6 9000000000,
     demo_token ''a'' 3 6 3000000000, demo_token ''r'' 3 6 9000000000, demo_token ''n'' 2 8 3000000000]"

interpretation demo_tokens: maker demo_tokens
  unfolding demo_tokens_def by (rule table_maker_contract) code_simp

section \<open>A service\<close>

definition demo_config :: Config where
  "demo_config = no_config\<lparr>Environment := ''production'', RegistrationSessionTTL := 300,
     AuthenticationSessionTTL := 300, AccessTokenDuration := 3000000000, RefreshTokenDuration := 9000000000,
     CommentLimits := demo_cfg\<rparr>"

definition demo_passkey :: "string \<Rightarrow> Credential" where
  "demo_passkey i = \<lparr>cr_ID = i, cr_PublicKey = ''key'', cr_AttestationType = [], cr_Transport = [''usb''],
     cr_UserPresent = True, cr_UserVerified = True, cr_BackupEligible = False, cr_BackupState = False,
     cr_AAGUID = replicate 16 (CHR ''0''), cr_SignCount = 5, cr_CloneWarning = False,
     cr_Attachment = ''platform'', cr_AuthenticatorData = [], cr_PublicKeyAlgorithm = -7\<rparr>"

definition demo_signup :: SignupStartRequest where
  "demo_signup = \<lparr>sg_Email = ''eve@x'', sg_Username = ''eve''\<rparr>"

definition demo_sessions :: "(string \<rightharpoonup> string \<times> int, unit) RedisStore" where
  "demo_sessions = \<lparr>st_client = demo_redis,
     st_registrations = \<lparr>co_Marshal = (\<lambda>a. Inr (pr_WebauthnUserHandle a)),
       co_Unmarshal = (\<lambda>s. Inr \<lparr>pr_Email = ''eve@x'', pr_Username = ''eve'', pr_WebauthnUserHandle = s,
         pr_SessionData = Some (), pr_ExpiresAt = 305\<rparr>)\<rparr>,
     st_authentications = \<lparr>co_Marshal = (\<lambda>a. Inr ''auth''),
       co_Unmarshal = (\<lambda>s. Inr \<lparr>pa_UserID = 2, pa_Username = ''bob'', pa_SessionData = Some (), pa_ExpiresAt = 305\<rparr>)\<rparr>\<rparr>"

definition demo_service :: "(string \<rightharpoonup> string \<times> int, unit, unit, unit) Service" where
  "demo_service = \<lparr>sv_config = demo_config, sv_tokenMaker = demo_tokens,
     sv_webauthnConfig = \<lparr>wa_BeginRegistration = (\<lambda>u. Inr ((), ())),
       wa_FinishRegistration = (\<lambda>u s r. Inr (demo_passkey ''eve'')),
       wa_BeginLogin = (\<lambda>u. Inr ((), ())), wa_FinishLogin = (\<lambda>u s r. Inr (demo_passkey ''bob''))\<rparr>,
     sv_redisStore = demo_sessions, sv_lib = demo_lib,
     sv_transports = \<lparr>co_Marshal = (\<lambda>ts. Inr ''[]''), co_Unmarshal = (\<lambda>s. Inr [])\<rparr>, sv_uuid_text = id\<rparr>"

definition demo_web :: web_request where
  "demo_web = \<lparr>wr_request = page_request, wr_Method = ''POST'', wr_Origin = [], wr_Cookie = Some ''sid'',
     wr_Transports = [], wr_UserAgent = ''agent'', wr_ForwardedFor = ''10.0.0.1, 10.0.0.2'', wr_RemoteAddr = [],
     wr_Body = []\<rparr>"

definition m_access :: moment where "m_access = \<lparr>mo_Now = 6, mo_NewRandom = Inr ''a''\<rparr>"
definition m_refresh :: moment where "m_refresh = \<lparr>mo_Now = 6, mo_NewRandom = Inr ''r''\<rparr>"
definition m_renew :: moment where "m_renew = \<lparr>mo_Now = 8, mo_NewRandom = Inr ''n''\<rparr>"

definition demo_pending_login :: "string \<rightharpoonup> string \<times> int" where
  "demo_pending_login = [PendingAuthenticationPrefix @ ''sid'' \<mapsto> (''auth'', 305)]"

definition demo_login :: "env \<Rightarrow> ((unit, unit) passkey_response \<times> db \<times> (string \<rightharpoonup> string \<times> int)) option" where
  "demo_login E = signinFinish demo_service E m_access m_refresh demo_web (demo_db, demo_pending_login)"

text \<open>A database whose connection is lost for the statement that counts the use of a passkey.\<close>

definition no_counter :: env where
  "no_counter = calm\<lparr>env_query := (\<lambda>name. if name = ''recordCredentialUse'' then Some (Errorf ''conn closed'' None) else None)\<rparr>"

definition login_shown :: "env \<Rightarrow> (int \<times> (string \<times> int) option) option" where
  "login_shown E = map_option (\<lambda>(x, d, rs). (pk_Status x, case pk_Body x of AuthSuccess res \<Rightarrow>
    Some (ps_RefreshToken res, pv_ID (ps_User res)) | _ \<Rightarrow> None)) (demo_login E)"

lemma demo_login_ok:
  "login_shown calm = Some (200, Some (''tokenr2'', 2))" "login_shown no_counter = Some (200, Some (''tokenr2'', 2))"
  by code_simp+

lemma demo_login_answer:
  assumes "login_shown E = Some (200, Some (''tokenr2'', 2))"
  obtains resp d1 rs1 res where "signinFinish demo_service E m_access m_refresh demo_web (demo_db, demo_pending_login)
      = Some (resp, d1, rs1)" and "pk_Status resp = 200" and "pk_Body resp = AuthSuccess res"
    and "ps_RefreshToken res = ''tokenr2''" and "pv_ID (ps_User res) = 2"
proof (cases "demo_login E")
  case None
  then show ?thesis using assms by (simp add: login_shown_def)
next
  case (Some x)
  obtain resp d1 rs1 where x: "x = (resp, d1, rs1)" by (rule prod_cases3)
  show ?thesis
    using that[OF Some[unfolded demo_login_def x]] assms Some x
    by (cases "pk_Body resp") (auto simp: login_shown_def)
qed

lemmas demo_login_calm = demo_login_answer[OF demo_login_ok(1)]

section \<open>Witnesses\<close>


lemma demo_ingest: "ingestJSONBody page_request (Inr (x, None, True)) = Inr x"
  by (simp add: ingestJSONBody_def page_request_def)

lemma demo_renewal: "tm_CreateToken demo_tokens m_renew 2 3000000000 = Inr (demo_token ''n'' 2 8 3000000000)"
    "TrimSpace ''tokenr2'' \<noteq> []"
  by code_simp+

lemma signed_in_user_can_renew_witness:
  "\<exists>resp d1 rs1. signinFinish demo_service calm m_access m_refresh demo_web (demo_db, demo_pending_login)
      = Some (resp, d1, rs1)
    \<and> map_option (\<lambda>(x, d). rs_Status x) (renewAccessToken demo_tokens 3000000000 id m_renew calm
         (Inr (''tokenr2'', None, True)) page_request d1) = Some 200"
proof -
  obtain resp d1 rs1 res where login: "signinFinish demo_service calm m_access m_refresh demo_web (demo_db, demo_pending_login)
      = Some (resp, d1, rs1)" "pk_Status resp = 200" "pk_Body resp = AuthSuccess res"
      and res: "ps_RefreshToken res = ''tokenr2''" "pv_ID (ps_User res) = 2"
    by (rule demo_login_calm)
  have parts: "sv_tokenMaker demo_service = demo_tokens" "sv_uuid_text demo_service = id"
      "RefreshTokenDuration (sv_config demo_service) = 9000000000"
    by (simp_all add: demo_service_def demo_config_def)
  have "maker (sv_tokenMaker demo_service)" using demo_tokens.maker_axioms parts by simp
  moreover have "without_deletion demo_cfg (pv_ID (ps_User res)) d1 d1" by (simp add: without_deletion_def)
  ultimately have "renewAccessToken (sv_tokenMaker demo_service) 3000000000 (sv_uuid_text demo_service) m_renew calm
      (Inr (''tokenr2'', None, True)) page_request d1 = Some (\<lparr>rs_Status = 200, rs_Body = TokenBody
        \<lparr>rt_AccessToken = fst (demo_token ''n'' 2 8 3000000000), rt_AccessTokenExpiresAt = mo_Now m_renew + 3000000000\<rparr>\<rparr>, d1)"
  proof (rule signed_in_user_can_renew[OF _ demo_db_wf login _ calm_quiet])
    show "ingestJSONBody page_request (Inr (''tokenr2'', None, True)) = Inr (ps_RefreshToken res)"
      by (simp only: res demo_ingest)
    show "TrimSpace (ps_RefreshToken res) \<noteq> []" by (simp only: res demo_renewal simp_thms)
    show "mo_Now m_renew + 1000000000 \<le> mo_Now m_refresh + RefreshTokenDuration (sv_config demo_service)"
      by (simp add: parts m_renew_def m_refresh_def)
    show "tm_CreateToken (sv_tokenMaker demo_service) m_renew (pv_ID (ps_User res)) 3000000000
        = Inr (fst (demo_token ''n'' 2 8 3000000000), snd (demo_token ''n'' 2 8 3000000000))"
      by (simp only: res parts demo_renewal prod.collapse)
  qed
  with login(1) show ?thesis by (simp add: parts)
qed

definition demo_start :: "((unit, unit) passkey_response \<times> db \<times> (string \<rightharpoonup> string \<times> int)) option" where
  "demo_start = signupStart demo_service calm 5 (Inr ''handle'') (Some ''sid'') (Inr (demo_signup, None, True))
     demo_web (demo_db, Map.empty)"

definition demo_finish :: "(string \<rightharpoonup> string \<times> int) \<Rightarrow> ((unit, unit) passkey_response \<times> db \<times> (string \<rightharpoonup> string \<times> int)) option" where
  "demo_finish rs = signupFinish demo_service calm m_access m_refresh demo_web (demo_db, rs)"

lemma demo_registration_ok:
  "map_option (\<lambda>(x, d, rs). (pk_Status x, map_option hc_Value (pk_Cookie x), map_option (pk_Status \<circ> fst) (demo_finish rs)))
     demo_start = Some (200, Some ''sid'', Some 200)"
  by code_simp

lemma signup_creates_requested_user_witness:
  "\<exists>resp rs1 resp2 d3 rs3 user cred dc. demo_start = Some (resp, demo_db, rs1) \<and> demo_finish rs1 = Some (resp2, d3, rs3)
     \<and> registered ''eve'' ''eve@x'' cred demo_db dc user \<and> (\<exists>token. opened demo_service m_refresh (u_ID user) token dc d3)"
proof -
  obtain x where "demo_start = Some x" using demo_registration_ok by (cases demo_start) auto
  moreover obtain resp d1 rs1 where "x = (resp, d1, rs1)" by (rule prod_cases3)
  ultimately have start: "demo_start = Some (resp, d1, rs1)" by simp
  have "(pk_Status resp, map_option hc_Value (pk_Cookie resp), map_option (pk_Status \<circ> fst) (demo_finish rs1))
      = (200, Some ''sid'', Some 200)"
    using demo_registration_ok unfolding start by simp
  then obtain c y where c: "pk_Status resp = 200" "pk_Cookie resp = Some c" "hc_Value c = ''sid''" and y: "demo_finish rs1 = Some y"
      "pk_Status (fst y) = 200" by auto
  obtain resp2 d3 rs3 where "y = (resp2, d3, rs3)" by (rule prod_cases3)
  with y have fin: "demo_finish rs1 = Some (resp2, d3, rs3)" "pk_Status resp2 = 200" by simp_all
  have laws: "redis_laws (st_client (sv_redisStore demo_service)) id"
    using demo_server.laws by (simp add: demo_service_def demo_sessions_def)
  have codes: "\<forall>h session. codes (st_registrations (sv_redisStore demo_service)) (pending_for demo_service 5 h demo_signup session)"
    by (simp add: codes_def pending_for_def demo_service_def demo_sessions_def demo_signup_def demo_config_def)
  have "0 < RegistrationSessionTTL (sv_config demo_service)" by (simp add: demo_service_def demo_config_def)
  moreover have "ingestJSONBody (wr_request demo_web) (Inr (demo_signup, None, True)) = Inr demo_signup"
    by (simp add: demo_web_def demo_ingest)
  moreover have "wr_Cookie demo_web = Some (hc_Value c)" by (simp add: demo_web_def c)
  ultimately show ?thesis
    using signup_creates_requested_user[OF laws codes _ _ start[unfolded demo_start_def] c(1,2) _ refl fin(1)[unfolded demo_finish_def]]
      start fin by (simp add: demo_signup_def) blast
qed

section \<open>Observations\<close>

text \<open>
  A client that does not report how its authenticator is attached, which the field of the
  response leaves open, cannot register: the column is an enum, so the ceremony ends without
  an account although the library accepted the passkey.
\<close>

lemma signup_needs_attachment:
  assumes "signupFinish S E m1 m2 r (d, rs) = Some (resp, d1, rs1)"
    and "\<forall>u s. case wa_FinishRegistration (sv_webauthnConfig S) u s r of Inr cred \<Rightarrow> cr_Attachment cred = [] | Inl _ \<Rightarrow> True"
  shows "pk_Status resp \<noteq> 200"
  using signupFinish_cases[OF assms(1)]
proof (elim disjE exE conjE)
  fix pending session cred
  let ?u = "begin_user (pr_WebauthnUserHandle pending) \<lparr>sg_Email = pr_Email pending, sg_Username = pr_Username pending\<rparr>"
  assume "wa_FinishRegistration (sv_webauthnConfig S) ?u session r = Inr cred"
    and att: "cr_Attachment cred \<in> {AuthenticatorAttachmentPlatform, AuthenticatorAttachmentCrossPlatform}"
  then have "cr_Attachment cred = []" using assms(2)[THEN spec, THEN spec, of ?u session] by simp
  then show ?thesis using att by (simp add: AuthenticatorAttachmentPlatform_def AuthenticatorAttachmentCrossPlatform_def)
qed

text \<open>
  The validators of a name trim it, but \<open>signupStart\<close> stores and looks up the text as it came:
  a name with a blank at the end passes beside the same name without it.
\<close>

lemma signup_keeps_blanks:
  "SignupStartRequest_Validate demo_lib (demo_signup\<lparr>sg_Username := ''bob ''\<rparr>) = None"
  "fst (UsernameExists calm ''bob'' demo_db) = Inr True" "fst (UsernameExists calm ''bob '' demo_db) = Inr False"
  by code_simp+

text \<open>
  When the statement that records the use of the passkey fails, for instance for a lost
  connection, the error is of kind \<open>Internal\<close> and the sign-in goes on: tokens are issued although
  the counter was neither checked nor stored.
\<close>

lemma signin_survives_failed_count:
  "map_option (\<lambda>(x, d, rs). (pk_Status x, db_credentials d = db_credentials demo_db)) (demo_login no_counter) = Some (200, True)"
  by code_simp

end
