(* ===== verification/Api_Routes_Props.thy ===== *)
theory Api_Routes_Props
  imports Api_Routes Api_Passkey_Demo
begin

text \<open>
  What holds of every request the service answers: the store stays consistent, only the routes
  that sign up, sign in or carry a valid token change it, and a token acts only for its user.
\<close>

section \<open>Each handler is a sequence of operations of the store\<close>

abbreviation steps :: "store_config \<Rightarrow> db \<Rightarrow> db \<Rightarrow> bool" where
  "steps cfg \<equiv> (handler_step cfg)\<^sup>*\<^sup>*"

lemma step_of: "handler_step cfg d (snd (f d)) \<Longrightarrow> f d = (x, d1) \<Longrightarrow> steps cfg d d1"
  by auto

lemma abort_store_db: "abort_store err d = Some (resp, d1) \<Longrightarrow> d1 = d"
  by (auto simp: abort_store_def)

lemma createComment_handler_db:
  "createComment_handler L cfg E b r auth d = Some (resp, d1) \<Longrightarrow>
    d1 = d \<or> (\<exists>p text pid. d1 = snd (InsertCommentTx cfg E (comment_params (pl_UserID auth) p text pid) d))"
  by (auto simp: createComment_handler_def Let_def dest!: abort_store_db
      split: sum.splits option.splits prod.splits if_splits) (metis snd_conv)+

lemma updateComment_handler_db:
  "updateComment_handler L E b r auth d = Some (resp, d1) \<Longrightarrow>
    d1 = d \<or> (\<exists>arg. up_UserID arg = pl_UserID auth \<and> d1 = snd (UpdateComment E arg d))"
  by (auto simp: updateComment_handler_def dest!: abort_store_db split: sum.splits option.splits prod.splits)
    (metis snd_conv UpdateCommentParams.select_convs(1))+

lemma deleteComment_handler_db:
  "deleteComment_handler L E r auth d = Some (resp, d1) \<Longrightarrow>
    d1 = d \<or> (\<exists>arg. dc_UserID arg = pl_UserID auth \<and> d1 = snd (DeleteCommentTx E arg d))"
  by (auto simp: deleteComment_handler_def dest!: abort_store_db split: sum.splits option.splits prod.splits)
    (metis snd_conv DeleteCommentTxParams.select_convs(2))+

lemma updateUser_handler_db:
  "updateUser_handler L E b r auth d = Some (resp, d1) \<Longrightarrow>
    d1 = d \<or> (\<exists>arg. pu_ID arg = pl_UserID auth \<and> d1 = snd (UpdateUser E arg d))"
  by (auto simp: updateUser_handler_def dest!: abort_store_db split: sum.splits option.splits prod.splits)
    (metis snd_conv UpdateUserParams.select_convs(1))+

lemma deleteUser_handler_db:
  "deleteUser_handler E auth d = Some (resp, d1) \<Longrightarrow> d1 = snd (SoftDeleteUserTx E (pl_UserID auth) d)"
  by (auto simp: deleteUser_handler_def dest!: abort_store_db split: sum.splits prod.splits)

lemma QueryComments_db: "QueryComments E q d = (x, d1) \<Longrightarrow> d1 = d"
  by (auto simp: QueryComments_def getCommentsByPopularity_def getNewestComments_def getOldestComments_def
      get_comments_def query_def Let_def split: option.splits prod.splits sum.splits if_splits)

lemma readers_db:
  "getComments L E r d = Some (resp, d1) \<Longrightarrow> d1 = d"
  "getUser_handler L E r d = Some (resp, d1) \<Longrightarrow> d1 = d"
  "renewAccessToken M dur uuid_text m E b r d = Some (resp, d1) \<Longrightarrow> d1 = d"
  by (auto simp: getComments_def getUser_handler_def renewAccessToken_def GetSession_def getSession_def query_def
      Let_def dest!: abort_store_db QueryComments_db dest: GetUser_result
      split: sum.splits option.splits prod.splits if_splits)

lemma GetUserByUsername_db: "GetUserByUsername E name d = (x, d1) \<Longrightarrow> d1 = d"
  by (auto simp: GetUserByUsername_def getUserByUsername_def query_def Let_def
      split: option.splits prod.splits sum.splits if_splits)

lemma starts_db:
  "signupStart S E now handle sid ub r (d, rs) = Some (resp, d1, rs1) \<Longrightarrow> d1 = d"
  "signinStart S E now sid b r (d, rs) = Some (resp, d1, rs1) \<Longrightarrow> d1 = d"
  by (auto simp: signupStart_def signinStart_def Let_def dest!: exists_result GetUserByUsername_db
      dest: refuse_store_status GetUserCredentials_result split: sum.splits option.splits prod.splits bool.splits)

lemma signupFinish_steps:
  assumes "signupFinish S E m1 m2 r (d, rs) = Some (resp, d1, rs1)"
  shows "steps cfg d d1"
proof -
  have create: "steps cfg d d2" if "CreateUserWithCredentialsTx E arg d = (x, d2)" for arg x d2
    using store_step.Create_User[of cfg "(0, 0)" d E arg] that by auto
  show ?thesis
    using signupFinish_cases[OF assms]
  proof (elim disjE exE conjE)
    fix user d2 arg
    assume "CreateUserWithCredentialsTx E arg d = (Inr user, d2)"
      and fin: "(resp, d1, rs1) = signup_done S E m1 m2 r (getWebauthnSessionCookieValue r) user (d2, rs)"
    moreover have "d1 = snd (generateAuthTokens S m1 m2 E user (wr_UserAgent r) (getClientIP r) d2)"
      using fin by (auto simp: signup_done_def Let_def split: prod.splits sum.splits)
    ultimately show ?thesis using create generateAuthTokens_steps by (metis rtranclp_trans)
  qed (use create in auto)
qed

section \<open>A token acts for its user\<close>

text \<open>
  Of what others own, \<open>only_own i d d1\<close> adds, removes and changes nothing, with one exception: a
  vote on a comment of \<open>i\<close> goes with the comment, whoever cast it. No vote is added or changed.
\<close>

definition of_others :: "('a \<Rightarrow> int) \<Rightarrow> int \<Rightarrow> 'a list \<Rightarrow> 'a set" where
  "of_others owner i xs = {x \<in> set xs. owner x \<noteq> i}"

definition votes_follow :: "int \<Rightarrow> db \<Rightarrow> db \<Rightarrow> bool" where
  "votes_follow i d d1 \<longleftrightarrow> set (db_votes d1) \<subseteq> set (db_votes d)
     \<and> (\<forall>v\<in>set (db_votes d) - set (db_votes d1). \<exists>c. comment_of d (cv_CommentID v) = Some c
          \<and> c_UserID c = i \<and> comment_of d1 (cv_CommentID v) = None)"

definition only_own :: "int \<Rightarrow> db \<Rightarrow> db \<Rightarrow> bool" where
  "only_own i d d1 \<longleftrightarrow> of_others c_UserID i (db_comments d1) = of_others c_UserID i (db_comments d)
     \<and> of_others u_ID i (db_users d1) = of_others u_ID i (db_users d)
     \<and> of_others s_UserID i (db_sessions d1) = of_others s_UserID i (db_sessions d)
     \<and> of_others k_UserID i (db_credentials d1) = of_others k_UserID i (db_credentials d)
     \<and> db_posts d1 = db_posts d \<and> votes_follow i d d1"

lemma votes_follow_same: "db_votes d1 = db_votes d \<Longrightarrow> votes_follow i d d1"
  by (simp add: votes_follow_def)

lemma only_own_refl [simp]: "only_own i d d"
  by (simp add: only_own_def votes_follow_def)

lemma only_own_trans:
  "only_own i d d1 \<Longrightarrow> only_own i d1 d2 \<Longrightarrow> db_votes d1 = db_votes d \<Longrightarrow> db_votes d2 = db_votes d \<Longrightarrow> only_own i d d2"
  by (simp add: only_own_def votes_follow_same)

lemma only_own_tx: "only_own i d (snd (body E d)) \<Longrightarrow> only_own i d (snd (execTx E body d))"
  using execTx_cases[of E body d] by (auto simp: only_own_def votes_follow_def rolled_back_def comment_of_def)

lemma of_others_filter: "of_others owner i [x \<leftarrow> xs. owner x \<noteq> i] = of_others owner i xs"
  by (auto simp: of_others_def)

lemma of_others_map:
  assumes "\<And>x. x \<in> set xs \<Longrightarrow> owner x \<noteq> i \<Longrightarrow> f x = x" and "\<And>x. x \<in> set xs \<Longrightarrow> owner x = i \<Longrightarrow> owner (f x) = i"
  shows "of_others owner i (map f xs) = of_others owner i xs"
  using assms unfolding of_others_def by force

lemma only_own_account_statements:
  "only_own i d (snd (deleteUserSessions E i d))"
  "only_own i d (snd (deleteUserCredentials E i d))"
  "only_own i d (snd (softDeleteUser E i d))"
  "only_own i d (snd (updateUser E i na em im d))"
  by (auto simp: only_own_def votes_follow_same query_def deleteUserSessions_def deleteUserCredentials_def softDeleteUser_def
      updateUser_def set_user_def deleted_user_def Let_def of_others_filter dest!: user_of_Some
      intro!: of_others_map split: option.split if_splits)

lemma only_own_set_comment:
  assumes "distinct (map c_ID (db_comments d))" and "comment_of d j = Some c" and "c_UserID c = i"
    and "c_ID c' = c_ID c" and "c_UserID c' = i"
  shows "only_own i d (set_comment d c')"
proof -
  have c: "c \<in> set (db_comments d)" using comment_of_Some[OF assms(2)] by simp
  have "of_others c_UserID i (map (\<lambda>x. if c_ID x = c_ID c' then c' else x) (db_comments d))
      = of_others c_UserID i (db_comments d)"
  proof (rule of_others_map)
    fix x
    assume "x \<in> set (db_comments d)" and "c_UserID x \<noteq> i"
    then show "(if c_ID x = c_ID c' then c' else x) = x"
      using same_id[OF assms(1) _ c, of x] assms(3,4) by auto
  qed (use assms(5) in auto)
  then show ?thesis by (simp add: only_own_def set_comment_def votes_follow_same)
qed

lemma only_own_remove_comment:
  assumes "distinct (map c_ID (db_comments d))" and "comment_of d j = Some c" and "c_UserID c = i"
  shows "only_own i d (remove_comment d j)"
proof -
  have "comment_of (remove_comment d j) j = None"
    by (auto simp: comment_of_None remove_comment_def)
  then have "votes_follow i d (remove_comment d j)"
    using assms(2,3) by (auto simp: votes_follow_def remove_comment_def)
  then show ?thesis
    using comment_of_Some[OF assms(2)] same_id[OF assms(1)] assms(3)
    by (auto simp: only_own_def remove_comment_def of_others_def)
qed

lemma only_own_comment_statements:
  assumes "distinct (map c_ID (db_comments d))"
  shows "only_own (cc_UserID arg) d (snd (createComment E arg d))"
    and "only_own i d (snd (deleteCommentIfLeaf E c i p d))"
    and "only_own i d (snd (updateComment E c i p text d))"
    and "comment_of d c = Some x \<Longrightarrow> c_UserID x = i \<Longrightarrow> only_own i d (snd (softDeleteComment E c d))"
proof -
  show "only_own (cc_UserID arg) d (snd (createComment E arg d))"
    by (auto simp: createComment_def query_def only_own_def votes_follow_same of_others_def with_popularity_def Let_def split: option.split)
  show "only_own i d (snd (deleteCommentIfLeaf E c i p d))"
    using only_own_remove_comment[OF assms]
    by (auto simp: deleteCommentIfLeaf_def query_def Let_def split: option.split)
  show "only_own i d (snd (updateComment E c i p text d))"
    using only_own_set_comment[OF assms]
    by (auto simp: updateComment_def query_def Let_def split: option.split)
  show "comment_of d c = Some x \<Longrightarrow> c_UserID x = i \<Longrightarrow> only_own i d (snd (softDeleteComment E c d))"
    using only_own_set_comment[OF assms]
    by (auto simp: softDeleteComment_def query_def Let_def split: option.split)
qed

lemma insert_depth_db: "insert_depth cfg arg E d = (x, d1) \<Longrightarrow> d1 = d"
  by (auto simp: insert_depth_def getCommentWithLock_def getRootCommentCountForUser_def query_def Let_def
      split: option.splits prod.splits sum.splits if_splits)

lemma only_own_insert:
  assumes "distinct (map c_ID (db_comments d))"
  shows "only_own (ic_UserID arg) d (snd (insert_body cfg arg E d))"
proof -
  obtain x d1 where x: "insert_depth cfg arg E d = (x, d1)" by (rule prod.exhaust)
  have d1: "d1 = d" by (rule insert_depth_db[OF x])
  show ?thesis
  proof (cases x)
    case (Inl err)
    then show ?thesis using x d1 by (simp add: insert_body_def)
  next
    case (Inr depth)
    then have "snd (insert_body cfg arg E d) = snd (createComment E \<lparr>cc_UserID = ic_UserID arg, cc_PostID = ic_PostID arg,
        cc_Body = ic_Body arg, cc_ParentID = ic_ParentID arg, cc_Depth = depth,
        cc_Upvotes = ic_Upvotes arg, cc_Downvotes = ic_Downvotes arg\<rparr> d)"
      using x d1 by (simp add: insert_body_def split: prod.split sum.split)
    then show ?thesis
      using only_own_comment_statements(1)[OF assms] by (metis createCommentParams.select_convs(1))
  qed
qed

lemma only_own_delete:
  assumes ids: "distinct (map c_ID (db_comments d))"
  shows "only_own (dc_UserID arg) d (snd (delete_body arg E d))"
proof -
  obtain x d1 where x: "deleteCommentIfLeaf E (dc_CommentID arg) (dc_UserID arg) (dc_PostID arg) d = (x, d1)"
    by (rule prod.exhaust)
  have own: "only_own (dc_UserID arg) d d1"
    using only_own_comment_statements(2)[OF ids, of "dc_UserID arg" E "dc_CommentID arg" "dc_PostID arg"] x by simp
  show ?thesis
  proof (cases x)
    case (Inl err)
    then show ?thesis using x own by (simp add: delete_body_def)
  next
    case (Inr row)
    show ?thesis
    proof (cases "dl_UserID row = dc_UserID arg \<and> \<not> dl_DeletedOk row")
      case True
      then obtain c where c: "comment_of d (dc_CommentID arg) = Some c" "c_UserID c = dc_UserID arg" and "d1 = d"
        using x Inr by (auto simp: deleteCommentIfLeaf_def query_def Let_def split: option.splits if_splits)
      then show ?thesis
        using x Inr only_own_comment_statements(4)[OF ids c]
        by (auto simp: delete_body_def split: prod.split sum.split dest!: arg_cong[where f = snd])
    next
      case False
      then show ?thesis using x Inr own by (auto simp: delete_body_def)
    qed
  qed
qed

lemma only_own_soft_delete: "only_own i d (snd (soft_delete_body i E d))"
proof -
  obtain x d1 where 1: "deleteUserSessions E i d = (x, d1)" by (rule prod.exhaust)
  obtain y d2 where 2: "deleteUserCredentials E i d1 = (y, d2)" by (rule prod.exhaust)
  obtain z d3 where 3: "softDeleteUser E i d2 = (z, d3)" by (rule prod.exhaust)
  have "only_own i d d1" "only_own i d1 d2" "only_own i d2 d3"
    using only_own_account_statements(1)[of i d E] only_own_account_statements(2)[of i d1 E]
      only_own_account_statements(3)[of i d2 E] 1 2 3 by simp_all
  moreover have "db_votes d1 = db_votes d" "db_votes d2 = db_votes d" "db_votes d3 = db_votes d"
    using same_comments_statements(3)[of d E i] same_comments_statements(4)[of d1 E i]
      same_comments_statements(5)[of d2 E i] 1 2 3 by (simp_all add: same_comments_def)
  ultimately show ?thesis
    using 1 2 3 by (auto simp: soft_delete_body_def intro: only_own_trans split: sum.split)
qed

lemma only_own_operations:
  assumes "distinct (map c_ID (db_comments d))"
  shows "only_own u d (snd (InsertCommentTx cfg E (comment_params u p b pid) d))"
    and "only_own (dc_UserID darg) d (snd (DeleteCommentTx E darg d))"
    and "only_own (up_UserID uarg) d (snd (UpdateComment E uarg d))"
    and "only_own (pu_ID parg) d (snd (UpdateUser E parg d))"
    and "only_own i d (snd (SoftDeleteUserTx E i d))"
proof -
  have "ic_UserID (comment_params u p b pid) = u" by (simp add: comment_params_def)
  then show "only_own u d (snd (InsertCommentTx cfg E (comment_params u p b pid) d))"
    using only_own_tx[of u d "insert_body cfg (comment_params u p b pid)" E]
      only_own_insert[OF assms, of "comment_params u p b pid" cfg E] by (simp add: InsertCommentTx_def)
  show "only_own (dc_UserID darg) d (snd (DeleteCommentTx E darg d))"
    unfolding DeleteCommentTx_tx by (rule only_own_tx, rule only_own_delete[OF assms])
  show "only_own (up_UserID uarg) d (snd (UpdateComment E uarg d))"
    unfolding single_statements by (rule only_own_comment_statements[OF assms])
  show "only_own (pu_ID parg) d (snd (UpdateUser E parg d))"
    using UpdateUser_statement[of E parg d] only_own_account_statements(4)[of "pu_ID parg" d E] by auto
  show "only_own i d (snd (SoftDeleteUserTx E i d))"
    unfolding SoftDeleteUserTx_def by (rule only_own_tx, rule only_own_soft_delete)
qed

section \<open>Every request\<close>

definition bearer :: "request \<Rightarrow> string" where
  "bearer r = strings_Fields (rq_Authorization r) ! 1"

lemma authMiddleware_cases:
  assumes "authMiddleware L M now h r d = Some (resp, d1)"
  shows "(d1 = d \<and> rs_Status resp = 401)
    \<or> (\<exists>p. tm_VerifyToken M now (bearer r) = Some (Inr p) \<and> h p d = Some (resp, d1))"
  using assms by (auto simp: authMiddleware_def bearer_def Let_def unauthorized_def abort_auth_def newAuthError_def
      respondWithJSON_def split: if_splits option.splits sum.splits)

definition signs_up_or_in :: "route \<Rightarrow> bool" where
  "signs_up_or_in rt = (case rt of Signup_Finish \<Rightarrow> True | Signin_Finish \<Rightarrow> True | _ \<Rightarrow> False)"

lemma on_db_Some: "on_db f (d, rs) = Some (resp, d1, rs1) \<Longrightarrow> \<exists>x. f d = Some (x, d1) \<and> resp = plain_response x"
  by (auto simp: on_db_def)

text \<open>What a token of the user \<open>i\<close> can make the store do.\<close>

inductive own_step :: "store_config \<Rightarrow> int \<Rightarrow> db \<Rightarrow> db \<Rightarrow> bool" for cfg i where
  Nothing: "own_step cfg i d d"
| Comment: "own_step cfg i d (snd (InsertCommentTx cfg E (comment_params i p b pid) d))"
| Change: "up_UserID uarg = i \<Longrightarrow> own_step cfg i d (snd (UpdateComment E uarg d))"
| Remove: "dc_UserID darg = i \<Longrightarrow> own_step cfg i d (snd (DeleteCommentTx E darg d))"
| Profile: "pu_ID parg = i \<Longrightarrow> own_step cfg i d (snd (UpdateUser E parg d))"
| Leave: "own_step cfg i d (snd (SoftDeleteUserTx E i d))"

lemma own_step_steps: "own_step cfg i d d1 \<Longrightarrow> steps cfg d d1"
  by (induction rule: own_step.induct) (auto intro: store_step.intros handler_insert)

lemma own_step_own: "own_step cfg i d d1 \<Longrightarrow> distinct (map c_ID (db_comments d)) \<Longrightarrow> only_own i d d1"
  by (induction rule: own_step.induct) (auto intro: only_own_operations)

lemma handlers_own:
  "createComment_handler L cfg E b r auth d = Some (resp, d1) \<Longrightarrow> own_step cfg (pl_UserID auth) d d1"
  "updateComment_handler L E b r auth d = Some (resp, d1) \<Longrightarrow> own_step cfg (pl_UserID auth) d d1"
  "deleteComment_handler L E r auth d = Some (resp, d1) \<Longrightarrow> own_step cfg (pl_UserID auth) d d1"
  "updateUser_handler A E ub r auth d = Some (resp, d1) \<Longrightarrow> own_step cfg (pl_UserID auth) d d1"
  "deleteUser_handler E auth d = Some (resp, d1) \<Longrightarrow> own_step cfg (pl_UserID auth) d d1"
  by (auto dest!: createComment_handler_db updateComment_handler_db deleteComment_handler_db
      updateUser_handler_db deleteUser_handler_db intro: own_step.intros)

text \<open>A route other than the two ends of the ceremonies changes the database under a token only.\<close>

lemma behind_auth_own:
  assumes "behind_auth S now h r (d, rs) = Some (resp, d1, rs1)"
    and "\<And>p x. h p d = Some (x, d1) \<Longrightarrow> own_step cfg (pl_UserID p) d d1"
  shows "d1 = d \<or> (\<exists>p. tm_VerifyToken (sv_tokenMaker S) now (bearer (wr_request r)) = Some (Inr p)
    \<and> own_step cfg (pl_UserID p) d d1)"
proof -
  obtain x where "authMiddleware (golib.truncate (sv_lib S)) (sv_tokenMaker S) now h (wr_request r) d = Some (x, d1)"
    using on_db_Some[OF assms(1)[unfolded behind_auth_def]] by blast
  from authMiddleware_cases[OF this] assms(2) show ?thesis by blast
qed

lemma setupRouter_cases:
  assumes "setupRouter S E m1 m2 rt r (d, rs) = Some (resp, d1, rs1)" and "\<not> signs_up_or_in rt"
  shows "d1 = d \<or> (\<exists>p. tm_VerifyToken (sv_tokenMaker S) (mo_Now m1) (bearer (wr_request r)) = Some (Inr p)
    \<and> own_step (CommentLimits (sv_config S)) (pl_UserID p) d d1)"
  using assms
  by (cases rt) (auto simp: setupRouter_def Let_def signs_up_or_in_def dest!: on_db_Some starts_db readers_db
      elim!: behind_auth_own intro: handlers_own)

lemma setupRouter_steps:
  assumes "setupRouter S E m1 m2 rt r (d, rs) = Some (resp, d1, rs1)"
  shows "steps (CommentLimits (sv_config S)) d d1"
proof (cases "signs_up_or_in rt")
  case True
  then show ?thesis
    using assms signupFinish_steps signinFinish_steps
    by (auto simp: signs_up_or_in_def setupRouter_def split: route.splits)
next
  case False
  then show ?thesis using setupRouter_cases[OF assms False] own_step_steps by blast
qed

text \<open>Requests are served one after another; in between time passes and redis forgets.\<close>

inductive served :: "('r, 's, 'c, 'a) Service \<Rightarrow> db \<times> 'r \<Rightarrow> db \<times> 'r \<Rightarrow> bool" for S where
  Request: "serve S E m1 m2 rt r st = Some (headers, resp, st1) \<Longrightarrow> served S st st1"
| Pass: "served S (d, rs) (d\<lparr>db_now := t\<rparr>, rs1)"

lemma serve_cases:
  assumes "serve S E m1 m2 rt r st = Some (headers, resp, st1)"
  shows "st1 = st \<or> setupRouter S E m1 m2 rt r st = Some (resp, st1)"
  using assms by (auto simp: serve_def split: prod.splits option.splits)

lemma served_wf:
  assumes "served S st st1" and "db_wf (CommentLimits (sv_config S)) (fst st)"
  shows "db_wf (CommentLimits (sv_config S)) (fst st1)"
proof -
  have keep: "steps cfg d d1 \<Longrightarrow> db_wf cfg d \<Longrightarrow> db_wf cfg d1" for cfg d d1
    by (induction rule: rtranclp_induct) (auto intro: handler_step_wf)
  show ?thesis
    using assms
  proof cases
    case (Request E m1 m2 rt r headers resp)
    then show ?thesis
      using serve_cases[OF Request] setupRouter_steps[of S E m1 m2 rt r "fst st" "snd st" resp "fst st1" "snd st1"]
        keep assms(2) by auto
  next
    case (Pass d rs t rs1)
    then show ?thesis using handler_step_wf[OF store_step.Tick] assms(2) by auto
  qed
qed

lemma served_all_wf:
  assumes "(served S)\<^sup>*\<^sup>* st st1" and "db_wf (CommentLimits (sv_config S)) (fst st)"
  shows "db_wf (CommentLimits (sv_config S)) (fst st1)"
  using assms by (induction rule: rtranclp_induct) (auto intro: served_wf)

text \<open>
  C4: Whatever requests the service answers, in any order, with any bodies, tokens, cookies and
  states of redis, and with any failures of the database in between, from the empty database: the
  counters of every comment equal the stored votes, every comment is in its place, no two active
  users share a name or an address, and every session and every passkey belongs to one user that
  is stored. Requests are served one after another.
\<close>

theorem requests_keep_store_consistent:
  assumes "config_ok (CommentLimits (sv_config S))" and "(served S)\<^sup>*\<^sup>* (fresh_db ps, rs) (d, rs1)"
  shows "(\<forall>c\<in>set (db_comments d). c_Upvotes c = tally (db_votes d) (c_ID c) 1
        \<and> c_Downvotes c = tally (db_votes d) (c_ID c) (-1) \<and> placed (db_comments d) c)
    \<and> users_wf (db_users d) (sq_users (db_seqs d))
    \<and> distinct (map s_ID (db_sessions d)) \<and> (\<forall>s\<in>set (db_sessions d). s_UserID s \<in> user_ids d)
    \<and> distinct (map k_ID (db_credentials d)) \<and> (\<forall>k\<in>set (db_credentials d). k_UserID k \<in> user_ids d)"
proof -
  have "db_wf (CommentLimits (sv_config S)) d"
    using served_all_wf[OF assms(2)] fresh_wf[OF assms(1)] by simp
  then show ?thesis
    by (auto simp: db_wf_def store_inv_def store_wf_def accounts_wf_def votes_wf_def counted_def
        comments_wf_def comment_ok_def)
qed

text \<open>
  C3: Apart from the two requests that end a ceremony, a request changes the database only under
  a token that the maker accepts, and then only what the user of the token owns: comments, users,
  sessions and passkeys of others stay as they are, no vote is added or changed, and a vote is
  removed only with the comment it is on, which was one of the user, in any environment. A
  preflight changes nothing and is answered 204, and the browser is told to share a response only
  with an origin that is configured.
\<close>

theorem token_acts_for_its_user:
  assumes "db_wf (CommentLimits (sv_config S)) d"
    and "serve S E m1 m2 rt r (d, rs) = Some (headers, resp, d1, rs1)"
  shows "(signs_up_or_in rt \<or> d1 = d \<or> (\<exists>p. tm_VerifyToken (sv_tokenMaker S) (mo_Now m1) (bearer (wr_request r)) = Some (Inr p)
        \<and> only_own (pl_UserID p) d d1))
    \<and> (wr_Method r = ''OPTIONS'' \<longrightarrow> pk_Status resp = 204 \<and> d1 = d \<and> rs1 = rs)
    \<and> (\<forall>v. (''Access-Control-Allow-Origin'', v) \<in> set headers \<longrightarrow> v = wr_Origin r \<and> v \<in> set (AllowedOrigins (sv_config S)))"
proof (intro conjI)
  have "distinct (map c_ID (db_comments d))" using assms(1) store_inv_ids by (auto simp: db_wf_def)
  then have own: "own_step (CommentLimits (sv_config S)) i d d1 \<Longrightarrow> only_own i d d1" for i
    using own_step_own by blast
  show "signs_up_or_in rt \<or> d1 = d \<or> (\<exists>p. tm_VerifyToken (sv_tokenMaker S) (mo_Now m1) (bearer (wr_request r)) = Some (Inr p)
        \<and> only_own (pl_UserID p) d d1)"
    using serve_cases[OF assms(2)] setupRouter_cases[of S E m1 m2 rt r d rs resp d1 rs1] own by blast
  show "wr_Method r = ''OPTIONS'' \<longrightarrow> pk_Status resp = 204 \<and> d1 = d \<and> rs1 = rs"
    using assms(2) by (auto simp: serve_def corsMiddleware_def)
  have "headers = fst (corsMiddleware (sv_config S) r)"
    using assms(2) by (auto simp: serve_def split: prod.splits option.splits)
  then show "\<forall>v. (''Access-Control-Allow-Origin'', v) \<in> set headers \<longrightarrow> v = wr_Origin r \<and> v \<in> set (AllowedOrigins (sv_config S))"
    by (auto simp: corsMiddleware_def split: if_splits)
qed

section \<open>Witnesses\<close>

definition demo_bearer :: web_request where
  "demo_bearer = demo_web\<lparr>wr_request := page_request\<lparr>rq_Authorization := ''Bearer tokenr2''\<rparr>, wr_Method := ''DELETE''\<rparr>"

definition demo_leave :: "((string \<times> string) list \<times> (unit, unit) passkey_response \<times> db \<times> (string \<rightharpoonup> string \<times> int)) option" where
  "demo_leave = serve demo_service calm m_access m_refresh Delete_User demo_bearer (demo_db, Map.empty)"

lemma demo_leave_ok:
  "map_option (\<lambda>(h, x, d, rs). (pk_Status x, map u_IsDeleted (db_users d), length (db_credentials d))) demo_leave
     = Some (204, [False, True], 1)"
  by code_simp

lemma demo_leaves: obtains headers resp d1 rs1 where "demo_leave = Some (headers, resp, d1, rs1)"
    and "map u_IsDeleted (db_users d1) = [False, True]"
proof (cases demo_leave)
  case None
  then show ?thesis using demo_leave_ok by simp
next
  case (Some x)
  obtain h resp d1 rs1 where "x = (h, resp, d1, rs1)" by (rule prod_cases4)
  with Some have leave: "demo_leave = Some (h, resp, d1, rs1)" by simp
  show ?thesis using that[OF leave] demo_leave_ok[unfolded leave] by simp
qed

lemma token_acts_for_its_user_witness:
  "\<exists>headers resp d1 rs1 i. demo_leave = Some (headers, resp, d1, rs1) \<and> d1 \<noteq> demo_db \<and> only_own i demo_db d1"
proof -
  obtain headers resp d1 rs1 where leave: "demo_leave = Some (headers, resp, d1, rs1)"
      and gone: "map u_IsDeleted (db_users d1) = [False, True]" by (rule demo_leaves)
  have "map u_IsDeleted (db_users demo_db) = [False, False]" by code_simp
  with gone have "d1 \<noteq> demo_db" by auto
  moreover have wf: "db_wf (CommentLimits (sv_config demo_service)) demo_db"
    using demo_db_wf by (simp add: demo_service_def demo_config_def)
  ultimately show ?thesis
    using token_acts_for_its_user[OF wf leave[unfolded demo_leave_def]] leave by (auto simp: signs_up_or_in_def)
qed

definition demo_first :: "((string \<times> string) list \<times> (unit, unit) passkey_response \<times> db \<times> (string \<rightharpoonup> string \<times> int)) option" where
  "demo_first = serve demo_service calm m_access m_refresh
     (Signup_Start (Inr (demo_signup, None, True)) (Inr ''h'') (Some ''sid'')) demo_web (fresh_db [10], Map.empty)"

lemma demo_first_ok: "map_option (\<lambda>(h, x, d, rs). pk_Status x) demo_first = Some 200"
  by code_simp

lemma requests_keep_store_consistent_witness:
  "\<exists>headers resp d1 rs1. demo_first = Some (headers, resp, d1, rs1) \<and> pk_Status resp = 200
     \<and> users_wf (db_users d1) (sq_users (db_seqs d1))"
proof -
  obtain x where x: "demo_first = Some x" using demo_first_ok by (cases demo_first) auto
  obtain h resp d1 rs1 where "x = (h, resp, d1, rs1)" by (rule prod_cases4)
  with x have first: "demo_first = Some (h, resp, d1, rs1)" by simp
  have ok: "config_ok (CommentLimits (sv_config demo_service))"
    using demo_inv(2) by (simp add: demo_service_def demo_config_def store_inv_def)
  have "(served demo_service)\<^sup>*\<^sup>* (fresh_db [10], Map.empty) (d1, rs1)"
    using served.Request[OF first[unfolded demo_first_def]] by (rule r_into_rtranclp)
  from requests_keep_store_consistent[OF ok this] have "users_wf (db_users d1) (sq_users (db_seqs d1))" by simp
  moreover have "pk_Status resp = 200" using demo_first_ok unfolding first by simp
  ultimately show ?thesis using first by blast
qed

end
