(* ===== verification/Api_Deletion.thy ===== *)
theory Api_Deletion
  imports Api_Routes_Props
begin

text \<open>
  After the deletion of an account: whatever requests the service answers from then on, its user
  stays deleted and never has a session again, so no refresh token of the user renews an access
  token.
\<close>

section \<open>A user that is gone\<close>

definition gone :: "int \<Rightarrow> db \<Rightarrow> bool" where
  "gone i d \<longleftrightarrow> no_session i d \<and> i < sq_users (db_seqs d)
     \<and> (\<forall>u\<in>set (db_users d). u_ID u = i \<longrightarrow> u_IsDeleted u)"

lemma gone_same: "same_accounts d d1 \<Longrightarrow> gone i d \<Longrightarrow> gone i d1"
  by (simp add: gone_def same_accounts_def no_session_def)

lemma gone_fewer:
  assumes "gone i d" and "fewer_sessions d d1" and "sq_users (db_seqs d) \<le> sq_users (db_seqs d1)"
    and "\<And>u. u \<in> set (db_users d1) \<Longrightarrow> u_ID u = i \<Longrightarrow> u_IsDeleted u"
  shows "gone i d1"
  using assms by (auto simp: gone_def no_session_def fewer_sessions_def)

lemma gone_opened: "opened S m j token d d1 \<Longrightarrow> j \<noteq> i \<Longrightarrow> gone i d \<Longrightarrow> gone i d1"
  by (auto simp: opened_def gone_def no_session_def)

lemma gone_updateUser:
  assumes "gone i d"
  shows "gone i (snd (updateUser E j na em im d))"
proof (rule gone_fewer[OF assms fewer_statements(6)])
  show "sq_users (db_seqs d) \<le> sq_users (db_seqs (snd (updateUser E j na em im d)))"
    by (auto simp: updateUser_def query_def set_user_def Let_def split: option.split)
  show "u_IsDeleted u" if "u \<in> set (db_users (snd (updateUser E j na em im d)))" "u_ID u = i" for u
    using that assms
    by (auto simp: updateUser_def query_def set_user_def Let_def gone_def dest!: user_of_Some split: option.splits if_splits)
qed

lemma gone_tx:
  assumes "gone i d" and "users_on d (snd (body E d))" and "gone i (snd (body E d))"
  shows "gone i (snd (execTx E body d))"
  using execTx_cases[of E body d] assms by (auto simp: gone_def no_session_def rolled_back_def users_on_def)

lemma gone_soft_delete:
  assumes "gone i d"
  shows "gone i (snd (SoftDeleteUserTx E j d))"
proof -
  have users: "\<forall>u\<in>set (db_users (snd (softDeleteUser E j e))). u_ID u = i \<longrightarrow> u_IsDeleted u"
    if "\<forall>u\<in>set (db_users e). u_ID u = i \<longrightarrow> u_IsDeleted u" for e
    using that by (auto simp: softDeleteUser_def query_def set_user_def deleted_user_def Let_def split: option.split)
  obtain x d1 where 1: "deleteUserSessions E j d = (x, d1)" by (rule prod.exhaust)
  obtain y d2 where 2: "deleteUserCredentials E j d1 = (y, d2)" by (rule prod.exhaust)
  obtain z d3 where 3: "softDeleteUser E j d2 = (z, d3)" by (rule prod.exhaust)
  have same: "db_users d1 = db_users d" "db_users d2 = db_users d1"
    using 1 2 by (auto simp: deleteUserSessions_def deleteUserCredentials_def query_def split: option.splits)
  have "\<forall>u\<in>set (db_users (snd (soft_delete_body j E d))). u_ID u = i \<longrightarrow> u_IsDeleted u"
    using 1 2 3 same users[of d2] assms by (simp add: soft_delete_body_def gone_def split: sum.split)
  then have "gone i (snd (soft_delete_body j E d))"
    using gone_fewer[OF assms fewer_bodies(2)[of d j E]] users_on_bodies(2)[of d j E] by (simp add: users_on_def)
  then show ?thesis
    unfolding SoftDeleteUserTx_def using gone_tx[of i d "soft_delete_body j" E] assms users_on_bodies(2) by blast
qed

text \<open>A user that registers gets an identifier that was not drawn before.\<close>

lemma gone_create:
  assumes "gone i d"
  shows "gone i (snd (CreateUserWithCredentialsTx E arg d))"
proof -
  obtain x d1 where 1: "createUser E (cw_User arg) d = (x, d1)" by (rule prod.exhaust)
  have users: "db_users (snd (create_user_body arg E d)) = db_users d1"
  proof (cases x)
    case (Inr u)
    then show ?thesis
      using 1 by (auto simp: create_user_body_def createWebauthnCredentials_def query_def Let_def
          split: prod.split sum.split option.split dest!: arg_cong[where f = "\<lambda>x. db_users (snd x)"])
  qed (use 1 in \<open>simp add: create_user_body_def\<close>)
  have "db_users d1 = db_users d \<or> (\<exists>u. db_users d1 = db_users d @ [u] \<and> u_ID u = sq_users (db_seqs d))"
    using 1 by (auto simp: createUser_def query_def Let_def split: option.splits)
  then have "\<forall>u\<in>set (db_users (snd (create_user_body arg E d))). u_ID u = i \<longrightarrow> u_IsDeleted u"
    using assms users by (auto simp: gone_def)
  then have "gone i (snd (create_user_body arg E d))"
    using gone_fewer[OF assms fewer_bodies(1)[of d arg E]] users_on_bodies(1)[of d arg E] by (simp add: users_on_def)
  then show ?thesis
    unfolding CreateUserWithCredentialsTx_def
    using gone_tx[of i d "create_user_body arg" E] assms users_on_bodies(1) by blast
qed

section \<open>Every request leaves the user gone\<close>

lemma own_step_gone: "own_step cfg j d d1 \<Longrightarrow> gone i d \<Longrightarrow> gone i d1"
proof (induction rule: own_step.induct)
  case (Comment d E p b pid)
  then show ?case using gone_same[OF same_accounts_txs(1)] by (simp add: InsertCommentTx_def)
next
  case (Change uarg d E)
  then show ?case using gone_same[OF same_accounts_statements(7)] by (simp add: single_statements)
next
  case (Remove darg d E)
  then show ?case using gone_same[OF same_accounts_txs(2)] by (simp add: DeleteCommentTx_tx)
next
  case (Profile parg d E)
  then show ?case using UpdateUser_statement[of E parg d] gone_updateUser by auto
qed (simp_all add: gone_soft_delete)

lemma signupFinish_gone:
  assumes "signupFinish S E m1 m2 r (d, rs) = Some (resp, d1, rs1)" and "gone i d"
  shows "gone i d1"
  using signupFinish_cases[OF assms(1)]
proof (elim disjE exE conjE)
  fix arg err
  assume "CreateUserWithCredentialsTx E arg d = (Inl err, d1)"
  then show ?thesis using gone_create[OF assms(2), of E arg] by simp
next
  fix pending cred user d2 arg
  assume reg: "registered (pr_Username pending) (pr_Email pending) cred d d2 user"
    and "CreateUserWithCredentialsTx E arg d = (Inr user, d2)"
    and fin: "(resp, d1, rs1) = signup_done S E m1 m2 r (getWebauthnSessionCookieValue r) user (d2, rs)"
  then have "gone i d2" using gone_create[OF assms(2), of E arg] by simp
  moreover have "u_ID user \<noteq> i" using reg assms(2) by (auto simp: registered_def gone_def)
  ultimately show ?thesis
    using signup_done_cases[OF fin] gone_opened by (auto split: if_splits)
qed (use assms(2) in simp_all)

text \<open>A sign-in ends with a session of an active user, and at most counts the use of a passkey.\<close>

lemma signinFinish_gone:
  assumes "signinFinish S E m1 m2 r (d, rs) = Some (resp, d1, rs1)" and "gone i d"
  shows "gone i d1"
proof -
  have use: "gone i d2" if "RecordCredentialUse E arg d = (x, d2)" for arg x d2
  proof -
    have "d2 = snd (recordCredentialUse E (rc_ID arg) (rc_SignCount arg) d)"
      using that single_statements(2)[of E arg d] by simp
    moreover have "gone i (snd (recordCredentialUse E k n d))" for k n
      using assms(2) by (auto simp: recordCredentialUse_def query_def gone_def no_session_def Let_def split: option.split)
    ultimately show ?thesis by simp
  qed
  show ?thesis
    using signinFinish_cases[OF assms(1)]
  proof (elim disjE exE conjE)
    fix user cred x d2
    assume ver: "verified S d r (mo_Now m1) rs user cred" and used: "RecordCredentialUse E (use_of cred) d = (x, d2)"
      and fin: "(resp, d1, rs1) = signin_done S E m1 m2 r (getWebauthnSessionCookieValue r) user (d2, rs)"
    have "u_ID user \<noteq> i" using ver assms(2) by (auto simp: verified_def gone_def)
    then show ?thesis
      using signin_done_cases[OF fin] gone_opened use[OF used] by (auto split: if_splits)
  qed (use use assms(2) in auto)
qed

lemma setupRouter_gone:
  assumes "setupRouter S E m1 m2 rt r (d, rs) = Some (resp, d1, rs1)" and "gone i d"
  shows "gone i d1"
proof (cases "signs_up_or_in rt")
  case True
  then show ?thesis
    using assms signupFinish_gone[of S E m1 m2 r d rs resp d1 rs1 i] signinFinish_gone[of S E m1 m2 r d rs resp d1 rs1 i]
    by (cases rt) (simp_all add: signs_up_or_in_def setupRouter_def)
next
  case False
  then show ?thesis using setupRouter_cases[OF assms(1) False] own_step_gone assms(2) by auto
qed

lemma served_gone:
  assumes "served S st st1" and "gone i (fst st)"
  shows "gone i (fst st1)"
  using assms
proof cases
  case (Request E m1 m2 rt r headers resp)
  then show ?thesis
    using serve_cases[OF Request] assms(2)
      setupRouter_gone[of S E m1 m2 rt r "fst st" "snd st" resp "fst st1" "snd st1" i] by auto
next
  case (Pass d rs t rs1)
  then show ?thesis using assms(2) by (auto simp: gone_def no_session_def)
qed

lemma served_all_gone: "(served S)\<^sup>*\<^sup>* st st1 \<Longrightarrow> gone i (fst st) \<Longrightarrow> gone i (fst st1)"
  by (induction rule: rtranclp_induct) (auto intro: served_gone)

section \<open>The deletion\<close>

lemma softDeleteUser_Inr:
  assumes "softDeleteUser E i d = (Inr row, d1)"
  obtains u where "user_of d i = Some u"
    and "d1 = (if u_IsDeleted u then d else set_user d (deleted_user d u))"
proof (cases "user_of d i")
  case (Some u)
  then show ?thesis
    using assms[unfolded softDeleteUser_def, THEN query_Inr] that[of u] by (simp add: Let_def split: if_splits)
qed (use assms[unfolded softDeleteUser_def, THEN query_Inr] in simp)

lemma deleteUser_gone:
  assumes "accounts_wf d" and "deleteUser_handler E auth d = Some (resp, d1)" and "rs_Status resp = 204"
  shows "gone (pl_UserID auth) d1"
proof -
  let ?i = "pl_UserID auth"
  obtain r where run: "soft_delete_body ?i E d = (Inr r, d1)"
    using deleteUser_deletes[OF assms(2,3)] by blast
  then obtain d2 d3 row where steps: "deleteUserSessions E ?i d = (Inr (), d2)"
      "deleteUserCredentials E ?i d2 = (Inr (), d3)" "softDeleteUser E ?i d3 = (Inr row, d1)"
    by (rule soft_delete_body_Inr)
  have same: "db_users d3 = db_users d" "db_seqs d3 = db_seqs d"
    using steps(1,2) by (auto simp: deleteUserSessions_def deleteUserCredentials_def query_def split: option.splits)
  obtain u where u: "user_of d3 ?i = Some u"
      and d1: "d1 = (if u_IsDeleted u then d3 else set_user d3 (deleted_user d3 u))"
    using softDeleteUser_Inr[OF steps(3)] .
  have seqs: "db_seqs d1 = db_seqs d"
    and users: "db_users d1 = (if u_IsDeleted u then db_users d
      else map (\<lambda>x. if u_ID x = u_ID u then deleted_user d3 u else x) (db_users d))"
    using same by (simp_all add: d1 set_user_def deleted_user_def)
  have mem: "u \<in> set (db_users d)" "u_ID u = ?i" using user_of_Some[OF u] same by simp_all
  then have only: "x = u" if "x \<in> set (db_users d)" "u_ID x = ?i" for x
    using that assms(1) by (auto simp: accounts_wf_def users_wf_def distinct_map inj_on_def)
  have "?i < sq_users (db_seqs d1)"
    using mem assms(1) seqs by (auto simp: accounts_wf_def users_wf_def)
  moreover have "u_IsDeleted x" if "x \<in> set (db_users d1)" "u_ID x = ?i" for x
  proof (cases "u_IsDeleted u")
    case True
    then show ?thesis using that only users by auto
  next
    case False
    then have "x = deleted_user d3 u" using that users mem by auto
    then show ?thesis by (simp add: deleted_user_def)
  qed
  ultimately show ?thesis
    using deleteUser_no_session[OF assms(2,3)] by (simp add: gone_def)
qed

lemma serve_answers:
  assumes "serve S E m1 m2 rt r st = Some (headers, resp, st1)"
  shows "wr_Method r = ''OPTIONS'' \<and> pk_Status resp = 204 \<and> st1 = st
    \<or> wr_Method r \<noteq> ''OPTIONS'' \<and> setupRouter S E m1 m2 rt r st = Some (resp, st1)"
  using assms by (auto simp: serve_def corsMiddleware_def split: if_splits)

lemma deletion_gone:
  assumes "accounts_wf d"
    and "serve S E m1 m2 Delete_User r (d, rs) = Some (headers, resp, d1, rs1)"
    and "wr_Method r \<noteq> ''OPTIONS''" and "pk_Status resp = 204"
    and "tm_VerifyToken (sv_tokenMaker S) (mo_Now m1) (bearer (wr_request r)) = Some (Inr auth)"
  shows "gone (pl_UserID auth) d1"
proof -
  have "setupRouter S E m1 m2 Delete_User r (d, rs) = Some (resp, d1, rs1)"
    using serve_answers[OF assms(2)] assms(3) by blast
  then obtain x where "authMiddleware (golib.truncate (sv_lib S)) (sv_tokenMaker S) (mo_Now m1)
      (deleteUser_handler E) (wr_request r) d = Some (x, d1)" and "resp = plain_response x"
    by (auto simp: setupRouter_def Let_def behind_auth_def dest: on_db_Some)
  from authMiddleware_cases[OF this(1)] this(2) show ?thesis
    using deleteUser_gone[OF assms(1)] assms(4,5) by auto
qed

text \<open>
  C14: Once the service has answered 204 to a \<open>deleteUser\<close> whose token names the user \<open>i\<close>, and
  whatever requests of whomever it answers from then on, sign-ins and registrations included, in
  any environment, at any time and with redis in any state: the user stays deleted, no session of
  the user is stored ever again, and a refresh token that names the user is not answered 200. No
  renewal changes the database or redis, and in general it is answered 200 only for the token of
  a stored session of the user the token names that is neither blocked nor expired.
\<close>

theorem deleted_user_cannot_renew:
  assumes "accounts_wf d"
    and "serve S E m1 m2 Delete_User r (d, rs) = Some (headers, resp, d1, rs1)"
    and "wr_Method r \<noteq> ''OPTIONS''" and "pk_Status resp = 204"
    and "tm_VerifyToken (sv_tokenMaker S) (mo_Now m1) (bearer (wr_request r)) = Some (Inr auth)"
    and "(served S)\<^sup>*\<^sup>* (d1, rs1) (d2, rs2)"
  shows "(\<forall>u\<in>set (db_users d2). u_ID u = pl_UserID auth \<longrightarrow> u_IsDeleted u)
    \<and> (\<forall>s\<in>set (db_sessions d2). s_UserID s \<noteq> pl_UserID auth)
    \<and> (\<forall>E2 m3 m4 b r2 headers2 resp2 d3 rs3.
        serve S E2 m3 m4 (Renew_Access b) r2 (d2, rs2) = Some (headers2, resp2, d3, rs3) \<longrightarrow>
          d3 = d2 \<and> rs3 = rs2
          \<and> (pk_Status resp2 = 200 \<longrightarrow> (\<exists>token p. ingestJSONBody (wr_request r2) b = Inr token
               \<and> tm_VerifyToken (sv_tokenMaker S) (mo_Now m3) token = Some (Inr p)
               \<and> session_for d2 (mo_Now m3) p token \<and> pl_UserID p \<noteq> pl_UserID auth)))"
proof (intro conjI allI impI)
  have gone: "gone (pl_UserID auth) d2"
    using served_all_gone[OF assms(6)] deletion_gone[OF assms(1-5)] by simp
  then show "\<forall>u\<in>set (db_users d2). u_ID u = pl_UserID auth \<longrightarrow> u_IsDeleted u"
    "\<forall>s\<in>set (db_sessions d2). s_UserID s \<noteq> pl_UserID auth"
    by (simp_all add: gone_def no_session_def)
  fix E2 m3 m4 b r2 headers2 resp2 d3 rs3
  assume "serve S E2 m3 m4 (Renew_Access b) r2 (d2, rs2) = Some (headers2, resp2, d3, rs3)"
  note answer = serve_answers[OF this]
  have renewal: "rs3 = rs2 \<and> (\<exists>x. renewAccessToken (sv_tokenMaker S) (AccessTokenDuration (sv_config S))
      (sv_uuid_text S) m3 E2 b (wr_request r2) d2 = Some (x, d3) \<and> resp2 = plain_response x)"
    if "setupRouter S E2 m3 m4 (Renew_Access b) r2 (d2, rs2) = Some (resp2, d3, rs3)"
    using that by (auto simp: setupRouter_def Let_def on_db_def)
  show "d3 = d2" "rs3 = rs2" using answer renewal readers_db(3) by blast+
  show "\<exists>token p. ingestJSONBody (wr_request r2) b = Inr token
      \<and> tm_VerifyToken (sv_tokenMaker S) (mo_Now m3) token = Some (Inr p)
      \<and> session_for d2 (mo_Now m3) p token \<and> pl_UserID p \<noteq> pl_UserID auth" if ok200: "pk_Status resp2 = 200"
  proof -
    obtain x where "renewAccessToken (sv_tokenMaker S) (AccessTokenDuration (sv_config S))
        (sv_uuid_text S) m3 E2 b (wr_request r2) d2 = Some (x, d3)" "rs_Status x = 200"
      using answer renewal ok200 by auto
    from renew_session[OF this] obtain token p where ok: "ingestJSONBody (wr_request r2) b = Inr token"
        "tm_VerifyToken (sv_tokenMaker S) (mo_Now m3) token = Some (Inr p)" "session_for d2 (mo_Now m3) p token"
      by blast
    moreover have "pl_UserID p \<noteq> pl_UserID auth"
      using ok(3) gone by (auto simp: session_for_def gone_def no_session_def)
    ultimately show ?thesis by blast
  qed
qed

section \<open>A deletion\<close>

text \<open>
  Bob has signed in and can renew his token. He leaves the service with it; time passes, and the
  token is not renewed any more.
\<close>

type_synonym demo_state = "db \<times> (string \<rightharpoonup> string \<times> int)"
type_synonym demo_answer = "((string \<times> string) list \<times> (unit, unit) passkey_response \<times> demo_state) option"

definition demo_signed :: demo_state where
  "demo_signed = snd (the (demo_login calm))"

definition demo_bye :: demo_answer where
  "demo_bye = serve demo_service calm m_access m_refresh Delete_User demo_bearer demo_signed"

definition demo_later :: "demo_state \<Rightarrow> demo_state" where
  "demo_later st = ((fst st)\<lparr>db_now := 9\<rparr>, Map.empty)"

definition demo_renew :: "demo_state \<Rightarrow> demo_answer" where
  "demo_renew st = serve demo_service calm m_renew m_renew (Renew_Access (Inr (''tokenr2'', None, True))) demo_web st"

lemma demo_bye_answers:
  "map_option (\<lambda>(h, x, st). pk_Status x) demo_bye = Some 204"
  "map_option (\<lambda>(h, x, st). pk_Status x) (demo_renew demo_signed) = Some 200"
  "demo_renew (demo_later (snd (snd (the demo_bye)))) \<noteq> None"
  "ingestJSONBody (wr_request demo_web) (Inr (''tokenr2'', None, True)) = Inr ''tokenr2''"
  "wr_Method demo_bearer = ''DELETE''"
  by code_simp+

lemma demo_bearer_token:
  "tm_VerifyToken (sv_tokenMaker demo_service) (mo_Now m_access) (bearer (wr_request demo_bearer))
     = Some (Inr (snd (demo_token ''r'' 2 6 9000000000)))"
  "tm_VerifyToken (sv_tokenMaker demo_service) (mo_Now m_renew) ''tokenr2''
     = Some (Inr (snd (demo_token ''r'' 2 6 9000000000)))"
  by code_simp+

lemma demo_signed_accounts: "accounts_wf (fst demo_signed)"
proof -
  obtain resp d1 rs1 where login: "signinFinish demo_service calm m_access m_refresh demo_web (demo_db, demo_pending_login)
      = Some (resp, d1, rs1)"
    by (rule demo_login_answer[OF demo_login_ok(1)])
  have "db_wf demo_cfg d1" using reachable_wf[OF signinFinish_steps[OF login] demo_db_wf] .
  then show ?thesis using login by (simp add: demo_signed_def demo_login_def db_wf_def)
qed

lemma deleted_user_cannot_renew_witness:
  "map_option (\<lambda>(h, x, st). pk_Status x) (demo_renew demo_signed) = Some 200
   \<and> (\<exists>headers resp st headers2 resp2 st2. demo_bye = Some (headers, resp, st) \<and> pk_Status resp = 204
       \<and> demo_renew (demo_later st) = Some (headers2, resp2, st2) \<and> pk_Status resp2 \<noteq> 200 \<and> st2 = demo_later st)"
proof -
  obtain headers resp d1 rs1 where bye: "demo_bye = Some (headers, resp, d1, rs1)" and ok: "pk_Status resp = 204"
    using demo_bye_answers(1) by auto
  have "demo_renew (demo_later (d1, rs1)) \<noteq> None" using demo_bye_answers(3) by (simp add: bye)
  then obtain headers2 resp2 d3 rs3 where renew: "demo_renew (demo_later (d1, rs1)) = Some (headers2, resp2, d3, rs3)"
    by auto
  have "(served demo_service)\<^sup>*\<^sup>* (d1, rs1) (d1\<lparr>db_now := 9\<rparr>, Map.empty)"
    by (rule r_into_rtranclp) (rule served.Pass)
  moreover have "serve demo_service calm m_access m_refresh Delete_User demo_bearer (fst demo_signed, snd demo_signed)
      = Some (headers, resp, d1, rs1)"
    using bye by (simp add: demo_bye_def)
  moreover have "wr_Method demo_bearer \<noteq> ''OPTIONS''" by (simp add: demo_bye_answers(5))
  ultimately have none: "\<forall>E2 m3 m4 b r2 headers2 resp2 d3 rs3.
      serve demo_service E2 m3 m4 (Renew_Access b) r2 (d1\<lparr>db_now := 9\<rparr>, Map.empty)
        = Some (headers2, resp2, d3, rs3) \<longrightarrow>
      d3 = d1\<lparr>db_now := 9\<rparr> \<and> rs3 = Map.empty \<and> (pk_Status resp2 = 200 \<longrightarrow> (\<exists>token p.
        ingestJSONBody (wr_request r2) b = Inr token
        \<and> tm_VerifyToken (sv_tokenMaker demo_service) (mo_Now m3) token = Some (Inr p)
        \<and> session_for (d1\<lparr>db_now := 9\<rparr>) (mo_Now m3) p token
        \<and> pl_UserID p \<noteq> pl_UserID (snd (demo_token ''r'' 2 6 9000000000))))"
    using deleted_user_cannot_renew[OF demo_signed_accounts _ _ ok demo_bearer_token(1)] by blast
  have "d3 = d1\<lparr>db_now := 9\<rparr>" "rs3 = Map.empty" "pk_Status resp2 \<noteq> 200"
    using none[rule_format, OF renew[unfolded demo_renew_def demo_later_def fst_conv]]
      demo_bearer_token(2) demo_bye_answers(4) by auto
  then have "(d3, rs3) = demo_later (d1, rs1)" and no: "pk_Status resp2 \<noteq> 200" by (simp_all add: demo_later_def)
  with renew have "demo_renew (demo_later (d1, rs1)) = Some (headers2, resp2, demo_later (d1, rs1))" by metis
  then show ?thesis using demo_bye_answers(2) bye ok no by blast
qed

end
