(* ===== verification/Service_Main_Props.thy ===== *)
theory Service_Main_Props
  imports Service_Main Api_Deletion
begin

text \<open>
  What holds of the process while it runs and stops, that stopping ends, what its exit status
  says, and what becomes of a start that fails.
\<close>

section \<open>Without a pool\<close>

lemma cut_off_tx: "rejects_all E \<Longrightarrow> snd (execTx E f d) = d"
  by (auto simp: rejects_all_def execTx_def)

lemma cut_off_query:
  assumes "rejects_all E"
  shows "snd (query name E f d) = d"
proof -
  have "env_query E name \<noteq> None" using assms unfolding rejects_all_def by blast
  then show ?thesis by (auto simp: query_def)
qed

lemma cut_off_statements:
  assumes "rejects_all E"
  shows
  "snd (updateComment E i u p b d) = d"
  "snd (updateUser E i na em im d) = d"
  "snd (recordCredentialUse E k n d) = d"
  "snd (createSession E sarg d) = d"
  by (simp_all only: updateComment_def updateUser_def recordCredentialUse_def createSession_def cut_off_query[OF assms])

lemma cut_off_operations:
  assumes "rejects_all E"
  shows
  "snd (InsertCommentTx cfg E iarg d) = d"
  "snd (DeleteCommentTx E darg d) = d"
  "snd (SoftDeleteUserTx E i d) = d"
  "snd (CreateUserWithCredentialsTx E carg d) = d"
  "snd (UpdateComment E uarg d) = d"
  "snd (RecordCredentialUse E rarg d) = d"
  "snd (CreateSession uuid_text E sarg d) = d"
  by (simp_all only: InsertCommentTx_def DeleteCommentTx_tx SoftDeleteUserTx_def CreateUserWithCredentialsTx_def
      cut_off_tx[OF assms] single_statements cut_off_statements[OF assms])

lemma cut_off_update: "rejects_all E \<Longrightarrow> snd (UpdateUser E parg d) = d"
  using UpdateUser_statement[of E parg d] cut_off_statements(2)[of E] by auto

lemma cut_off_tokens:
  assumes "rejects_all E"
  shows "snd (generateAuthTokens S m1 m2 E user ua ip d) = d"
proof -
  have "snd (generateAuthTokens S m1 m2 F user ua ip d) = d
      \<or> (\<exists>arg. snd (generateAuthTokens S m1 m2 F user ua ip d) = snd (CreateSession (sv_uuid_text S) F arg d))" for F
    by (auto simp: generateAuthTokens_def Let_def split: sum.split prod.split) (metis snd_conv)+
  from this[of E] show ?thesis unfolding cut_off_operations[OF assms] by blast
qed

lemma cut_off_finishes:
  assumes "rejects_all E"
  shows "signupFinish S E m1 m2 r (d, rs) = Some (resp, d1, rs1) \<Longrightarrow> d1 = d"
    and "signinFinish S E m1 m2 r (d, rs) = Some (resp, d1, rs1) \<Longrightarrow> d1 = d"
proof -
  have up: "d1 = snd (generateAuthTokens S m1 m2 F user (wr_UserAgent r) (getClientIP r) d2)"
    if "(resp, d1, rs1) = signup_done S F m1 m2 r i user (d2, rs)" for F i user d2
    using that by (auto simp: signup_done_def Let_def split: prod.splits sum.splits)
  have inn: "d1 = snd (generateAuthTokens S m1 m2 F user (wr_UserAgent r) (getClientIP r) d2)"
    if "(resp, d1, rs1) = signin_done S F m1 m2 r i user (d2, rs)" for F i user d2
    using that by (auto simp: signin_done_def split: prod.splits sum.splits)
  have made: "d2 = d" if "CreateUserWithCredentialsTx E arg d = (y, d2)" for arg y d2
    using that cut_off_operations(4)[OF assms, of arg d] by (metis snd_conv)
  have used: "d2 = d" if "RecordCredentialUse E arg d = (y, d2)" for arg y d2
    using that cut_off_operations(6)[OF assms, of arg d] by (metis snd_conv)
  show "signupFinish S E m1 m2 r (d, rs) = Some (resp, d1, rs1) \<Longrightarrow> d1 = d"
    by (drule signupFinish_cases, elim disjE exE conjE) (blast dest: made up | metis made up cut_off_tokens[OF assms])+
  show "signinFinish S E m1 m2 r (d, rs) = Some (resp, d1, rs1) \<Longrightarrow> d1 = d"
    by (drule signinFinish_cases, elim disjE exE conjE) (blast dest: used inn | metis used inn cut_off_tokens[OF assms])+
qed

text \<open>What a request answered without a token, and one behind a token, leaves of the database.\<close>

lemma cut_off_handlers:
  assumes "rejects_all E"
  shows
  "createComment_handler L cfg E b r auth d = Some (resp, d1) \<Longrightarrow> d1 = d"
  "updateComment_handler L E b r auth d = Some (resp, d1) \<Longrightarrow> d1 = d"
  "deleteComment_handler L E r auth d = Some (resp, d1) \<Longrightarrow> d1 = d"
  "updateUser_handler A E ub r auth d = Some (resp, d1) \<Longrightarrow> d1 = d"
  "deleteUser_handler E auth d = Some (resp, d1) \<Longrightarrow> d1 = d"
  by (auto dest!: createComment_handler_db updateComment_handler_db deleteComment_handler_db
      updateUser_handler_db deleteUser_handler_db simp: cut_off_operations[OF assms] cut_off_update[OF assms])

lemma behind_auth_keeps:
  assumes "behind_auth S now h r (d, rs) = Some (resp, d1, rs1)" and "\<And>p y. h p d = Some (y, d1) \<Longrightarrow> d1 = d"
  shows "d1 = d"
proof -
  obtain y where "authMiddleware (golib.truncate (sv_lib S)) (sv_tokenMaker S) now h (wr_request r) d = Some (y, d1)"
    using on_db_Some[OF assms(1)[unfolded behind_auth_def]] by blast
  from authMiddleware_cases[OF this] assms(2) show ?thesis by blast
qed

lemma cut_off_router:
  assumes "rejects_all E" and "setupRouter S E m1 m2 rt r (d, rs) = Some (resp, d1, rs1)"
  shows "d1 = d"
proof (cases "signs_up_or_in rt")
  case True
  then show ?thesis
    using assms(2) cut_off_finishes[OF assms(1)] by (auto simp: signs_up_or_in_def setupRouter_def split: route.splits)
next
  case False
  then show ?thesis
    using assms(2)
    by (cases rt) (auto simp only: setupRouter_def Let_def route.case signs_up_or_in_def
        dest!: on_db_Some starts_db readers_db elim!: behind_auth_keeps cut_off_handlers[OF assms(1)])
qed

lemma cut_off_serve:
  assumes "rejects_all E" and "serve S E m1 m2 rt r st = Some (headers, resp, st1)"
  shows "fst st1 = fst st"
proof -
  obtain d rs d1 rs1 where st: "st = (d, rs)" "st1 = (d1, rs1)" by (metis prod.exhaust)
  then show ?thesis using serve_cases[OF assms(2)] cut_off_router[OF assms(1)] by auto
qed

section \<open>Every state of the process\<close>

definition process_ok :: "'g process_libs \<Rightarrow> store_config \<Rightarrow> ('g, 'r) process \<Rightarrow> bool" where
  "process_ok X cfg p \<longleftrightarrow> db_wf cfg (fst (p_state p))
     \<and> p_inShutdown p = (p_stopping p \<noteq> Waiting)
     \<and> p_pool p = (\<forall>e. p_stopping p \<noteq> Stopped e)
     \<and> (p_stopping p \<in> {Closing None, Draining None, Stopped None} \<longrightarrow> p_requests p = 0)
     \<and> p_acquired p \<le> p_requests p \<and> (\<not> p_pool p \<longrightarrow> p_acquired p = 0)
     \<and> (p_inShutdown p \<longrightarrow> ctx_Done X p)
     \<and> (p_serving p = Served None \<longrightarrow> p_inShutdown p)
     \<and> (\<forall>e. p_serving p = Served (Some e) \<longrightarrow> eg_Wait X (p_group p) \<noteq> None)
     \<and> (\<forall>e. p_stopping p = Stopped (Some e) \<longrightarrow> eg_Wait X (p_group p) \<noteq> None)
     \<and> (\<forall>e. eg_Wait X (p_group p) = Some e \<longrightarrow> eg_Cancelled X (p_group p)
          \<and> (p_serving p = Served (Some e) \<or> p_stopping p = Stopped (Some e)))"

lemma start_process_ok:
  "process_laws X \<Longrightarrow> config_ok cfg \<Longrightarrow> process_ok X cfg (start_process X b (fresh_db ps, rs))"
  using fresh_wf by (simp add: process_ok_def start_process_def process_laws_def)

lemmas returns_defs = serve_returns_def stop_returns_def group_return_def serve_error_def

lemma store_Shutdown_Some: "store_Shutdown p = Some p1 \<longleftrightarrow> p_acquired p = 0 \<and> p1 = p\<lparr>p_pool := False\<rparr>"
  by (auto simp: store_Shutdown_def)

lemma group_laws:
  assumes "process_laws X"
  shows "eg_Wait X (eg_Return X err g) = (case eg_Wait X g of None \<Rightarrow> err | Some e \<Rightarrow> Some e)"
    and "eg_Cancelled X (eg_Return X err g) = (eg_Cancelled X g \<or> err \<noteq> None)"
    and "rejects_all (pool_closed X E)"
  using assms by (simp_all add: process_laws_def)

lemma served_db_wf:
  "serve S E m1 m2 rt r st = Some (headers, resp, st1) \<Longrightarrow> db_wf (CommentLimits (sv_config S)) (fst st) \<Longrightarrow>
    db_wf (CommentLimits (sv_config S)) (fst st1)"
  by (rule served_wf[OF served.Request])

lemma process_step_ok:
  assumes laws: "process_laws X"
    and "process_step X S a p q" and "process_ok X (CommentLimits (sv_config S)) p"
  shows "process_ok X (CommentLimits (sv_config S)) q"
  using assms(2,3)
  by (cases rule: process_step.cases; cases "eg_Wait X (p_group p)")
    (auto simp: process_ok_def ctx_Done_def hands_out_def returns_defs store_Shutdown_Some group_laws[OF laws]
      intro: served_db_wf)

lemma live_step_ok:
  assumes laws: "process_laws X"
    and "live_step X S p q" and "process_ok X (CommentLimits (sv_config S)) p"
  shows "process_ok X (CommentLimits (sv_config S)) q"
  using assms(2,3)
proof cases
  case (Pass t rs)
  have "db_wf cfg (d\<lparr>db_now := t\<rparr>)" if "db_wf cfg d" for cfg d
    using handler_step_wf[OF store_step.Tick] that by blast
  then show ?thesis using Pass assms(3) by (auto simp: process_ok_def ctx_Done_def)
qed (auto intro: process_step_ok[OF laws])

lemma live_steps_ok:
  assumes laws: "process_laws X"
    and "(live_step X S)\<^sup>*\<^sup>* p q" and "process_ok X (CommentLimits (sv_config S)) p"
  shows "process_ok X (CommentLimits (sv_config S)) q"
  using assms(2,3) by (induction rule: rtranclp_induct) (auto intro: live_step_ok[OF laws])

text \<open>What \<open>main\<close> starts is the service of the configuration, with a key of at least 32 bytes.\<close>

lemma main_runs:
  assumes "main X W b st = Runs S server p"
  shows "p = start_process X b st"
    and "\<exists>config. LoadConfig (su_read W) (su_decoded W) ''.'' = (config, None) \<and> sv_config S = config
      \<and> srv_Addr server = HTTPServerAddress config \<and> 32 \<le> length (TokenSymmetricKey config)"
proof -
  obtain config where config: "LoadConfig (su_read W) (su_decoded W) ''.'' = (config, None)"
    using assms by (auto simp: main_def split: prod.splits option.splits)
  then have run: "RunGinServer W config = Inr (S, server)" and "p = start_process X b st"
    using assms by (auto simp: main_def split: option.splits sum.splits)
  then show "p = start_process X b st" by blast
  obtain mk where "NewJWTMaker (TokenSymmetricKey config) = Inr mk"
    using run by (auto simp: RunGinServer_def Let_def split: sum.splits)
  then have "32 \<le> length (TokenSymmetricKey config)"
    by (simp add: NewJWTMaker_def minSecretKeySize_def len_def split: if_splits)
  moreover have "sv_config S = config \<and> srv_Addr server = HTTPServerAddress config"
    using run by (auto simp: RunGinServer_def NewService_def Let_def split: sum.splits)
  ultimately show "\<exists>config. LoadConfig (su_read W) (su_decoded W) ''.'' = (config, None) \<and> sv_config S = config
      \<and> srv_Addr server = HTTPServerAddress config \<and> 32 \<le> length (TokenSymmetricKey config)"
    using config by blast
qed

lemma main_reaches_ok:
  assumes laws: "process_laws X" and "main X W b (fresh_db ps, rs) = Runs S server p0"
    and "config_ok (CommentLimits (sv_config S))" and "(live_step X S)\<^sup>*\<^sup>* p0 p"
  shows "process_ok X (CommentLimits (sv_config S)) p"
  by (rule live_steps_ok[OF laws assms(4)]) (simp only: main_runs(1)[OF assms(2)] start_process_ok[OF laws assms(3)])

section \<open>Stopping is orderly\<close>

text \<open>No step opens the pool again or accepts a request after \<open>Shutdown\<close> was called.\<close>

lemma closed_pool_step:
  assumes laws: "process_laws X" and "process_step X S a p q" and "\<not> p_pool p" and "process_ok X cfg p"
  shows "fst (p_state q) = fst (p_state p) \<and> p_requests q \<le> p_requests p"
proof -
  have "p_inShutdown p" "\<not> hands_out p" "p_acquired p = 0"
    using assms(3,4) by (auto simp: process_ok_def hands_out_def split: stopping.splits)
  with assms(2) show ?thesis
    by (induction rule: process_step.induct)
      (auto simp: returns_defs store_Shutdown_Some dest: cut_off_serve[OF group_laws(3)[OF laws]])
qed

lemma pool_is_closed: "process_ok X cfg p \<Longrightarrow> \<not> p_pool p \<longleftrightarrow> (\<exists>e. p_stopping p = Stopped e)"
  by (cases "p_stopping p") (simp_all add: process_ok_def)

lemma group_Wait_Some:
  "group_Wait X p = Some r \<longleftrightarrow>
    (\<exists>e f. p_serving p = Served e \<and> p_stopping p = Stopped f) \<and> r = eg_Wait X (p_group p)"
  by (cases "p_serving p"; cases "p_stopping p") (auto simp: group_Wait_def)

lemma exit_zero:
  assumes "process_ok X cfg p" and "exit_status X p = Some 0"
  shows "p_serving p = Served None \<and> p_stopping p = Stopped None"
proof -
  obtain e f where "p_serving p = Served e" "p_stopping p = Stopped f" "eg_Wait X (p_group p) = None"
    using assms(2) by (auto simp: exit_status_def group_Wait_Some split: if_splits)
  then show ?thesis using assms(1) by (cases e; cases f) (simp_all add: process_ok_def)
qed

text \<open>
  C5: In every state of the process that \<open>main\<close> starts, whatever is requested and however the
  listener and the pool fail: the database is consistent; the pool is open until the server is
  shutting down and has no request left, or has given up waiting for them, which the group
  reports as an error; once it is closed no request changes the database and none is accepted;
  and the process exits with status 0 only after the listener and the server were shut down in
  order, with every request answered and the pool closed. Its tokens are signed with a key of at
  least 32 bytes.
\<close>

theorem process_stops_in_order:
  assumes "process_laws X" and "main X W signalled (fresh_db ps, rs) = Runs S server p0"
    and "config_ok (CommentLimits (sv_config S))" and "(live_step X S)\<^sup>*\<^sup>* p0 p"
  shows "db_wf (CommentLimits (sv_config S)) (fst (p_state p)) \<and> 32 \<le> length (TokenSymmetricKey (sv_config S))
    \<and> (\<not> p_pool p \<longrightarrow> p_inShutdown p \<and> (p_requests p = 0 \<or> eg_Wait X (p_group p) \<noteq> None)
        \<and> (\<forall>a q. process_step X S a p q \<longrightarrow> fst (p_state q) = fst (p_state p) \<and> p_requests q \<le> p_requests p))
    \<and> (exit_status X p = Some 0 \<longrightarrow> p_serving p = Served None \<and> p_stopping p = Stopped None
        \<and> p_requests p = 0 \<and> \<not> p_pool p)"
proof -
  have ok: "process_ok X (CommentLimits (sv_config S)) p" by (rule main_reaches_ok[OF assms])
  have shut: "p_inShutdown p" if "\<not> p_pool p"
    using ok pool_is_closed[OF ok] that by (auto simp: process_ok_def)
  moreover have "p_requests p = 0 \<or> eg_Wait X (p_group p) \<noteq> None" if closed: "\<not> p_pool p"
  proof -
    obtain e where "p_stopping p = Stopped e" using pool_is_closed[OF ok] closed by blast
    then show ?thesis using ok by (cases e) (auto simp: process_ok_def)
  qed
  moreover have "p_requests p = 0 \<and> \<not> p_pool p" if "p_stopping p = Stopped None"
    using ok that by (simp add: process_ok_def)
  moreover have "db_wf (CommentLimits (sv_config S)) (fst (p_state p))" using ok by (simp add: process_ok_def)
  ultimately show ?thesis
    using exit_zero[OF ok] closed_pool_step[OF assms(1) _ _ ok] main_runs(2)[OF assms(2)] by blast
qed

section \<open>Stopping ends\<close>

text \<open>What is left to do once \<open>Shutdown\<close> was called: a request may still get a connection first.\<close>

fun left_to_serve :: "serving \<Rightarrow> nat" where
  "left_to_serve (Served e) = 0"
| "left_to_serve s = 1"

fun left_to_stop :: "stopping \<Rightarrow> nat" where
  "left_to_stop (Stopped e) = 0"
| "left_to_stop (Draining e) = 1"
| "left_to_stop (Closing e) = 2"
| "left_to_stop s = 3"

definition work :: "('g, 'r) process \<Rightarrow> nat" where
  "work p = (2 * p_requests p - p_acquired p) + left_to_serve (p_serving p) + left_to_stop (p_stopping p)"

lemma shutting_step:
  assumes "process_step X S a p q" and "p_inShutdown p" and "process_ok X cfg p"
  shows "work q < work p \<and> p_inShutdown q"
  using assms
  by (induction rule: process_step.induct)
    (auto simp: process_ok_def ctx_Done_def work_def returns_defs store_Shutdown_Some)

text \<open>Who can make the next step, and can until a step is made.\<close>

definition next_actor :: "('g, 'r) process \<Rightarrow> actor" where
  "next_actor p = (case p_stopping p of
       Stopped e \<Rightarrow> Server
     | Draining e \<Rightarrow> if p_acquired p = 0 then Stopper else Handler
     | _ \<Rightarrow> Stopper)"

lemma next_actor_can:
  assumes "p_inShutdown p" and "process_ok X cfg p" and "exit_status X p = None"
  shows "\<exists>q. process_step X S (next_actor p) p q"
proof (cases "p_stopping p")
  case (Stopped e)
  then have "p_serving p \<in> {Starting, Listening}"
    using assms(3) by (cases "p_serving p") (simp_all add: exit_status_def group_Wait_def)
  then show ?thesis using process_step.Server_Closed assms(1) Stopped by (force simp: next_actor_def)
next
  case (Draining e)
  show ?thesis
  proof (cases "p_acquired p")
    case 0
    then show ?thesis
      using Draining process_step.Pool_Closed[of p e "p\<lparr>p_pool := False\<rparr>" X S]
      by (auto simp: next_actor_def store_Shutdown_Some)
  next
    case (Suc k)
    moreover obtain n where "p_requests p = Suc n"
      using assms(2) Suc by (cases "p_requests p") (simp_all add: process_ok_def)
    moreover have "group_Wait X p = None" using assms(3) by (simp add: exit_status_def)
    ultimately show ?thesis
      using Draining process_step.Lose_Held[of X p n k S] by (auto simp: next_actor_def)
  qed
next
  case Shutting_Down
  then show ?thesis using process_step.Shutdown_Failed[of p X S] by (auto simp: next_actor_def)
next
  case (Closing e)
  then show ?thesis using process_step.Close_Pool[of p e X S] by (auto simp: next_actor_def)
qed (use assms(1,2) in \<open>simp add: process_ok_def\<close>)

text \<open>Steps of any actor.\<close>

definition moves :: "'g process_libs \<Rightarrow> ('r, 's, 'c, 'a) Service \<Rightarrow> ('g, 'r) process \<Rightarrow> ('g, 'r) process \<Rightarrow> bool" where
  "moves X S p q \<longleftrightarrow> (\<exists>a. process_step X S a p q)"

lemma shutting_run:
  assumes laws: "process_laws X" and "(moves X S ^^ n) p q" and "p_inShutdown p" and "process_ok X (CommentLimits (sv_config S)) p"
  shows "n + work q \<le> work p \<and> p_inShutdown q \<and> process_ok X (CommentLimits (sv_config S)) q"
  using assms(2)
proof (induction n arbitrary: q)
  case (Suc n)
  then obtain r where n: "(moves X S ^^ n) p r" "moves X S r q" by auto
  then obtain a where r: "(moves X S ^^ n) p r" "process_step X S a r q" by (auto simp: moves_def)
  have "n + work r \<le> work p" "p_inShutdown r" "process_ok X (CommentLimits (sv_config S)) r"
    using Suc.IH[OF r(1)] by simp_all
  then show ?case using shutting_step[OF r(2)] process_step_ok[OF laws r(2)] by fastforce
qed (use assms(3,4) in simp)

lemma group_Wait_state [simp]: "group_Wait X (p\<lparr>p_state := st\<rparr>) = group_Wait X p"
  by (simp add: group_Wait_def split: serving.split stopping.split)

text \<open>An ended context and an exit status stay.\<close>

lemma ctx_stays:
  assumes laws: "process_laws X" and "live_step X S p q" and "ctx_Done X p"
  shows "ctx_Done X q"
  using assms(2)
proof cases
  case (Run a)
  then show ?thesis
    using assms(3)
    by (induction rule: process_step.induct)
      (auto simp: ctx_Done_def returns_defs store_Shutdown_Some group_laws[OF laws])
qed (use assms(3) in \<open>simp add: ctx_Done_def\<close>)

lemma exit_stays:
  assumes "live_step X S p q" and "exit_status X p = Some status" and "process_ok X cfg p"
  shows "exit_status X q = Some status"
proof -
  obtain e f where ended: "p_serving p = Served e" "p_stopping p = Stopped f" "group_Wait X p \<noteq> None"
    using assms(2) by (auto simp: exit_status_def group_Wait_Some)
  have "\<not> process_step X S a p q" for a
  proof
    assume "process_step X S a p q"
    then show False
      by cases (use ended assms(3) in \<open>auto simp: process_ok_def\<close>)
  qed
  then obtain st where "q = p\<lparr>p_state := st\<rparr>" using assms(1) by (auto elim: live_step.cases)
  then show ?thesis using assms(2) by (simp add: exit_status_def)
qed

text \<open>In a fair run the work gets less until the process has ended.\<close>

lemma run_reaches: "fair_run X S f \<Longrightarrow> (live_step X S)\<^sup>*\<^sup>* (f i) (f (i + n))"
  by (induction n) (auto simp: fair_run_def intro: rtranclp.rtrancl_into_rtrancl)

definition idle :: "('g, 'r) process \<Rightarrow> ('g, 'r) process \<Rightarrow> bool" where
  "idle p q \<longleftrightarrow> (\<exists>st. q = p\<lparr>p_state := st\<rparr>)"

lemma idle_same:
  assumes "idle p q"
  shows "work q = work p" "next_actor q = next_actor p" "p_inShutdown q = p_inShutdown p"
    "p_stopping q = p_stopping p" "ctx_Done X q = ctx_Done X p" "exit_status X q = exit_status X p"
  using assms by (auto simp: idle_def work_def next_actor_def ctx_Done_def exit_status_def)

lemma idle_trans:
  assumes "idle p q" and "idle q r"
  shows "idle p r"
proof -
  obtain a b where "q = p\<lparr>p_state := a\<rparr>" "r = q\<lparr>p_state := b\<rparr>"
    using assms unfolding idle_def by blast
  then have "r = p\<lparr>p_state := b\<rparr>" by simp
  then show ?thesis unfolding idle_def by (rule exI)
qed

lemma idle_refl: "idle p p"
  unfolding idle_def by (rule exI[of _ "p_state p"]) simp

lemma live_idle:
  assumes "live_step X S p q" and "\<And>b. \<not> process_step X S b p q"
  shows "idle p q"
  using assms(1)
proof cases
  case (Pass t rs)
  then show ?thesis unfolding idle_def by (rule exI)
qed (use assms(2) in blast)

text \<open>If the actor is one the run is fair to and can always move, then some actor does.\<close>

lemma fair_moves:
  assumes fair: "fair_run X S f" and a: "a \<in> {Server, Handler, Stopper}"
    and can: "\<And>j. i \<le> j \<Longrightarrow> idle (f i) (f j) \<Longrightarrow> \<exists>q. process_step X S a (f j) q"
  shows "\<exists>j b. i \<le> j \<and> idle (f i) (f j) \<and> process_step X S b (f j) (f (Suc j))"
proof (rule ccontr)
  assume none: "\<nexists>j b. i \<le> j \<and> idle (f i) (f j) \<and> process_step X S b (f j) (f (Suc j))"
  have still: "idle (f i) (f (i + n))" for n
  proof (induction n)
    case (Suc n)
    have "live_step X S (f (i + n)) (f (Suc (i + n)))" using fair by (simp add: fair_run_def)
    moreover have "\<not> process_step X S b (f (i + n)) (f (Suc (i + n)))" for b using none Suc by simp
    ultimately have "idle (f (i + n)) (f (Suc (i + n)))" by (rule live_idle)
    then show ?case using idle_trans[OF Suc] by simp
  qed (simp add: idle_refl)
  obtain j where j: "i \<le> j" "(\<forall>q. \<not> process_step X S a (f j) q) \<or> process_step X S a (f j) (f (Suc j))"
    using fair a unfolding fair_run_def by blast
  moreover have "idle (f i) (f j)" using still[of "j - i"] j(1) by simp
  ultimately show False using can none by blast
qed

lemma fair_progress:
  assumes laws: "process_laws X" and fair: "fair_run X S f"
    and ok: "\<And>i. process_ok X (CommentLimits (sv_config S)) (f i)"
    and shut: "p_inShutdown (f i)" and going: "exit_status X (f i) = None"
  shows "\<exists>j\<ge>i. work (f j) < work (f i) \<and> p_inShutdown (f j)"
proof -
  have "next_actor (f i) \<in> {Server, Handler, Stopper}"
    by (simp add: next_actor_def split: stopping.split)
  moreover have "\<exists>q. process_step X S (next_actor (f i)) (f j) q" if "idle (f i) (f j)" for j
    using next_actor_can[OF _ ok, of j S] idle_same(2,3,6)[OF that] shut going by metis
  ultimately obtain j b where j: "i \<le> j" "idle (f i) (f j)" "process_step X S b (f j) (f (Suc j))"
    using fair_moves[OF fair, of "next_actor (f i)" i] by blast
  have "work (f (Suc j)) < work (f j) \<and> p_inShutdown (f (Suc j))"
    using shutting_step[OF j(3) _ ok] idle_same(3)[OF j(2)] shut by simp
  then show ?thesis using j(1) idle_same(1)[OF j(2)] by (intro exI[of _ "Suc j"]) simp
qed

lemma fair_exit:
  assumes laws: "process_laws X" and fair: "fair_run X S f"
    and ok: "\<And>i. process_ok X (CommentLimits (sv_config S)) (f i)" and shut: "p_inShutdown (f i)"
  shows "\<exists>j\<ge>i. exit_status X (f j) \<noteq> None"
  using shut
proof (induction "work (f i)" arbitrary: i rule: less_induct)
  case less
  show ?case
  proof (cases "exit_status X (f i) = None")
    case True
    then obtain j where "i \<le> j" "work (f j) < work (f i)" "p_inShutdown (f j)"
      using fair_progress[OF laws fair ok less.prems] by blast
    then show ?thesis using less.hyps[of j] by (meson le_trans)
  qed auto
qed

text \<open>Once the context has ended \<open>Shutdown\<close> is called, and nobody is waited for before that.\<close>

lemma fair_shutdown:
  assumes laws: "process_laws X" and fair: "fair_run X S f"
    and ok: "\<And>i. process_ok X (CommentLimits (sv_config S)) (f i)" and ended: "ctx_Done X (f i)"
  shows "\<exists>j\<ge>i. p_inShutdown (f j)"
proof (rule ccontr)
  assume never: "\<not> ?thesis"
  obtain j where j: "i \<le> j" "(\<forall>q. \<not> process_step X S Stopper (f j) q) \<or> process_step X S Stopper (f j) (f (Suc j))"
    using fair unfolding fair_run_def by blast
  have still: "ctx_Done X (f (i + n))" for n
    by (induction n) (use ended fair ctx_stays[OF laws] in \<open>auto simp: fair_run_def\<close>)
  have wait: "p_stopping (f k) = Waiting" "\<not> p_inShutdown (f k)" if "i \<le> k" for k
    using never that ok[of k] by (auto simp: process_ok_def)
  have "process_step X S Stopper (f j) ((f j)\<lparr>p_inShutdown := True, p_stopping := Shutting_Down\<rparr>)"
    using process_step.Shutdown wait(1)[OF j(1)] still[of "j - i"] j(1) by simp
  then have "process_step X S Stopper (f j) (f (Suc j))" using j(2) by blast
  then have "p_inShutdown (f (Suc j))"
    by cases (use wait(1)[OF j(1)] in auto)
  then show False using wait(2)[of "Suc j"] j(1) by simp
qed

text \<open>
  C13: After a signal, or after the server failed, the process ends. In every run that is fair to
  the server, to the handlers and to the goroutine that stops it, once the context has ended
  \<open>Shutdown\<close> is called, its wait for the requests ends, the pool is closed when the connections
  that requests hold are back, and the process gets its exit status and keeps it. After \<open>Shutdown\<close>
  was called no run, fair or not, makes more steps than two for every request and four, and until
  the process has its status some step can be made.
\<close>

theorem shutdown_ends:
  assumes "process_laws X" and "main X W signalled (fresh_db ps, rs) = Runs S server (f 0)"
    and "config_ok (CommentLimits (sv_config S))" and "fair_run X S f" and "ctx_Done X (f i)"
  shows "(\<exists>j\<ge>i. p_inShutdown (f j)) \<and> (\<exists>j\<ge>i. \<exists>status. \<forall>k\<ge>j. exit_status X (f k) = Some status)
    \<and> (\<forall>j. p_inShutdown (f j) \<longrightarrow> (\<forall>n q. (moves X S ^^ n) (f j) q \<longrightarrow>
          n \<le> 2 * p_requests (f j) + 4 \<and> (exit_status X q = None \<longrightarrow> (\<exists>q1. moves X S q q1))))"
proof (intro conjI allI impI)
  have ok: "process_ok X (CommentLimits (sv_config S)) (f k)" for k
    using main_reaches_ok[OF assms(1-3)] run_reaches[OF assms(4), of 0 k] by simp
  show shut: "\<exists>j\<ge>i. p_inShutdown (f j)" by (rule fair_shutdown[OF assms(1,4) ok assms(5)])
  show "\<exists>j\<ge>i. \<exists>status. \<forall>k\<ge>j. exit_status X (f k) = Some status"
  proof -
    obtain j status where j: "i \<le> j" "exit_status X (f j) = Some status"
      using shut fair_exit[OF assms(1,4) ok] by (meson le_trans not_None_eq)
    have "exit_status X (f (j + n)) = Some status" for n
    proof (induction n)
      case (Suc n)
      have "live_step X S (f (j + n)) (f (j + Suc n))" using assms(4) by (simp add: fair_run_def)
      then show ?case by (rule exit_stays[OF _ Suc ok])
    qed (use j(2) in simp)
    then show ?thesis using j(1) by (metis le_Suc_ex)
  qed
  fix j n q
  assume h: "p_inShutdown (f j)" "(moves X S ^^ n) (f j) q"
  note run = shutting_run[OF assms(1) h(2,1) ok]
  have "left_to_serve (p_serving (f j)) \<le> 1" "left_to_stop (p_stopping (f j)) \<le> 3"
    by (cases "p_serving (f j)"; simp) (cases "p_stopping (f j)"; simp)
  moreover have "n + work q \<le> work (f j)" using run by blast
  ultimately show "n \<le> 2 * p_requests (f j) + 4" unfolding work_def by linarith
  show "\<exists>q1. moves X S q q1" if "exit_status X q = None"
    using run next_actor_can that unfolding moves_def by blast
qed

section \<open>A start that fails\<close>

text \<open>
  A start that fails before the server is made ends with status 1, but one that fails while the
  service is made, say for a key that is too short, ends with status 0, and leaves the pool open.
\<close>

lemma failed_start_exits_zero:
  assumes "LoadConfig (su_read W) (su_decoded W) ''.'' = (config, None)" and "su_pool W (DBSource config) = None"
    and "su_migrate_new W (MigrationURL config) (DBSource config) = None"
    and "su_migrate_up W (MigrationURL config) (DBSource config) = Migrated"
    and "length (TokenSymmetricKey config) < 32"
  shows "\<exists>msg. main X W signalled st = Exits 0 msg"
  using assms
  by (auto simp: main_def runDBMigration_def RunGinServer_def NewJWTMaker_def minSecretKeySize_def len_def Let_def
      split: sum.split)

section \<open>A process\<close>

definition demo_main_config :: Config where
  "demo_main_config = demo_config\<lparr>HTTPServerAddress := '':8080'', PublicOrigin := ''localhost:8080'',
     TokenSymmetricKey := demo_secret\<rparr>"

definition demo_startup :: "(string \<rightharpoonup> string \<times> int, unit, unit, unit) startup" where
  "demo_startup = \<lparr>su_read = (\<lambda>path. None), su_decoded = (\<lambda>path. (demo_main_config, None)),
     su_pool = (\<lambda>source. None), su_migrate_new = (\<lambda>url source. None),
     su_migrate_up = (\<lambda>url source. ErrNoChange), su_webauthn = (\<lambda>s. Inr (sv_webauthnConfig demo_service)),
     su_redis = (\<lambda>addr. demo_sessions), su_jwt = demo_jwt, su_lib = demo_lib,
     su_transports = sv_transports demo_service, su_uuid_text = id\<rparr>"

definition demo_main_service :: "(string \<rightharpoonup> string \<times> int, unit, unit, unit) Service" where
  "demo_main_service = \<lparr>sv_config = demo_main_config,
     sv_tokenMaker = jwt_token_maker demo_jwt \<lparr>jm_secretKey = demo_secret\<rparr>,
     sv_webauthnConfig = sv_webauthnConfig demo_service, sv_redisStore = demo_sessions, sv_lib = demo_lib,
     sv_transports = sv_transports demo_service, sv_uuid_text = id\<rparr>"

text \<open>A group that is its first error, and a pool that says it is closed.\<close>

definition demo_libs :: "go_error option process_libs" where
  "demo_libs = \<lparr>eg_WithContext = None, eg_Return = (\<lambda>err g. case g of None \<Rightarrow> err | Some e \<Rightarrow> Some e),
     eg_Wait = id, eg_Cancelled = (\<lambda>g. g \<noteq> None),
     pool_closed = (\<lambda>E. E\<lparr>env_begin := Some (Errorf ''closed pool'' None),
       env_query := (\<lambda>name. Some (Errorf ''closed pool'' None))\<rparr>)\<rparr>"

lemma demo_libs_laws: "process_laws demo_libs"
  by (auto simp: process_laws_def demo_libs_def rejects_all_def split: option.split)

abbreviation demo_begin :: "(go_error option, string \<rightharpoonup> string \<times> int) process" where
  "demo_begin \<equiv> start_process demo_libs False (fresh_db [10], Map.empty)"

lemma demo_main_runs: obtains server where
  "main demo_libs demo_startup False (fresh_db [10], Map.empty) = Runs demo_main_service server demo_begin"
proof -
  have host: "ExtractHostPort (golib.truncate demo_lib) ''localhost:8080'' = Inr (''localhost'', ''8080'')" by code_simp
  have key: "NewJWTMaker demo_secret = Inr \<lparr>jm_secretKey = demo_secret\<rparr>" by code_simp
  obtain server where "RunGinServer demo_startup demo_main_config = Inr (demo_main_service, server)"
    by (simp add: RunGinServer_def NewWebAuthnConfig_def NewService_def tmpstore_NewStore_def demo_startup_def
        demo_main_config_def demo_main_service_def host key)
  then have "main demo_libs demo_startup False (fresh_db [10], Map.empty) = Runs demo_main_service server demo_begin"
    by (simp add: main_def LoadConfig_def runDBMigration_def demo_startup_def)
  then show thesis by (rule that)
qed

definition demo_served :: "((string \<times> string) list \<times> (unit, unit) passkey_response \<times> db \<times> (string \<rightharpoonup> string \<times> int)) option" where
  "demo_served = serve demo_main_service calm m_access m_refresh
     (Signup_Start (Inr (demo_signup, None, True)) (Inr ''h'') (Some ''sid'')) demo_web (fresh_db [10], Map.empty)"

lemma demo_served_ok: "map_option (\<lambda>(h, x, d, rs). pk_Status x) demo_served = Some 200"
  by code_simp

lemma demo_main_limits: "config_ok (CommentLimits (sv_config demo_main_service))"
  using demo_inv(2) by (simp add: demo_main_service_def demo_main_config_def demo_config_def store_inv_def)

abbreviation demo_step ::
  "(go_error option, string \<rightharpoonup> string \<times> int) process \<Rightarrow> (go_error option, string \<rightharpoonup> string \<times> int) process \<Rightarrow> bool" where
  "demo_step \<equiv> moves demo_libs demo_main_service"

lemma movesI: "process_step X S a p q \<Longrightarrow> moves X S p q"
  by (auto simp: moves_def)

lemma demo_listens: "demo_step\<^sup>*\<^sup>* demo_begin (demo_begin\<lparr>p_serving := Listening, p_requests := Suc 0\<rparr>)"
proof -
  have "demo_step demo_begin (demo_begin\<lparr>p_serving := Listening\<rparr>)"
    by (rule movesI[OF process_step.Listen]) (simp_all add: start_process_def)
  moreover have "demo_step (demo_begin\<lparr>p_serving := Listening\<rparr>) (demo_begin\<lparr>p_serving := Listening, p_requests := Suc 0\<rparr>)"
    using movesI[OF process_step.Accept[of "demo_begin\<lparr>p_serving := Listening\<rparr>" demo_libs demo_main_service]]
    by (simp add: start_process_def)
  ultimately show ?thesis by (meson rtranclp.rtrancl_into_rtrancl r_into_rtranclp)
qed

text \<open>From a process that listens and has answered its requests to its end.\<close>

lemma demo_stops:
  assumes "p_serving p = Listening" and "p_stopping p = Waiting" and "\<not> ctx_Done X p"
    and "p_requests p = 0" and "p_acquired p = 0"
    and quiet: "eg_Wait X (eg_Return X None (eg_Return X None (p_group p))) = None"
  shows "\<exists>e. (moves X S)\<^sup>*\<^sup>* p e \<and> exit_status X e = Some 0"
proof -
  let ?a = "p\<lparr>p_signalled := True\<rparr>"
  let ?q = "p\<lparr>p_signalled := True, p_inShutdown := True, p_stopping := Shutting_Down\<rparr>"
  let ?b = "p\<lparr>p_signalled := True, p_inShutdown := True, p_stopping := Closing None\<rparr>"
  let ?d = "p\<lparr>p_signalled := True, p_inShutdown := True, p_stopping := Draining None\<rparr>"
  let ?c = "stop_returns X None (?d\<lparr>p_pool := False\<rparr>)"
  let ?e = "serve_returns X (Some ErrServerClosed) ?c"
  have "moves X S p ?a" using assms by (intro movesI[OF process_step.Signal]) (simp_all add: group_Wait_def)
  moreover have "moves X S ?a ?q" using movesI[OF process_step.Shutdown[of ?a X S]] assms by (simp add: ctx_Done_def)
  moreover have "moves X S ?q ?b" using movesI[OF process_step.Drained[of ?q X S]] assms by simp
  moreover have "moves X S ?b ?d" using movesI[OF process_step.Close_Pool[of ?b None X S]] by simp
  moreover have "moves X S ?d ?c"
    using movesI[OF process_step.Pool_Closed[of ?d None "?d\<lparr>p_pool := False\<rparr>" X S]] assms by (simp add: store_Shutdown_Some)
  moreover have "moves X S ?c ?e"
    using movesI[OF process_step.Server_Closed[of ?c X S]] assms by (simp add: returns_defs)
  ultimately have "(moves X S)\<^sup>*\<^sup>* p ?e" by (meson rtranclp.rtrancl_into_rtrancl r_into_rtranclp)
  moreover have "exit_status X ?e = Some 0"
    using quiet by (simp add: exit_status_def group_Wait_def returns_defs)
  ultimately show ?thesis by blast
qed

lemma live_of_run: "(moves X S)\<^sup>*\<^sup>* p q \<Longrightarrow> (live_step X S)\<^sup>*\<^sup>* p q"
  by (induction rule: rtranclp_induct) (auto simp: moves_def intro: rtranclp.rtrancl_into_rtrancl live_step.Run)

lemma demo_answered: obtains d rs where
  "demo_step\<^sup>*\<^sup>* demo_begin (demo_begin\<lparr>p_serving := Listening, p_state := (d, rs)\<rparr>)"
proof -
  let ?p = "demo_begin\<lparr>p_serving := Listening, p_requests := Suc 0\<rparr>"
  obtain x where x: "demo_served = Some x" using demo_served_ok by (cases demo_served) auto
  obtain h resp d rs where "x = (h, resp, d, rs)" by (rule prod_cases4)
  with x have "serve demo_main_service (if hands_out ?p then calm else pool_closed demo_libs calm) m_access m_refresh
      (Signup_Start (Inr (demo_signup, None, True)) (Inr ''h'') (Some ''sid'')) demo_web (p_state ?p) = Some (h, resp, d, rs)"
    by (simp add: demo_served_def start_process_def hands_out_def)
  from movesI[OF process_step.Answer[OF _ _ _ this]] have "demo_step ?p (?p\<lparr>p_requests := 0, p_state := (d, rs)\<rparr>)"
    by (simp add: group_Wait_def start_process_def)
  then have "demo_step ?p (demo_begin\<lparr>p_serving := Listening, p_state := (d, rs)\<rparr>)" by (simp add: start_process_def)
  then show thesis using that demo_listens by (meson rtranclp.rtrancl_into_rtrancl)
qed

lemma process_stops_in_order_witness:
  "\<exists>p. (live_step demo_libs demo_main_service)\<^sup>*\<^sup>* demo_begin p \<and> exit_status demo_libs p = Some 0
    \<and> p_requests p = 0 \<and> \<not> p_pool p \<and> p_serving p = Served None"
proof -
  obtain d rs where run: "demo_step\<^sup>*\<^sup>* demo_begin (demo_begin\<lparr>p_serving := Listening, p_state := (d, rs)\<rparr>)"
    by (rule demo_answered)
  let ?p = "demo_begin\<lparr>p_serving := Listening, p_state := (d, rs)\<rparr>"
  obtain e where stop: "demo_step\<^sup>*\<^sup>* ?p e" "exit_status demo_libs e = Some 0"
    using demo_stops[of ?p demo_libs demo_main_service] by (auto simp: start_process_def demo_libs_def ctx_Done_def)
  then have e: "(live_step demo_libs demo_main_service)\<^sup>*\<^sup>* demo_begin e" "exit_status demo_libs e = Some 0"
    using live_of_run[OF rtranclp_trans[OF run stop(1)]] stop(2) by simp_all
  obtain server where "main demo_libs demo_startup False (fresh_db [10], Map.empty) = Runs demo_main_service server demo_begin"
    by (rule demo_main_runs)
  from process_stops_in_order[OF demo_libs_laws this demo_main_limits e(1)] e show ?thesis by blast
qed

text \<open>
  A request has a connection when a signal comes. The server gives up waiting for it, the pool
  does not: \<open>Close\<close> returns when the request is gone, and the process ends with status 1.
\<close>

definition late_process ::
  "stopping \<Rightarrow> nat \<Rightarrow> (go_error option, string \<rightharpoonup> string \<times> int) process" where
  "late_process stop held = demo_begin\<lparr>p_serving := Listening, p_signalled := True, p_inShutdown := stop \<noteq> Waiting,
     p_stopping := stop, p_requests := held, p_acquired := held\<rparr>"

abbreviation gave_up :: go_error where
  "gave_up \<equiv> Errorf ''context deadline exceeded'' None"

definition late_end :: "(go_error option, string \<rightharpoonup> string \<times> int) process" where
  "late_end = serve_returns demo_libs (Some ErrServerClosed)
     (stop_returns demo_libs (Some gave_up) ((late_process (Draining (Some gave_up)) 0)\<lparr>p_pool := False\<rparr>))"

lemmas late_defs = late_process_def start_process_def

lemma late_steps:
  "demo_step (demo_begin\<lparr>p_serving := Listening, p_requests := Suc 0\<rparr>)
     (demo_begin\<lparr>p_serving := Listening, p_requests := Suc 0, p_acquired := Suc 0\<rparr>)"
  "demo_step (demo_begin\<lparr>p_serving := Listening, p_requests := Suc 0, p_acquired := Suc 0\<rparr>) (late_process Waiting 1)"
  "demo_step (late_process Waiting 1) (late_process Shutting_Down 1)"
  "demo_step (late_process Shutting_Down 1) (late_process (Closing (Some gave_up)) 1)"
  "demo_step (late_process (Closing (Some gave_up)) 1) (late_process (Draining (Some gave_up)) 1)"
  "demo_step (late_process (Draining (Some gave_up)) 1) (late_process (Draining (Some gave_up)) 0)"
proof -
  let ?p = "demo_begin\<lparr>p_serving := Listening, p_requests := Suc 0\<rparr>" and ?S = demo_main_service
  show "demo_step ?p (demo_begin\<lparr>p_serving := Listening, p_requests := Suc 0, p_acquired := Suc 0\<rparr>)"
    using movesI[OF process_step.Acquire[of demo_libs ?p ?S]] by (simp add: group_Wait_def hands_out_def start_process_def)
  show "demo_step (demo_begin\<lparr>p_serving := Listening, p_requests := Suc 0, p_acquired := Suc 0\<rparr>) (late_process Waiting 1)"
    using movesI[OF process_step.Signal[of demo_libs "?p\<lparr>p_acquired := Suc 0\<rparr>" ?S]]
    by (simp add: group_Wait_def ctx_Done_def demo_libs_def late_defs)
  show "demo_step (late_process Waiting 1) (late_process Shutting_Down 1)"
    using movesI[OF process_step.Shutdown[of "late_process Waiting 1" demo_libs ?S]] by (simp add: ctx_Done_def late_defs)
  show "demo_step (late_process Shutting_Down 1) (late_process (Closing (Some gave_up)) 1)"
    using movesI[OF process_step.Shutdown_Failed[of "late_process Shutting_Down 1" demo_libs ?S gave_up]] by (simp add: late_defs)
  show "demo_step (late_process (Closing (Some gave_up)) 1) (late_process (Draining (Some gave_up)) 1)"
    using movesI[OF process_step.Close_Pool[of "late_process (Closing (Some gave_up)) 1" "Some gave_up" demo_libs ?S]]
    by (simp add: late_defs)
  show "demo_step (late_process (Draining (Some gave_up)) 1) (late_process (Draining (Some gave_up)) 0)"
    using movesI[OF process_step.Lose_Held[of demo_libs "late_process (Draining (Some gave_up)) 1" 0 0 ?S]]
    by (simp add: group_Wait_def late_defs)
qed

lemma late_ends: "demo_step\<^sup>*\<^sup>* (late_process (Draining (Some gave_up)) 1) late_end"
  "group_Wait demo_libs late_end \<noteq> None"
proof -
  let ?d = "late_process (Draining (Some gave_up)) 0" and ?S = demo_main_service
  let ?c = "stop_returns demo_libs (Some gave_up) (?d\<lparr>p_pool := False\<rparr>)"
  have "demo_step ?d ?c"
    using movesI[OF process_step.Pool_Closed[of ?d "Some gave_up" "?d\<lparr>p_pool := False\<rparr>" demo_libs ?S]]
    by (simp add: store_Shutdown_Some late_defs)
  moreover have "demo_step ?c late_end"
    using movesI[OF process_step.Server_Closed[of ?c demo_libs ?S]] by (simp add: returns_defs late_defs late_end_def)
  ultimately show "demo_step\<^sup>*\<^sup>* (late_process (Draining (Some gave_up)) 1) late_end"
    using late_steps(6) by (meson rtranclp.rtrancl_into_rtrancl r_into_rtranclp)
  show "group_Wait demo_libs late_end \<noteq> None"
    by (simp add: late_end_def group_Wait_def returns_defs late_defs)
qed

text \<open>A run to a state in which nobody can move is made fair by standing still there.\<close>

lemma over_still: "group_Wait X p \<noteq> None \<Longrightarrow> process_ok X cfg p \<Longrightarrow> \<not> process_step X S a p q"
  by (auto simp: process_ok_def group_Wait_def split: serving.splits stopping.splits elim!: process_step.cases)

lemma fair_run_to:
  assumes "(live_step X S)\<^sup>*\<^sup>* p m" and "(live_step X S)\<^sup>*\<^sup>* m e" and over: "\<And>a q. \<not> process_step X S a e q"
  shows "\<exists>f i. fair_run X S f \<and> f 0 = p \<and> f i = m"
proof -
  obtain n g where g: "g 0 = p" "g n = m" "\<And>i. i < n \<Longrightarrow> live_step X S (g i) (g (Suc i))"
    using assms(1) by (auto simp: rtranclp_power relpowp_fun_conv)
  obtain k h where h: "h 0 = m" "h k = e" "\<And>i. i < k \<Longrightarrow> live_step X S (h i) (h (Suc i))"
    using assms(2) by (auto simp: rtranclp_power relpowp_fun_conv)
  define f where "f i = (if i \<le> n then g i else if i \<le> n + k then h (i - n) else e)" for i
  have stand: "live_step X S e e"
    using live_step.Pass[of X S e "db_now (fst (p_state e))" "snd (p_state e)"] by simp
  have "live_step X S (f i) (f (Suc i))" for i
  proof -
    consider "i < n" | "n \<le> i" "i < n + k" | "n + k \<le> i" by linarith
    then show ?thesis
    proof cases
      case 2
      then have "f i = h (i - n)" "f (Suc i) = h (Suc (i - n))"
        using g(2) h(1) by (auto simp: f_def Suc_diff_le)
      then show ?thesis using h(3)[of "i - n"] 2 by simp
    next
      case 3
      have "f (n + k) = e" using g(2) h(1,2) by (cases k) (auto simp: f_def)
      then have "f i = e" "f (Suc i) = e" using 3 by (cases "i = n + k"; simp add: f_def)+
      then show ?thesis using stand by simp
    qed (use g(3) in \<open>simp add: f_def\<close>)
  qed
  moreover have "\<exists>j\<ge>i. \<forall>q. \<not> process_step X S a (f j) q" for i a
    using over by (intro exI[of _ "i + n + k + 1"]) (simp add: f_def)
  ultimately have "fair_run X S f" unfolding fair_run_def by blast
  moreover have "f 0 = p" "f n = m" using g by (simp_all add: f_def)
  ultimately show ?thesis by blast
qed

lemma shutdown_ends_witness:
  "\<exists>f i j status. fair_run demo_libs demo_main_service f \<and> f 0 = demo_begin \<and> p_acquired (f i) = 1
    \<and> p_inShutdown (f i) \<and> i \<le> j \<and> exit_status demo_libs (f j) = Some status"
proof -
  let ?m = "late_process (Draining (Some gave_up)) 1"
  have "demo_step\<^sup>*\<^sup>* demo_begin ?m"
    using demo_listens late_steps(1-5) by (meson rtranclp.rtrancl_into_rtrancl)
  note runs = live_of_run[OF this] live_of_run[OF late_ends(1)]
  obtain server where main: "main demo_libs demo_startup False (fresh_db [10], Map.empty) = Runs demo_main_service server demo_begin"
    by (rule demo_main_runs)
  have "process_ok demo_libs (CommentLimits (sv_config demo_main_service)) late_end"
    using main_reaches_ok[OF demo_libs_laws main demo_main_limits] runs by (meson rtranclp_trans)
  then obtain f i where f: "fair_run demo_libs demo_main_service f" "f 0 = demo_begin" "f i = ?m"
    using fair_run_to[OF runs] over_still[OF late_ends(2)] by blast
  have "ctx_Done demo_libs (f i)" by (simp add: f(3) ctx_Done_def late_process_def)
  then obtain j status where "i \<le> j" "exit_status demo_libs (f j) = Some status"
    using shutdown_ends[OF demo_libs_laws main[folded f(2)] demo_main_limits f(1)] by blast
  moreover have "p_acquired (f i) = 1" "p_inShutdown (f i)" by (simp_all add: f(3) late_process_def)
  ultimately show ?thesis using f(1,2) by blast
qed

end
