(* ===== verification/Db_Posts.thy ===== *)
theory Db_Posts
  imports Db_Query
begin

text \<open>
  Posts and the votes on them: the tables \<open>posts\<close> and \<open>post_votes\<close> (\<open>db/sqlc/models.go\<close>), the
  statements of \<open>post.sql.go\<close> and \<open>post_vote.sql.go\<close>, and the functions \<open>vote_post\<close> and
  \<open>delete_post_vote\<close> of \<open>000001_init.up.sql\<close> behind two of them.

  The database of the other theories knows the identifiers of the posts only. Here it is one
  part of a larger state, which holds the rows of the posts as well; a statement that adds or
  removes a post changes both. How the server reads a \<open>jsonb\<close> value is an argument \<open>J\<close>: it
  rejects the bytes or returns the text it gives back for them.
\<close>

section \<open>Rows and state\<close>

record Post =
  p_ID :: int
  p_UserID :: int
  p_Title :: string
  p_Topics :: "string option"
  p_Body :: string
  p_Upvotes :: int
  p_Downvotes :: int
  p_CreatedAt :: int
  p_LastModifiedAt :: int
  p_Popularity :: pg_int8

record PostVote =
  pv_ID :: int
  pv_UserID :: int
  pv_PostID :: int
  pv_Vote :: int
  pv_CreatedAt :: int
  pv_LastModifiedAt :: int

record PostsWithAuthor = Post +
  pw_UserDisplayName :: string
  pw_UserProfileImgUrl :: pg_text

text \<open>\<open>sq_posts\<close> and \<open>sq_post_votes\<close> are what the sequences of the two tables give next.\<close>

record posts_db =
  pd_db :: db
  pd_posts :: "Post list"
  pd_votes :: "PostVote list"
  sq_posts :: int
  sq_post_votes :: int

type_synonym 'a post_result = "(go_error + 'a) \<times> posts_db"
type_synonym jsonb = "string \<Rightarrow> string option"

text \<open>A statement over posts fails or runs as every other one does.\<close>

definition post_query :: "string \<Rightarrow> env \<Rightarrow> (posts_db \<Rightarrow> 'a post_result) \<Rightarrow> posts_db \<Rightarrow> 'a post_result" where
  "post_query name E f s = (case env_query E name of Some e \<Rightarrow> (Inl e, s) | None \<Rightarrow> f s)"

definition post_of :: "posts_db \<Rightarrow> int \<Rightarrow> Post option" where
  "post_of s i = find (\<lambda>p. p_ID p = i) (pd_posts s)"

definition post_vote_of :: "posts_db \<Rightarrow> int \<Rightarrow> int \<Rightarrow> PostVote option" where
  "post_vote_of s u i = find (\<lambda>v. pv_UserID v = u \<and> pv_PostID v = i) (pd_votes s)"

definition post_popularity :: "Post \<Rightarrow> Post" where
  "post_popularity p =
     p\<lparr>p_Popularity := \<lparr>i8_Int64 = p_Upvotes p - p_Downvotes p, i8_Valid = True\<rparr>\<rparr>"

definition set_post :: "posts_db \<Rightarrow> Post \<Rightarrow> posts_db" where
  "set_post s p = s\<lparr>pd_posts := map (\<lambda>x. if p_ID x = p_ID p then p else x) (pd_posts s)\<rparr>"

text \<open>An argument of type \<open>jsonb\<close>: a nil slice is NULL.\<close>

fun jsonb_arg :: "jsonb \<Rightarrow> string option \<Rightarrow> string option option" where
  "jsonb_arg J None = Some None"
| "jsonb_arg J (Some bytes) = map_option Some (J bytes)"

definition invalid_json :: "env \<Rightarrow> go_error" where
  "invalid_json E = pg_error_of E ''22P02'' []"

section \<open>Creating, reading and updating a post\<close>

record createPostParams =
  cp_UserID :: int
  cp_Title :: string
  cp_Topics :: "string option"
  cp_Body :: "string option"

definition new_post :: "posts_db \<Rightarrow> createPostParams \<Rightarrow> string option \<Rightarrow> string \<Rightarrow> Post" where
  "new_post s arg topics body = post_popularity \<lparr>p_ID = sq_posts s, p_UserID = cp_UserID arg,
     p_Title = cp_Title arg, p_Topics = topics, p_Body = body, p_Upvotes = 0, p_Downvotes = 0,
     p_CreatedAt = db_now (pd_db s), p_LastModifiedAt = db_now (pd_db s), p_Popularity = null_int8\<rparr>"

definition add_post :: "posts_db \<Rightarrow> Post \<Rightarrow> posts_db" where
  "add_post s p = s\<lparr>pd_posts := pd_posts s @ [p],
     pd_db := (pd_db s)\<lparr>db_posts := db_posts (pd_db s) @ [p_ID p]\<rparr>\<rparr>"

definition createPost :: "env \<Rightarrow> jsonb \<Rightarrow> createPostParams \<Rightarrow> posts_db \<Rightarrow> Post post_result" where
  "createPost E J arg = post_query ''createPost'' E (\<lambda>s.
     case (jsonb_arg J (cp_Topics arg), jsonb_arg J (cp_Body arg)) of
       (Some topics, Some body) \<Rightarrow>
         let s1 = s\<lparr>sq_posts := sq_posts s + 1\<rparr>
         in (case body of
               None \<Rightarrow> (Inl (pg_error_of E ''23502'' []), s1)
             | Some b \<Rightarrow>
                 let p = new_post s arg topics b
                 in if \<not> user_exists (pd_db s) (cp_UserID arg)
                    then (Inl (fk_violation E ''posts_user_id_fkey''), s1)
                    else (Inr p, add_post s1 p))
     | _ \<Rightarrow> (Inl (invalid_json E), s))"

definition getPost :: "env \<Rightarrow> int \<Rightarrow> posts_db \<Rightarrow> Post post_result" where
  "getPost E i = post_query ''getPost'' E (\<lambda>s. (one_row (post_of s i), s))"

record updatePostParams =
  ap_ID :: int
  ap_Title :: pg_text
  ap_Body :: "string option"
  ap_Topics :: "string option"

definition updatePost :: "env \<Rightarrow> jsonb \<Rightarrow> updatePostParams \<Rightarrow> posts_db \<Rightarrow> Post post_result" where
  "updatePost E J arg = post_query ''updatePost'' E (\<lambda>s.
     case (jsonb_arg J (ap_Body arg), jsonb_arg J (ap_Topics arg)) of
       (Some body, Some topics) \<Rightarrow>
         (case post_of s (ap_ID arg) of
            None \<Rightarrow> (Inl ErrNoRows, s)
          | Some p \<Rightarrow>
              let p' = p\<lparr>p_Title := coalesce (ap_Title arg) (p_Title p),
                         p_Body := (case body of Some b \<Rightarrow> b | None \<Rightarrow> p_Body p),
                         p_Topics := (case topics of Some t \<Rightarrow> Some t | None \<Rightarrow> p_Topics p),
                         p_LastModifiedAt := db_now (pd_db s)\<rparr>
              in (Inr p', set_post s p'))
     | _ \<Rightarrow> (Inl (invalid_json E), s))"

section \<open>Posts with their author\<close>

text \<open>The view \<open>posts_with_author\<close>.\<close>

definition post_with_author :: "User \<Rightarrow> Post \<Rightarrow> PostsWithAuthor" where
  "post_with_author u p = Post.extend p
     \<lparr>pw_UserDisplayName = u_DisplayName u, pw_UserProfileImgUrl = u_ProfileImgUrl u\<rparr>"

definition posts_with_author :: "posts_db \<Rightarrow> Post list \<Rightarrow> PostsWithAuthor list" where
  "posts_with_author s ps = concat (map (\<lambda>p. map (\<lambda>u. post_with_author u p)
     [u \<leftarrow> db_users (pd_db s). u_ID u = p_UserID p]) ps)"

definition getPostWithAuthor :: "env \<Rightarrow> int \<Rightarrow> posts_db \<Rightarrow> PostsWithAuthor post_result" where
  "getPostWithAuthor E i = post_query ''getPostWithAuthor'' E (\<lambda>s.
     (one_row (case posts_with_author s [p \<leftarrow> pd_posts s. p_ID p = i] of [] \<Rightarrow> None | w # _ \<Rightarrow> Some w), s))"

type_synonym post_order = "PostsWithAuthor \<Rightarrow> int \<times> int"

definition newest_first :: post_order where "newest_first w = (- p_CreatedAt w, - p_ID w)"
definition oldest_first :: post_order where "oldest_first w = (p_CreatedAt w, p_ID w)"

definition post_page ::
  "post_order \<Rightarrow> env \<Rightarrow> int \<Rightarrow> int \<Rightarrow> posts_db \<Rightarrow> PostsWithAuthor list post_result" where
  "post_page key E limit offset s =
     (if offset < 0 then (Inl (pg_error_of E ''2201X'' []), s)
      else if limit < 0 then (Inl (pg_error_of E ''2201W'' []), s)
      else (Inr (take (nat limit) (drop (nat offset)
              (sort_key key (posts_with_author s (pd_posts s))))), s))"

definition getNewestPosts :: "env \<Rightarrow> int \<Rightarrow> int \<Rightarrow> posts_db \<Rightarrow> PostsWithAuthor list post_result" where
  "getNewestPosts E limit offset = post_query ''getNewestPosts'' E (post_page newest_first E limit offset)"

definition getOldestPosts :: "env \<Rightarrow> int \<Rightarrow> int \<Rightarrow> posts_db \<Rightarrow> PostsWithAuthor list post_result" where
  "getOldestPosts E limit offset = post_query ''getOldestPosts'' E (post_page oldest_first E limit offset)"

text \<open>
  The statement names a table \<open>p\<close> that its \<open>FROM\<close> clause does not have, so the server rejects
  it (\<open>undefined_table\<close>) before it reads a row or looks at its arguments.
\<close>

definition getPostsByPopularity ::
  "env \<Rightarrow> int \<Rightarrow> int \<Rightarrow> int \<Rightarrow> posts_db \<Rightarrow> PostsWithAuthor list post_result" where
  "getPostsByPopularity E limit offset interval = post_query ''getPostsByPopularity'' E (\<lambda>s.
     (Inl (pg_error_of E ''42P01'' []), s))"

section \<open>Deleting a post\<close>

text \<open>
  \<open>ON DELETE CASCADE\<close>: the votes and comments of the post go with it, and with a comment its
  replies and its votes. A round adds the replies to what is removed; there are at most as many
  rounds as comments.
\<close>

fun with_replies :: "nat \<Rightarrow> Comment list \<Rightarrow> int list \<Rightarrow> int list" where
  "with_replies 0 cs is = is"
| "with_replies (Suc n) cs is = with_replies n cs
     (is @ [c_ID c. c \<leftarrow> cs, c_ID c \<notin> set is \<and> i8_Valid (c_ParentID c) \<and> i8_Int64 (c_ParentID c) \<in> set is])"

definition removed_comments :: "db \<Rightarrow> int \<Rightarrow> int list" where
  "removed_comments d i = with_replies (length (db_comments d)) (db_comments d)
     [c_ID c. c \<leftarrow> db_comments d, c_PostID c = i]"

definition remove_post :: "int \<Rightarrow> db \<Rightarrow> db" where
  "remove_post i d =
     d\<lparr>db_posts := [j \<leftarrow> db_posts d. j \<noteq> i],
       db_comments := [c \<leftarrow> db_comments d. c_ID c \<notin> set (removed_comments d i)],
       db_votes := [v \<leftarrow> db_votes d. cv_CommentID v \<notin> set (removed_comments d i)]\<rparr>"

definition deletePost :: "env \<Rightarrow> int \<Rightarrow> posts_db \<Rightarrow> unit post_result" where
  "deletePost E i = post_query ''deletePost'' E (\<lambda>s.
     (Inr (), if post_of s i = None then s
              else s\<lparr>pd_posts := [p \<leftarrow> pd_posts s. p_ID p \<noteq> i],
                     pd_votes := [v \<leftarrow> pd_votes s. pv_PostID v \<noteq> i],
                     pd_db := remove_post i (pd_db s)\<rparr>))"

section \<open>Votes\<close>

definition getPostVote :: "env \<Rightarrow> int \<Rightarrow> int \<Rightarrow> posts_db \<Rightarrow> PostVote post_result" where
  "getPostVote E user post = post_query ''getPostVote'' E (\<lambda>s. (one_row (post_vote_of s user post), s))"

definition in_smallint :: "int \<Rightarrow> bool" where
  "in_smallint x \<longleftrightarrow> - (2 ^ 15) \<le> x \<and> x < 2 ^ 15"

text \<open>The part \<open>bump\<close>: the counters of the post move by the two deltas.\<close>

definition bump_post :: "posts_db \<Rightarrow> int \<Rightarrow> int \<times> int \<Rightarrow> (Post \<times> posts_db) option option" where
  "bump_post s i ds = (case post_of s i of
       None \<Rightarrow> Some None
     | Some p \<Rightarrow>
         let p' = post_popularity (p\<lparr>p_Upvotes := p_Upvotes p + fst ds, p_Downvotes := p_Downvotes p + snd ds\<rparr>)
         in if in_bigint (p_Upvotes p') \<and> in_bigint (p_Downvotes p') \<and> in_bigint (i8_Int64 (p_Popularity p'))
            then Some (Some (p', set_post s p')) else None)"

text \<open>The deltas of \<open>upd\<close>, for a vote that changes, and of \<open>ins\<close>, for a new one.\<close>

definition changed_deltas :: "int \<Rightarrow> int \<times> int" where
  "changed_deltas v = (if v = 1 then 1 else -1, if v = -1 then 1 else -1)"

definition new_deltas :: "int \<Rightarrow> int \<times> int" where
  "new_deltas v = (if v = 1 then 1 else 0, if v = -1 then 1 else 0)"

text \<open>
  What the driver answers when it is to read the NULL columns of a row into a \<open>Post\<close>: the
  function returns such a row when there is no post.
\<close>

definition null_row :: "env \<Rightarrow> go_error" where
  "null_row E = Errorf (env_text E [] ''id'') None"

definition vote_post :: "env \<Rightarrow> int \<Rightarrow> int \<Rightarrow> int \<Rightarrow> posts_db \<Rightarrow> Post post_result" where
  "vote_post E user post vote s =
     (let s1 = s\<lparr>sq_post_votes := sq_post_votes s + 1\<rparr>
      in case post_vote_of s user post of
           Some v \<Rightarrow>
             if pv_Vote v = vote then (case post_of s post of None \<Rightarrow> Inl (null_row E) | Some p \<Rightarrow> Inr p, s1)
             else if \<not> in_smallint vote then (Inl (out_of_range E), s)
             else
               let v' = v\<lparr>pv_Vote := vote, pv_LastModifiedAt := db_now (pd_db s)\<rparr>;
                   s2 = s1\<lparr>pd_votes := map (\<lambda>x. if pv_UserID x = user \<and> pv_PostID x = post
                                              then v' else x) (pd_votes s)\<rparr>
               in (case bump_post s2 post (changed_deltas vote) of
                     None \<Rightarrow> (Inl (out_of_range E), s1)
                   | Some None \<Rightarrow> (Inl (null_row E), s2)
                   | Some (Some (p, s3)) \<Rightarrow> (Inr p, s3))
         | None \<Rightarrow>
             if \<not> in_smallint vote then (Inl (out_of_range E), s1)
             else
               let v = \<lparr>pv_ID = sq_post_votes s, pv_UserID = user, pv_PostID = post, pv_Vote = vote,
                        pv_CreatedAt = db_now (pd_db s), pv_LastModifiedAt = db_now (pd_db s)\<rparr>
               in (case bump_post (s1\<lparr>pd_votes := pd_votes s @ [v]\<rparr>) post (new_deltas vote) of
                     None \<Rightarrow> (Inl (out_of_range E), s1)
                   | Some r \<Rightarrow>
                       if \<not> user_exists (pd_db s) user
                       then (Inl (fk_violation E ''post_votes_user_id_fkey''), s1)
                       else (case r of
                               None \<Rightarrow> (Inl (fk_violation E ''post_votes_post_id_fkey''), s1)
                             | Some (p, s3) \<Rightarrow> (Inr p, s3))))"

definition votePost :: "env \<Rightarrow> int \<Rightarrow> int \<Rightarrow> int \<Rightarrow> posts_db \<Rightarrow> Post post_result" where
  "votePost E user post vote = post_query ''votePost'' E (vote_post E user post vote)"

definition removed_deltas :: "int \<Rightarrow> int \<times> int" where
  "removed_deltas v = (if v = 1 then -1 else 0, if v = -1 then -1 else 0)"

definition delete_post_vote :: "env \<Rightarrow> int \<Rightarrow> int \<Rightarrow> posts_db \<Rightarrow> unit post_result" where
  "delete_post_vote E post user s = (case post_vote_of s user post of
       None \<Rightarrow> (Inr (), s)
     | Some v \<Rightarrow>
         let s1 = s\<lparr>pd_votes := [x \<leftarrow> pd_votes s. \<not> (pv_UserID x = user \<and> pv_PostID x = post)]\<rparr>
         in (case bump_post s1 post (removed_deltas (pv_Vote v)) of
               None \<Rightarrow> (Inl (out_of_range E), s)
             | Some None \<Rightarrow> (Inr (), s1)
             | Some (Some (p, s2)) \<Rightarrow> (Inr (), s2)))"

definition deletePostVote :: "env \<Rightarrow> int \<Rightarrow> int \<Rightarrow> posts_db \<Rightarrow> unit post_result" where
  "deletePostVote E post user = post_query ''deletePostVote'' E (delete_post_vote E post user)"

end
