(* ===== verification/Db_Posts_Inv.thy ===== *)
theory Db_Posts_Inv
  imports Db_Posts
begin

text \<open>
  The posts, their votes and the rest of the store together: the invariant of the posts, that
  the statements over posts and every operation of the store keep it, and that deleting a post
  leaves a consistent store behind. Votes on posts are counted by the lemmas for votes on
  comments, through \<open>as_vote\<close>.
\<close>

section \<open>The invariant\<close>

definition as_vote :: "PostVote \<Rightarrow> CommentVote" where
  "as_vote v = \<lparr>cv_ID = pv_ID v, cv_UserID = pv_UserID v, cv_CommentID = pv_PostID v,
     cv_Vote = pv_Vote v, cv_CreatedAt = pv_CreatedAt v, cv_LastModifiedAt = pv_LastModifiedAt v\<rparr>"

definition post_tally :: "PostVote list \<Rightarrow> int \<Rightarrow> int \<Rightarrow> int" where
  "post_tally vs i side = len [v \<leftarrow> vs. pv_PostID v = i \<and> pv_Vote v = side]"

text \<open>
  Nothing checks the value of a vote on a post. \<open>V\<close> has the values that are cast; only where they
  are 1 and -1 do the counters follow the votes.
\<close>

definition post_ok :: "int set \<Rightarrow> int set \<Rightarrow> int \<Rightarrow> PostVote list \<Rightarrow> Post \<Rightarrow> bool" where
  "post_ok V us n vs p \<longleftrightarrow> p_ID p < n \<and> p_UserID p \<in> us
     \<and> p_Popularity p = \<lparr>i8_Int64 = p_Upvotes p - p_Downvotes p, i8_Valid = True\<rparr>
     \<and> (V \<subseteq> {1, -1} \<longrightarrow>
          p_Upvotes p = post_tally vs (p_ID p) 1 \<and> p_Downvotes p = post_tally vs (p_ID p) (-1))"

definition post_vote_ok :: "int set \<Rightarrow> int set \<Rightarrow> int set \<Rightarrow> PostVote \<Rightarrow> bool" where
  "post_vote_ok V us is v \<longleftrightarrow> pv_Vote v \<in> V \<and> pv_UserID v \<in> us \<and> pv_PostID v \<in> is"

definition post_key :: "PostVote \<Rightarrow> int \<times> int" where
  "post_key v = (pv_UserID v, pv_PostID v)"

definition posts_wf :: "int set \<Rightarrow> posts_db \<Rightarrow> bool" where
  "posts_wf V s \<longleftrightarrow> map p_ID (pd_posts s) = db_posts (pd_db s) \<and> distinct (map p_ID (pd_posts s))
     \<and> (\<forall>p\<in>set (pd_posts s). post_ok V (user_ids (pd_db s)) (sq_posts s) (pd_votes s) p)
     \<and> distinct (map post_key (pd_votes s))
     \<and> (\<forall>v\<in>set (pd_votes s). post_vote_ok V (user_ids (pd_db s)) (p_ID ` set (pd_posts s)) v)"

definition posts_inv :: "int set \<Rightarrow> given \<Rightarrow> store_config \<Rightarrow> posts_db \<Rightarrow> bool" where
  "posts_inv V g cfg s \<longleftrightarrow> db_wf_from g cfg (pd_db s) \<and> posts_wf V s"

section \<open>Counting votes\<close>

lemma post_tally_votes: "post_tally vs i side = tally (map as_vote vs) i side"
  by (induction vs) (simp_all add: post_tally_def as_vote_def len_def)

lemma as_vote_sel [simp]:
  "cv_CommentID (as_vote v) = pv_PostID v" "cv_Vote (as_vote v) = pv_Vote v" "vote_key (as_vote v) = post_key v"
  by (simp_all add: as_vote_def vote_key_def post_key_def)

lemma post_tally_append [simp]:
  "post_tally (vs @ [v]) i side = post_tally vs i side + (if pv_PostID v = i \<and> pv_Vote v = side then 1 else 0)"
  by (simp add: post_tally_def len_def)

lemma post_tally_Cons [simp]:
  "post_tally (v # vs) i side = post_tally vs i side + (if pv_PostID v = i \<and> pv_Vote v = side then 1 else 0)"
  by (simp add: post_tally_def len_def)

lemma post_tally_none: "i \<notin> pv_PostID ` set vs \<Longrightarrow> post_tally vs i side = 0"
  by (auto simp: post_tally_def len_def filter_empty_conv)

lemma post_tally_changed:
  assumes "distinct (map post_key vs)" and "v \<in> set vs" and "post_key v' = post_key v"
  shows "post_tally (map (\<lambda>x. if post_key x = post_key v then v' else x) vs) i side
    = post_tally vs i side + (if i = pv_PostID v then vote_delta side (pv_Vote v') (pv_Vote v) else 0)"
proof -
  have "map as_vote (map (\<lambda>x. if post_key x = post_key v then v' else x) vs) = revoted (map as_vote vs) (as_vote v')"
    using assms(3) by (simp add: revoted_def o_def if_distrib)
  then show ?thesis
    using tally_revoted[of "map as_vote vs" "as_vote v" "as_vote v'" i side] assms
    by (simp add: post_tally_votes o_def)
qed

lemma post_tally_removed:
  assumes "distinct (map post_key vs)" and "v \<in> set vs"
  shows "post_tally [x \<leftarrow> vs. post_key x \<noteq> post_key v] i side
    = post_tally vs i side - (if i = pv_PostID v \<and> pv_Vote v = side then 1 else 0)"
  using assms
proof (induction vs)
  case (Cons x vs)
  show ?case
  proof (cases "x = v")
    case True
    with Cons.prems(1) have "[y \<leftarrow> vs. post_key y \<noteq> post_key v] = vs"
      by (simp add: filter_id_conv) (metis image_eqI)
    then show ?thesis using True by simp
  next
    case False
    then have "v \<in> set vs" "post_key x \<noteq> post_key v" using Cons.prems by force+
    then show ?thesis using Cons by simp
  qed
qed simp

lemma post_tally_kept:
  "j \<noteq> i \<Longrightarrow> post_tally [v \<leftarrow> vs. pv_PostID v \<noteq> i] j side = post_tally vs j side"
  by (induction vs) (simp_all add: post_tally_def len_def)

section \<open>Looking rows up\<close>

lemma post_of_Some: "post_of s i = Some p \<Longrightarrow> p \<in> set (pd_posts s) \<and> p_ID p = i"
  unfolding post_of_def by (drule find_in) simp

lemma post_of_None: "post_of s i = None \<longleftrightarrow> i \<notin> p_ID ` set (pd_posts s)"
  by (auto simp: post_of_def find_none)

lemma post_vote_of_Some: "post_vote_of s u i = Some v \<Longrightarrow> v \<in> set (pd_votes s) \<and> post_key v = (u, i)"
  unfolding post_vote_of_def post_key_def by (drule find_in) simp

lemma post_vote_of_None: "post_vote_of s u i = None \<longleftrightarrow> (u, i) \<notin> post_key ` set (pd_votes s)"
  by (auto simp: post_vote_of_def post_key_def find_none)

lemma user_exists_ids: "user_exists d u \<longleftrightarrow> u \<in> user_ids d"
  by (simp add: user_exists_def user_ids_def)

section \<open>Operations of the store\<close>

definition same_posts :: "db \<Rightarrow> db \<Rightarrow> bool" where
  "same_posts d d1 \<longleftrightarrow> db_posts d1 = db_posts d \<and> user_ids d \<subseteq> user_ids d1"

lemma same_posts_refl [simp]: "same_posts d d"
  by (simp add: same_posts_def)

lemma same_posts_trans: "same_posts d d1 \<Longrightarrow> same_posts d1 d2 \<Longrightarrow> same_posts d d2"
  by (auto simp: same_posts_def)

lemma same_comments_posts: "same_comments d d1 \<Longrightarrow> same_posts d d1"
  by (simp add: same_comments_def same_posts_def)

lemma same_posts_statements:
  "same_posts d (snd (createComment E arg d))"
  "same_posts d (snd (getCommentWithLock E i d))"
  "same_posts d (snd (getRootCommentCountForUser E p u d))"
  "same_posts d (snd (softDeleteComment E i d))"
  "same_posts d (snd (updateCommentPopularity E i x y d))"
  "same_posts d (snd (deleteCommentIfLeaf E i u p d))"
  "same_posts d (snd (updateComment E i u p b d))"
  "same_posts d (snd (upsertCommentVote E u i v d))"
  by (simp_all add: same_posts_def user_ids_def query_def createComment_def getCommentWithLock_def
      getRootCommentCountForUser_def softDeleteComment_def updateCommentPopularity_def
      deleteCommentIfLeaf_def updateComment_def upsertCommentVote_def Let_def set_comment_def
      remove_comment_def split: option.split)

lemma same_posts_result:
  "createComment E arg d = (r1, d1) \<Longrightarrow> same_posts d d1"
  "getCommentWithLock E i d = (r2, d1) \<Longrightarrow> same_posts d d1"
  "getRootCommentCountForUser E p u d = (r3, d1) \<Longrightarrow> same_posts d d1"
  "softDeleteComment E i d = (r4, d1) \<Longrightarrow> same_posts d d1"
  "updateCommentPopularity E i x y d = (r5, d1) \<Longrightarrow> same_posts d d1"
  "deleteCommentIfLeaf E i u p d = (r6, d1) \<Longrightarrow> same_posts d d1"
  "upsertCommentVote E u i v d = (r7, d1) \<Longrightarrow> same_posts d d1"
  using same_posts_statements by (metis snd_conv)+

lemma same_posts_bodies:
  "same_posts d (snd (insert_body cfg arg E d))"
  "same_posts d (snd (delete_body darg E d))"
  "same_posts d (snd (vote_body varg E d))"
  by (auto simp: insert_body_def insert_depth_def delete_body_def vote_body_def Let_def
      split: sum.split prod.split if_split dest!: same_posts_result intro: same_posts_trans)

lemma same_posts_tx: "same_posts d (snd (body E d)) \<Longrightarrow> same_posts d (snd (execTx E body d))"
  using execTx_cases[of E body d] by (auto simp: same_posts_def rolled_back_def user_ids_def)

lemma store_step_posts:
  assumes "store_step cfg k d d1"
  shows "same_posts d d1"
  using assms
proof cases
  case (Insert arg E)
  then show ?thesis by (simp add: InsertCommentTx_def same_posts_tx same_posts_bodies)
next
  case (Delete E darg)
  then show ?thesis by (simp add: DeleteCommentTx_tx same_posts_tx same_posts_bodies)
next
  case (Vote E varg)
  then show ?thesis by (simp add: VoteCommentTx_def same_posts_tx same_posts_bodies)
next
  case (Update E uarg)
  then show ?thesis using same_posts_statements(7) by (simp add: single_statements)
next
  case (Create_User E carg)
  then show ?thesis using same_comments_posts[OF same_comments_txs(1)] by (simp add: CreateUserWithCredentialsTx_def)
next
  case (Update_User E parg)
  then show ?thesis
    using UpdateUser_statement[of E parg d] same_comments_posts[OF same_comments_statements(6)] by fastforce
next
  case (Delete_User E i)
  then show ?thesis using same_comments_posts[OF same_comments_txs(2)] by (simp add: SoftDeleteUserTx_def)
next
  case (Use_Credential E rarg)
  then show ?thesis using same_comments_posts[OF same_comments_statements(7)] by (simp add: single_statements)
next
  case (Create_Session uuid_text E sarg)
  then show ?thesis using same_comments_posts[OF same_comments_statements(8)] by (simp add: single_statements)
next
  case (Tick t)
  then show ?thesis by (simp add: same_posts_def user_ids_def)
qed

section \<open>Statements keep the invariant\<close>

lemma posts_wf_store:
  assumes "posts_wf V s" and "same_posts (pd_db s) d"
  shows "posts_wf V (s\<lparr>pd_db := d\<rparr>)"
  using assms by (auto simp: posts_wf_def same_posts_def post_ok_def post_vote_ok_def)

lemma posts_wf_seq:
  "posts_wf V s \<Longrightarrow> sq_posts s \<le> n \<Longrightarrow> posts_wf V (s\<lparr>sq_posts := n\<rparr>)"
  "posts_wf V s \<Longrightarrow> posts_wf V (s\<lparr>sq_post_votes := m\<rparr>)"
  by (force simp: posts_wf_def post_ok_def)+

text \<open>The row of one post changes, and the votes with it.\<close>

lemma set_post_ids: "map p_ID (pd_posts (set_post s p)) = map p_ID (pd_posts s)"
  by (simp add: set_post_def)

lemma set_post_wf:
  assumes wf: "posts_wf V s" and p: "p \<in> set (pd_posts s)" "p_ID p' = p_ID p" "p_UserID p' = p_UserID p"
    and pop: "p_Popularity p' = \<lparr>i8_Int64 = p_Upvotes p' - p_Downvotes p', i8_Valid = True\<rparr>"
    and keys: "distinct (map post_key vs)"
    and ok: "\<And>v. v \<in> set vs \<Longrightarrow> post_vote_ok V (user_ids (pd_db s)) (p_ID ` set (pd_posts s)) v"
    and others: "\<And>j side. V \<subseteq> {1, -1} \<Longrightarrow> j \<noteq> p_ID p \<Longrightarrow>
        post_tally vs j side = post_tally (pd_votes s) j side"
    and count: "V \<subseteq> {1, -1} \<Longrightarrow>
        p_Upvotes p' = post_tally vs (p_ID p) 1 \<and> p_Downvotes p' = post_tally vs (p_ID p) (-1)"
  shows "posts_wf V (set_post (s\<lparr>sq_post_votes := n, pd_votes := vs\<rparr>) p')"
proof -
  have old: "post_ok V (user_ids (pd_db s)) (sq_posts s) (pd_votes s) x" if "x \<in> set (pd_posts s)" for x
    using wf that by (simp add: posts_wf_def)
  let ?ps = "map (\<lambda>x. if p_ID x = p_ID p' then p' else x) (pd_posts s)"
  have "post_ok V (user_ids (pd_db s)) (sq_posts s) vs x'" if h: "x' \<in> set ?ps" for x'
  proof -
    obtain x where x: "x \<in> set (pd_posts s)" "x' = (if p_ID x = p_ID p' then p' else x)"
      using h by auto
    show ?thesis
      using old[OF x(1)] old[OF p(1)] x(2) p(2,3) pop count others[of "p_ID x"]
      by (cases "V \<subseteq> {1, -1}") (simp_all add: post_ok_def)
  qed
  moreover have "distinct (db_posts (pd_db s))" using wf by (metis posts_wf_def)
  moreover have ids: "map p_ID ?ps = map p_ID (pd_posts s)" by simp
  moreover have "p_ID ` set ?ps = p_ID ` set (pd_posts s)" using ids by (metis list.set_map)
  ultimately show ?thesis
    using wf ok keys by (simp add: posts_wf_def set_post_def del: map_map set_map)
qed

text \<open>The votes change and the counters of the post follow by the deltas.\<close>

lemma bump_wf:
  assumes wf: "posts_wf V s" and keys: "distinct (map post_key vs)"
    and ok: "\<And>v. v \<in> set vs \<Longrightarrow> post_vote_ok V (user_ids (pd_db s)) (p_ID ` set (pd_posts s)) v"
    and bump: "bump_post (s\<lparr>sq_post_votes := n, pd_votes := vs\<rparr>) i ds = Some (Some (p', s'))"
    and tally: "\<And>j side. V \<subseteq> {1, -1} \<Longrightarrow> post_tally vs j side = post_tally (pd_votes s) j side
      + (if j = i then (if side = 1 then fst ds else if side = -1 then snd ds else 0) else 0)"
  shows "posts_wf V s'"
proof -
  let ?t = "s\<lparr>sq_post_votes := n, pd_votes := vs\<rparr>"
  obtain p where p: "post_of ?t i = Some p" using bump by (cases "post_of ?t i") (simp_all add: bump_post_def)
  have mem: "p \<in> set (pd_posts s)" "p_ID p = i" using post_of_Some[OF p] by simp_all
  then have old: "post_ok V (user_ids (pd_db s)) (sq_posts s) (pd_votes s) p" using wf by (simp add: posts_wf_def)
  have eq: "p' = post_popularity (p\<lparr>p_Upvotes := p_Upvotes p + fst ds, p_Downvotes := p_Downvotes p + snd ds\<rparr>)"
      "s' = set_post ?t p'"
    using bump p by (auto simp: bump_post_def Let_def split: if_splits)
  show ?thesis
    unfolding eq(2)
  proof (rule set_post_wf[OF wf mem(1) _ _ _ keys ok])
    fix j side
    assume "V \<subseteq> {1, -1}" "j \<noteq> p_ID p"
    then show "post_tally vs j side = post_tally (pd_votes s) j side" using tally mem(2) by simp
  qed (use old mem(2) tally[of i] in \<open>simp_all add: eq(1) post_popularity_def post_ok_def\<close>)
qed

lemma post_of_frame [simp]: "post_of (s\<lparr>pd_votes := vs\<rparr>) i = post_of s i" "post_of (s\<lparr>sq_post_votes := n\<rparr>) i = post_of s i"
  by (simp_all add: post_of_def)

lemma bump_missing: "bump_post s i ds = Some None \<longleftrightarrow> post_of s i = None"
  by (simp add: bump_post_def Let_def split: option.split)

lemma bump_found: "bump_post s i ds = Some (Some r) \<Longrightarrow> post_of s i \<noteq> None"
  by (cases "post_of s i") (simp_all add: bump_post_def)

text \<open>Each statement over votes.\<close>

lemma vote_post_wf:
  assumes wf: "posts_wf V s" and vote: "vote \<in> V"
  shows "posts_wf V (snd (vote_post E user post vote s))"
proof (cases "post_vote_of s user post")
  case None
  let ?v = "\<lparr>pv_ID = sq_post_votes s, pv_UserID = user, pv_PostID = post, pv_Vote = vote,
              pv_CreatedAt = db_now (pd_db s), pv_LastModifiedAt = db_now (pd_db s)\<rparr>"
  have keys: "distinct (map post_key (pd_votes s @ [?v]))"
    using wf None by (simp add: post_vote_of_None posts_wf_def post_key_def)
  have ok: "post_vote_ok V (user_ids (pd_db s)) (p_ID ` set (pd_posts s)) x"
    if "x \<in> set (pd_votes s @ [?v])" "user_exists (pd_db s) user" "post_of s post \<noteq> None" for x
    using that wf vote by (auto simp: posts_wf_def post_vote_ok_def user_exists_ids post_of_None)
  have tally: "post_tally (pd_votes s @ [?v]) j side = post_tally (pd_votes s) j side + (if j = post then
      (if side = 1 then fst (new_deltas vote) else if side = -1 then snd (new_deltas vote) else 0) else 0)"
    if "V \<subseteq> {1, -1}" for j side
    using vote that by (auto simp: new_deltas_def)
  have "posts_wf V s'"
    if "bump_post (s\<lparr>sq_post_votes := sq_post_votes s + 1, pd_votes := pd_votes s @ [?v]\<rparr>) post (new_deltas vote)
        = Some (Some (p, s'))" and "user_exists (pd_db s) user" for p s'
    using bump_wf[OF wf keys ok that(1) tally] that(2) bump_found[OF that(1)] by simp
  then show ?thesis
    using None posts_wf_seq(2)[OF wf] by (auto simp: vote_post_def Let_def split: option.split)
next
  case (Some v)
  have v: "v \<in> set (pd_votes s)" "post_key v = (user, post)" using post_vote_of_Some[OF Some] by simp_all
  let ?v = "v\<lparr>pv_Vote := vote, pv_LastModifiedAt := db_now (pd_db s)\<rparr>"
  let ?vs = "map (\<lambda>x. if pv_UserID x = user \<and> pv_PostID x = post then ?v else x) (pd_votes s)"
  have vs: "?vs = map (\<lambda>x. if post_key x = post_key v then ?v else x) (pd_votes s)"
    using v(2) by (auto simp: post_key_def)
  have key: "post_key ?v = post_key v" by (simp add: post_key_def)
  have keys: "distinct (map post_key ?vs)"
  proof -
    have "map post_key ?vs = map post_key (pd_votes s)" unfolding vs using key by simp
    then show ?thesis using wf by (metis posts_wf_def)
  qed
  have old: "post_vote_ok V (user_ids (pd_db s)) (p_ID ` set (pd_posts s)) x" if "x \<in> set (pd_votes s)" for x
    using wf that by (simp add: posts_wf_def)
  have ok: "post_vote_ok V (user_ids (pd_db s)) (p_ID ` set (pd_posts s)) x" if "x \<in> set ?vs" for x
    using that old old[OF v(1)] vote by (auto simp: post_vote_ok_def split: if_splits)
  have tally: "post_tally ?vs j side = post_tally (pd_votes s) j side + (if j = post then
      (if side = 1 then fst (changed_deltas vote) else if side = -1 then snd (changed_deltas vote) else 0) else 0)"
    if "pv_Vote v \<noteq> vote" "V \<subseteq> {1, -1}" for j side
    unfolding vs using post_tally_changed[OF _ v(1) key, of j side] wf that vote old[OF v(1)] v(2)
    by (auto simp: posts_wf_def changed_deltas_def vote_delta_def post_key_def post_vote_ok_def)
  have found: "post_of s post \<noteq> None"
    using old[OF v(1)] v(2) by (simp add: post_vote_ok_def post_key_def post_of_None)
  have "posts_wf V s'"
    if "bump_post (s\<lparr>sq_post_votes := sq_post_votes s + 1, pd_votes := ?vs\<rparr>) post (changed_deltas vote)
        = Some (Some (p, s'))" and "pv_Vote v \<noteq> vote" for p s'
    using bump_wf[OF wf keys ok that(1) tally[OF that(2)]] by simp
  then show ?thesis
    using Some posts_wf_seq(2)[OF wf] wf found
    by (auto simp: vote_post_def Let_def bump_missing split: option.split)
qed

lemma delete_post_vote_wf:
  assumes wf: "posts_wf V s"
  shows "posts_wf V (snd (delete_post_vote E post user s))"
proof (cases "post_vote_of s user post")
  case (Some v)
  have v: "v \<in> set (pd_votes s)" "post_key v = (user, post)" using post_vote_of_Some[OF Some] by simp_all
  let ?vs = "[x \<leftarrow> pd_votes s. \<not> (pv_UserID x = user \<and> pv_PostID x = post)]"
  have vs: "?vs = [x \<leftarrow> pd_votes s. post_key x \<noteq> post_key v]" using v(2) by (auto simp: post_key_def)
  have keys: "distinct (map post_key ?vs)" using wf by (simp add: posts_wf_def distinct_map_filter)
  have ok: "post_vote_ok V (user_ids (pd_db s)) (p_ID ` set (pd_posts s)) x" if "x \<in> set ?vs" for x
    using that wf by (simp add: posts_wf_def)
  have tally: "post_tally ?vs j side = post_tally (pd_votes s) j side + (if j = post then
      (if side = 1 then fst (removed_deltas (pv_Vote v)) else if side = -1 then snd (removed_deltas (pv_Vote v)) else 0)
      else 0)" if "V \<subseteq> {1, -1}" for j side
    unfolding vs using that post_tally_removed[OF _ v(1), of j side] wf v ok
    by (auto simp: posts_wf_def removed_deltas_def post_key_def post_vote_ok_def)
  have found: "post_of s post \<noteq> None"
    using wf v by (auto simp: posts_wf_def post_vote_ok_def post_key_def post_of_None)
  have "posts_wf V s'"
    if "bump_post (s\<lparr>pd_votes := ?vs\<rparr>) post (removed_deltas (pv_Vote v))
        = Some (Some (p, s'))" for p s'
    using bump_wf[OF wf keys ok _ tally, of "sq_post_votes s"] that by simp
  then show ?thesis
    using Some wf found by (auto simp: delete_post_vote_def Let_def bump_missing split: option.split)
qed (use wf in \<open>simp add: delete_post_vote_def\<close>)

section \<open>Removing a post\<close>

text \<open>A set of comments the cascade does not grow: it has the replies to its members.\<close>

definition reply_closed :: "Comment list \<Rightarrow> int set \<Rightarrow> bool" where
  "reply_closed cs S \<longleftrightarrow>
     (\<forall>c\<in>set cs. i8_Valid (c_ParentID c) \<and> i8_Int64 (c_ParentID c) \<in> S \<longrightarrow> c_ID c \<in> S)"

lemma with_replies_closed: "reply_closed cs (set is) \<Longrightarrow> with_replies n cs is = is"
proof (induction n)
  case (Suc n)
  have "[c_ID c. c \<leftarrow> cs, c_ID c \<notin> set is \<and> i8_Valid (c_ParentID c) \<and> i8_Int64 (c_ParentID c) \<in> set is] = []"
    using Suc.prems by (auto simp: reply_closed_def)
  then show ?case using Suc.IH[OF Suc.prems] by (simp only: with_replies.simps append_Nil2)
qed simp

text \<open>As many rounds as there are comments are enough.\<close>

lemma with_replies_enough:
  "length [c \<leftarrow> cs. c_ID c \<notin> set is] \<le> n \<Longrightarrow> reply_closed cs (set (with_replies n cs is))"
proof (induction n arbitrary: "is")
  case 0
  then show ?case by (auto simp: reply_closed_def filter_empty_conv)
next
  case (Suc n)
  show ?case
  proof (cases "reply_closed cs (set is)")
    case True
    then show ?thesis using with_replies_closed by metis
  next
    case False
    let ?new = "[c_ID c. c \<leftarrow> cs, c_ID c \<notin> set is \<and> i8_Valid (c_ParentID c) \<and> i8_Int64 (c_ParentID c) \<in> set is]"
    obtain c where c: "c \<in> set cs" "c_ID c \<notin> set is" "c_ID c \<in> set ?new"
      using False by (auto simp: reply_closed_def)
    have "length [x \<leftarrow> [x \<leftarrow> cs. c_ID x \<notin> set is]. c_ID x \<notin> set ?new] < length [x \<leftarrow> cs. c_ID x \<notin> set is]"
      by (rule length_filter_less[of c]) (use c in auto)
    then have "length [x \<leftarrow> cs. c_ID x \<notin> set (is @ ?new)] \<le> n"
      using Suc.prems by (simp add: conj_commute)
    then show ?thesis using Suc.IH by simp
  qed
qed

lemma removed_comments_closed: "reply_closed (db_comments d) (set (removed_comments d i))"
  unfolding removed_comments_def by (rule with_replies_enough) (rule length_filter_le)

text \<open>Replies stand below comments of their own post, so the cascade takes the comments of the post.\<close>

lemma removed_comments_wf:
  assumes "store_inv_from g cfg d"
  shows "removed_comments d i = [c_ID c. c \<leftarrow> db_comments d, c_PostID c = i]"
proof -
  have ids: "distinct (map c_ID (db_comments d))" and placed: "\<forall>c\<in>set (db_comments d). placed (db_comments d) c"
    using assms by (simp_all add: store_inv_def store_wf_def comments_wf_def)
  have "c_PostID c = i"
    if c: "c \<in> set (db_comments d)" "i8_Valid (c_ParentID c)" and x: "x \<in> set (db_comments d)" "c_PostID x = i"
      "c_ID x = i8_Int64 (c_ParentID c)" for c x
  proof -
    obtain p where "p \<in> set (db_comments d)" "c_ID p = i8_Int64 (c_ParentID c)" "c_PostID p = c_PostID c"
      using placed c by (fastforce simp: placed_def)
    then show ?thesis using same_id[OF ids _ x(1)] x(2,3) by metis
  qed
  then have "reply_closed (db_comments d) (set [c_ID c. c \<leftarrow> db_comments d, c_PostID c = i])"
    by (auto simp: reply_closed_def)
  then show ?thesis by (simp add: removed_comments_def with_replies_closed)
qed

lemma tally_outside: "j \<notin> S \<Longrightarrow> tally [v \<leftarrow> vs. cv_CommentID v \<notin> S] j side = tally vs j side"
  by (induction vs) auto

lemma remove_post_wf:
  assumes "db_wf_from g cfg d"
  shows "db_wf_from g cfg (remove_post i d)"
proof -
  have inv: "store_inv_from g cfg d" using assms by (simp add: db_wf_def)
  have c: "comments_wf cfg (user_ids d) (set (db_posts d)) (sq_comments (db_seqs d)) (db_comments d)"
    and v: "votes_wf g (user_ids d) (db_comments d) (db_votes d)"
    using inv by (simp_all add: store_inv_def store_wf_def)
  let ?S = "set (removed_comments d i)" and ?cs = "[c \<leftarrow> db_comments d. c_ID c \<notin> set (removed_comments d i)]"
  have kept: "c_ID x \<notin> ?S \<longleftrightarrow> c_PostID x \<noteq> i" if "x \<in> set (db_comments d)" for x
    using that same_id[of "db_comments d" x] c unfolding removed_comments_wf[OF inv] by (auto simp: comments_wf_def)
  have "placed ?cs x" if x: "x \<in> set ?cs" for x
    using x c kept by (fastforce simp: comments_wf_def placed_def)
  then have cs: "comments_wf cfg (user_ids d) (set [j \<leftarrow> db_posts d. j \<noteq> i]) (sq_comments (db_seqs d)) ?cs"
    using c kept by (auto simp: comments_wf_def distinct_map_filter comment_ok_def replies_unique_def)
  have "votes_wf g (user_ids d) ?cs [w \<leftarrow> db_votes d. cv_CommentID w \<notin> ?S]"
    using v by (auto simp: votes_wf_def distinct_map_filter counted_def tally_outside)
  then show ?thesis
    using assms cs by (simp add: db_wf_def store_inv_def store_wf_def remove_post_def accounts_wf_def user_ids_def)
qed

section \<open>The whole store\<close>

lemma posts_wf_ids: "posts_wf V s \<Longrightarrow> db_posts (pd_db s) = map p_ID (pd_posts s)"
  by (simp add: posts_wf_def)

lemma db_wf_more_posts:
  assumes "db_wf_from g cfg d"
  shows "db_wf_from g cfg (d\<lparr>db_posts := db_posts d @ is\<rparr>)"
proof -
  have "comment_ok cfg us (ps \<union> qs) n c" if "comment_ok cfg us ps n c" for us ps qs n c
    using that by (simp add: comment_ok_def)
  then show ?thesis
    using assms by (simp add: db_wf_def store_inv_def store_wf_def accounts_wf_def user_ids_def comments_wf_def)
qed

lemma createPost_wf: "posts_inv V g cfg s \<Longrightarrow> posts_inv V g cfg (snd (createPost E J arg s))"
proof -
  assume inv: "posts_inv V g cfg s"
  then have wf: "posts_wf V s" and db: "db_wf_from g cfg (pd_db s)" by (simp_all add: posts_inv_def)
  have new: "sq_posts s \<notin> p_ID ` set (pd_posts s)" "sq_posts s \<notin> pv_PostID ` set (pd_votes s)"
    using wf by (force simp: posts_wf_def post_ok_def post_vote_ok_def)+
  have added: "posts_inv V g cfg (add_post (s\<lparr>sq_posts := sq_posts s + 1\<rparr>) (new_post s arg t b))"
    if "user_exists (pd_db s) (cp_UserID arg)" for t b
  proof -
    have "db_wf_from g cfg ((pd_db s)\<lparr>db_posts := db_posts (pd_db s) @ [sq_posts s]\<rparr>)"
      using db_wf_more_posts[OF db] .
    moreover have "posts_wf V (add_post (s\<lparr>sq_posts := sq_posts s + 1\<rparr>) (new_post s arg t b))"
      using posts_wf_seq(1)[OF wf, of "sq_posts s + 1"] new that
      by (simp add: posts_wf_ids[OF wf] posts_wf_def add_post_def new_post_def post_popularity_def post_ok_def
          post_vote_ok_def user_ids_def user_exists_def post_tally_none)
    ultimately show ?thesis by (simp add: posts_inv_def add_post_def new_post_def post_popularity_def)
  qed
  then show ?thesis
    using inv posts_wf_seq(1)[OF wf, of "sq_posts s + 1"]
    by (auto simp: createPost_def post_query_def Let_def posts_inv_def split: option.split)
qed

lemma updatePost_wf: "posts_wf V s \<Longrightarrow> posts_wf V (snd (updatePost E J arg s))"
proof -
  assume wf: "posts_wf V s"
  have "posts_wf V (set_post s (p\<lparr>p_Title := t, p_Body := b, p_Topics := tp, p_LastModifiedAt := m\<rparr>))"
    if "post_of s i = Some p" for i p t b tp m
  proof -
    let ?p = "p\<lparr>p_Title := t, p_Body := b, p_Topics := tp, p_LastModifiedAt := m\<rparr>"
    have p: "p \<in> set (pd_posts s)" using post_of_Some[OF that] by simp
    then have "posts_wf V (set_post (s\<lparr>sq_post_votes := sq_post_votes s, pd_votes := pd_votes s\<rparr>) ?p)"
      using wf by (intro set_post_wf[OF wf p]) (simp_all add: posts_wf_def post_ok_def)
    then show ?thesis by simp
  qed
  then show ?thesis using wf by (auto simp: updatePost_def post_query_def Let_def split: option.split)
qed

lemma deletePost_wf: "posts_inv V g cfg s \<Longrightarrow> posts_inv V g cfg (snd (deletePost E i s))"
proof -
  assume inv: "posts_inv V g cfg s"
  then have wf: "posts_wf V s" and db: "db_wf_from g cfg (pd_db s)" by (simp_all add: posts_inv_def)
  have "[j \<leftarrow> db_posts (pd_db s). j \<noteq> i] = map p_ID [p \<leftarrow> pd_posts s. p_ID p \<noteq> i]"
    by (simp add: posts_wf_ids[OF wf] filter_map o_def)
  then have "posts_wf V (s\<lparr>pd_posts := [p \<leftarrow> pd_posts s. p_ID p \<noteq> i],
      pd_votes := [v \<leftarrow> pd_votes s. pv_PostID v \<noteq> i], pd_db := remove_post i (pd_db s)\<rparr>)"
    using wf by (auto simp: posts_wf_def distinct_map_filter remove_post_def user_ids_def post_ok_def
        post_tally_kept post_vote_ok_def)
  then show ?thesis
    using inv remove_post_wf[OF db] by (simp add: deletePost_def post_query_def posts_inv_def split: option.split)
qed

text \<open>
  One step is one operation of the store or one statement over posts, with a vote of \<open>V\<close>. The
  label is the one of the store, what an insertion passes.
\<close>

inductive posts_step ::
  "int set \<Rightarrow> store_config \<Rightarrow> jsonb \<Rightarrow> int \<times> int \<Rightarrow> posts_db \<Rightarrow> posts_db \<Rightarrow> bool" for V cfg J where
  Store: "store_step cfg k (pd_db s) d \<Longrightarrow> posts_step V cfg J k s (s\<lparr>pd_db := d\<rparr>)"
| Create_Post: "posts_step V cfg J k s (snd (createPost E J carg s))"
| Update_Post: "posts_step V cfg J k s (snd (updatePost E J uarg s))"
| Delete_Post: "posts_step V cfg J k s (snd (deletePost E i s))"
| Vote_Post: "vote \<in> V \<Longrightarrow> posts_step V cfg J k s (snd (votePost E user i vote s))"
| Delete_Vote: "posts_step V cfg J k s (snd (deletePostVote E i user s))"

inductive_cases posts_stepE: "posts_step V cfg J k s s1"

lemma vote_frame:
  "pd_db (snd (vote_post E user i vote s)) = pd_db s" "pd_db (snd (delete_post_vote E i user s)) = pd_db s"
  by (auto simp: vote_post_def delete_post_vote_def bump_post_def set_post_def Let_def split: option.split)

lemma posts_step_inv:
  assumes "posts_step V cfg J k s s1" and before: "posts_inv V g cfg s"
  shows "posts_inv V (drawn (pd_db s) k g) cfg s1"
proof -
  have inv: "posts_inv V (drawn (pd_db s) k g) cfg s"
    using before store_inv_drawn by (simp add: posts_inv_def db_wf_def)
  show ?thesis
    using assms(1)
  proof cases
    case (Store d)
    then show ?thesis
      using before store_step_wf posts_wf_store store_step_posts by (auto simp: posts_inv_def)
  next
    case (Create_Post E carg)
    then show ?thesis using createPost_wf[OF inv] by simp
  next
    case (Update_Post E uarg)
    have "pd_db (snd (updatePost E J uarg s)) = pd_db s"
      by (auto simp: updatePost_def post_query_def Let_def set_post_def split: option.split)
    then show ?thesis using Update_Post inv updatePost_wf by (simp add: posts_inv_def)
  next
    case (Delete_Post E i)
    then show ?thesis using deletePost_wf[OF inv] by simp
  next
    case (Vote_Post vote E user i)
    then show ?thesis
      using inv vote_post_wf[OF _ Vote_Post(2)] vote_frame(1)
      by (simp add: votePost_def post_query_def posts_inv_def split: option.split)
  next
    case (Delete_Vote E i user)
    then show ?thesis
      using inv delete_post_vote_wf vote_frame(2)
      by (simp add: deletePostVote_def post_query_def posts_inv_def split: option.split)
  qed
qed

end
