(* ===== verification/Db_Posts_Props.thy ===== *)
theory Db_Posts_Props
  imports Db_Posts_Inv
begin

text \<open>
  What holds of every store that is reached with posts, what a vote on a post does, and two ways
  in which the statements over posts do not do what they are for.
\<close>

section \<open>What holds of every reachable store\<close>

definition fresh_posts :: posts_db where
  "fresh_posts = \<lparr>pd_db = fresh_db [], pd_posts = [], pd_votes = [], sq_posts = 1, sq_post_votes = 1\<rparr>"

lemma fresh_posts_inv: "config_ok cfg \<Longrightarrow> posts_inv V nothing cfg fresh_posts"
  using fresh_wf[of cfg "[]"] by (simp add: posts_inv_def posts_wf_def fresh_posts_def fresh_db_def)

text \<open>What the operations make of the empty store, with what each comment was given.\<close>

inductive posts_history :: "int set \<Rightarrow> store_config \<Rightarrow> jsonb \<Rightarrow> posts_db \<Rightarrow> given \<Rightarrow> bool" for V cfg J where
  Start: "posts_history V cfg J fresh_posts nothing"
| Step: "posts_history V cfg J s g \<Longrightarrow> posts_step V cfg J k s s1 \<Longrightarrow>
    posts_history V cfg J s1 (drawn (pd_db s) k g)"

lemma posts_history_inv: "posts_history V cfg J s g \<Longrightarrow> config_ok cfg \<Longrightarrow> posts_inv V g cfg s"
  by (induction rule: posts_history.induct) (auto intro: fresh_posts_inv posts_step_inv)

lemma more_history:
  "\<exists>g. posts_history V cfg J s g \<Longrightarrow> posts_step V cfg J k s s1 \<Longrightarrow> \<exists>g. posts_history V cfg J s1 g"
  by (blast intro: posts_history.Step)

text \<open>
  C7: With posts created, changed, voted on and deleted between the operations of the store, in
  any order, with any arguments and any failures, from the empty store on: the author of a post
  exists and its popularity is the difference of its counters; a user has one vote per post, on a
  post that exists; and what holds of the rest of the store still does, so no comment stays behind
  without its post and no vote without its comment, and the counters of a comment are what its
  insertion passed and its votes. The value of a vote on a post is whatever the caller passes, as
  nothing checks it: if the values passed so far are 1 and -1, then the counters of a post
  are the votes stored for it.
\<close>

theorem posts_stay_consistent:
  assumes "config_ok cfg" and "posts_history V cfg J s g"
  shows "(V \<subseteq> {1, -1} \<longrightarrow> (\<forall>p\<in>set (pd_posts s). p_Upvotes p = post_tally (pd_votes s) (p_ID p) 1
            \<and> p_Downvotes p = post_tally (pd_votes s) (p_ID p) (-1)))
    \<and> (\<forall>p\<in>set (pd_posts s).
            p_Popularity p = \<lparr>i8_Int64 = p_Upvotes p - p_Downvotes p, i8_Valid = True\<rparr>
            \<and> user_exists (pd_db s) (p_UserID p))
    \<and> distinct (map p_ID (pd_posts s)) \<and> distinct (map post_key (pd_votes s))
    \<and> (\<forall>v\<in>set (pd_votes s). pv_Vote v \<in> V \<and> post_of s (pv_PostID v) \<noteq> None)
    \<and> (\<forall>c\<in>set (db_comments (pd_db s)). post_of s (c_PostID c) \<noteq> None
            \<and> c_Upvotes c = fst (g (c_ID c)) + tally (db_votes (pd_db s)) (c_ID c) 1
            \<and> c_Downvotes c = snd (g (c_ID c)) + tally (db_votes (pd_db s)) (c_ID c) (-1))
    \<and> (\<forall>v\<in>set (db_votes (pd_db s)). comment_of (pd_db s) (cv_CommentID v) \<noteq> None)
    \<and> db_wf_from g cfg (pd_db s)"
proof -
  have inv: "posts_inv V g cfg s" using posts_history_inv[OF assms(2,1)] .
  then have wf: "posts_wf V s" and db: "db_wf_from g cfg (pd_db s)" by (simp_all add: posts_inv_def)
  have store: "comments_wf cfg (user_ids (pd_db s)) (set (db_posts (pd_db s)))
      (sq_comments (db_seqs (pd_db s))) (db_comments (pd_db s))"
      "votes_wf g (user_ids (pd_db s)) (db_comments (pd_db s)) (db_votes (pd_db s))"
    using db by (simp_all add: db_wf_def store_inv_def store_wf_def)
  have "post_of s (c_PostID c) \<noteq> None" if "c \<in> set (db_comments (pd_db s))" for c
    using store(1) that by (simp add: comments_wf_def comment_ok_def post_of_None posts_wf_ids[OF wf])
  moreover have "comment_of (pd_db s) (cv_CommentID v) \<noteq> None" if "v \<in> set (db_votes (pd_db s))" for v
    using store(2) that by (simp add: votes_wf_def comment_of_None)
  moreover have "counted g (db_votes (pd_db s)) c" if "c \<in> set (db_comments (pd_db s))" for c
    using store(2) that by (simp add: votes_wf_def)
  ultimately show ?thesis
    using wf db posts_wf_ids[OF wf]
    by (simp add: posts_wf_def post_ok_def post_vote_ok_def user_exists_ids post_of_None counted_def)
qed

section \<open>Voting\<close>

text \<open>The votes as a map from user and post.\<close>

definition ballots :: "posts_db \<Rightarrow> int \<times> int \<Rightarrow> int option" where
  "ballots s = (\<lambda>(u, i). map_option pv_Vote (post_vote_of s u i))"

text \<open>A post of the map: its counters are the numbers of users that voted each way.\<close>

definition voters :: "posts_db \<Rightarrow> int \<Rightarrow> int \<Rightarrow> int set" where
  "voters s i side = {u. ballots s (u, i) = Some side}"

lemma find_key:
  assumes "distinct (map post_key vs)" and "v \<in> set vs" and "post_key v = (u, i)"
  shows "find (\<lambda>v. pv_UserID v = u \<and> pv_PostID v = i) vs = Some v"
  using assms by (induction vs) (auto simp: post_key_def image_iff)

lemma ballots_iff:
  assumes "distinct (map post_key (pd_votes s))"
  shows "ballots s (u, i) = Some side \<longleftrightarrow> (\<exists>v\<in>set (pd_votes s). post_key v = (u, i) \<and> pv_Vote v = side)"
proof
  assume "ballots s (u, i) = Some side"
  then obtain v where "post_vote_of s u i = Some v" "pv_Vote v = side" by (auto simp: ballots_def)
  then show "\<exists>v\<in>set (pd_votes s). post_key v = (u, i) \<and> pv_Vote v = side"
    using post_vote_of_Some by blast
next
  assume "\<exists>v\<in>set (pd_votes s). post_key v = (u, i) \<and> pv_Vote v = side"
  then show "ballots s (u, i) = Some side"
    using find_key[OF assms] by (auto simp: ballots_def post_vote_of_def)
qed

lemma voters_tally:
  assumes "posts_wf {1, -1} s"
  shows "int (card (voters s i side)) = post_tally (pd_votes s) i side"
proof -
  have keys: "distinct (map post_key (pd_votes s))" using assms by (simp add: posts_wf_def)
  let ?vs = "[v \<leftarrow> pd_votes s. pv_PostID v = i \<and> pv_Vote v = side]"
  have "voters s i side = set (map pv_UserID ?vs)"
    by (auto simp: voters_def ballots_iff[OF keys] post_key_def)
  moreover have "distinct (map pv_UserID ?vs)"
    using keys unfolding distinct_map inj_on_def post_key_def by auto
  ultimately show ?thesis by (simp add: post_tally_def len_def distinct_card del: set_map)
qed

lemma post_of_set_post:
  "post_of (set_post s p) j = (if j = p_ID p \<and> post_of s j \<noteq> None then Some p else post_of s j)"
proof -
  have "find (\<lambda>x. p_ID x = j) (map (\<lambda>x. if p_ID x = p_ID p then p else x) ps)
      = (if j = p_ID p \<and> find (\<lambda>x. p_ID x = j) ps \<noteq> None then Some p else find (\<lambda>x. p_ID x = j) ps)" for ps
    by (induction ps) auto
  moreover have "post_of (set_post s p) j
      = find (\<lambda>x. p_ID x = j) (map (\<lambda>x. if p_ID x = p_ID p then p else x) (pd_posts s))"
    by (simp add: post_of_def set_post_def)
  ultimately show ?thesis by (simp only: post_of_def)
qed

text \<open>As long as the votes can be counted in 63 bits, no counter leaves its range.\<close>

definition few_votes :: "posts_db \<Rightarrow> bool" where
  "few_votes s \<longleftrightarrow> len (pd_votes s) < 2 ^ 63 - 2"

lemma post_tally_range: "0 \<le> post_tally vs i side" "post_tally vs i side \<le> len vs"
  by (simp_all add: post_tally_def len_def)

lemma bump_fits:
  assumes wf: "posts_wf {1, -1} s" and few: "few_votes s" and p: "post_of s i = Some p"
    and ds: "ds \<in> {1, 0, -1} \<times> {1, 0, -1}" and posts: "pd_posts t = pd_posts s"
  shows "bump_post t i ds = Some (Some
    (post_popularity (p\<lparr>p_Upvotes := p_Upvotes p + fst ds, p_Downvotes := p_Downvotes p + snd ds\<rparr>),
     set_post t (post_popularity (p\<lparr>p_Upvotes := p_Upvotes p + fst ds, p_Downvotes := p_Downvotes p + snd ds\<rparr>))))"
proof -
  have found: "post_of t i = Some p" using p posts by (simp add: post_of_def)
  have "post_ok {1, -1} (user_ids (pd_db s)) (sq_posts s) (pd_votes s) p"
    using wf post_of_Some[OF p] by (simp add: posts_wf_def)
  then have count: "0 \<le> p_Upvotes p" "p_Upvotes p \<le> len (pd_votes s)" "0 \<le> p_Downvotes p"
      "p_Downvotes p \<le> len (pd_votes s)"
    using post_tally_range[of "pd_votes s" "p_ID p"] by (simp_all add: post_ok_def)
  moreover have "-1 \<le> fst ds" "fst ds \<le> 1" "-1 \<le> snd ds" "snd ds \<le> 1" using ds by auto
  ultimately have "in_bigint (p_Upvotes p + fst ds)" "in_bigint (p_Downvotes p + snd ds)"
      "in_bigint (p_Upvotes p + fst ds - (p_Downvotes p + snd ds))"
    using few unfolding in_bigint_def few_votes_def by simp_all
  then show ?thesis
    using found by (simp add: bump_post_def Let_def post_popularity_def)
qed

text \<open>What a table of votes says, and how a row that is added or changed shows in it.\<close>

definition says :: "PostVote list \<Rightarrow> int \<times> int \<Rightarrow> int \<Rightarrow> bool" where
  "says vs k side \<longleftrightarrow> (\<exists>v\<in>set vs. post_key v = k \<and> pv_Vote v = side)"

lemma says_added:
  "post_key w \<notin> post_key ` set vs \<Longrightarrow>
    says (vs @ [w]) k side \<longleftrightarrow> (if k = post_key w then pv_Vote w = side else says vs k side)"
  by (auto simp: says_def image_iff)

lemma says_changed:
  assumes "v \<in> set vs" and "post_key w = post_key v"
  shows "says (map (\<lambda>x. if post_key x = post_key v then w else x) vs) k side
    \<longleftrightarrow> (if k = post_key w then pv_Vote w = side else says vs k side)"
proof -
  have "says (map (\<lambda>x. if post_key x = post_key v then w else x) vs) k side \<longleftrightarrow>
      (\<exists>x\<in>set vs. post_key (if post_key x = post_key v then w else x) = k
         \<and> pv_Vote (if post_key x = post_key v then w else x) = side)"
    unfolding says_def set_map by blast
  then show ?thesis using assms by (auto simp: says_def)
qed

text \<open>A vote that is cast and a vote that is taken back.\<close>

lemma ballots_eqI:
  fixes f :: "int \<times> int \<Rightarrow> int option"
  assumes "distinct (map post_key (pd_votes s))" and "distinct (map post_key (pd_votes s1))"
    and "\<And>u i side. says (pd_votes s1) (u, i) side \<longleftrightarrow> f (u, i) = Some side"
  shows "ballots s1 = f"
proof
  fix x :: "int \<times> int"
  obtain u i where x: "x = (u, i)" by (cases x)
  have "ballots s1 (u, i) = Some side \<longleftrightarrow> f (u, i) = Some side" for side
    using ballots_iff[OF assms(2)] assms(3) by (simp add: says_def)
  then show "ballots s1 x = f x" unfolding x by (metis not_Some_eq)
qed

lemma post_popularity_simps [simp]:
  "p_ID (post_popularity p) = p_ID p" "p_Upvotes (post_popularity p) = p_Upvotes p"
  "p_Downvotes (post_popularity p) = p_Downvotes p"
  by (simp_all add: post_popularity_def)

lemma set_post_votes [simp]: "pd_votes (set_post s p) = pd_votes s"
  by (simp add: set_post_def)

text \<open>The table after a vote that is new or changed.\<close>

definition cast_votes :: "posts_db \<Rightarrow> int \<Rightarrow> int \<Rightarrow> int \<Rightarrow> PostVote list" where
  "cast_votes s user i vote = (case post_vote_of s user i of
       None \<Rightarrow> pd_votes s @ [\<lparr>pv_ID = sq_post_votes s, pv_UserID = user, pv_PostID = i, pv_Vote = vote,
                pv_CreatedAt = db_now (pd_db s), pv_LastModifiedAt = db_now (pd_db s)\<rparr>]
     | Some v \<Rightarrow> map (\<lambda>x. if pv_UserID x = user \<and> pv_PostID x = i
                then v\<lparr>pv_Vote := vote, pv_LastModifiedAt := db_now (pd_db s)\<rparr> else x) (pd_votes s))"

lemma cast_votes_say:
  "says (cast_votes s user i vote) k side \<longleftrightarrow> (if k = (user, i) then vote = side else says (pd_votes s) k side)"
proof (cases "post_vote_of s user i")
  case None
  then show ?thesis
    using says_added[of _ "pd_votes s" k side] None[unfolded post_vote_of_None]
    by (simp add: cast_votes_def post_key_def)
next
  case (Some v)
  have v: "v \<in> set (pd_votes s)" "post_key v = (user, i)" using post_vote_of_Some[OF Some] by simp_all
  have "cast_votes s user i vote = map (\<lambda>x. if post_key x = post_key v
      then v\<lparr>pv_Vote := vote, pv_LastModifiedAt := db_now (pd_db s)\<rparr> else x) (pd_votes s)"
    using Some v(2) by (simp add: cast_votes_def post_key_def)
  then show ?thesis
    using says_changed[OF v(1), of "v\<lparr>pv_Vote := vote, pv_LastModifiedAt := db_now (pd_db s)\<rparr>" k side] v(2)
    by (simp add: post_key_def)
qed

lemma vote_cast:
  assumes wf: "posts_wf {1, -1} s" and few: "few_votes s" and user: "user_exists (pd_db s) user"
    and p: "post_of s i = Some p" and vote: "vote \<in> {1, -1}"
  obtains p1 s1 where "vote_post E user i vote s = (Inr p1, s1)" and "post_of s1 i = Some p1"
    and "ballots s1 = (ballots s)((user, i) \<mapsto> vote)" and "\<And>j. j \<noteq> i \<Longrightarrow> post_of s1 j = post_of s j"
proof -
  have keys: "distinct (map post_key (pd_votes s))" using wf by (simp add: posts_wf_def)
  have id: "p_ID p = i" using post_of_Some[OF p] by simp
  show thesis
  proof (cases "ballots s (user, i) = Some vote")
    case True
    then obtain v where v: "post_vote_of s user i = Some v" "pv_Vote v = vote" by (auto simp: ballots_def)
    show thesis
      by (rule that[of p "s\<lparr>sq_post_votes := sq_post_votes s + 1\<rparr>"])
        (use True v p in \<open>auto simp: vote_post_def fun_eq_iff ballots_def post_vote_of_def\<close>)
  next
    case changed: False
    define ds where "ds = (if post_vote_of s user i = None then new_deltas vote else changed_deltas vote)"
    let ?t = "s\<lparr>sq_post_votes := sq_post_votes s + 1, pd_votes := cast_votes s user i vote\<rparr>"
    let ?p = "post_popularity (p\<lparr>p_Upvotes := p_Upvotes p + fst ds, p_Downvotes := p_Downvotes p + snd ds\<rparr>)"
    have "ds \<in> {1, 0, -1} \<times> {1, 0, -1}" by (simp add: ds_def new_deltas_def changed_deltas_def)
    then have bump: "bump_post ?t i ds = Some (Some (?p, set_post ?t ?p))"
      by (rule bump_fits[OF wf few p]) simp
    have run: "vote_post E user i vote s = (Inr ?p, set_post ?t ?p)"
      using bump changed vote user
      by (auto simp: vote_post_def Let_def ds_def cast_votes_def ballots_def in_smallint_def split: option.splits)
    have "posts_wf {1, -1} (set_post ?t ?p)" using vote_post_wf[OF wf vote, of E user i] run by simp
    then have keys1: "distinct (map post_key (pd_votes (set_post ?t ?p)))" by (simp add: posts_wf_def)
    show thesis
    proof (rule that[OF run])
      show "ballots (set_post ?t ?p) = (ballots s)((user, i) \<mapsto> vote)"
      proof (rule ballots_eqI[OF keys keys1])
        fix u j side
        show "says (pd_votes (set_post ?t ?p)) (u, j) side
            \<longleftrightarrow> ((ballots s)((user, i) \<mapsto> vote)) (u, j) = Some side"
          using cast_votes_say ballots_iff[OF keys, of u j side] by (auto simp: says_def)
      qed
    qed (use p id in \<open>auto simp: post_of_set_post\<close>)
  qed
qed

lemma vote_withdrawn:
  assumes wf: "posts_wf {1, -1} s" and few: "few_votes s"
  obtains s1 where "delete_post_vote E i user s = (Inr (), s1)"
    and "ballots s1 = (ballots s)((user, i) := None)"
proof -
  have keys: "distinct (map post_key (pd_votes s))" using wf by (simp add: posts_wf_def)
  show thesis
  proof (cases "post_vote_of s user i")
    case None
    then have "ballots s (user, i) = None" by (simp add: ballots_def)
    then show thesis using that[of s] None by (simp add: delete_post_vote_def fun_upd_idem)
  next
    case (Some v)
    have v: "v \<in> set (pd_votes s)" "post_key v = (user, i)" using post_vote_of_Some[OF Some] by simp_all
    let ?t = "s\<lparr>pd_votes := [x \<leftarrow> pd_votes s. \<not> (pv_UserID x = user \<and> pv_PostID x = i)]\<rparr>"
    obtain p where p: "post_of s i = Some p"
      using wf v by (fastforce simp: posts_wf_def post_vote_ok_def post_key_def post_of_None simp flip: not_None_eq)
    have "removed_deltas (pv_Vote v) \<in> {1, 0, -1} \<times> {1, 0, -1}" by (simp add: removed_deltas_def)
    then obtain p1 where bump: "bump_post ?t i (removed_deltas (pv_Vote v)) = Some (Some (p1, set_post ?t p1))"
      using bump_fits[OF wf few p, of _ ?t] by simp
    show thesis
    proof (rule that)
      show "delete_post_vote E i user s = (Inr (), set_post ?t p1)"
        using Some bump by (simp add: delete_post_vote_def)
      show "ballots (set_post ?t p1) = (ballots s)((user, i) := None)"
      proof (rule ballots_eqI[OF keys])
        fix u j side
        show "says (pd_votes (set_post ?t p1)) (u, j) side \<longleftrightarrow> ((ballots s)((user, i) := None)) (u, j) = Some side"
          using ballots_iff[OF keys, of u j side] by (auto simp: says_def post_key_def)
      qed (use keys in \<open>simp add: distinct_map_filter\<close>)
    qed
  qed
qed

text \<open>
  C19: While the votes can be counted in 63 bits, \<open>votePost\<close> with 1 or -1 for a user and a post
  that exist updates the map from users and posts to votes, returns the post as it is stored,
  with the numbers of users that voted each way in its counters, and leaves every other post and
  the rest of the store alone; \<open>deletePostVote\<close> removes the entry of the map, if there is one.
\<close>

theorem vote_post_outcome:
  assumes inv: "posts_inv {1, -1} g cfg s" and calm: "env_query E = (\<lambda>name. None)" and few: "few_votes s"
    and user: "user_exists (pd_db s) user" and post: "post_of s i \<noteq> None" and vote: "vote \<in> {1, -1}"
  shows "(\<exists>p s1. votePost E user i vote s = (Inr p, s1) \<and> post_of s1 i = Some p
      \<and> ballots s1 = (ballots s)((user, i) \<mapsto> vote)
      \<and> p_Upvotes p = int (card (voters s1 i 1)) \<and> p_Downvotes p = int (card (voters s1 i (-1)))
      \<and> (\<forall>j. j \<noteq> i \<longrightarrow> post_of s1 j = post_of s j) \<and> pd_db s1 = pd_db s)
    \<and> (\<exists>s1. deletePostVote E i user s = (Inr (), s1) \<and> ballots s1 = (ballots s)((user, i) := None))"
proof -
  have wf: "posts_wf {1, -1} s" using inv by (simp add: posts_inv_def)
  obtain p0 where p0: "post_of s i = Some p0" using post by auto
  obtain p s1 where run: "vote_post E user i vote s = (Inr p, s1)" "post_of s1 i = Some p"
      "ballots s1 = (ballots s)((user, i) \<mapsto> vote)" "\<And>j. j \<noteq> i \<Longrightarrow> post_of s1 j = post_of s j"
    using vote_cast[OF wf few user p0 vote] by metis
  have wf1: "posts_wf {1, -1} s1" and db: "pd_db s1 = pd_db s"
    using vote_post_wf[OF wf vote, of E user i] vote_frame(1)[of E user i vote s] run(1) by simp_all
  have "post_ok {1, -1} (user_ids (pd_db s1)) (sq_posts s1) (pd_votes s1) p" and "p_ID p = i"
    using wf1 post_of_Some[OF run(2)] by (simp_all add: posts_wf_def)
  then have "p_Upvotes p = int (card (voters s1 i 1))" "p_Downvotes p = int (card (voters s1 i (-1)))"
    using voters_tally[OF wf1] by (simp_all add: post_ok_def)
  moreover have "votePost E user i vote s = (Inr p, s1)"
    using run(1) calm by (simp add: votePost_def post_query_def)
  moreover obtain s2 where "deletePostVote E i user s = (Inr (), s2)" "ballots s2 = (ballots s)((user, i) := None)"
    using vote_withdrawn[OF wf few, of E i user] calm by (auto simp: deletePostVote_def post_query_def)
  ultimately show ?thesis using run(2-) db by blast
qed

section \<open>Two statements that go wrong\<close>

text \<open>The posts by popularity cannot be read at all.\<close>

lemma popular_posts_fail: "\<exists>err. getPostsByPopularity E limit offset interval s = (Inl err, s)"
  by (simp add: getPostsByPopularity_def post_query_def split: option.split)

text \<open>A vote other than 1 and -1 is taken, and one that replaces a vote lowers both counters.\<close>

lemma odd_vote_lowers_both:
  assumes "posts_wf {1, -1} s" and "few_votes s" and "post_vote_of s user i = Some v" and "post_of s i = Some p"
    and "pv_Vote v \<noteq> vote" and "vote \<notin> {1, -1}" and "in_smallint vote"
  shows "\<exists>p1 s1. vote_post E user i vote s = (Inr p1, s1)
    \<and> p_Upvotes p1 = p_Upvotes p - 1 \<and> p_Downvotes p1 = p_Downvotes p - 1"
proof -
  let ?t = "s\<lparr>sq_post_votes := sq_post_votes s + 1, pd_votes := map (\<lambda>x. if pv_UserID x = user
      \<and> pv_PostID x = i then v\<lparr>pv_Vote := vote, pv_LastModifiedAt := db_now (pd_db s)\<rparr> else x) (pd_votes s)\<rparr>"
  have "changed_deltas vote = (-1, -1)" using assms(6) by (simp add: changed_deltas_def)
  then show ?thesis
    using assms(3,5,7) bump_fits[OF assms(1,2,4), of "(-1, -1)" ?t] by (simp add: vote_post_def Let_def)
qed

section \<open>A store with a post\<close>

definition demo_people :: posts_db where
  "demo_people = fresh_posts\<lparr>pd_db := snd (CreateUserWithCredentialsTx calm (registration ''bob'')
     (snd (CreateUserWithCredentialsTx calm (registration ''ann'') (fresh_db []))))\<rparr>"

definition demo_params :: createPostParams where
  "demo_params = \<lparr>cp_UserID = 1, cp_Title = ''news'', cp_Topics = None, cp_Body = Some ''{}''\<rparr>"

definition demo_posted :: posts_db where
  "demo_posted = snd (createPost calm Some demo_params demo_people)"

definition demo_talk :: posts_db where
  "demo_talk = demo_posted\<lparr>pd_db := snd (InsertCommentTx demo_cfg calm (comment_params 2 1 ''hi'' null_int8)
     (pd_db demo_posted))\<rparr>"

definition demo_voted :: posts_db where
  "demo_voted = snd (votePost calm 2 1 (-1) demo_talk)"

lemma demo_posts_history:
  "\<exists>g. posts_history {1, -1} demo_cfg Some demo_talk g"
  "\<exists>g. posts_history {1, -1} demo_cfg Some demo_voted g"
proof -
  let ?ann = "fresh_posts\<lparr>pd_db := snd (CreateUserWithCredentialsTx calm (registration ''ann'') (fresh_db []))\<rparr>"
  have s1: "posts_step {1, -1} demo_cfg Some (0, 0) fresh_posts ?ann"
    by (rule posts_step.Store) (simp add: fresh_posts_def store_step.Create_User)
  have s2: "posts_step {1, -1} demo_cfg Some (0, 0) ?ann demo_people"
    unfolding demo_people_def
    using posts_step.Store[of demo_cfg "(0, 0)" ?ann _ "{1, -1}" Some] by (simp add: store_step.Create_User)
  have s3: "posts_step {1, -1} demo_cfg Some (0, 0) demo_people demo_posted"
    unfolding demo_posted_def by (rule posts_step.Create_Post)
  have s4: "posts_step {1, -1} demo_cfg Some (0, 0) demo_posted demo_talk"
    unfolding demo_talk_def by (rule posts_step.Store) (rule handler_insert)
  show talk: "\<exists>g. posts_history {1, -1} demo_cfg Some demo_talk g"
    by (rule more_history[OF more_history[OF more_history[OF more_history[OF _ s1] s2] s3] s4])
      (blast intro: posts_history.Start)
  have "posts_step {1, -1} demo_cfg Some (0, 0) demo_talk demo_voted"
    unfolding demo_voted_def by (rule posts_step.Vote_Post) simp
  then show "\<exists>g. posts_history {1, -1} demo_cfg Some demo_voted g"
    using talk more_history by blast
qed

lemma demo_posts_rows:
  "map (\<lambda>p. (p_ID p, p_Upvotes p, p_Downvotes p)) (pd_posts demo_voted) = [(1, 0, 1)]"
  by code_simp

lemma posts_stay_consistent_witness:
  "list_all (\<lambda>p. p_Downvotes p = post_tally (pd_votes demo_voted) (p_ID p) (-1)) (pd_posts demo_voted)
    \<and> map p_Downvotes (pd_posts demo_voted) = [1]"
proof -
  obtain g where g: "posts_history {1, -1} demo_cfg Some demo_voted g" using demo_posts_history(2) by blast
  show ?thesis
    using posts_stay_consistent[OF demo_config g] demo_posts_rows by (auto simp: map_eq_Cons_conv list_all_iff)
qed

lemma demo_talk_facts:
  "user_exists (pd_db demo_talk) 2" "post_of demo_talk 1 \<noteq> None" "pd_votes demo_talk = []"
  by code_simp+

lemma demo_talk_inv: "\<exists>g. posts_inv {1, -1} g demo_cfg demo_talk"
  using posts_history_inv demo_posts_history(1) by (meson demo_config)

lemma vote_post_outcome_witness:
  "\<exists>p s1. votePost calm 2 1 (-1) demo_talk = (Inr p, s1)
    \<and> ballots s1 = (ballots demo_talk)((2, 1) \<mapsto> -1) \<and> p_Downvotes p = int (card (voters s1 1 (-1)))"
proof -
  obtain g where g: "posts_inv {1, -1} g demo_cfg demo_talk" using demo_talk_inv by blast
  show ?thesis
    using vote_post_outcome[OF g, of calm 2 1 "-1"] demo_talk_facts by (auto simp: calm_def few_votes_def len_def)
qed

text \<open>With the post its comments and votes go.\<close>

lemma demo_post_deleted:
  "(let s = snd (deletePost calm 1 demo_voted)
    in (pd_posts s, pd_votes s, db_comments (pd_db s), db_posts (pd_db s))) = ([], [], [], [])"
  by code_simp

end
