(* ===== verification/Db_Reads.thy ===== *)
theory Db_Reads
  imports Db_Query
begin

text \<open>
  The statements that only read and that no operation of the store uses yet (\<open>comment.sql.go\<close>,
  \<open>comment_vote.sql.go\<close>, \<open>session.sql.go\<close>, \<open>user.sql.go\<close>, \<open>webauthn_credential.sql.go\<close>), and how a
  column of the type \<open>authenticator_attachment\<close> is read and written (\<open>models.go\<close>).
\<close>

section \<open>Statements\<close>

definition getComment :: "env \<Rightarrow> int \<Rightarrow> db \<Rightarrow> Comment result" where
  "getComment E i = query ''getComment'' E (\<lambda>d. (one_row (comment_of d i), d))"

definition getCommentWithAuthor :: "env \<Rightarrow> int \<Rightarrow> db \<Rightarrow> CommentsWithAuthor result" where
  "getCommentWithAuthor E i = query ''getCommentWithAuthor'' E (\<lambda>d.
     (one_row (case comment_of d i of
        None \<Rightarrow> None
      | Some c \<Rightarrow> (case join_author d c of [] \<Rightarrow> None | w # _ \<Rightarrow> Some w)), d))"

definition getCommentVote :: "env \<Rightarrow> int \<Rightarrow> int \<Rightarrow> db \<Rightarrow> CommentVote result" where
  "getCommentVote E user comment = query ''getCommentVote'' E (\<lambda>d. (one_row (vote_of d user comment), d))"

definition listSessionsByUser :: "env \<Rightarrow> int \<Rightarrow> db \<Rightarrow> Session list result" where
  "listSessionsByUser E i = query ''listSessionsByUser'' E (\<lambda>d.
     (Inr [s \<leftarrow> db_sessions d. s_UserID s = i], d))"

definition getCredentialsByID :: "env \<Rightarrow> string \<Rightarrow> db \<Rightarrow> WebauthnCredential result" where
  "getCredentialsByID E i = query ''getCredentialsByID'' E (\<lambda>d.
     (one_row (find (\<lambda>k. k_ID k = i) (db_credentials d)), d))"

definition listUserCredentials :: "env \<Rightarrow> int \<Rightarrow> db \<Rightarrow> WebauthnCredential list result" where
  "listUserCredentials E i = query ''listUserCredentials'' E (\<lambda>d.
     (Inr [k \<leftarrow> db_credentials d. k_UserID k = i], d))"

text \<open>Without \<open>ORDER BY\<close> the server may begin with any row; \<open>env_pick\<close> says with which.\<close>

definition getActiveUsers :: "env \<Rightarrow> int \<Rightarrow> db \<Rightarrow> User list result" where
  "getActiveUsers E limit = query ''getActiveUsers'' E (\<lambda>d.
     (if limit < 0 then Inl (pg_error_of E ''2201W'' [])
      else Inr (take (nat limit) (rotate (env_pick E) [u \<leftarrow> db_users d. \<not> u_IsDeleted u])), d))"

definition getUserByEmail :: "env \<Rightarrow> string \<Rightarrow> db \<Rightarrow> User result" where
  "getUserByEmail E email = query ''getUserByEmail'' E (\<lambda>d.
     let us = [u \<leftarrow> db_users d. u_Email u = email]
     in (if us = [] then Inl ErrNoRows else Inr (us ! (env_pick E mod length us)), d))"

section \<open>What they return\<close>

lemma reads_change_nothing:
  "snd (getComment E i d) = d" "snd (getCommentWithAuthor E i d) = d" "snd (getCommentVote E u i d) = d"
  "snd (listSessionsByUser E i d) = d" "snd (getCredentialsByID E k d) = d"
  "snd (listUserCredentials E i d) = d" "snd (getActiveUsers E n d) = d" "snd (getUserByEmail E m d) = d"
  by (simp_all add: query_def getComment_def getCommentWithAuthor_def getCommentVote_def
      listSessionsByUser_def getCredentialsByID_def listUserCredentials_def getActiveUsers_def
      getUserByEmail_def Let_def split: option.split)

lemma active_users_returned:
  assumes "getActiveUsers E limit d = (Inr us, d1)"
  shows "set us \<subseteq> {u \<in> set (db_users d). \<not> u_IsDeleted u}" and "len us \<le> limit"
  using assms[unfolded getActiveUsers_def, THEN query_Inr]
  by (auto simp: len_def split: if_splits dest: in_set_takeD)

text \<open>Among active users an address names at most one.\<close>

lemma user_by_email:
  assumes "accounts_wf d" and "getUserByEmail E email d = (Inr u, d1)"
    and "v \<in> set (db_users d)" and "\<not> u_IsDeleted v" and "u_Email v = email" and "\<not> u_IsDeleted u"
  shows "u = v"
proof -
  let ?us = "[u \<leftarrow> db_users d. u_Email u = email]"
  have "u = ?us ! (env_pick E mod length ?us)" "?us \<noteq> []"
    using assms(2)[unfolded getUserByEmail_def, THEN query_Inr] by (auto simp: Let_def split: if_splits)
  then have "u \<in> set ?us" by (metis length_greater_0_conv mod_less_divisor nth_mem)
  then have u: "u \<in> set (db_users d)" "u_Email u = email" by simp_all
  have wf: "users_wf (db_users d) (sq_users (db_seqs d))" using assms(1) by (simp add: accounts_wf_def)
  then have "\<not> clash v u" if "u_ID v \<noteq> u_ID u" using that u(1) assms(3) by (simp add: users_wf_def)
  then have "u_ID u = u_ID v" using u(2) assms(4-6) by (fastforce simp: clash_def)
  then show ?thesis using wf u(1) assms(3) by (auto simp: users_wf_def distinct_map inj_on_def)
qed

text \<open>In a consistent store a comment that exists is returned with its author.\<close>

lemma comment_with_author:
  assumes "store_inv_from g cfg d" and "env_query E = (\<lambda>name. None)" and "comment_of d i = Some c"
  shows "\<exists>u w. u \<in> set (db_users d) \<and> u_ID u = c_UserID c \<and> w = with_author u c
    \<and> getCommentWithAuthor E i d = (Inr w, d)"
proof -
  have "c_UserID c \<in> user_ids d"
    using assms(1) comment_of_Some[OF assms(3)] by (simp add: store_inv_def store_wf_def comments_wf_def comment_ok_def)
  then obtain u us where us: "[u \<leftarrow> db_users d. u_ID u = c_UserID c] = u # us"
    by (cases "[u \<leftarrow> db_users d. u_ID u = c_UserID c]") (auto simp: user_ids_def filter_empty_conv)
  have "u \<in> set [u \<leftarrow> db_users d. u_ID u = c_UserID c]" unfolding us by simp
  then have u: "u \<in> set (db_users d)" "u_ID u = c_UserID c" by simp_all
  have "getCommentWithAuthor E i d = (Inr (with_author u c), d)"
    using assms(2,3) us by (simp add: getCommentWithAuthor_def query_def join_author_def one_row_def)
  then show ?thesis using u by blast
qed

section \<open>The type of an authenticator\<close>

text \<open>A value of a driver: NULL, bytes, text, or a value of another Go type.\<close>

datatype driver_value = DriverNull | DriverBytes string | DriverString string | DriverOther string

record NullAuthenticatorAttachment =
  na_AuthenticatorAttachment :: string
  na_Valid :: bool

definition Attachment_Scan :: "driver_value \<Rightarrow> go_error + string" where
  "Attachment_Scan src = (case src of
       DriverBytes s \<Rightarrow> Inr s
     | DriverString s \<Rightarrow> Inr s
     | DriverNull \<Rightarrow> Inl (Errorf ''unsupported scan type for AuthenticatorAttachment: <nil>'' None)
     | DriverOther t \<Rightarrow> Inl (Errorf (''unsupported scan type for AuthenticatorAttachment: '' @ t) None))"

text \<open>The receiver keeps its attachment when the scan of a value fails.\<close>

definition NullAttachment_Scan ::
  "driver_value \<Rightarrow> NullAuthenticatorAttachment \<Rightarrow> go_error option \<times> NullAuthenticatorAttachment" where
  "NullAttachment_Scan value ns =
     (if value = DriverNull then (None, \<lparr>na_AuthenticatorAttachment = [], na_Valid = False\<rparr>)
      else case Attachment_Scan value of
             Inl e \<Rightarrow> (Some e, ns\<lparr>na_Valid := True\<rparr>)
           | Inr s \<Rightarrow> (None, \<lparr>na_AuthenticatorAttachment = s, na_Valid = True\<rparr>))"

definition NullAttachment_Value :: "NullAuthenticatorAttachment \<Rightarrow> driver_value" where
  "NullAttachment_Value ns = (if na_Valid ns then DriverString (na_AuthenticatorAttachment ns) else DriverNull)"

lemma attachment_read_back:
  "NullAttachment_Scan (NullAttachment_Value ns) old
     = (None, if na_Valid ns then ns else \<lparr>na_AuthenticatorAttachment = [], na_Valid = False\<rparr>)"
  by (simp add: NullAttachment_Scan_def NullAttachment_Value_def Attachment_Scan_def)

end
