(* ===== verification/Post_Body.thy ===== *)
theory Post_Body
  imports Go_Json Sml_Safety
begin

text \<open>
  What is stored in a post: the body and the topics of \<open>db/sqlc/post_body.go\<close>, and the blocks of
  the package \<open>shit\<close>, which are read from JSON by their type. A paragraph is parsed by the
  \<open>Eater\<close> of the post language. The argument \<open>S\<close> is the message of a JSON syntax error.
\<close>

section \<open>Body and topics\<close>

record PostBody =
  pb_ContentType :: string
  pb_Content :: string

definition GetPostBodyFromJSON :: "(string \<Rightarrow> string) \<Rightarrow> string \<Rightarrow> go_error + PostBody" where
  "GetPostBodyFromJSON S bytes =
     (case Unmarshal S (into_struct ''db.PostBody'' ''PostBody'' [''content_type'', ''content'']) bytes of
        Inl e \<Rightarrow> Inl e
      | Inr xs \<Rightarrow> Inr \<lparr>pb_ContentType = xs ! 0, pb_Content = xs ! 1\<rparr>)"

definition GetPostTopicsFromJSON :: "(string \<Rightarrow> string) \<Rightarrow> string \<Rightarrow> go_error + string list option" where
  "GetPostTopicsFromJSON S bytes = Unmarshal S into_strings bytes"

section \<open>Blocks\<close>

record Paragraph =
  par_ID :: string
  par_Content :: string
  par_parsedContent :: string

record Code =
  code_ID :: string
  code_Content :: string
  code_Language :: string

record Image =
  img_ID :: string
  img_Src :: string
  img_Alt :: string
  img_Caption :: string
  img_AssetID :: string

record Quote =
  quo_ID :: string
  quo_Content :: string
  quo_Author :: string

definition Image_Type :: "Image \<Rightarrow> string" where "Image_Type i = ''image''"
definition Quote_Type :: "Quote \<Rightarrow> string" where "Quote_Type q = ''quote''"

definition paragraph_type :: "Paragraph \<Rightarrow> string" where "paragraph_type p = ''paragraph''"
definition code_type :: "Code \<Rightarrow> string" where "code_type c = ''code''"

text \<open>A \<open>Render\<close> writes nothing yet: the error and what the writer holds after it.\<close>

definition paragraph_render :: "Paragraph \<Rightarrow> string \<Rightarrow> go_error option \<times> string" where
  "paragraph_render p w = (None, w)"
definition code_render :: "Code \<Rightarrow> string \<Rightarrow> go_error option \<times> string" where
  "code_render c w = (None, w)"

text \<open>The two types that implement the interface \<open>Block\<close>; images and quotes have no \<open>Render\<close>.\<close>

datatype Block = ParagraphBlock Paragraph | CodeBlock Code

fun Block_Type :: "Block \<Rightarrow> string" where
  "Block_Type (ParagraphBlock p) = paragraph_type p"
| "Block_Type (CodeBlock c) = code_type c"

text \<open>The wrapper; its block is nil until one was read. Asking a nil block for its type panics.\<close>

record TypedBlock =
  tb_Block :: "Block option"

record Body =
  bd_Blocks :: "TypedBlock list"
  bd_Version :: int

definition TypedBlock_Type :: "TypedBlock \<Rightarrow> string option" where
  "TypedBlock_Type tb = map_option Block_Type (tb_Block tb)"

definition TypedBlock_Render :: "TypedBlock \<Rightarrow> string \<Rightarrow> go_error option \<times> string" where
  "TypedBlock_Render tb w = (None, w)"

text \<open>The anonymous struct with the field \<open>Type\<close>.\<close>

definition base_type :: string where
  "base_type = ''struct { Type string '' @ [CHR 0x22] @ ''json:'' @ [CHR 0x5C, CHR 0x22] @ ''type''
     @ [CHR 0x5C, CHR 0x22, CHR 0x22] @ '' }''"

definition read_type :: "(string \<Rightarrow> string) \<Rightarrow> string \<Rightarrow> go_error + string" where
  "read_type S bytes = (case Unmarshal S (into_struct base_type [] [''type'']) bytes of
       Inl e \<Rightarrow> Inl e | Inr xs \<Rightarrow> Inr (xs ! 0))"

definition read_paragraph :: "(string \<Rightarrow> string) \<Rightarrow> string \<Rightarrow> go_error + Paragraph" where
  "read_paragraph S bytes =
     (case Unmarshal S (into_struct ''shit.Paragraph'' ''Paragraph'' [''id'', ''content'']) bytes of
        Inl e \<Rightarrow> Inl e
      | Inr xs \<Rightarrow> Inr \<lparr>par_ID = xs ! 0, par_Content = xs ! 1, par_parsedContent = []\<rparr>)"

definition read_code :: "(string \<Rightarrow> string) \<Rightarrow> string \<Rightarrow> go_error + Code" where
  "read_code S bytes =
     (case Unmarshal S (into_struct ''shit.Code'' ''Code'' [''id'', ''content'', ''language'']) bytes of
        Inl e \<Rightarrow> Inl e
      | Inr xs \<Rightarrow> Inr \<lparr>code_ID = xs ! 0, code_Content = xs ! 1, code_Language = xs ! 2\<rparr>)"

definition UnmarshalJSON :: "(string \<Rightarrow> string) \<Rightarrow> string \<Rightarrow> TypedBlock \<Rightarrow> go_error option \<times> TypedBlock" where
  "UnmarshalJSON S data tb = (case read_type S data of
       Inl err \<Rightarrow> (Some err, tb)
     | Inr t \<Rightarrow>
         if t = ''paragraph'' then
           (case read_paragraph S data of
              Inl err \<Rightarrow> (Some err, tb)
            | Inr p \<Rightarrow> (None, tb\<lparr>tb_Block := Some (ParagraphBlock p)\<rparr>))
         else if t = ''code'' then
           (case read_code S data of
              Inl err \<Rightarrow> (Some err, tb)
            | Inr c \<Rightarrow> (None, tb\<lparr>tb_Block := Some (CodeBlock c)\<rparr>))
         else (Some (Errorf (''unknown block type: '' @ t) None), tb))"

text \<open>
  \<open>Paragraph.Parse\<close>: the paragraph with its HTML and the list of issues after it; \<open>None\<close> for
  the issues is a nil pointer, \<open>None\<close> for the result a panic.
\<close>

definition Paragraph_Parse ::
  "golib \<Rightarrow> eater \<Rightarrow> Paragraph \<Rightarrow> issues option \<Rightarrow> (go_error option \<times> Paragraph \<times> issues option) option" where
  "Paragraph_Parse L e p i = do {
     (outpoop, issues) \<leftarrow> Munch L e (par_Content p);
     html \<leftarrow> Poop_HTML outpoop;
     Some (None, p\<lparr>par_parsedContent := html\<rparr>, map_option (\<lambda>l. l @ issues) i)
   }"

section \<open>What is read\<close>

text \<open>The value of a string field: the last string the object gives for it, none gives the empty one.\<close>

fun last_string :: "string \<Rightarrow> (string \<times> json) list \<Rightarrow> string \<Rightarrow> string" where
  "last_string t [] x = x"
| "last_string t ((k, v) # ms) x =
     last_string t ms (if same_name k t then (case v of JString s \<Rightarrow> s | _ \<Rightarrow> x) else x)"

lemma into_fields_length: "length (snd (into_fields name ts ms xs)) = length xs"
  by (induction ms arbitrary: xs)
    (auto simp: Let_def split: option.split prod.split, metis length_list_update snd_conv)

lemma find_index:
  assumes "find (\<lambda>i. P (ts ! i)) [0..<length ts] = Some i"
  shows "i < length ts \<and> P (ts ! i)"
  using assms by (auto simp: find_Some_iff)

lemma into_fields_values:
  assumes "distinct (map fold_name ts)" and "length xs = length ts" and "i < length ts"
    and "into_fields name ts ms xs = (None, ys)"
  shows "ys ! i = last_string (ts ! i) ms (xs ! i)"
  using assms(2,4)
proof (induction ms arbitrary: xs)
  case (Cons m ms)
  obtain k v where m: "m = (k, v)" by (cases m)
  show ?case
  proof (cases "find (\<lambda>i. same_name k (ts ! i)) [0..<length ts]")
    case None
    then have "\<not> same_name k (ts ! i)" using assms(3) by (auto simp: find_None_iff)
    then show ?thesis using Cons None m by simp
  next
    case (Some j)
    have j: "j < length ts" "same_name k (ts ! j)" using find_index[OF Some] by simp_all
    have only: "same_name k (ts ! i) \<longleftrightarrow> i = j"
      using j nth_eq_iff_index_eq[OF assms(1), of i j] assms(3) by (auto simp: same_name_def)
    obtain e x where x: "into_string (''struct field '' @ name @ ''.'' @ ts ! j) v (xs ! j) = (e, x)" by fastforce
    obtain e1 zs where z: "into_fields name ts ms (xs[j := x]) = (e1, zs)" by fastforce
    have r: "e = None" "e1 = None" "ys = zs"
      using Cons.prems(2) Some m x z by (auto simp: first_error_def split: option.splits)
    have "x = (case v of JString s \<Rightarrow> s | _ \<Rightarrow> xs ! j)"
      using x r(1) by (auto simp: into_string_def split: json.splits)
    then show ?thesis
      using Cons.IH[of "xs[j := x]"] Cons.prems(1) z r m only assms(3) by (auto simp: nth_list_update)
  qed
qed simp

lemma struct_read:
  assumes "Unmarshal S (into_struct typ name ts) bytes = Inr xs" and "distinct (map fold_name ts)"
  shows "json_parse bytes = Some JNull \<and> xs = map (\<lambda>t. []) ts
    \<or> (\<exists>ms. json_parse bytes = Some (JObject ms) \<and> (\<forall>i<length ts. xs ! i = last_string (ts ! i) ms []))"
proof -
  obtain v where v: "json_parse bytes = Some v" "into_struct typ name ts v = (None, xs)"
    using assms(1) by (auto simp: Unmarshal_def split: option.splits prod.splits)
  then show ?thesis
    using into_fields_values[OF assms(2), of "map (\<lambda>t. []) ts"]
    by (auto simp: into_struct_def split: json.splits)
qed

text \<open>
  A block is read exactly from an object whose type is \<open>paragraph\<close> or \<open>code\<close>, with the fields the
  object gives, and otherwise the wrapper keeps what it had.
\<close>

definition block_of :: "(string \<times> json) list \<Rightarrow> Block option" where
  "block_of ms =
     (let t = last_string ''type'' ms []; field = (\<lambda>k. last_string k ms [])
      in if t = ''paragraph'' then Some (ParagraphBlock \<lparr>par_ID = field ''id'', par_Content = field ''content'',
             par_parsedContent = []\<rparr>)
         else if t = ''code'' then Some (CodeBlock \<lparr>code_ID = field ''id'', code_Content = field ''content'',
             code_Language = field ''language''\<rparr>)
         else None)"

lemma tags_distinct:
  "distinct (map fold_name [''type''])" "distinct (map fold_name [''id'', ''content''])"
  "distinct (map fold_name [''id'', ''content'', ''language''])"
  by code_simp+

lemma read_type_object:
  assumes "read_type S data = Inr t" and "t \<noteq> []"
  shows "\<exists>ms. json_parse data = Some (JObject ms) \<and> t = last_string ''type'' ms []"
proof -
  obtain xs where "Unmarshal S (into_struct base_type [] [''type'']) data = Inr xs" "t = xs ! 0"
    using assms(1) by (auto simp: read_type_def split: sum.splits)
  then show ?thesis using struct_read[OF _ tags_distinct(1)] assms(2) by fastforce
qed

lemma read_paragraph_fields:
  assumes "read_paragraph S data = Inr p" and "json_parse data = Some (JObject ms)"
  shows "p = \<lparr>par_ID = last_string ''id'' ms [], par_Content = last_string ''content'' ms [], par_parsedContent = []\<rparr>"
proof -
  obtain ys where ys: "Unmarshal S (into_struct ''shit.Paragraph'' ''Paragraph'' [''id'', ''content'']) data = Inr ys"
      "p = \<lparr>par_ID = ys ! 0, par_Content = ys ! 1, par_parsedContent = []\<rparr>"
    using assms(1) by (auto simp: read_paragraph_def split: sum.splits)
  then show ?thesis using struct_read[OF ys(1) tags_distinct(2)] assms(2) by (auto simp: less_Suc_eq)
qed

lemma read_code_fields:
  assumes "read_code S data = Inr c" and "json_parse data = Some (JObject ms)"
  shows "c = \<lparr>code_ID = last_string ''id'' ms [], code_Content = last_string ''content'' ms [],
    code_Language = last_string ''language'' ms []\<rparr>"
proof -
  obtain ys where ys: "Unmarshal S (into_struct ''shit.Code'' ''Code'' [''id'', ''content'', ''language'']) data = Inr ys"
      "c = \<lparr>code_ID = ys ! 0, code_Content = ys ! 1, code_Language = ys ! 2\<rparr>"
    using assms(1) by (auto simp: read_code_def split: sum.splits)
  then show ?thesis
    using struct_read[OF ys(1) tags_distinct(3)] assms(2) by (auto simp: less_Suc_eq numeral_2_eq_2)
qed

text \<open>
  C39: A block is typed as its JSON says. \<open>UnmarshalJSON\<close> succeeds only on one JSON object whose last
  \<open>type\<close> is \<open>paragraph\<close> or \<open>code\<close>; then the wrapper holds a block of that type, with the last strings
  the object gives for its fields, and answers that type. After an error it holds what it held before.
\<close>

theorem typed_block_outcome:
  assumes "UnmarshalJSON S data tb = (err, tb1)"
  shows "if err = None
    then \<exists>ms. json_parse data = Some (JObject ms) \<and> block_of ms \<noteq> None \<and> tb_Block tb1 = block_of ms
      \<and> TypedBlock_Type tb1 = Some (last_string ''type'' ms [])
    else tb1 = tb"
proof (cases "err = None")
  case True
  then obtain t where t: "read_type S data = Inr t" "t = ''paragraph'' \<or> t = ''code''"
    using assms by (auto simp: UnmarshalJSON_def split: sum.splits if_splits)
  then obtain ms where ms: "json_parse data = Some (JObject ms)" "last_string ''type'' ms [] = t"
    using read_type_object[OF t(1)] by auto
  from t(2) have "block_of ms \<noteq> None \<and> tb_Block tb1 = block_of ms"
  proof
    assume p: "t = ''paragraph''"
    then obtain q where "read_paragraph S data = Inr q" "tb1 = tb\<lparr>tb_Block := Some (ParagraphBlock q)\<rparr>"
      using assms True t(1) by (auto simp: UnmarshalJSON_def split: sum.splits)
    then show ?thesis using read_paragraph_fields[OF _ ms(1)] ms(2) p by (simp add: block_of_def)
  next
    assume c: "t = ''code''"
    then obtain q where "read_code S data = Inr q" "tb1 = tb\<lparr>tb_Block := Some (CodeBlock q)\<rparr>"
      using assms True t(1) by (auto simp: UnmarshalJSON_def split: sum.splits)
    then show ?thesis using read_code_fields[OF _ ms(1)] ms(2) c by (simp add: block_of_def)
  qed
  moreover have "TypedBlock_Type tb1 = Some (last_string ''type'' ms [])" if "tb_Block tb1 = block_of ms"
    using that ms(2) t(2) by (auto simp: TypedBlock_Type_def block_of_def paragraph_type_def code_type_def)
  ultimately show ?thesis using True ms(1) by auto
next
  case False
  then show ?thesis using assms by (auto simp: UnmarshalJSON_def split: sum.splits if_splits)
qed

definition quoted :: "string \<Rightarrow> string" where
  "quoted s = map (\<lambda>c. if c = CHR 0x60 then CHR 0x22 else c) s"

definition demo_block :: string where
  "demo_block = quoted ''{`type`: `quote`, `ID`: `b1`, `content`: `x := 1`, `type`: `code`}''"

lemma demo_block_parsed: "json_parse demo_block = Some (JObject [(''type'', JString ''quote''), (''ID'', JString ''b1''),
    (''content'', JString ''x := 1''), (''type'', JString ''code'')])"
  by code_simp

lemma demo_names:
  "fold_name ''type'' = ''TYPE''" "fold_name ''ID'' = ''ID''" "fold_name ''id'' = ''ID''"
  "fold_name ''content'' = ''CONTENT''" "fold_name ''language'' = ''LANGUAGE''"
  by code_simp+

lemma demo_block_fields:
  "into_fields [] [''type''] [(''type'', JString ''quote''), (''ID'', JString ''b1''),
     (''content'', JString ''x := 1''), (''type'', JString ''code'')] [[]] = (None, [''code''])"
  "into_fields ''Code'' [''id'', ''content'', ''language''] [(''type'', JString ''quote''), (''ID'', JString ''b1''),
     (''content'', JString ''x := 1''), (''type'', JString ''code'')] [[], [], []] = (None, [''b1'', ''x := 1'', []])"
  by (simp_all add: same_name_def demo_names upt_rec into_string_def first_error_def del: fold_name.simps)

lemma demo_block_read:
  "UnmarshalJSON id demo_block \<lparr>tb_Block = None\<rparr> = (None, \<lparr>tb_Block = Some (CodeBlock
     \<lparr>code_ID = ''b1'', code_Content = ''x := 1'', code_Language = []\<rparr>)\<rparr>)"
  by (simp add: UnmarshalJSON_def read_type_def read_code_def Unmarshal_def into_struct_def demo_block_parsed
      demo_block_fields del: into_fields.simps)

theorem typed_block_outcome_witness:
  "\<exists>ms. json_parse demo_block = Some (JObject ms) \<and> last_string ''type'' ms [] = ''code''"
  using typed_block_outcome[OF demo_block_read]
  by (auto simp: TypedBlock_Type_def code_type_def)

text \<open>Parsing a paragraph returns, with HTML that is safe and with every issue of the parser.\<close>

lemma paragraph_parse_safe:
  assumes "NewEater pol c = Some (Inr e)" and "small (len (par_Content p))" and "lower_keeps_ascii L"
  shows "\<exists>html issues. Paragraph_Parse L e p i
      = Some (None, p\<lparr>par_parsedContent := html\<rparr>, map_option (\<lambda>l. l @ issues) i) \<and> safe_html L html"
proof -
  obtain r issues html where "Munch L e (par_Content p) = Some (r, issues)" "Poop_HTML r = Some html" "safe_html L html"
    using munch_ok[OF assms] by (auto simp: returns_ex)
  then show ?thesis by (auto simp: Paragraph_Parse_def)
qed

end
