(* ===== verification/Spec2Isabelle.thy ===== *)
theory Spec2Isabelle
  imports Scum_Dictionary_Props Scum_Action_Props Scum_Parse_Props Sml_Safety
    Service_Main_Props Db_Posts_Props Db_Reads Post_Body
begin

text \<open>
  A model of shitposter, the backend of a forum: posts with threads of comments, users who sign
  in with passkeys, and a markup language for what they write. The model follows the Go sources
  under \<open>src/\<close> and the SQL of the migrations they run.

  PARTS AND HOW THEY INTERACT

  \<open>scum/\<close> is a library for markup languages. A dictionary holds, for each special byte, the plan of
  an action; the tokenizer walks over the input and calls the action registered for a special
  byte; the parser turns the tokens into an arena of nodes; both report to a collector of
  warnings; the serializer turns the arena into nested slices for JSON. \<open>sml/\<close> is the language of the
  forum: an eater owns a dictionary of tags, parses a text with \<open>scum\<close>, normalises the serialized
  tree (links, nesting, attributes) and renders it to HTML. \<open>shit/\<close> has the blocks a post is made of,
  read from JSON; a paragraph is parsed by an eater. \<open>db/sqlc/\<close> is the store: generated
  statements, transactions over them, and the interface \<open>Store\<close> with classified errors.
  \<open>tmpstore/\<close> keeps pending passkey ceremonies in redis, \<open>token/\<close> makes and verifies the tokens. \<open>api/\<close> is
  the HTTP service: routes and middleware, validation, and one handler per route over the store.

  THE THEORIES

  Foundations. \<open>Prelude\<close>: slices with bounds checks, where None is a run-time panic, the 64-bit
  wrap-around, and the rules for \<open>returns\<close>, which says that a computation does not panic and what it
  returns. \<open>Utf8\<close>: \<open>unicode/utf8\<close>. \<open>Go_Strings\<close>: \<open>strings\<close>, \<open>net/url\<close>, \<open>html\<close>, \<open>strconv.Itoa\<close>.

  \<open>scum\<close>. \<open>Scum_Types\<close> (constants, issues, sequences, tokens), \<open>Scum_Search\<close> (\<open>utils.go\<close> and the checks of
  tags), \<open>Scum_Warnings\<close> (\<open>warnings.go\<close>; locale \<open>capped_log\<close>), \<open>Scum_Dictionary\<close> (\<open>plan.go\<close>,
  \<open>dictionary.go\<close> and the registrations), \<open>Scum_Actions\<close> (one definition per mutator and step of a
  plan), \<open>Scum_Tokenize\<close> (the loop of \<open>tokenize.go\<close>; locale \<open>action_executor\<close>), \<open>Scum_Ast\<close> (the arena
  as an explicit heap of nodes linked by indices), \<open>Scum_Parser\<close> and \<open>Scum_Parse\<close> (the state with its
  three stacks, one definition per handler of a token, \<open>ParseInto\<close>), \<open>Scum_Serialize\<close> and
  \<open>Scum_SerializeWarnings\<close>. Proofs: \<open>Scum_Contract\<close> and \<open>Scum_Counters\<close> (what every action keeps to),
  \<open>Scum_Action_Props\<close>, \<open>Scum_Dictionary_Props\<close>, \<open>Scum_Parser_Inv\<close> (the invariant of the parser; locale
  \<open>slice_stack\<close>), \<open>Scum_Parser_Steps\<close>, \<open>Scum_Parse_Props\<close>. \<open>Scum_Demo\<close> is the dictionary of the witnesses.

  \<open>sml\<close>. \<open>Sml_Issues\<close>, \<open>Sml_Normalize\<close> (\<open>normalize_render_tree.go\<close>, \<open>link.go\<close>), \<open>Sml_Eater\<close> (\<open>eater.go\<close> and
  rendering); \<open>Sml_Safety\<close> shows that every input is rendered and to which HTML.

  Posts as JSON. \<open>Go_Json\<close> is the parser of \<open>encoding/json\<close> and the rules by which it fills a struct of
  strings or a list of strings; \<open>Post_Body\<close> has \<open>db/sqlc/post_body.go\<close> and the package \<open>shit\<close>, with what
  a block read from JSON is and that a parsed paragraph holds safe HTML.

  \<open>db/sqlc\<close>. \<open>Db_Error\<close> (\<open>error.go\<close>), \<open>Db_Store\<close> (rows, tables, and the statements over comments and
  votes), \<open>Db_Comments\<close> (\<open>execTx\<close> and the three transactions on comments, \<open>UpdateComment\<close>), \<open>Db_Users\<close>
  (the statements over users, sessions and passkeys, \<open>CreateUserWithCredentialsTx\<close>), \<open>Db_Accounts\<close> (the
  other operations on accounts), \<open>Db_Query\<close> (\<open>QueryComments\<close> and the recursive SQL functions).
  Proofs: \<open>Db_Inv\<close>, \<open>Db_Ops\<close> (locale \<open>transaction\<close>: what commit and rollback keep) and \<open>Db_Reach\<close> (the
  invariant and that every operation keeps it), \<open>Db_Steps\<close> (one step is one operation of \<open>Store\<close> with
  any arguments; \<open>history\<close> keeps in mind, for each comment, the counters its insertion passed, as
  \<open>InsertCommentTx\<close> takes any; \<open>handler_step\<close> has the steps of the service, whose insertions pass 0),
  \<open>Db_Props\<close> and \<open>Db_Account_Props\<close> (for each operation a verdict over the tables that the code follows),
  \<open>Db_Query_Props\<close> and \<open>Db_Thread\<close> (the rows of a page of threads). Posts: \<open>Db_Posts\<close> has every statement
  of \<open>post.sql.go\<close> and \<open>post_vote.sql.go\<close> over the tables of the store and two more, with the cascades
  of a deletion; \<open>Db_Posts_Inv\<close> is the invariant of both together and the step relation \<open>posts_step\<close>,
  in which votes on posts take values of a set \<open>V\<close>, as no code checks them, \<open>Db_Posts_Props\<close> what
  holds of every store reached, the counters of posts only where \<open>V\<close> is 1 and -1, and what a vote does. \<open>Db_Reads\<close> has the reads
  that no operation of the store calls, and \<open>Scan\<close> and \<open>Value\<close> of the enum column.

  \<open>tmpstore\<close> and \<open>token\<close>. \<open>Tmpstore\<close> has the six operations; the locale \<open>session_store\<close> is what the handlers
  rely on, the locales \<open>redis_server\<close> and \<open>redis_store\<close> derive it for both halves of the store from what
  redis promises. \<open>Token_Maker\<close> has payloads, claims and the JWT maker; the locale \<open>maker\<close> is the
  contract of the interface \<open>Maker\<close>, which the JWT maker keeps.

  \<open>api\<close>. \<open>Api_Errors\<close> (the three error bodies), \<open>Api_Validation\<close>, \<open>Api_Comments\<close> (\<open>PrepareCommentTree\<close> on a
  heap of nodes), \<open>Api_Requests\<close> (bodies, path values, bearer tokens, the validation of requests),
  \<open>Api_Handlers\<close> (comments, users, renewal of access tokens), \<open>Util_Config\<close> (\<open>util/\<close> and
  \<open>wauthn/config.go\<close>: the configuration, addresses, passwords, random values), \<open>Api_Service\<close> (cookies,
  CORS, the tokens of a session), \<open>Api_Passkeys\<close> (the four ends of the two ceremonies), \<open>Api_Routes\<close> (the
  routes with their middleware). Proofs: \<open>Api_Threads\<close> and \<open>Api_Props\<close> (from a request to the page of
  threads and the answers to a new comment), \<open>Api_Sessions\<close> (which operations store and remove
  sessions), \<open>Api_Passkey_Props\<close> and \<open>Api_Signup_Props\<close> (the ceremonies), \<open>Api_Routes_Props\<close> (every
  request), \<open>Api_Deletion\<close> (every request after an account was deleted). \<open>Api_Passkey_Demo\<close> is the
  service of the witnesses. \<open>Service_Main\<close> is the process (\<open>main.go\<close>, \<open>NewService\<close>): \<open>main\<close>, the start
  from what the outside answers, and \<open>process_step\<close>, over the service and the store: the two
  goroutines that serve and stop, and the requests with the connections of the pool they hold, for
  which \<open>store_Shutdown\<close> waits, as closing the pool does. A step is labelled with who makes it, and
  \<open>fair_run\<close> has the endless runs in which nobody is kept waiting for good. \<open>Service_Main_Props\<close>
  shows that the process stops in order and that stopping ends.

  HOW STATE AND OPERATIONS CORRESPOND TO THE CODE

  A struct is a record with the same fields under a prefix, an enum a datatype or the string
  constants of the code. A Go string or byte slice is a list of 8-bit characters. An operation that
  may panic returns an option, None being the panic; an error is the left of a sum, of type
  \<open>go_error\<close>, where wrapping and \<open>errors.As\<close> are modelled; a value the code returns next to an error is
  dropped where no caller reads it. A pointer that the code shares is an index into an explicit
  heap (the arena of the AST, the nodes of a comment tree). A statement of the database is a
  function of the environment and the tables: the data decide its outcome, and \<open>env_query\<close>,
  \<open>env_begin\<close>, \<open>env_rollback\<close>, \<open>env_commit\<close> name the failures that do not come from the data; \<open>quiet\<close> is an
  environment without any. A handler is a function from the request and the state, the database
  and redis, to the response and the new state.

  WHAT THE LEMMAS SHOW

  Markup: tokenizing, parsing, serializing and rendering return for every input without a panic;
  tokens tile the input; the arena is a tree whose spans and attribute ranges are in bounds; limits
  are kept; the serialized windows are that tree; the HTML is made of the tags of the language,
  escaped text and validated attributes. Store: an invariant over all operations in any order
  and under any failure, posts and their votes included; for every operation the outcome on each
  branch, with the kind of its error; atomicity; the page of threads. Service: what each handler answers and stores; that tokens
  are issued only to the owner of a verified passkey, whose counter moved on unless its check failed
  in the database, and renew the session until the account is deleted; that a token acts only for
  its user, and removes votes only with the user's own comment; that the invariant holds whatever
  is requested. Process: along every run of it the store is consistent, and the pool outlives
  every request that is answered; along every fair run, once it is asked to stop, it shuts down
  and exits, after boundedly many steps.

  BOUNDS AND FUEL

  Loops of the code are recursions with a measure; where the code follows links (children of a
  node, attributes) termination is part of the theorem that the code returns. The recursive SQL
  queries carry a fuel, the number of comments: in a consistent database a reply is stored after
  its parent and its depth grows, so no thread is deeper (\<open>depth_less\<close>); the same number of rounds
  closes the cascade over replies (\<open>with_replies_enough\<close>). The JSON parser spends a round on a value
  or a list of members, and twice the length of the text plus two are enough (\<open>parse_enough\<close>).
  The 64-bit \<open>int\<close> of positions wraps around; inputs are taken to be shorter than \<open>2^61\<close> bytes where that matters. \<open>int32\<close> depths and
  limits wrap (\<open>wrap32\<close>); vote counters overflow with the error of PostgreSQL.

  IDEALISATIONS

  Memory is unbounded, and so are the identifiers of the tables. Transactions run one after
  another, as do requests: row locks, isolation and data races are not modelled. A request reads the
  clock once. A request holds at most one connection of the pool, and then until it is answered or
  lost; the scheduler and the handlers are fair, so no request waits for the database for ever. Times are integers; PostgreSQL's rounding to microseconds, the normal form of JSON
  columns and the rounding of \<open>Duration.Seconds\<close> to a float are left out. A nil byte slice is an empty one.
  What a handler has done before a panic is not followed.

  PARAMETERS

  Unicode tables, \<open>%q\<close>, the syntax of URLs past the scheme and of mail addresses (\<open>golib\<close>, \<open>apilib\<close>), the
  texts of PostgreSQL's errors (\<open>env_text\<close>), the result of decoding a JSON body, the codecs of stored
  JSON, the reading of a \<open>jsonb\<close> value, the message of a JSON syntax error, viper, bcrypt, \<open>math/rand\<close>,
  redis (\<open>redis_laws\<close>), the JWT library (\<open>jwt_laws\<close>), the webauthn library
  (\<open>WebAuthnConfig\<close>), \<open>errgroup\<close> and a closed pool of connections (\<open>process_laws\<close>), what the outside
  answers to the start (\<open>startup\<close>), uuid and random values, and the choice of \<open>http.ServeMux\<close>.

  NOT MODELLED

  The interfaces \<open>Querier\<close> and \<open>Store\<close> (the functions that implement them are modelled), the methods
  that give the text of an error for a log, and what is logged. No handler
  reaches the posts yet: the service has routes for comments and users only. The mocks of the
  interfaces are generated for the tests.
\<close>

end
